(* ===== verification/Prelude.thy ===== *)
theory Prelude
  imports Complex_Main "HOL-Library.Word" "HOL-Library.AList"
begin

text \<open>
  Shared vocabulary of the development: bytes, results of code that throws, the insertion-ordered
  \<^verbatim>\<open>Map\<close> and \<^verbatim>\<open>Set\<close> of JavaScript, lowercase hex and big-endian 32-bit encoding, and the generic
  lemmas the component theories use.  The collections \<open>js_map\<close>, \<open>js_set\<close> and \<open>codec\<close> carry
  the component proofs.
\<close>

named_theorems js_map "laws of insertion-ordered maps"
named_theorems js_set "laws of insertion-ordered sets"
named_theorems codec "laws of byte encodings"

section \<open>Results\<close>

text \<open>A function that may throw returns a sum: \<open>Err e\<close> for the exception, \<open>Ok v\<close> for the value.\<close>

abbreviation Ok :: "'a \<Rightarrow> 'e + 'a" where "Ok \<equiv> Inr"
abbreviation Err :: "'e \<Rightarrow> 'e + 'a" where "Err \<equiv> Inl"

definition try_bind :: "'e + 'a \<Rightarrow> ('a \<Rightarrow> 'e + 'b) \<Rightarrow> 'e + 'b" where
  "try_bind r f = (case r of Inl e \<Rightarrow> Inl e | Inr v \<Rightarrow> f v)"

lemma try_bind_simps [simp]:
  "try_bind (Err e) f = Err e"
  "try_bind (Ok v) f = f v"
  by (simp_all add: try_bind_def)

lemma try_bind_Ok_iff: "try_bind r f = Ok w \<longleftrightarrow> (\<exists>v. r = Ok v \<and> f v = Ok w)"
  by (cases r) auto

section \<open>Insertion-ordered maps\<close>

text \<open>
  A JavaScript \<^verbatim>\<open>Map\<close> iterates in insertion order: \<open>set\<close> on a present key keeps the key's
  position, on an absent key appends; \<open>delete\<close> removes the pair.  The representation is the
  association list in iteration order, with distinct keys.
\<close>

type_synonym ('k, 'v) jsmap = "('k \<times> 'v) list"

definition map_get :: "('k, 'v) jsmap \<Rightarrow> 'k \<Rightarrow> 'v option" where
  "map_get m k = map_of m k"

definition map_set :: "'k \<Rightarrow> 'v \<Rightarrow> ('k, 'v) jsmap \<Rightarrow> ('k, 'v) jsmap" where
  "map_set k v m = AList.update k v m"

definition map_delete :: "'k \<Rightarrow> ('k, 'v) jsmap \<Rightarrow> ('k, 'v) jsmap" where
  "map_delete k m = AList.delete k m"

definition map_has :: "('k, 'v) jsmap \<Rightarrow> 'k \<Rightarrow> bool" where
  "map_has m k \<longleftrightarrow> k \<in> set (map fst m)"

definition map_ok :: "('k, 'v) jsmap \<Rightarrow> bool" where
  "map_ok m \<longleftrightarrow> distinct (map fst m)"

lemma map_get_set [js_map]: "map_get (map_set k v m) k' = (if k' = k then Some v else map_get m k')"
  by (simp add: map_get_def map_set_def update_conv)

lemma map_get_delete [js_map]: "map_get (map_delete k m) k' = (if k' = k then None else map_get m k')"
  by (simp add: map_get_def map_delete_def delete_conv)

lemma map_get_Nil [js_map]: "map_get [] k = None"
  by (simp add: map_get_def)

lemma map_has_iff [js_map]: "map_has m k \<longleftrightarrow> map_get m k \<noteq> None"
  by (auto simp: map_has_def map_get_def dom_map_of_conv_image_fst map_of_eq_None_iff)

lemma map_ok_Nil [js_map]: "map_ok []"
  by (simp add: map_ok_def)

lemma map_ok_set [js_map]: "map_ok m \<Longrightarrow> map_ok (map_set k v m)"
  by (simp add: map_ok_def map_set_def distinct_update)

lemma map_ok_delete [js_map]: "map_ok m \<Longrightarrow> map_ok (map_delete k m)"
  by (simp add: map_ok_def map_delete_def distinct_delete)

lemma keys_map_set: "map fst (map_set k v m) = (if k \<in> set (map fst m) then map fst m else map fst m @ [k])"
  by (simp add: map_set_def update_keys)

lemma map_set_fresh: "k \<notin> fst ` set m \<Longrightarrow> map_set k v m = m @ [(k, v)]"
  unfolding map_set_def by (induction m) auto

lemma map_delete_filter: "map_delete k m = filter (\<lambda>p. fst p \<noteq> k) m"
  unfolding map_delete_def by (induction m) (auto simp: AList.delete_eq)

lemma map_get_in_set: "map_get m k = Some v \<Longrightarrow> (k, v) \<in> set m"
  by (simp add: map_get_def map_of_SomeD)

lemma map_get_iff_in: "map_ok m \<Longrightarrow> map_get m k = Some v \<longleftrightarrow> (k, v) \<in> set m"
  by (simp add: map_get_def map_ok_def)

lemma length_map_set:
  "length (map_set k v m) = (if map_has m k then length m else Suc (length m))"
proof -
  have "length (map fst (map_set k v m)) = (if map_has m k then length (map fst m) else Suc (length (map fst m)))"
    by (simp add: keys_map_set map_has_def del: length_map)
  then show ?thesis by simp
qed

section \<open>Insertion-ordered sets\<close>

definition set_add :: "'a \<Rightarrow> 'a list \<Rightarrow> 'a list" where
  "set_add x xs = (if x \<in> set xs then xs else xs @ [x])"

lemma set_set_add [js_set, simp]: "set (set_add x xs) = insert x (set xs)"
  by (auto simp: set_add_def)

lemma distinct_set_add [js_set]: "distinct xs \<Longrightarrow> distinct (set_add x xs)"
  by (simp add: set_add_def)

section \<open>The interface of a keyed store\<close>

text \<open>
  What the caches, the epoch manager and the ACL rely on: lookups after updates and deletions, and an
  invariant every operation keeps.
\<close>

locale keyed_store =
  fixes get :: "'m \<Rightarrow> 'k \<Rightarrow> 'v option"
    and put :: "'k \<Rightarrow> 'v \<Rightarrow> 'm \<Rightarrow> 'm"
    and del :: "'k \<Rightarrow> 'm \<Rightarrow> 'm"
    and emp :: 'm
    and inv :: "'m \<Rightarrow> bool"
  assumes get_emp: "get emp k = None"
    and get_put: "inv m \<Longrightarrow> get (put k v m) k' = (if k' = k then Some v else get m k')"
    and get_del: "inv m \<Longrightarrow> get (del k m) k' = (if k' = k then None else get m k')"
    and inv_emp: "inv emp"
    and inv_put: "inv m \<Longrightarrow> inv (put k v m)"
    and inv_del: "inv m \<Longrightarrow> inv (del k m)"
begin

lemma put_put: "inv m \<Longrightarrow> get (put k w (put k v m)) = get (put k w m)"
  by (rule ext) (simp add: get_put inv_put)

lemma touch: "inv m \<Longrightarrow> get m k = Some v \<Longrightarrow> get (put k v (del k m)) = get m"
  by (rule ext) (simp add: get_put get_del inv_del)

lemma put_commute:
  "inv m \<Longrightarrow> k \<noteq> l \<Longrightarrow> get (put k v (put l w m)) = get (put l w (put k v m))"
  by (rule ext) (simp add: get_put inv_put)

end

interpretation jm: keyed_store map_get map_set map_delete "[]" map_ok
  by unfold_locales (simp_all add: js_map)

section \<open>Machines: a step function with an invariant\<close>

locale machine_invariant =
  fixes step :: "'s \<Rightarrow> 'e \<Rightarrow> 's"
    and inv :: "'s \<Rightarrow> bool"
  assumes step_inv: "inv s \<Longrightarrow> inv (step s e)"
begin

lemma run_inv: "inv s \<Longrightarrow> inv (foldl step s es)"
  by (induction es arbitrary: s) (simp_all add: step_inv)

lemma run_prefix_inv: "inv s \<Longrightarrow> inv (foldl step s (take n es))"
  by (rule run_inv)

end

text \<open>A machine that refines an abstract one: the abstraction of a step is the abstract step.\<close>

locale functional_refinement = machine_invariant step inv
  for step :: "'s \<Rightarrow> 'e \<Rightarrow> 's" and inv :: "'s \<Rightarrow> bool" +
  fixes abs :: "'s \<Rightarrow> 'a"
    and spec :: "'a \<Rightarrow> 'e \<Rightarrow> 'a"
  assumes step_abs: "inv s \<Longrightarrow> abs (step s e) = spec (abs s) e"
begin

lemma run_abs: "inv s \<Longrightarrow> abs (foldl step s es) = foldl spec (abs s) es"
  by (induction es arbitrary: s) (simp_all add: step_abs step_inv)

end

section \<open>Bytes, hex, big-endian integers\<close>

type_synonym byte = "8 word"
type_synonym bytes = "byte list"

definition hex_digit :: "nat \<Rightarrow> char" where
  "hex_digit n = ''0123456789abcdef'' ! n"

text \<open>\<^verbatim>\<open>b.toString(16).padStart(2, '0')\<close> of one byte, and the loop over an array of bytes.\<close>

definition byte_hex :: "byte \<Rightarrow> string" where
  "byte_hex b = (let n = unat b; s = (if n < 16 then [hex_digit n] else [hex_digit (n div 16), hex_digit (n mod 16)])
     in replicate (2 - length s) (CHR ''0'') @ s)"

definition hex_of_bytes :: "bytes \<Rightarrow> string" where
  "hex_of_bytes bs = concat (map byte_hex bs)"

lemma hex_digit_inj: "m < 16 \<Longrightarrow> n < 16 \<Longrightarrow> hex_digit m = hex_digit n \<longleftrightarrow> m = n"
proof -
  have d: "distinct ''0123456789abcdef''" by simp
  assume "m < 16" "n < 16"
  then have "m < length ''0123456789abcdef''" "n < length ''0123456789abcdef''" by simp_all
  with d show ?thesis unfolding hex_digit_def by (rule nth_eq_iff_index_eq)
qed

lemma byte_hex_two: "byte_hex b = [hex_digit (unat b div 16), hex_digit (unat b mod 16)]"
  by (simp add: byte_hex_def Let_def hex_digit_def)

lemma unat_byte_less [simp]: "unat (b :: byte) < 256"
  using unsigned_less[of b] by simp

lemma byte_hex_inj: "byte_hex a = byte_hex b \<longleftrightarrow> a = b"
proof
  assume eq: "byte_hex a = byte_hex b"
  have bound: "unat c div 16 < 16" "unat c mod 16 < 16" for c :: byte
    using unat_byte_less[of c] by (auto simp: div_less_iff_less_mult)
  from eq have "unat a div 16 = unat b div 16" "unat a mod 16 = unat b mod 16"
    by (simp_all add: byte_hex_two hex_digit_inj bound)
  then have "unat a = unat b" by (metis div_mult_mod_eq)
  then show "a = b" by (rule unsigned_word_eqI)
qed simp

lemma hex_of_bytes_simps [simp]:
  "hex_of_bytes [] = []"
  "hex_of_bytes (b # bs) = byte_hex b @ hex_of_bytes bs"
  by (simp_all add: hex_of_bytes_def)

lemma length_byte_hex [simp]: "length (byte_hex b) = 2"
  by (simp add: byte_hex_two)

lemma length_hex_of_bytes [codec]: "length (hex_of_bytes bs) = 2 * length bs"
  by (induction bs) simp_all

lemma hex_of_bytes_inj [codec]: "hex_of_bytes xs = hex_of_bytes ys \<longleftrightarrow> xs = ys"
proof (induction xs arbitrary: ys)
  case Nil
  then show ?case by (cases ys) (simp_all add: byte_hex_two)
next
  case (Cons x xs)
  then show ?case by (cases ys) (simp_all add: byte_hex_inj, simp add: byte_hex_two)
qed

lemma set_byte_hex: "set (byte_hex b) \<subseteq> set ''0123456789abcdef''"
proof -
  have "hex_digit n \<in> set ''0123456789abcdef''" if "n < 16" for n
    using that unfolding hex_digit_def by (intro nth_mem) simp
  moreover have "unat b div 16 < 16" "unat b mod 16 < 16"
    using unat_byte_less[of b] by (auto simp: div_less_iff_less_mult)
  ultimately have "hex_digit (unat b div 16) \<in> set ''0123456789abcdef''"
    and "hex_digit (unat b mod 16) \<in> set ''0123456789abcdef''" by blast+
  then show ?thesis unfolding byte_hex_two by (intro subsetI) (metis empty_iff empty_set set_ConsD)
qed

lemma set_hex_of_bytes: "set (hex_of_bytes bs) \<subseteq> set ''0123456789abcdef''"
proof (induction bs)
  case (Cons b bs)
  then show ?case using set_byte_hex[of b] by (simp only: hex_of_bytes_simps set_append Un_least)
qed simp


text \<open>\<^verbatim>\<open>DataView.setUint32(off, n, false)\<close>: the four bytes of \<open>n\<close> modulo \<open>2 ^ 32\<close>, high byte first.\<close>

definition be32 :: "nat \<Rightarrow> bytes" where
  "be32 n = [of_nat (n div 2 ^ 24), of_nat (n div 2 ^ 16), of_nat (n div 2 ^ 8), of_nat n]"

definition be32_read :: "bytes \<Rightarrow> nat" where
  "be32_read bs = foldl (\<lambda>acc b. acc * 256 + unat b) 0 bs"

lemma length_be32 [codec, simp]: "length (be32 n) = 4"
  by (simp add: be32_def)

lemma unat_of_nat_byte: "unat (of_nat n :: byte) = n mod 256"
  by (simp add: unat_of_nat)

lemma be32_read_be32 [codec]: "be32_read (be32 n) = n mod 2 ^ 32"
proof -
  have step: "n mod (256 * b) = 256 * (n div 256 mod b) + n mod 256" for n b :: nat
    by (rule mod_mult2_eq)
  have "n mod 2 ^ 32 = n mod (256 * (256 * (256 * 256)))" by simp
  also have "\<dots> = 256 * (256 * (256 * (n div 2 ^ 24 mod 256) + n div 2 ^ 16 mod 256)
      + n div 2 ^ 8 mod 256) + n mod 256"
    unfolding step by (simp add: div_mult2_eq [symmetric])
  finally show ?thesis
    unfolding be32_read_def be32_def foldl.simps unat_of_nat_byte
    by (simp only: mult_0_right add_0 mult.commute[of _ "256 :: nat"])
qed

lemma be32_eq_iff [codec]: "m < 2 ^ 32 \<Longrightarrow> n < 2 ^ 32 \<Longrightarrow> be32 m = be32 n \<longleftrightarrow> m = n"
  by (metis be32_read_be32 mod_less)

lemma append_eq_append_same_length:
  "length xs = length ys \<Longrightarrow> xs @ r = ys @ t \<longleftrightarrow> xs = ys \<and> r = t"
  by simp

text \<open>A length-prefixed field: \<^verbatim>\<open>u32 BE length || bytes\<close>.\<close>

definition lp_field :: "bytes \<Rightarrow> bytes" where
  "lp_field bs = be32 (length bs) @ bs"

lemma length_lp_field [codec, simp]: "length (lp_field bs) = 4 + length bs"
  by (simp add: lp_field_def)

lemma lp_field_append_inj [codec]:
  assumes "length xs < 2 ^ 32" "length ys < 2 ^ 32" "lp_field xs @ r = lp_field ys @ t"
  shows "xs = ys \<and> r = t"
proof -
  from assms(3) have "be32 (length xs) = be32 (length ys)" and rest: "xs @ r = ys @ t"
    by (simp_all add: lp_field_def)
  then have "length xs = length ys" using assms(1,2) by (simp add: be32_eq_iff)
  with rest show ?thesis by simp
qed

section \<open>Constant-time comparison\<close>

text \<open>
  The XOR-accumulating loop that the code uses instead of \<^verbatim>\<open>===\<close> on byte arrays: a length check,
  then \<^verbatim>\<open>diff |= a[i] ^ b[i]\<close> over all positions.
\<close>

unbundle bit_operations_syntax

fun xor_diff :: "byte \<Rightarrow> bytes \<Rightarrow> bytes \<Rightarrow> byte" where
  "xor_diff d (a # as) (b # bs) = xor_diff (d OR (a XOR b)) as bs"
| "xor_diff d _ _ = d"

lemma or_eq_0_iff_word: "(x OR y = (0 :: 'a :: len word)) \<longleftrightarrow> x = 0 \<and> y = 0"
  by (simp add: or_eq_0_iff)

lemma xor_eq_0_iff_word: "(x XOR y = (0 :: 'a :: len word)) \<longleftrightarrow> x = y"
  by (metis bit.xor_self xor.assoc xor.left_neutral xor.right_neutral)

lemma xor_diff_eq_0:
  "length as = length bs \<Longrightarrow> xor_diff d as bs = 0 \<longleftrightarrow> d = 0 \<and> as = bs"
  by (induction d as bs rule: xor_diff.induct)
    (auto simp: or_eq_0_iff_word xor_eq_0_iff_word)

section \<open>JavaScript numbers\<close>

text \<open>
  A \<^verbatim>\<open>number\<close> is not-a-number, an infinity or a finite value.  Finite values are rationals, of which the
  code only takes comparisons, \<^verbatim>\<open>Math.floor\<close> and integrality.
\<close>

datatype jsnum = NaN | PosInf | NegInf | Fin rat

definition is_finite :: "jsnum \<Rightarrow> bool" where
  "is_finite x = (case x of Fin _ \<Rightarrow> True | _ \<Rightarrow> False)"

definition is_integer :: "jsnum \<Rightarrow> bool" where
  "is_integer x = (case x of Fin r \<Rightarrow> of_int (floor r) = r | _ \<Rightarrow> False)"

text \<open>\<^verbatim>\<open>x < c\<close> and \<^verbatim>\<open>x > c\<close> against an integer constant; comparisons with \<^verbatim>\<open>NaN\<close> are false.\<close>

definition num_less :: "jsnum \<Rightarrow> int \<Rightarrow> bool" where
  "num_less x c = (case x of Fin r \<Rightarrow> r < of_int c | NegInf \<Rightarrow> True | _ \<Rightarrow> False)"

definition num_greater :: "jsnum \<Rightarrow> int \<Rightarrow> bool" where
  "num_greater x c = (case x of Fin r \<Rightarrow> r > of_int c | PosInf \<Rightarrow> True | _ \<Rightarrow> False)"

definition num_floor :: "jsnum \<Rightarrow> int" where
  "num_floor x = (case x of Fin r \<Rightarrow> floor r | _ \<Rightarrow> 0)"

lemmas jsnum_defs = is_finite_def is_integer_def num_less_def num_greater_def num_floor_def

text \<open>Values a field of an untrusted object can hold, as far as the validators tell them apart.\<close>

datatype jsval = JUndefined | JNull | JNumber jsnum | JString string | JBytes bytes | JOther

end
