(* ===== verification/AclChain.thy ===== *)
theory AclChain
  imports Prelude
begin

text \<open>
  The hash-linked log of signed ACL changes of \<^verbatim>\<open>packages/collabswarm/src/acl-chain.ts\<close>: the entry and
  its canonical encoding, the structural check of network-supplied entries, \<^verbatim>\<open>ingestEntry\<close> step by step,
  \<^verbatim>\<open>authorAndAppend\<close> and \<^verbatim>\<open>replay\<close>.  The signing provider, the key and change serializers, SHA-256 and the
  ACL adapter are arguments (the record \<open>acl_config\<close>).  The mutation queue of the class runs one
  operation at a time, so concurrent calls are a sequence of steps (\<open>chain_step\<close>).  Human-readable
  messages of failed checks are not modelled; their reason and index are.
\<close>

section \<open>Data\<close>

record ('c, 'sk, 'pk, 's) acl_config =
  serializeKey :: "'pk \<Rightarrow> string + bytes"
  serializeChange :: "'c \<Rightarrow> string + jsval"
  change_as_bytes :: "'c \<Rightarrow> bytes option"
  digest :: "bytes \<Rightarrow> string + bytes"
  auth_sign :: "bytes \<Rightarrow> 'sk \<Rightarrow> string + bytes"
  auth_verify :: "bytes \<Rightarrow> 'pk \<Rightarrow> bytes \<Rightarrow> string + bool"
  emptyState :: "string + 's"
  applyChange :: "'s \<Rightarrow> 'c \<Rightarrow> string + 's"
  isWriter :: "'s \<Rightarrow> 'pk \<Rightarrow> string + bool"
  genesisAuthorizedKeys :: "'pk list"

record 'c acl_entry =
  sequenceNumber :: nat
  timestamp :: nat
  parentHash :: "bytes option"
  change :: 'c
  signerKeyId :: bytes
  signature :: bytes

text \<open>An entry as it arrives: any value in place of the object, any value in each field.\<close>

record 'c wire_entry =
  w_sequenceNumber :: jsval
  w_timestamp :: jsval
  w_parentHash :: jsval
  w_change :: 'c
  w_signerKeyId :: jsval
  w_signature :: jsval

datatype 'c wire = NotObject | Object "'c wire_entry"

datatype verify_error =
    Bad_signature | Unauthorized_signer | Parent_hash_mismatch
  | Sequence_out_of_order | Unknown_signer_key | Malformed_entry

type_synonym verify_result = "(verify_error \<times> nat) + unit"

record ('c, 's) acl_chain =
  entries :: "'c acl_entry list"
  entryHashes :: "bytes list"
  state :: "'s option"

definition new_chain :: "('c, 's) acl_chain" where
  "new_chain = \<lparr>entries = [], entryHashes = [], state = None\<rparr>"

definition MAX_PARENT_HASH_BYTES :: nat where "MAX_PARENT_HASH_BYTES = 64"
definition MAX_SIGNER_KEY_BYTES :: nat where "MAX_SIGNER_KEY_BYTES = 256"
definition MAX_CHANGE_BYTES :: nat where "MAX_CHANGE_BYTES = 2 ^ 20"

lemmas size_bounds = MAX_PARENT_HASH_BYTES_def MAX_SIGNER_KEY_BYTES_def MAX_CHANGE_BYTES_def

section \<open>Encoding and comparison\<close>

definition bytesEqual :: "bytes \<Rightarrow> bytes \<Rightarrow> bool" where
  "bytesEqual a b = (if length a \<noteq> length b then False else xor_diff 0 a b = 0)"

definition canonicalEntryPayloadFromBytes :: "'c acl_entry \<Rightarrow> bytes \<Rightarrow> bytes" where
  "canonicalEntryPayloadFromBytes e changeBytes =
     (let parent = (case parentHash e of None \<Rightarrow> [] | Some h \<Rightarrow> h)
      in be32 (sequenceNumber e)
         @ be32 (timestamp e div 2 ^ 32) @ be32 (timestamp e mod 2 ^ 32)
         @ be32 (length parent) @ parent
         @ be32 (length (signerKeyId e)) @ signerKeyId e
         @ be32 (length changeBytes) @ changeBytes)"

text \<open>
  Authoring encodes the serializer's output directly: an exception propagates, and a result that is not
  a byte array makes the buffer computation throw.
\<close>

definition canonicalEntryPayload ::
  "('c, 'sk, 'pk, 's) acl_config \<Rightarrow> 'c acl_entry \<Rightarrow> string + bytes" where
  "canonicalEntryPayload cfg e =
     try_bind (serializeChange cfg (change e)) (\<lambda>v.
       case v of JBytes b \<Rightarrow> Ok (canonicalEntryPayloadFromBytes e b) | _ \<Rightarrow> Err ''RangeError'')"

definition computeEntryHash ::
  "('c, 'sk, 'pk, 's) acl_config \<Rightarrow> 'c acl_entry \<Rightarrow> string + bytes" where
  "computeEntryHash cfg e = try_bind (canonicalEntryPayload cfg e) (digest cfg)"

section \<open>Structural validation\<close>

definition u32_number :: "jsval \<Rightarrow> bool" where
  "u32_number v = (case v of
     JNumber x \<Rightarrow> is_integer x \<and> \<not> num_less x 0 \<and> \<not> num_greater x 4294967295
   | _ \<Rightarrow> False)"

definition safe_timestamp :: "jsval \<Rightarrow> bool" where
  "safe_timestamp v = (case v of
     JNumber x \<Rightarrow> is_integer x \<and> \<not> num_less x 0 \<and> \<not> num_greater x 9007199254740991
   | _ \<Rightarrow> False)"

definition validateEntryShape :: "'c wire \<Rightarrow> string option" where
  "validateEntryShape w = (case w of
     NotObject \<Rightarrow> Some ''entry is not an object''
   | Object e \<Rightarrow>
       if \<not> u32_number (w_sequenceNumber e) then
         Some ''sequenceNumber is not an unsigned 32-bit integer''
       else if \<not> safe_timestamp (w_timestamp e) then
         Some ''timestamp is not a non-negative safe integer''
       else (case w_signerKeyId e of
         JBytes key \<Rightarrow>
           if length key = 0 \<or> length key > MAX_SIGNER_KEY_BYTES then
             Some ''signerKeyId has an implausible length''
           else (case w_signature e of
             JBytes sig \<Rightarrow>
               if length sig = 0 \<or> length sig > 1024 then
                 Some ''signature has an implausible length''
               else (case w_parentHash e of
                 JUndefined \<Rightarrow> None
               | JBytes ph \<Rightarrow>
                   if length ph = 0 \<or> length ph > MAX_PARENT_HASH_BYTES then
                     Some ''parentHash has an implausible length''
                   else None
               | _ \<Rightarrow> Some ''parentHash is not a Uint8Array'')
           | _ \<Rightarrow> Some ''signature is not a Uint8Array'')
       | _ \<Rightarrow> Some ''signerKeyId is not a Uint8Array''))"

text \<open>How the code reads the fields of an entry that passed the check, and a typed entry as an object.\<close>

definition number_of :: "jsval \<Rightarrow> nat" where
  "number_of v = (case v of JNumber x \<Rightarrow> nat (num_floor x) | _ \<Rightarrow> 0)"

definition bytes_of :: "jsval \<Rightarrow> bytes" where
  "bytes_of v = (case v of JBytes b \<Rightarrow> b | _ \<Rightarrow> [])"

definition typed_entry :: "'c wire_entry \<Rightarrow> 'c acl_entry" where
  "typed_entry e = \<lparr>
     sequenceNumber = number_of (w_sequenceNumber e),
     timestamp = number_of (w_timestamp e),
     parentHash = (case w_parentHash e of JBytes b \<Rightarrow> Some b | _ \<Rightarrow> None),
     change = w_change e,
     signerKeyId = bytes_of (w_signerKeyId e),
     signature = bytes_of (w_signature e)\<rparr>"

definition wire_of :: "'c acl_entry \<Rightarrow> 'c wire" where
  "wire_of e = Object \<lparr>
     w_sequenceNumber = JNumber (Fin (of_nat (sequenceNumber e))),
     w_timestamp = JNumber (Fin (of_nat (timestamp e))),
     w_parentHash = (case parentHash e of None \<Rightarrow> JUndefined | Some h \<Rightarrow> JBytes h),
     w_change = change e,
     w_signerKeyId = JBytes (signerKeyId e),
     w_signature = JBytes (signature e)\<rparr>"

section \<open>Ingesting one entry\<close>

definition headHash :: "('c, 's) acl_chain \<Rightarrow> bytes option" where
  "headHash ch = (case entryHashes ch of [] \<Rightarrow> None | hs \<Rightarrow> Some (last hs))"

definition check_signer_key ::
  "('c, 'sk, 'pk, 's) acl_config \<Rightarrow> 'c acl_entry \<Rightarrow> 'pk \<Rightarrow> verify_error + unit" where
  "check_signer_key cfg e pk = (case serializeKey cfg pk of
     Inl _ \<Rightarrow> Err Malformed_entry
   | Inr actual \<Rightarrow> if bytesEqual (signerKeyId e) actual then Ok () else Err Unknown_signer_key)"

definition check_sequence :: "('c, 's) acl_chain \<Rightarrow> 'c acl_entry \<Rightarrow> verify_error + unit" where
  "check_sequence ch e =
     (if sequenceNumber e \<noteq> length (entries ch) then Err Sequence_out_of_order else Ok ())"

definition check_parent :: "('c, 's) acl_chain \<Rightarrow> 'c acl_entry \<Rightarrow> verify_error + unit" where
  "check_parent ch e = (case headHash ch of
     None \<Rightarrow> if parentHash e \<noteq> None then Err Parent_hash_mismatch else Ok ()
   | Some head \<Rightarrow> (case parentHash e of
       None \<Rightarrow> Err Parent_hash_mismatch
     | Some ph \<Rightarrow> if bytesEqual head ph then Ok () else Err Parent_hash_mismatch))"

definition encode_bounded ::
  "('c, 'sk, 'pk, 's) acl_config \<Rightarrow> 'c acl_entry \<Rightarrow> verify_error + bytes" where
  "encode_bounded cfg e =
     (if (case change_as_bytes cfg (change e) of Some b \<Rightarrow> length b > MAX_CHANGE_BYTES | None \<Rightarrow> False)
      then Err Malformed_entry
      else (case serializeChange cfg (change e) of
        Inl _ \<Rightarrow> Err Malformed_entry
      | Inr v \<Rightarrow> (case v of
          JBytes changeBytes \<Rightarrow>
            if length changeBytes > MAX_CHANGE_BYTES then Err Malformed_entry
            else let payload = canonicalEntryPayloadFromBytes e changeBytes in
              if length payload > MAX_CHANGE_BYTES + 1024 then Err Malformed_entry else Ok payload
        | _ \<Rightarrow> Err Malformed_entry)))"

definition hash_payload ::
  "('c, 'sk, 'pk, 's) acl_config \<Rightarrow> bytes \<Rightarrow> verify_error + bytes" where
  "hash_payload cfg payload = (case digest cfg payload of Inl _ \<Rightarrow> Err Malformed_entry | Inr h \<Rightarrow> Ok h)"

definition check_signature ::
  "('c, 'sk, 'pk, 's) acl_config \<Rightarrow> bytes \<Rightarrow> 'pk \<Rightarrow> bytes \<Rightarrow> verify_error + unit" where
  "check_signature cfg payload pk sig = (case auth_verify cfg payload pk sig of
     Inl _ \<Rightarrow> Err Bad_signature
   | Inr ok \<Rightarrow> if ok then Ok () else Err Bad_signature)"

fun isInBootstrapSet_loop ::
  "('c, 'sk, 'pk, 's) acl_config \<Rightarrow> bytes \<Rightarrow> 'pk list \<Rightarrow> string + bool" where
  "isInBootstrapSet_loop cfg cand [] = Ok False"
| "isInBootstrapSet_loop cfg cand (k # ks) =
     try_bind (serializeKey cfg k) (\<lambda>allowed.
       if bytesEqual cand allowed then Ok True else isInBootstrapSet_loop cfg cand ks)"

definition isInBootstrapSet :: "('c, 'sk, 'pk, 's) acl_config \<Rightarrow> 'pk \<Rightarrow> string + bool" where
  "isInBootstrapSet cfg candidate =
     try_bind (serializeKey cfg candidate) (\<lambda>cand.
       isInBootstrapSet_loop cfg cand (genesisAuthorizedKeys cfg))"

definition prior_state ::
  "('c, 'sk, 'pk, 's) acl_config \<Rightarrow> ('c, 's) acl_chain \<Rightarrow> verify_error + 's" where
  "prior_state cfg ch = (case state ch of
     Some s \<Rightarrow> Ok s
   | None \<Rightarrow> (case emptyState cfg of Inl _ \<Rightarrow> Err Malformed_entry | Inr s \<Rightarrow> Ok s))"

definition authorized ::
  "('c, 'sk, 'pk, 's) acl_config \<Rightarrow> ('c, 's) acl_chain \<Rightarrow> 's \<Rightarrow> 'pk \<Rightarrow> string + bool" where
  "authorized cfg ch s pk =
     (if length (entries ch) = 0 then isInBootstrapSet cfg pk else isWriter cfg s pk)"

definition check_authorized ::
  "('c, 'sk, 'pk, 's) acl_config \<Rightarrow> ('c, 's) acl_chain \<Rightarrow> 's \<Rightarrow> 'pk \<Rightarrow> verify_error + unit" where
  "check_authorized cfg ch s pk = (case authorized cfg ch s pk of
     Inl _ \<Rightarrow> Err Malformed_entry
   | Inr ok \<Rightarrow> if ok then Ok () else Err Unauthorized_signer)"

definition apply_change ::
  "('c, 'sk, 'pk, 's) acl_config \<Rightarrow> 's \<Rightarrow> 'c \<Rightarrow> verify_error + 's" where
  "apply_change cfg s c = (case applyChange cfg s c of Inl _ \<Rightarrow> Err Malformed_entry | Inr s' \<Rightarrow> Ok s')"

definition commit :: "('c, 's) acl_chain \<Rightarrow> 'c acl_entry \<Rightarrow> bytes \<Rightarrow> 's \<Rightarrow> ('c, 's) acl_chain" where
  "commit ch e h s' = ch\<lparr>state := Some s', entries := entries ch @ [e], entryHashes := entryHashes ch @ [h]\<rparr>"

definition ingest_checks ::
  "('c, 'sk, 'pk, 's) acl_config \<Rightarrow> ('c, 's) acl_chain \<Rightarrow> 'c acl_entry \<Rightarrow> 'pk
     \<Rightarrow> verify_error + ('c, 's) acl_chain" where
  "ingest_checks cfg ch e pk =
     try_bind (check_signer_key cfg e pk) (\<lambda>_.
     try_bind (check_sequence ch e) (\<lambda>_.
     try_bind (check_parent ch e) (\<lambda>_.
     try_bind (encode_bounded cfg e) (\<lambda>payload.
     try_bind (hash_payload cfg payload) (\<lambda>h.
     try_bind (check_signature cfg payload pk (signature e)) (\<lambda>_.
     try_bind (prior_state cfg ch) (\<lambda>s.
     try_bind (check_authorized cfg ch s pk) (\<lambda>_.
     try_bind (apply_change cfg s (change e)) (\<lambda>s'. Ok (commit ch e h s'))))))))))"

definition ingestEntryInternal ::
  "('c, 'sk, 'pk, 's) acl_config \<Rightarrow> ('c, 's) acl_chain \<Rightarrow> 'c wire \<Rightarrow> 'pk
     \<Rightarrow> ('c, 's) acl_chain \<times> verify_result" where
  "ingestEntryInternal cfg ch w pk =
     (let index = length (entries ch) in
      case validateEntryShape w of
        Some _ \<Rightarrow> (ch, Err (Malformed_entry, index))
      | None \<Rightarrow> (case w of
          NotObject \<Rightarrow> (ch, Err (Malformed_entry, index))
        | Object we \<Rightarrow> (case ingest_checks cfg ch (typed_entry we) pk of
            Inl r \<Rightarrow> (ch, Err (r, index))
          | Inr ch' \<Rightarrow> (ch', Ok ()))))"

section \<open>Authoring and replaying\<close>

definition authorAndAppend ::
  "('c, 'sk, 'pk, 's) acl_config \<Rightarrow> ('c, 's) acl_chain \<Rightarrow> 'c \<Rightarrow> 'pk \<Rightarrow> 'sk \<Rightarrow> nat
     \<Rightarrow> ('c, 's) acl_chain \<times> (string + 'c acl_entry)" where
  "authorAndAppend cfg ch c pk sk ts = (case serializeKey cfg pk of
     Inl err \<Rightarrow> (ch, Err err)
   | Inr key \<Rightarrow>
       let draft = \<lparr>sequenceNumber = length (entries ch), timestamp = ts, parentHash = headHash ch,
                    change = c, signerKeyId = key, signature = []\<rparr> in
       (case try_bind (canonicalEntryPayload cfg draft) (\<lambda>encoded. auth_sign cfg encoded sk) of
          Inl err \<Rightarrow> (ch, Err err)
        | Inr sig \<Rightarrow>
            let e = draft\<lparr>signature := sig\<rparr> in
            (case ingestEntryInternal cfg ch (wire_of e) pk of
               (ch', Inr _) \<Rightarrow> (ch', Ok e)
             | (ch', Inl _) \<Rightarrow> (ch', Err ''refusing to append entry''))))"

fun replay_loop ::
  "('c, 'sk, 'pk, 's) acl_config \<Rightarrow> (bytes \<Rightarrow> string + 'pk option) \<Rightarrow> nat \<Rightarrow> 'c wire list
     \<Rightarrow> ('c, 's) acl_chain \<Rightarrow> ('c, 's) acl_chain \<times> verify_result" where
  "replay_loop cfg resolveKey i [] ch = (ch, Ok ())"
| "replay_loop cfg resolveKey i (w # ws) ch = (case validateEntryShape w of
     Some _ \<Rightarrow> (ch, Err (Malformed_entry, i))
   | None \<Rightarrow> (case w of
       NotObject \<Rightarrow> (ch, Err (Malformed_entry, i))
     | Object we \<Rightarrow> (case resolveKey (bytes_of (w_signerKeyId we)) of
         Inl _ \<Rightarrow> (ch, Err (Unknown_signer_key, i))
       | Inr None \<Rightarrow> (ch, Err (Unknown_signer_key, i))
       | Inr (Some signerKey) \<Rightarrow> (case ingestEntryInternal cfg ch w signerKey of
           (ch', Inl r) \<Rightarrow> (ch', Err r)
         | (ch', Inr _) \<Rightarrow> replay_loop cfg resolveKey (Suc i) ws ch'))))"

definition replay ::
  "('c, 'sk, 'pk, 's) acl_config \<Rightarrow> (bytes \<Rightarrow> string + 'pk option) \<Rightarrow> 'c wire list
     \<Rightarrow> ('c, 's) acl_chain \<Rightarrow> ('c, 's) acl_chain \<times> verify_result" where
  "replay cfg resolveKey ws ch =
     replay_loop cfg resolveKey 0 ws (ch\<lparr>entries := [], entryHashes := [], state := None\<rparr>)"

text \<open>The queued mutations, run one after another; a failing one does not stop the next.\<close>

datatype ('c, 'sk, 'pk) chain_op =
    Ingest "'c wire" 'pk
  | Author 'c 'pk 'sk nat
  | Replay "'c wire list" "bytes \<Rightarrow> string + 'pk option"

fun chain_step ::
  "('c, 'sk, 'pk, 's) acl_config \<Rightarrow> ('c, 's) acl_chain \<Rightarrow> ('c, 'sk, 'pk) chain_op \<Rightarrow> ('c, 's) acl_chain" where
  "chain_step cfg ch (Ingest w pk) = fst (ingestEntryInternal cfg ch w pk)"
| "chain_step cfg ch (Author c pk sk ts) = fst (authorAndAppend cfg ch c pk sk ts)"
| "chain_step cfg ch (Replay ws resolveKey) = fst (replay cfg resolveKey ws ch)"

end
