(* ===== verification/AclChainCorrect.thy ===== *)
theory AclChainCorrect
  imports AclChain
begin

text \<open>
  Correctness of the ACL chain: a declarative account of when an entry may extend a chain
  (\<open>admissible\<close>, \<open>valid_chain\<close>), that \<^verbatim>\<open>ingestEntry\<close> accepts exactly those entries, that every
  sequence of operations keeps the chain valid, what validity gives (contiguous sequence numbers, hash
  links, authorized signers), the round trip through \<^verbatim>\<open>replay\<close>, the unambiguity of the canonical
  encoding and the tamper evidence of the head hash.
\<close>

section \<open>Specification\<close>

definition shape_ok :: "'c acl_entry \<Rightarrow> bool" where
  "shape_ok e \<longleftrightarrow> sequenceNumber e < 2 ^ 32 \<and> timestamp e < 2 ^ 53
     \<and> 0 < length (signerKeyId e) \<and> length (signerKeyId e) \<le> 256
     \<and> 0 < length (signature e) \<and> length (signature e) \<le> 1024
     \<and> (\<forall>h. parentHash e = Some h \<longrightarrow> 0 < length h \<and> length h \<le> 64)"

definition admissible ::
  "('c, 'sk, 'pk, 's) acl_config \<Rightarrow> ('c, 's) acl_chain \<Rightarrow> 'c acl_entry \<Rightarrow> 'pk \<Rightarrow> bytes \<Rightarrow> bytes \<Rightarrow> 's \<Rightarrow> bool" where
  "admissible cfg ch e pk payload h s' \<longleftrightarrow>
     serializeKey cfg pk = Ok (signerKeyId e)
   \<and> sequenceNumber e = length (entries ch)
   \<and> parentHash e = headHash ch
   \<and> encode_bounded cfg e = Ok payload
   \<and> digest cfg payload = Ok h
   \<and> auth_verify cfg payload pk (signature e) = Ok True
   \<and> (\<exists>s. prior_state cfg ch = Ok s \<and> authorized cfg ch s pk = Ok True
          \<and> applyChange cfg s (change e) = Ok s')"

inductive valid_chain ::
  "('c, 'sk, 'pk, 's) acl_config \<Rightarrow> ('c, 's) acl_chain \<Rightarrow> bool" for cfg where
  genesis: "valid_chain cfg new_chain"
| extend: "valid_chain cfg ch \<Longrightarrow> shape_ok e \<Longrightarrow> admissible cfg ch e pk payload h s'
     \<Longrightarrow> valid_chain cfg (commit ch e h s')"

inductive_cases valid_chain_cases: "valid_chain cfg ch"

section \<open>The checks against the specification\<close>

lemma bytesEqual_iff: "bytesEqual a b \<longleftrightarrow> a = b"
  by (auto simp: bytesEqual_def xor_diff_eq_0)

lemma check_signer_key_Ok: "check_signer_key cfg e pk = Ok () \<longleftrightarrow> serializeKey cfg pk = Ok (signerKeyId e)"
  by (auto simp: check_signer_key_def bytesEqual_iff split: sum.splits)

lemma check_sequence_Ok: "check_sequence ch e = Ok () \<longleftrightarrow> sequenceNumber e = length (entries ch)"
  by (simp add: check_sequence_def)

lemma check_parent_Ok: "check_parent ch e = Ok () \<longleftrightarrow> parentHash e = headHash ch"
  by (auto simp: check_parent_def bytesEqual_iff split: option.splits)

lemma hash_payload_Ok: "hash_payload cfg p = Ok h \<longleftrightarrow> digest cfg p = Ok h"
  by (auto simp: hash_payload_def split: sum.splits)

lemma check_signature_Ok: "check_signature cfg p pk sig = Ok () \<longleftrightarrow> auth_verify cfg p pk sig = Ok True"
  by (auto simp: check_signature_def split: sum.splits)

lemma check_authorized_Ok: "check_authorized cfg ch s pk = Ok () \<longleftrightarrow> authorized cfg ch s pk = Ok True"
  by (auto simp: check_authorized_def split: sum.splits)

lemma apply_change_Ok: "apply_change cfg s c = Ok s' \<longleftrightarrow> applyChange cfg s c = Ok s'"
  by (auto simp: apply_change_def split: sum.splits)

lemmas check_Ok = check_signer_key_Ok check_sequence_Ok check_parent_Ok hash_payload_Ok
  check_signature_Ok check_authorized_Ok apply_change_Ok

lemma ingest_checks_Ok:
  "ingest_checks cfg ch e pk = Ok ch' \<longleftrightarrow>
     (\<exists>payload h s'. admissible cfg ch e pk payload h s' \<and> ch' = commit ch e h s')"
  by (auto simp: ingest_checks_def admissible_def try_bind_Ok_iff check_Ok)

lemma of_nat_num: "num_less (Fin (of_nat n)) 0 = False" "is_integer (Fin (of_nat n))"
  "num_floor (Fin (of_nat n)) = int n"
  by (simp_all add: jsnum_defs)

lemma num_greater_of_nat: "num_greater (Fin (of_nat n)) (int m) \<longleftrightarrow> m < n"
  by (simp add: num_greater_def)

lemma integer_range:
  assumes "is_integer x" "\<not> num_less x 0" "\<not> num_greater x (int m)"
  shows "nat (num_floor x) \<le> m"
proof (cases x)
  case (Fin r)
  then have r: "of_int (floor r) = r" and "r \<le> of_int (int m)"
    using assms by (auto simp: jsnum_defs)
  then have "floor r \<le> int m" by linarith
  then show ?thesis using Fin by (simp add: num_floor_def)
qed (use assms in \<open>simp_all add: is_integer_def\<close>)

lemma u32_number_bound: "u32_number v \<Longrightarrow> number_of v < 2 ^ 32"
  using integer_range[of _ 4294967295]
  by (auto simp: u32_number_def number_of_def split: jsval.splits) force

lemma safe_timestamp_bound: "safe_timestamp v \<Longrightarrow> number_of v < 2 ^ 53"
  using integer_range[of _ 9007199254740991]
  by (auto simp: safe_timestamp_def number_of_def split: jsval.splits) force

lemma validate_shape_ok: "validateEntryShape (Object w) = None \<Longrightarrow> shape_ok (typed_entry w)"
  using u32_number_bound[of "w_sequenceNumber w"] safe_timestamp_bound[of "w_timestamp w"]
  by (auto simp: validateEntryShape_def shape_ok_def typed_entry_def bytes_of_def size_bounds
      split: if_splits jsval.splits)

lemma validate_wire_of: "shape_ok e \<Longrightarrow> validateEntryShape (wire_of e) = None"
  using num_greater_of_nat[of "sequenceNumber e" 4294967295]
    num_greater_of_nat[of "timestamp e" 9007199254740991]
  by (auto simp: validateEntryShape_def shape_ok_def wire_of_def u32_number_def safe_timestamp_def
      of_nat_num size_bounds split: option.splits)

lemma wire_of_Object: "\<exists>w. wire_of e = Object w \<and> typed_entry w = e \<and> w_signerKeyId w = JBytes (signerKeyId e)"
  by (auto simp: wire_of_def typed_entry_def number_of_def bytes_of_def of_nat_num split: option.splits)

lemma ingest_wire_of:
  "shape_ok e \<Longrightarrow> ingestEntryInternal cfg ch (wire_of e) pk =
     (case ingest_checks cfg ch e pk of
        Inl r \<Rightarrow> (ch, Err (r, length (entries ch))) | Inr ch' \<Rightarrow> (ch', Ok ()))"
  using wire_of_Object[of e] validate_wire_of[of e]
  by (auto simp: ingestEntryInternal_def)

lemma ingest_Ok_iff:
  "ingestEntryInternal cfg ch w pk = (ch', Ok ()) \<longleftrightarrow>
     (\<exists>we payload h s'. w = Object we \<and> validateEntryShape w = None
        \<and> admissible cfg ch (typed_entry we) pk payload h s' \<and> ch' = commit ch (typed_entry we) h s')"
proof (cases w)
  case NotObject
  then show ?thesis by (simp add: ingestEntryInternal_def validateEntryShape_def)
next
  case (Object we)
  show ?thesis
  proof (cases "validateEntryShape w")
    case None
    with Object have "ingestEntryInternal cfg ch w pk =
      (case ingest_checks cfg ch (typed_entry we) pk of
         Inl r \<Rightarrow> (ch, Err (r, length (entries ch))) | Inr ch' \<Rightarrow> (ch', Ok ()))"
      by (simp add: ingestEntryInternal_def)
    then have "ingestEntryInternal cfg ch w pk = (ch', Ok ()) \<longleftrightarrow>
        ingest_checks cfg ch (typed_entry we) pk = Ok ch'"
      by (auto split: sum.splits)
    then show ?thesis by (simp add: ingest_checks_Ok Object None [unfolded Object])
  next
    case (Some _)
    then show ?thesis by (simp add: ingestEntryInternal_def Object)
  qed
qed

lemma ingest_Err_unchanged: "ingestEntryInternal cfg ch w pk = (ch', Err r) \<Longrightarrow> ch' = ch \<and> snd r = length (entries ch)"
  by (auto simp: ingestEntryInternal_def Let_def split: option.splits wire.splits sum.splits)

section \<open>Every operation keeps the chain valid\<close>

lemma ingest_valid: "valid_chain cfg ch \<Longrightarrow> valid_chain cfg (fst (ingestEntryInternal cfg ch w pk))"
proof -
  assume v: "valid_chain cfg ch"
  obtain ch' r where r: "ingestEntryInternal cfg ch w pk = (ch', r)" by fastforce
  show ?thesis
  proof (cases r)
    case (Inl e)
    with r v show ?thesis by (auto dest: ingest_Err_unchanged)
  next
    case (Inr u)
    with r have "ingestEntryInternal cfg ch w pk = (ch', Ok ())" by simp
    with v r show ?thesis
      by (fastforce simp: ingest_Ok_iff dest: validate_shape_ok intro: valid_chain.extend)
  qed
qed

lemma author_chain:
  "fst (authorAndAppend cfg ch c pk sk ts) = ch
   \<or> (\<exists>e. fst (authorAndAppend cfg ch c pk sk ts) = fst (ingestEntryInternal cfg ch (wire_of e) pk))"
  by (auto simp: authorAndAppend_def Let_def split: sum.splits prod.splits) (metis fst_conv)+

lemma author_valid: "valid_chain cfg ch \<Longrightarrow> valid_chain cfg (fst (authorAndAppend cfg ch c pk sk ts))"
  using author_chain[of cfg ch c pk sk ts] ingest_valid by metis

lemma replay_loop_valid:
  "valid_chain cfg ch \<Longrightarrow> valid_chain cfg (fst (replay_loop cfg rk i ws ch))"
proof (induction cfg rk i ws ch rule: replay_loop.induct)
  case (2 cfg rk i w ws ch)
  have *: "valid_chain cfg (fst (ingestEntryInternal cfg ch w k))" for k
    by (rule ingest_valid [OF "2.prems"])
  show ?case
    using "2.prems" "2.IH" *
    by (auto split: option.splits wire.splits sum.splits prod.splits) (metis fst_conv)+
qed simp

lemma reset_chain: "ch\<lparr>entries := [], entryHashes := [], state := None\<rparr> = new_chain"
  by (simp add: new_chain_def)

lemma chain_step_valid: "valid_chain cfg ch \<Longrightarrow> valid_chain cfg (chain_step cfg ch op)"
  by (cases op) (simp_all add: ingest_valid author_valid replay_def reset_chain replay_loop_valid valid_chain.genesis)

interpretation chain: machine_invariant "chain_step cfg" "valid_chain cfg" for cfg
  by unfold_locales (rule chain_step_valid)

section \<open>What a valid chain guarantees\<close>

definition replay_state :: "('c, 'sk, 'pk, 's) acl_config \<Rightarrow> 'c list \<Rightarrow> string + 's" where
  "replay_state cfg cs = foldl (\<lambda>r c. try_bind r (\<lambda>s. applyChange cfg s c)) (emptyState cfg) cs"

definition trusted_entry ::
  "('c, 'sk, 'pk, 's) acl_config \<Rightarrow> 'c acl_entry list \<Rightarrow> bytes list \<Rightarrow> nat \<Rightarrow> bool" where
  "trusted_entry cfg es hs i \<longleftrightarrow>
     sequenceNumber (es ! i) = i
   \<and> parentHash (es ! i) = (if i = 0 then None else Some (hs ! (i - 1)))
   \<and> (\<exists>pk payload s.
        serializeKey cfg pk = Ok (signerKeyId (es ! i))
      \<and> encode_bounded cfg (es ! i) = Ok payload
      \<and> digest cfg payload = Ok (hs ! i)
      \<and> auth_verify cfg payload pk (signature (es ! i)) = Ok True
      \<and> replay_state cfg (map change (take i es)) = Ok s
      \<and> (if i = 0 then isInBootstrapSet cfg pk = Ok True else isWriter cfg s pk = Ok True))"

lemma commit_simps [simp]:
  "entries (commit ch e h s) = entries ch @ [e]"
  "entryHashes (commit ch e h s) = entryHashes ch @ [h]"
  "state (commit ch e h s) = Some s"
  by (simp_all add: commit_def)

lemma new_chain_simps [simp]:
  "entries new_chain = []" "entryHashes new_chain = []" "state new_chain = None"
  by (simp_all add: new_chain_def)

lemma headHash_last: "headHash ch = (if entryHashes ch = [] then None else Some (last (entryHashes ch)))"
  by (simp add: headHash_def split: list.split)

lemma headHash_commit [simp]: "headHash (commit ch e h s) = Some h"
  by (simp add: headHash_last)

lemma headHash_new [simp]: "headHash new_chain = None"
  by (simp add: headHash_def)

lemma replay_state_snoc: "replay_state cfg (cs @ [c]) = try_bind (replay_state cfg cs) (\<lambda>s. applyChange cfg s c)"
  by (simp add: replay_state_def)

lemma valid_chain_lengths: "valid_chain cfg ch \<Longrightarrow> length (entryHashes ch) = length (entries ch)"
  by (induction rule: valid_chain.induct) simp_all

lemma valid_chain_state:
  "valid_chain cfg ch \<Longrightarrow>
     (case state ch of None \<Rightarrow> entries ch = [] | Some s \<Rightarrow> entries ch \<noteq> [] \<and> replay_state cfg (map change (entries ch)) = Ok s)"
proof (induction rule: valid_chain.induct)
  case (extend ch e pk payload h s')
  then show ?case
    by (auto simp: admissible_def prior_state_def replay_state_snoc replay_state_def
        split: option.splits sum.splits)
qed simp

lemma valid_chain_prior:
  "valid_chain cfg ch \<Longrightarrow> prior_state cfg ch = Ok s \<Longrightarrow> replay_state cfg (map change (entries ch)) = Ok s"
  using valid_chain_state[of cfg ch]
  by (auto simp: prior_state_def replay_state_def split: option.splits sum.splits)

lemma trusted_entry_prefix:
  assumes "i < length es" "length hs = length es"
  shows "trusted_entry cfg (es @ [e]) (hs @ [h]) i = trusted_entry cfg es hs i"
proof -
  have "i - 1 < length hs" using assms by simp
  then show ?thesis using assms by (simp add: trusted_entry_def nth_append del: One_nat_def)
qed

lemma valid_headHash: "valid_chain cfg ch \<Longrightarrow>
  headHash ch = (if entries ch = [] then None else Some (entryHashes ch ! (length (entries ch) - 1)))"
  using valid_chain_lengths[of cfg ch]
  by (auto simp: headHash_last last_conv_nth)

lemma valid_chain_trusted:
  "valid_chain cfg ch \<Longrightarrow> i < length (entries ch) \<Longrightarrow> trusted_entry cfg (entries ch) (entryHashes ch) i"
proof (induction arbitrary: i rule: valid_chain.induct)
  case (extend ch e pk payload h s')
  show ?case
  proof (cases "i < length (entries ch)")
    case True
    then show ?thesis
      using extend by (simp add: trusted_entry_prefix valid_chain_lengths)
  next
    case False
    with extend.prems have i: "i = length (entries ch)" by simp
    have len: "length (entryHashes ch) = i" using extend.hyps(1) i by (simp add: valid_chain_lengths)
    have hd: "headHash ch = (if i = 0 then None else Some ((entryHashes ch @ [h]) ! (i - 1)))"
      using valid_headHash[OF extend.hyps(1)] i len by (simp add: nth_append)
    from extend.hyps(3) obtain s where s: "prior_state cfg ch = Ok s" "authorized cfg ch s pk = Ok True"
      by (auto simp: admissible_def)
    then have rs: "replay_state cfg (map change (entries ch)) = Ok s"
      using extend.hyps(1) by (blast intro: valid_chain_prior)
    have auth: "if i = 0 then isInBootstrapSet cfg pk = Ok True else isWriter cfg s pk = Ok True"
      using s(2) i by (auto simp: authorized_def split: if_splits)
    have e: "(entries ch @ [e]) ! i = e" "(entryHashes ch @ [h]) ! i = h" "take i (entries ch @ [e]) = entries ch"
      using i len by (simp_all add: nth_append)
    from extend.hyps(3) have "sequenceNumber e = i" "parentHash e = headHash ch"
      "serializeKey cfg pk = Ok (signerKeyId e)" "encode_bounded cfg e = Ok payload"
      "digest cfg payload = Ok h" "auth_verify cfg payload pk (signature e) = Ok True"
      by (simp_all add: admissible_def i)
    with hd rs auth show ?thesis
      unfolding trusted_entry_def commit_simps e by metis
  qed
qed simp

section \<open>Replay\<close>

lemma replay_loop_append:
  "replay_loop cfg rk i (xs @ ys) ch =
     (case replay_loop cfg rk i xs ch of
        (ch', Inl r) \<Rightarrow> (ch', Inl r)
      | (ch', Inr _) \<Rightarrow> replay_loop cfg rk (i + length xs) ys ch')"
proof (induction xs arbitrary: i ch)
  case (Cons w xs)
  show ?case
  proof (cases "validateEntryShape w")
    case None
    note v = this
    show ?thesis
    proof (cases w)
      case (Object we)
      show ?thesis
      proof (cases "rk (bytes_of (w_signerKeyId we))")
        case (Inr ok)
        obtain ch' r where "ingestEntryInternal cfg ch w (the ok) = (ch', r)" by fastforce
        with v Object Inr Cons.IH show ?thesis by (cases ok; cases r) simp_all
      qed (simp add: v [unfolded Object] Object)
    qed (use v in simp)
  qed simp
qed simp

lemma ingest_admissible:
  "shape_ok e \<Longrightarrow> admissible cfg ch e pk payload h s' \<Longrightarrow>
     ingestEntryInternal cfg ch (wire_of e) pk = (commit ch e h s', Ok ())"
proof -
  assume "shape_ok e" "admissible cfg ch e pk payload h s'"
  then have "ingest_checks cfg ch e pk = Ok (commit ch e h s')"
    by (subst ingest_checks_Ok) blast
  then show ?thesis using \<open>shape_ok e\<close> by (simp add: ingest_wire_of)
qed

lemma replay_wire_of:
  assumes "shape_ok e" "admissible cfg ch e pk payload h s'" "rk (signerKeyId e) = Ok (Some pk)"
  shows "replay_loop cfg rk i [wire_of e] ch = (commit ch e h s', Ok ())"
proof -
  obtain w where w: "wire_of e = Object w" "typed_entry w = e" "w_signerKeyId w = JBytes (signerKeyId e)"
    using wire_of_Object by blast
  have "validateEntryShape (wire_of e) = None" by (rule validate_wire_of [OF assms(1)])
  moreover note ingest_admissible [OF assms(1,2)] assms(3)
  ultimately show ?thesis by (simp add: w bytes_of_def)
qed

lemma replay_valid_chain:
  "valid_chain cfg ch \<Longrightarrow>
   (\<forall>e\<in>set (entries ch). \<forall>pk. serializeKey cfg pk = Ok (signerKeyId e) \<longrightarrow> rk (signerKeyId e) = Ok (Some pk)) \<Longrightarrow>
   replay_loop cfg rk 0 (map wire_of (entries ch)) new_chain = (ch, Ok ())"
proof (induction rule: valid_chain.induct)
  case (extend ch e pk payload h s')
  then have "rk (signerKeyId e) = Ok (Some pk)" by (auto simp: admissible_def)
  with extend show ?case
    by (simp add: replay_loop_append replay_wire_of del: replay_loop.simps)
qed simp

lemma replay_loop_result:
  assumes "replay_loop cfg rk i ws ch = (ch', r)" "i = length (entries ch)"
  shows "\<exists>n ws'. take n ws = map Object ws' \<and> entries ch' = entries ch @ map typed_entry ws'
      \<and> (case r of Inl (_, j) \<Rightarrow> j = i + n \<and> n < length ws | Inr _ \<Rightarrow> n = length ws)"
  using assms
proof (induction ws arbitrary: i ch)
  case Nil
  then show ?case by (intro exI[of _ 0] exI[of _ "[]"]) auto
next
  case (Cons w ws)
  have stop: ?case if "ch' = ch" "r = Inl (x, i)" for x
    using that by (intro exI[of _ 0] exI[of _ "[]"]) simp
  show ?case
  proof (cases "\<exists>we k. validateEntryShape w = None \<and> w = Object we \<and> rk (bytes_of (w_signerKeyId we)) = Ok (Some k)")
    case False
    with Cons.prems(1) stop show ?thesis
      by (auto split: option.splits wire.splits sum.splits)
  next
    case True
    then obtain we k where we: "validateEntryShape w = None" "w = Object we"
      "rk (bytes_of (w_signerKeyId we)) = Ok (Some k)" by blast
    obtain ch1 r1 where r1: "ingestEntryInternal cfg ch w k = (ch1, r1)" by fastforce
    show ?thesis
    proof (cases r1)
      case (Inl x)
      then have "ch1 = ch" "snd x = i" using r1 Cons.prems(2) ingest_Err_unchanged by metis+
      with Cons.prems(1) we r1 Inl show ?thesis by (intro stop[of "fst x"]) (simp_all, (metis prod.collapse)+)
    next
      case (Inr u)
      with r1 have ok: "entries ch1 = entries ch @ [typed_entry we]"
        using we(2) by (auto simp: ingest_Ok_iff)
      have "replay_loop cfg rk (Suc i) ws ch1 = (ch', r)" "Suc i = length (entries ch1)"
        using Cons.prems we r1 Inr ok by simp_all
      from Cons.IH [OF this] obtain n ws' where "take n ws = map Object ws'"
        "entries ch' = entries ch1 @ map typed_entry ws'"
        "case r of Inl (_, j) \<Rightarrow> j = Suc i + n \<and> n < length ws | Inr _ \<Rightarrow> n = length ws" by blast
      then show ?thesis
        by (intro exI[of _ "Suc n"] exI[of _ "we # ws'"]) (simp add: ok we(2) split: sum.splits prod.splits)
    qed
  qed
qed

section \<open>The canonical encoding is unambiguous\<close>

lemma payload_lp: "canonicalEntryPayloadFromBytes e c =
  be32 (sequenceNumber e) @ be32 (timestamp e div 2 ^ 32) @ be32 (timestamp e mod 2 ^ 32)
    @ lp_field (case parentHash e of None \<Rightarrow> [] | Some h \<Rightarrow> h) @ lp_field (signerKeyId e) @ lp_field c"
  by (simp add: canonicalEntryPayloadFromBytes_def lp_field_def Let_def)

lemma payload_inj:
  fixes e1 e2 :: "'a acl_entry"
  assumes "canonicalEntryPayloadFromBytes e1 c1 = canonicalEntryPayloadFromBytes e2 c2"
    and "shape_ok e1" "shape_ok e2" "length c1 < 2 ^ 32" "length c2 < 2 ^ 32"
  shows "sequenceNumber e1 = sequenceNumber e2 \<and> timestamp e1 = timestamp e2
     \<and> parentHash e1 = parentHash e2 \<and> signerKeyId e1 = signerKeyId e2 \<and> c1 = c2"
proof -
  let ?p = "\<lambda>e. case parentHash e of None \<Rightarrow> [] | Some h \<Rightarrow> h"
  have ts: "timestamp e div 2 ^ 32 < 2 ^ 32" if "shape_ok e" for e :: "'a acl_entry"
    using that by (simp add: shape_ok_def div_less_iff_less_mult)
  have len: "length (?p e) < 2 ^ 32" "length (signerKeyId e) < 2 ^ 32" if "shape_ok e" for e :: "'a acl_entry"
    using that by (auto simp: shape_ok_def split: option.splits)
  from assms(1) have eqs: "be32 (sequenceNumber e1) = be32 (sequenceNumber e2)"
    "be32 (timestamp e1 div 2 ^ 32) = be32 (timestamp e2 div 2 ^ 32)"
    "be32 (timestamp e1 mod 2 ^ 32) = be32 (timestamp e2 mod 2 ^ 32)"
    and rest: "lp_field (?p e1) @ lp_field (signerKeyId e1) @ lp_field c1
      = lp_field (?p e2) @ lp_field (signerKeyId e2) @ lp_field c2"
    by (simp_all add: payload_lp)
  from eqs(1) have "sequenceNumber e1 = sequenceNumber e2"
    using assms(2,3) by (simp add: be32_eq_iff shape_ok_def)
  moreover have "timestamp e1 div 2 ^ 32 = timestamp e2 div 2 ^ 32"
    using eqs(2) be32_eq_iff [OF ts [OF assms(2)] ts [OF assms(3)]] by blast
  moreover have "timestamp e1 mod 2 ^ 32 = timestamp e2 mod 2 ^ 32"
    using eqs(3) by (simp add: be32_eq_iff)
  ultimately have "sequenceNumber e1 = sequenceNumber e2" "timestamp e1 = timestamp e2" by (metis div_mult_mod_eq)+
  moreover from lp_field_append_inj [OF _ _ rest] len assms(2,3)
  have "?p e1 = ?p e2" and rest2: "lp_field (signerKeyId e1) @ lp_field c1 = lp_field (signerKeyId e2) @ lp_field c2"
    by auto
  moreover from \<open>?p e1 = ?p e2\<close> have "parentHash e1 = parentHash e2"
    using assms(2,3) by (auto simp: shape_ok_def split: option.splits)
  moreover from lp_field_append_inj [OF _ _ rest2] len assms(2,3)
  have "signerKeyId e1 = signerKeyId e2" and rest3: "lp_field c1 = lp_field c2" by auto
  moreover from lp_field_append_inj [OF assms(4,5), of "[]" "[]"] rest3 have "c1 = c2" by simp
  ultimately show ?thesis by blast
qed

definition entry_view :: "('c, 'sk, 'pk, 's) acl_config \<Rightarrow> 'c acl_entry \<Rightarrow> nat \<times> nat \<times> bytes option \<times> bytes \<times> (string + jsval)" where
  "entry_view cfg e = (sequenceNumber e, timestamp e, parentHash e, signerKeyId e, serializeChange cfg (change e))"

lemma encode_bounded_Ok: "encode_bounded cfg e = Ok p \<Longrightarrow>
  \<exists>c. serializeChange cfg (change e) = Ok (JBytes c) \<and> length c \<le> 2 ^ 20 \<and> p = canonicalEntryPayloadFromBytes e c"
  by (auto simp: encode_bounded_def Let_def size_bounds split: if_splits sum.splits jsval.splits)

lemma encode_bounded_view:
  assumes "encode_bounded cfg e1 = Ok p" "encode_bounded cfg e2 = Ok p" "shape_ok e1" "shape_ok e2"
  shows "entry_view cfg e1 = entry_view cfg e2"
proof -
  from encode_bounded_Ok [OF assms(1)] encode_bounded_Ok [OF assms(2)] obtain c1 c2 where
    c: "serializeChange cfg (change e1) = Ok (JBytes c1)" "serializeChange cfg (change e2) = Ok (JBytes c2)"
    "length c1 \<le> 2 ^ 20" "length c2 \<le> 2 ^ 20"
    "canonicalEntryPayloadFromBytes e1 c1 = canonicalEntryPayloadFromBytes e2 c2" by blast
  with payload_inj [OF c(5) assms(3,4)] show ?thesis by (simp add: entry_view_def)
qed

section \<open>The head hash determines the chain\<close>

definition chain_payloads :: "('c, 'sk, 'pk, 's) acl_config \<Rightarrow> ('c, 's) acl_chain \<Rightarrow> bytes set" where
  "chain_payloads cfg ch = {p. \<exists>e\<in>set (entries ch). encode_bounded cfg e = Ok p}"

lemma headHash_None: "valid_chain cfg ch \<Longrightarrow> headHash ch = None \<Longrightarrow> ch = new_chain"
  by (cases rule: valid_chain.cases) auto

lemma head_determines_chain:
  "valid_chain cfg ch1 \<Longrightarrow> valid_chain cfg ch2 \<Longrightarrow> headHash ch1 = headHash ch2 \<Longrightarrow>
   (\<forall>p\<in>chain_payloads cfg ch1. \<forall>q\<in>chain_payloads cfg ch2. digest cfg p = digest cfg q \<longrightarrow> p = q) \<Longrightarrow>
   map (entry_view cfg) (entries ch1) = map (entry_view cfg) (entries ch2)"
proof (induction arbitrary: ch2 rule: valid_chain.induct)
  case genesis
  then show ?case using headHash_None[of cfg ch2] by simp
next
  case (extend ch e pk payload h s')
  from extend.prems(1) show ?case
  proof (cases rule: valid_chain.cases)
    case genesis
    with extend.prems(2) show ?thesis by simp
  next
    case (extend ch' e' pk' payload' h2 s2)
    then have eq: "h = h2" using extend.prems(2) by simp
    have enc: "encode_bounded cfg e = Ok payload" "encode_bounded cfg e' = Ok payload'"
      "digest cfg payload = Ok h" "digest cfg payload' = Ok h2" "parentHash e = headHash ch" "parentHash e' = headHash ch'"
      using \<open>admissible cfg ch e pk payload h s'\<close> extend(4) by (simp_all add: admissible_def)
    have "payload \<in> chain_payloads cfg (commit ch e h s')" "payload' \<in> chain_payloads cfg ch2"
      using enc extend(1) by (auto simp: chain_payloads_def)
    then have "payload = payload'" using enc eq extend.prems(3) by metis
    then have view: "entry_view cfg e = entry_view cfg e'"
      using enc \<open>shape_ok e\<close> extend(3) by (blast intro: encode_bounded_view)
    then have "headHash ch = headHash ch'" using enc by (simp add: entry_view_def)
    moreover have "\<forall>p\<in>chain_payloads cfg ch. \<forall>q\<in>chain_payloads cfg ch'. digest cfg p = digest cfg q \<longrightarrow> p = q"
      using extend.prems(3) extend(1) by (simp add: chain_payloads_def)
    ultimately have "map (entry_view cfg) (entries ch) = map (entry_view cfg) (entries ch')"
      using extend.IH extend(2) by blast
    with view extend(1) show ?thesis by simp
  qed
qed

section \<open>Authoring\<close>

definition draft_entry :: "('c, 's) acl_chain \<Rightarrow> 'c \<Rightarrow> bytes \<Rightarrow> nat \<Rightarrow> 'c acl_entry" where
  "draft_entry ch c key ts = \<lparr>sequenceNumber = length (entries ch), timestamp = ts,
     parentHash = headHash ch, change = c, signerKeyId = key, signature = []\<rparr>"

lemma encode_signature_irrelevant: "encode_bounded cfg (e\<lparr>signature := sig\<rparr>) = encode_bounded cfg e"
proof -
  have "canonicalEntryPayloadFromBytes (e\<lparr>signature := sig\<rparr>) = canonicalEntryPayloadFromBytes e"
    by (rule ext) (simp add: canonicalEntryPayloadFromBytes_def)
  then show ?thesis unfolding encode_bounded_def by (simp split: sum.split jsval.split)
qed

lemma canonical_of_encode: "encode_bounded cfg e = Ok p \<Longrightarrow> canonicalEntryPayload cfg e = Ok p"
  using encode_bounded_Ok[of cfg e p] by (auto simp: canonicalEntryPayload_def)

lemma author_signed:
  assumes "serializeKey cfg pk = Ok key" "encode_bounded cfg (draft_entry ch c key ts) = Ok p"
    and "auth_sign cfg p sk = Ok sig"
  shows "authorAndAppend cfg ch c pk sk ts =
    (case ingestEntryInternal cfg ch (wire_of ((draft_entry ch c key ts)\<lparr>signature := sig\<rparr>)) pk of
       (ch', Inr _) \<Rightarrow> (ch', Ok ((draft_entry ch c key ts)\<lparr>signature := sig\<rparr>))
     | (ch', Inl _) \<Rightarrow> (ch', Err ''refusing to append entry''))"
  using assms canonical_of_encode [OF assms(2)]
  by (simp add: authorAndAppend_def draft_entry_def [symmetric] Let_def)

lemma draft_shape_ok:
  assumes "valid_chain cfg ch" "length (entries ch) < 2 ^ 32" "ts < 2 ^ 53"
    and "0 < length key" "length key \<le> 256" "0 < length sig" "length sig \<le> 1024"
    and "\<forall>h. headHash ch = Some h \<longrightarrow> 0 < length h \<and> length h \<le> 64"
  shows "shape_ok ((draft_entry ch c key ts)\<lparr>signature := sig\<rparr>)"
  using assms by (simp add: shape_ok_def draft_entry_def)

section \<open>Properties\<close>


text \<open>
  Claim C2.  Whatever sequence of ingested, authored and replayed entries runs against a new chain,
  each entry \<open>i\<close> of the result carries sequence number \<open>i\<close>, links to the hash of entry \<open>i - 1\<close> (none for
  the first), hashes to the recorded entry hash, verifies under a key that serializes to its signer
  id, and that key was a writer in the state produced by the entries before it (a founding key for the
  first).
\<close>

theorem acl_reachable_entries_trusted:
  assumes "i < length (entries (foldl (chain_step cfg) new_chain ops))"
  shows "trusted_entry cfg (entries (foldl (chain_step cfg) new_chain ops))
           (entryHashes (foldl (chain_step cfg) new_chain ops)) i"
proof -
  have "valid_chain cfg (foldl (chain_step cfg) new_chain ops)"
    by (rule chain.run_inv [OF valid_chain.genesis])
  then show ?thesis using assms by (rule valid_chain_trusted)
qed

text \<open>
  A chain that was built by any sequence of operations survives transmission: replaying its
  own entries from scratch, with a resolver that knows the signers' keys, succeeds and rebuilds exactly
  the same entries, hashes and state.
\<close>

theorem acl_replay_round_trip:
  assumes "ch = foldl (chain_step cfg) new_chain ops"
    and "\<forall>e\<in>set (entries ch). \<forall>pk. serializeKey cfg pk = Ok (signerKeyId e)
           \<longrightarrow> resolveKey (signerKeyId e) = Ok (Some pk)"
  shows "replay cfg resolveKey (map wire_of (entries ch)) old = (ch, Ok ())"
proof -
  have "valid_chain cfg ch"
    unfolding assms(1) by (rule chain.run_inv [OF valid_chain.genesis])
  then show ?thesis
    unfolding replay_def reset_chain using assms(2) by (rule replay_valid_chain)
qed

text \<open>
  Replaying an arbitrary, possibly hostile, snapshot keeps a verified prefix: the resulting
  chain is valid and holds exactly the first \<open>n\<close> supplied entries, where \<open>n\<close> is the index a failure
  reports, and all of them on success.
\<close>

theorem acl_replay_keeps_valid_prefix:
  "case replay cfg resolveKey ws old of (ch, r) \<Rightarrow>
     valid_chain cfg ch
   \<and> (\<exists>n good. take n ws = map Object good \<and> entries ch = map typed_entry good
        \<and> (case r of Inl (_, index) \<Rightarrow> index = n \<and> n < length ws | Inr _ \<Rightarrow> n = length ws))"
proof -
  obtain ch r where r: "replay_loop cfg resolveKey 0 ws new_chain = (ch, r)" by fastforce
  then have "valid_chain cfg ch"
    using replay_loop_valid [OF valid_chain.genesis, of cfg resolveKey 0 ws] by simp
  with replay_loop_result [OF r] show ?thesis
    unfolding replay_def reset_chain r by (cases r) auto
qed

text \<open>
  The canonical encoding is unambiguous on entries that pass validation: equal payload bytes
  mean equal sequence numbers, timestamps, parent hashes, signer ids and change bytes, so a signature or
  hash cannot be moved to an entry with different content.
\<close>

theorem acl_canonical_payload_unambiguous:
  fixes e1 e2 :: "'c acl_entry"
  assumes "canonicalEntryPayloadFromBytes e1 c1 = canonicalEntryPayloadFromBytes e2 c2"
    and "wire_of e1 = Object w1" "validateEntryShape (Object w1) = None"
    and "wire_of e2 = Object w2" "validateEntryShape (Object w2) = None"
    and "length c1 \<le> MAX_CHANGE_BYTES" "length c2 \<le> MAX_CHANGE_BYTES"
  shows "sequenceNumber e1 = sequenceNumber e2 \<and> timestamp e1 = timestamp e2
     \<and> parentHash e1 = parentHash e2 \<and> signerKeyId e1 = signerKeyId e2 \<and> c1 = c2"
proof -
  have "shape_ok e1" "shape_ok e2"
    using validate_shape_ok assms(2-5) wire_of_Object[of e1] wire_of_Object[of e2] by auto
  then show ?thesis
    using payload_inj [OF assms(1)] assms(6,7) by (simp add: size_bounds)
qed


text \<open>
  An authorized signer can always extend the chain: when the key, the change and the signature
  are within the size bounds and the signature verifies, \<^verbatim>\<open>authorAndAppend\<close> returns the signed entry,
  appends exactly it, and every peer holding the same chain accepts it through \<^verbatim>\<open>ingestEntry\<close> with the
  same result.
\<close>

theorem acl_author_appends:
  assumes "valid_chain cfg ch" "length (entries ch) < 2 ^ 32" "ts < 2 ^ 53"
    and "serializeKey cfg pk = Ok key" "0 < length key" "length key \<le> 256"
    and "\<forall>h. headHash ch = Some h \<longrightarrow> 0 < length h \<and> length h \<le> 64"
    and "encode_bounded cfg (draft_entry ch c key ts) = Ok p" "digest cfg p = Ok h"
    and "auth_sign cfg p sk = Ok sig" "0 < length sig" "length sig \<le> 1024"
    and "auth_verify cfg p pk sig = Ok True"
    and "prior_state cfg ch = Ok s" "authorized cfg ch s pk = Ok True" "applyChange cfg s c = Ok s'"
  shows "authorAndAppend cfg ch c pk sk ts =
           (commit ch ((draft_entry ch c key ts)\<lparr>signature := sig\<rparr>) h s',
            Ok ((draft_entry ch c key ts)\<lparr>signature := sig\<rparr>))
       \<and> ingestEntryInternal cfg ch (wire_of ((draft_entry ch c key ts)\<lparr>signature := sig\<rparr>)) pk =
           (commit ch ((draft_entry ch c key ts)\<lparr>signature := sig\<rparr>) h s', Ok ())"
proof -
  let ?e = "(draft_entry ch c key ts)\<lparr>signature := sig\<rparr>"
  have "shape_ok ?e" using assms by (intro draft_shape_ok)
  moreover have "admissible cfg ch ?e pk p h s'"
    using assms by (simp add: admissible_def encode_signature_irrelevant) (simp add: draft_entry_def)
  ultimately have "ingestEntryInternal cfg ch (wire_of ?e) pk = (commit ch ?e h s', Ok ())"
    by (rule ingest_admissible)
  then show ?thesis using author_signed [OF assms(4,8,10)] by simp
qed

section \<open>A small deployment, for the witnesses\<close>

text \<open>Keys and changes are single bytes; a change grants write access to a key.\<close>

definition demo_cfg :: "(byte, byte, byte, byte list) acl_config" where
  "demo_cfg = \<lparr>serializeKey = \<lambda>k. Ok [k], serializeChange = \<lambda>c. Ok (JBytes [c]),
     change_as_bytes = \<lambda>_. None, digest = \<lambda>p. Ok [sum_list p],
     auth_sign = \<lambda>_ sk. Ok [sk], auth_verify = \<lambda>_ pk sig. Ok (sig = [pk]),
     emptyState = Ok [], applyChange = \<lambda>s c. Ok (c # s), isWriter = \<lambda>s k. Ok (List.member s k),
     genesisAuthorizedKeys = [1]\<rparr>"

definition demo_ops :: "(byte, byte, byte) chain_op list" where
  "demo_ops = [Author 2 1 1 5, Author 3 2 2 6, Author 4 7 7 8]"

definition demo_chain :: "(byte, byte list) acl_chain" where
  "demo_chain = \<lparr>entries =
     [\<lparr>sequenceNumber = 0, timestamp = 5, parentHash = None, change = 2, signerKeyId = [1], signature = [1]\<rparr>,
      \<lparr>sequenceNumber = 1, timestamp = 6, parentHash = Some [10], change = 3, signerKeyId = [2], signature = [2]\<rparr>],
     entryHashes = [[10], [25]], state = Some [3, 2]\<rparr>"

lemmas demo_eval = demo_cfg_def demo_ops_def demo_chain_def new_chain_def authorAndAppend_def
  canonicalEntryPayload_def canonicalEntryPayloadFromBytes_def headHash_def wire_of_def validateEntryShape_def
  u32_number_def safe_timestamp_def jsnum_defs size_bounds ingestEntryInternal_def ingest_checks_def
  typed_entry_def number_of_def bytes_of_def check_signer_key_def bytesEqual_iff check_sequence_def
  check_parent_def encode_bounded_def hash_payload_def check_signature_def prior_state_def
  check_authorized_def authorized_def isInBootstrapSet_def apply_change_def commit_def be32_def Let_def

lemma demo_run: "foldl (chain_step demo_cfg) new_chain demo_ops = demo_chain"
  by (simp add: demo_eval)

theorem acl_reachable_entries_trusted_witness:
  "1 < length (entries demo_chain) \<and> trusted_entry demo_cfg (entries demo_chain) (entryHashes demo_chain) 1"
proof -
  have "1 < length (entries demo_chain)" by (simp add: demo_chain_def)
  then show ?thesis
    using acl_reachable_entries_trusted [of 1 demo_cfg demo_ops] by (simp add: demo_run)
qed

theorem acl_replay_round_trip_witness:
  "replay demo_cfg (\<lambda>b. Ok (Some (hd b))) (map wire_of (entries demo_chain)) new_chain = (demo_chain, Ok ())"
proof (rule acl_replay_round_trip)
  show "demo_chain = foldl (chain_step demo_cfg) new_chain demo_ops" by (simp add: demo_run)
qed (simp add: demo_chain_def demo_cfg_def)

theorem acl_canonical_payload_unambiguous_witness:
  "canonicalEntryPayloadFromBytes (hd (entries demo_chain)) [2]
     = canonicalEntryPayloadFromBytes ((hd (entries demo_chain))\<lparr>signature := [9]\<rparr>) [2]
   \<and> parentHash (hd (entries demo_chain)) = parentHash ((hd (entries demo_chain))\<lparr>signature := [9]\<rparr>)"
proof -
  let ?e1 = "hd (entries demo_chain)"
  let ?e2 = "?e1\<lparr>signature := [9]\<rparr>"
  have same: "canonicalEntryPayloadFromBytes ?e1 [2] = canonicalEntryPayloadFromBytes ?e2 [2]"
    by (simp add: canonicalEntryPayloadFromBytes_def)
  obtain w1 w2 where w: "wire_of ?e1 = Object w1" "wire_of ?e2 = Object w2" by (simp add: wire_of_def)
  have v: "validateEntryShape (wire_of ?e1) = None" "validateEntryShape (wire_of ?e2) = None"
    by (simp_all add: demo_eval)
  have "length [2 :: byte] \<le> MAX_CHANGE_BYTES" by (simp add: size_bounds)
  with acl_canonical_payload_unambiguous [OF same w(1) v(1) [unfolded w(1)] w(2) v(2) [unfolded w(2)]]
  have "parentHash ?e1 = parentHash ?e2" by blast
  with same show ?thesis by blast
qed


theorem acl_author_appends_witness:
  "authorAndAppend demo_cfg demo_chain 9 3 3 7 =
     (commit demo_chain ((draft_entry demo_chain 9 [3] 7)\<lparr>signature := [3]\<rparr>) [49] [9, 3, 2],
      Ok ((draft_entry demo_chain 9 [3] 7)\<lparr>signature := [3]\<rparr>))"
proof -
  have v: "valid_chain demo_cfg demo_chain"
    unfolding demo_run [symmetric] by (rule chain.run_inv [OF valid_chain.genesis])
  have "encode_bounded demo_cfg (draft_entry demo_chain 9 [3] 7)
      = Ok (canonicalEntryPayloadFromBytes (draft_entry demo_chain 9 [3] 7) [9])"
    by (simp add: demo_eval draft_entry_def)
  moreover have "digest demo_cfg (canonicalEntryPayloadFromBytes (draft_entry demo_chain 9 [3] 7) [9]) = Ok [49]"
    by (simp add: demo_eval draft_entry_def)
  ultimately show ?thesis
    using acl_author_appends [OF v, of 7 3 "[3]" 9 _ "[49]" 3 "[3]" "[3, 2]" "[9, 3, 2]"]
    by (simp add: demo_cfg_def demo_chain_def headHash_def prior_state_def authorized_def)
qed

end
