(* ===== verification/TipsHash.thy ===== *)
theory TipsHash
  imports Prelude "HOL-Library.Char_ord" "HOL-Library.List_Lexorder" "HOL-Library.Multiset"
begin

text \<open>
  The tip-set hash of \<^verbatim>\<open>packages/collabswarm/src/tips-hash.ts\<close>: the CIDs are sorted, joined by newlines,
  encoded and hashed; hashes are compared in lowercase hex.  SHA-256 is an argument.  CID strings are
  ASCII, so a character is one code unit for the sort and one byte for the encoder.
\<close>

definition TIPS_HASH_LENGTH :: nat where "TIPS_HASH_LENGTH = 32"

fun join :: "string \<Rightarrow> string list \<Rightarrow> string" where
  "join sep [] = []"
| "join sep [s] = s"
| "join sep (s # t # ss) = s @ sep @ join sep (t # ss)"

definition text_encode :: "string \<Rightarrow> bytes" where
  "text_encode s = map of_char s"

definition tipsHash :: "(bytes \<Rightarrow> bytes) \<Rightarrow> string list \<Rightarrow> bytes" where
  "tipsHash sha256 hashes =
     (let sorted = sort hashes; canonical = join [CHR 0x0A] sorted in sha256 (text_encode canonical))"

definition tipsHashToHex :: "bytes \<Rightarrow> string" where
  "tipsHashToHex hash = foldl (\<lambda>out b. out @ byte_hex b) [] hash"

lemma foldl_append_concat: "foldl (\<lambda>out b. out @ f b) acc bs = acc @ concat (map f bs)"
  by (induction bs arbitrary: acc) simp_all

lemma tipsHashToHex_hex: "tipsHashToHex h = hex_of_bytes h"
  by (simp add: tipsHashToHex_def foldl_append_concat hex_of_bytes_def)

lemma tipsHashToHex_inj: "tipsHashToHex a = tipsHashToHex b \<longleftrightarrow> a = b"
  by (simp add: tipsHashToHex_hex hex_of_bytes_inj)

lemma text_encode_inj: "text_encode a = text_encode b \<longleftrightarrow> a = b"
proof -
  have "inj (of_char :: char \<Rightarrow> byte)"
  proof (rule injI)
    fix c d :: char
    assume "(of_char c :: byte) = of_char d"
    then have "unat (of_char c :: byte) = unat (of_char d :: byte)" by simp
    moreover have "unat (of_char x :: byte) = of_char x" for x :: char
      by (metis char_of_nat of_char_mod_256 of_nat_of_char unat_of_nat_byte)
    ultimately show "c = d" by simp
  qed
  then show ?thesis by (simp add: text_encode_def inj_map_eq_map)
qed

fun split_lines :: "string \<Rightarrow> string \<Rightarrow> string list" where
  "split_lines acc [] = [rev acc]"
| "split_lines acc (c # cs) = (if c = CHR 0x0A then rev acc # split_lines [] cs else split_lines (c # acc) cs)"

lemma split_lines_plain: "CHR 0x0A \<notin> set s \<Longrightarrow> split_lines acc s = [rev acc @ s]"
  by (induction s arbitrary: acc) auto

lemma split_lines_sep: "CHR 0x0A \<notin> set s \<Longrightarrow> split_lines acc (s @ CHR 0x0A # t) = (rev acc @ s) # split_lines [] t"
  by (induction s arbitrary: acc) auto

lemma split_join: "\<forall>s\<in>set ss. CHR 0x0A \<notin> set s \<Longrightarrow> ss \<noteq> [] \<Longrightarrow> split_lines [] (join [CHR 0x0A] ss) = ss"
  by (induction "[CHR 0x0A]" ss rule: join.induct) (simp_all add: split_lines_plain split_lines_sep)

lemma join_newline_inj:
  assumes "\<forall>s\<in>set xs \<union> set ys. s \<noteq> [] \<and> CHR 0x0A \<notin> set s" "join [CHR 0x0A] xs = join [CHR 0x0A] ys"
  shows "xs = ys"
proof -
  have empty: "join [CHR 0x0A] zs = [] \<Longrightarrow> \<forall>s\<in>set zs. s \<noteq> [] \<Longrightarrow> zs = []" for zs
    by (cases "([CHR 0x0A], zs)" rule: join.cases) auto
  show ?thesis
  proof (cases "xs = [] \<or> ys = []")
    case True
    with assms empty show ?thesis by (metis UnCI join.simps(1))
  next
    case False
    with assms show ?thesis using split_join[of xs] split_join[of ys] by (metis UnCI)
  qed
qed

section \<open>Properties\<close>

text \<open>
  The tip-set hash is a function of the tip set: two tip lists hash equally whenever they hold
  the same CIDs in any order, and, where SHA-256 does not collide on the two encodings and the CIDs are
  non-empty and free of newlines, only then.
\<close>

theorem tips_hash_identifies_tip_set:
  assumes "\<forall>s\<in>set xs \<union> set ys. s \<noteq> [] \<and> CHR 0x0A \<notin> set s"
    and "sha (text_encode (join [CHR 0x0A] (sort xs))) = sha (text_encode (join [CHR 0x0A] (sort ys)))
         \<longrightarrow> text_encode (join [CHR 0x0A] (sort xs)) = text_encode (join [CHR 0x0A] (sort ys))"
  shows "tipsHash sha xs = tipsHash sha ys \<longleftrightarrow> mset xs = mset ys"
proof
  assume "tipsHash sha xs = tipsHash sha ys"
  with assms(2) have "join [CHR 0x0A] (sort xs) = join [CHR 0x0A] (sort ys)"
    by (simp add: tipsHash_def text_encode_inj)
  then have "sort xs = sort ys" using assms(1) by (intro join_newline_inj) auto
  then show "mset xs = mset ys" by (metis mset_sort)
next
  assume "mset xs = mset ys"
  then have "sort xs = sort ys" by (intro properties_for_sort) simp_all
  then show "tipsHash sha xs = tipsHash sha ys" by (simp add: tipsHash_def)
qed

theorem tips_hash_identifies_tip_set_witness:
  "tipsHash id [''bafyb'', ''bafya''] = tipsHash id [''bafya'', ''bafyb''] \<and>
   tipsHash id [''ab'', ''c''] \<noteq> tipsHash id [''a'', ''bc'']"
proof -
  have "count (mset [''ab'', ''c'']) ''c'' \<noteq> count (mset [''a'', ''bc'']) ''c''" by simp
  then have "mset [''ab'', ''c''] \<noteq> mset [''a'', ''bc'']" by metis
  then show ?thesis
    using tips_hash_identifies_tip_set [of "[''bafyb'', ''bafya'']" "[''bafya'', ''bafyb'']" id]
      tips_hash_identifies_tip_set [of "[''ab'', ''c'']" "[''a'', ''bc'']" id]
    by simp
qed

end
