(* ===== verification/LoadQuorum.thy ===== *)
theory LoadQuorum
  imports TipsHash
begin

text \<open>
  The initial-load quorum of \<^verbatim>\<open>packages/collabswarm/src/load-quorum.ts\<close>: one vote per probed peer (a
  tip-set hash, a disclaimer, or none), the tally and decision, the clamps of K and Q, configuration
  validation, peer deduplication and the constant-time hex comparison.  Error messages are modelled as
  structured values; their wording is not.
\<close>

section \<open>Data\<close>

datatype vote = TipHash bytes | UnknownDoc | NoVote

record advertisement =
  peerId :: string
  hash :: vote

definition UNKNOWN_DOC_TALLY_KEY :: string where "UNKNOWN_DOC_TALLY_KEY = ''unknown-doc''"

datatype quorum_kind = Tip_hash | New_doc

datatype failed_reason =
    Insufficient_responses | No_majority | No_peers_queried | Invalid_config
  | Bind_check_failed_all_agreeing_peers | Agreeing_peers_unreachable

datatype decision =
    Agreed quorum_kind string "string list" nat nat
    \<comment> \<open>kind, winning hash, agreeing peers, responding count, effective Q\<close>
  | Refused failed_reason nat nat "(string, nat) jsmap"
    \<comment> \<open>reason, responding count, effective Q, agreement summary\<close>

datatype config_detail =
    Not_positive_int string jsnum
  | Not_bounded_int string jsnum nat

record quorum_error =
  documentPath :: string
  reason :: failed_reason
  err_respondingCount :: nat
  requiredQ :: nat
  agreement :: "(string, nat) jsmap"
  detail :: "config_detail option"

section \<open>The decision\<close>

text \<open>The tally loop: responding peers are counted and pushed to the bucket of their key.\<close>

definition tally_key :: "vote \<Rightarrow> string option" where
  "tally_key v = (case v of NoVote \<Rightarrow> None | UnknownDoc \<Rightarrow> Some UNKNOWN_DOC_TALLY_KEY
     | TipHash h \<Rightarrow> Some (tipsHashToHex h))"

fun tally :: "advertisement list \<Rightarrow> (string, string list) jsmap \<Rightarrow> nat \<Rightarrow> (string, string list) jsmap \<times> nat" where
  "tally [] buckets respondingCount = (buckets, respondingCount)"
| "tally (adv # advs) buckets respondingCount =
     (case tally_key (hash adv) of
        None \<Rightarrow> tally advs buckets respondingCount
      | Some key \<Rightarrow>
          let bucket = (case map_get buckets key of None \<Rightarrow> [] | Some ps \<Rightarrow> ps)
          in tally advs (map_set key (bucket @ [peerId adv]) buckets) (Suc respondingCount))"

fun best_bucket :: "(string \<times> string list) list \<Rightarrow> string option \<times> string list \<Rightarrow> string option \<times> string list" where
  "best_bucket [] best = best"
| "best_bucket ((key, peers) # rest) best =
     best_bucket rest (if length peers > length (snd best) then (Some key, peers) else best)"

definition summary :: "(string, string list) jsmap \<Rightarrow> (string, nat) jsmap" where
  "summary buckets = map (\<lambda>(key, peers). (key, length peers)) buckets"

definition eligible_buckets :: "(string, string list) jsmap \<Rightarrow> (string, string list) jsmap" where
  "eligible_buckets buckets =
     (let hasTipHashVote = list_ex (\<lambda>k. k \<noteq> UNKNOWN_DOC_TALLY_KEY) (map fst buckets)
      in if hasTipHashVote then filter (\<lambda>(key, _). key \<noteq> UNKNOWN_DOC_TALLY_KEY) buckets else buckets)"

definition decideLoadQuorum :: "advertisement list \<Rightarrow> jsnum \<Rightarrow> string + decision" where
  "decideLoadQuorum advertisements qnum =
     (if \<not> is_integer qnum \<or> num_less qnum 1 then Err ''q must be a positive integer''
      else let q = nat (num_floor qnum) in
        if length advertisements = 0 then Ok (Refused No_peers_queried 0 q [])
        else (case tally advertisements [] 0 of (buckets, respondingCount) \<Rightarrow>
          if respondingCount = 0 then Ok (Refused Insufficient_responses respondingCount q [])
          else (case best_bucket (eligible_buckets buckets) (None, []) of (bestKey, bestPeers) \<Rightarrow>
            (case bestKey of
               None \<Rightarrow> Ok (Refused (if respondingCount < q then Insufficient_responses else No_majority)
                              respondingCount q (summary buckets))
             | Some key \<Rightarrow>
                 if length bestPeers < q
                 then Ok (Refused (if respondingCount < q then Insufficient_responses else No_majority)
                            respondingCount q (summary buckets))
                 else Ok (Agreed (if key = UNKNOWN_DOC_TALLY_KEY then New_doc else Tip_hash)
                            key bestPeers respondingCount q)))))"

section \<open>Thresholds\<close>

definition defaultQuorumQ :: "int \<Rightarrow> int" where
  "defaultQuorumQ k = (if k \<le> 0 then 0 else k div 2 + 1)"

definition effectiveK :: "jsnum \<Rightarrow> nat \<Rightarrow> int" where
  "effectiveK configuredK knownPeersCount = (case configuredK of
     Fin r \<Rightarrow> if r \<le> 0 then 0 else if knownPeersCount = 0 then 0
       else floor (min r (of_nat knownPeersCount))
   | _ \<Rightarrow> 0)"

definition effectiveQ :: "jsnum \<Rightarrow> int \<Rightarrow> int" where
  "effectiveQ configuredQ k =
     (if k \<le> 0 then 0
      else (case configuredQ of
        Fin r \<Rightarrow> if r < 1 then 1 else if r > of_int k then k else floor r
      | _ \<Rightarrow> defaultQuorumQ k))"

definition LOAD_QUORUM_TIMEOUT_MS_MAX :: nat where "LOAD_QUORUM_TIMEOUT_MS_MAX = 5 * 60 * 1000"

record quorum_config =
  loadQuorumK :: "jsnum option"
  loadQuorumQ :: "jsnum option"
  loadQuorumTimeoutMs :: "jsnum option"

definition config_error :: "config_detail \<Rightarrow> quorum_error" where
  "config_error d = \<lparr>documentPath = ''<config>'', reason = Invalid_config, err_respondingCount = 0,
     requiredQ = 0, agreement = [], detail = Some d\<rparr>"

definition checkPositiveInt :: "string \<Rightarrow> jsnum option \<Rightarrow> quorum_error + unit" where
  "checkPositiveInt name value = (case value of
     None \<Rightarrow> Ok ()
   | Some x \<Rightarrow> if \<not> is_integer x \<or> num_less x 1 then Err (config_error (Not_positive_int name x)) else Ok ())"

definition checkBoundedPositiveInt :: "string \<Rightarrow> jsnum option \<Rightarrow> nat \<Rightarrow> quorum_error + unit" where
  "checkBoundedPositiveInt name value mx = (case value of
     None \<Rightarrow> Ok ()
   | Some x \<Rightarrow> if \<not> is_integer x \<or> num_less x 1 \<or> num_greater x (int mx)
       then Err (config_error (Not_bounded_int name x mx)) else Ok ())"

definition validateLoadQuorumConfig :: "quorum_config \<Rightarrow> quorum_error + unit" where
  "validateLoadQuorumConfig c =
     try_bind (checkPositiveInt ''loadQuorumK'' (loadQuorumK c)) (\<lambda>_.
     try_bind (checkPositiveInt ''loadQuorumQ'' (loadQuorumQ c)) (\<lambda>_.
       checkBoundedPositiveInt ''loadQuorumTimeoutMs'' (loadQuorumTimeoutMs c) LOAD_QUORUM_TIMEOUT_MS_MAX))"

section \<open>Peers and comparison\<close>

fun dedupe_loop :: "('p \<Rightarrow> string) \<Rightarrow> 'p list \<Rightarrow> string list \<Rightarrow> 'p list \<Rightarrow> 'p list" where
  "dedupe_loop peerIdOf [] seen out = out"
| "dedupe_loop peerIdOf (peer # peers) seen out =
     (let id = peerIdOf peer in
      if id \<in> set seen then dedupe_loop peerIdOf peers seen out
      else dedupe_loop peerIdOf peers (set_add id seen) (out @ [peer]))"

definition dedupePeersByPeerId :: "'p list \<Rightarrow> ('p \<Rightarrow> string) \<Rightarrow> 'p list" where
  "dedupePeersByPeerId peers peerIdOf = dedupe_loop peerIdOf peers [] []"

definition char_code_at :: "string \<Rightarrow> nat \<Rightarrow> nat" where
  "char_code_at s i = (if i < length s then of_char (s ! i) else 0)"

fun hex_diff :: "string \<Rightarrow> string \<Rightarrow> nat \<Rightarrow> nat \<Rightarrow> nat \<Rightarrow> nat" where
  "hex_diff a b i 0 diff = diff"
| "hex_diff a b i (Suc n) diff =
     hex_diff a b (Suc i) n (diff OR (char_code_at a i XOR char_code_at b i))"

definition constantTimeHexEquals :: "string \<Rightarrow> string \<Rightarrow> bool" where
  "constantTimeHexEquals a b =
     (hex_diff a b 0 (max (length a) (length b)) (length a XOR length b) = 0)"

end
