(* ===== verification/LoadQuorumCorrect.thy ===== *)
theory LoadQuorumCorrect
  imports LoadQuorum "HOL-Library.Sublist"
begin

text \<open>
  Correctness of the quorum decision: the tally groups peers by vote, the winner is a largest eligible
  bucket, a hash wins exactly when enough peers voted for it, disclaimers never outvote a hash, and with
  the default threshold a minority of faulty peers cannot change or block the honest outcome.
\<close>

section \<open>Votes\<close>

locale vote_key =
  fixes key :: "vote \<Rightarrow> string option"
  assumes key_None: "key v = None \<longleftrightarrow> v = NoVote"
    and key_inj: "key v = Some k \<Longrightarrow> key w = Some k \<Longrightarrow> v = w"
begin

lemma key_NoVote: "key NoVote = None"
  by (simp add: key_None)

lemma key_partition:
  assumes "k \<noteq> l"
  shows "length (filter (\<lambda>a. key (hash a) = Some k) advs) + length (filter (\<lambda>a. key (hash a) = Some l) advs)
     \<le> length (filter (\<lambda>a. hash a \<noteq> NoVote) advs)"
  using assms by (induction advs) (auto simp: key_NoVote)

lemma key_count_bound: "length (filter (\<lambda>a. key (hash a) = Some k) advs) \<le> length (filter (\<lambda>a. hash a \<noteq> NoVote) advs)"
  by (induction advs) (auto simp: key_NoVote)

lemma key_eq_vote: "key v = Some k \<Longrightarrow> (key (hash a) = Some k) = (hash a = v)"
  using key_inj by blast

end

lemma hex_not_unknown: "tipsHashToHex h \<noteq> UNKNOWN_DOC_TALLY_KEY"
proof
  assume "tipsHashToHex h = UNKNOWN_DOC_TALLY_KEY"
  then have "length (tipsHashToHex h) = length UNKNOWN_DOC_TALLY_KEY" by (rule arg_cong)
  then have "2 * length h = 11"
    by (simp add: tipsHashToHex_hex length_hex_of_bytes UNKNOWN_DOC_TALLY_KEY_def)
  then show False by presburger
qed

lemma tally_key_simps [simp]:
  "tally_key (TipHash h) = Some (tipsHashToHex h)"
  "tally_key UnknownDoc = Some UNKNOWN_DOC_TALLY_KEY"
  "tally_key NoVote = None"
  by (simp_all add: tally_key_def)

interpretation tk: vote_key tally_key
proof unfold_locales
  show "tally_key v = None \<longleftrightarrow> v = NoVote" for v by (cases v) simp_all
  show "tally_key v = Some k \<Longrightarrow> tally_key w = Some k \<Longrightarrow> v = w" for v w k
    using hex_not_unknown hex_not_unknown [symmetric] by (cases v; cases w) (auto simp: tipsHashToHex_inj)
qed

definition voters :: "string \<Rightarrow> advertisement list \<Rightarrow> string list" where
  "voters k advs = map peerId (filter (\<lambda>a. tally_key (hash a) = Some k) advs)"

definition votes_for :: "vote \<Rightarrow> advertisement list \<Rightarrow> string list" where
  "votes_for v advs = map peerId (filter (\<lambda>a. hash a = v) advs)"

definition responding :: "advertisement list \<Rightarrow> nat" where
  "responding advs = length (filter (\<lambda>a. hash a \<noteq> NoVote) advs)"

lemma voters_simps [simp]:
  "voters k [] = []"
  "voters k (a # advs) = (if tally_key (hash a) = Some k then [peerId a] else []) @ voters k advs"
  by (simp_all add: voters_def)

lemma voters_hex: "voters (tipsHashToHex h) advs = votes_for (TipHash h) advs"
  by (simp add: voters_def votes_for_def tk.key_eq_vote [of "TipHash h"])

lemma voters_unknown: "voters UNKNOWN_DOC_TALLY_KEY advs = votes_for UnknownDoc advs"
  by (simp add: voters_def votes_for_def tk.key_eq_vote [of UnknownDoc])

section \<open>The tally\<close>

definition bucket :: "(string, string list) jsmap \<Rightarrow> string \<Rightarrow> string list" where
  "bucket b k = (case map_get b k of None \<Rightarrow> [] | Some ps \<Rightarrow> ps)"

definition tally_ok :: "(string, string list) jsmap \<Rightarrow> bool" where
  "tally_ok b \<longleftrightarrow> map_ok b \<and> (\<forall>k. map_get b k \<noteq> Some [])"

lemma bucket_set: "bucket (map_set k ps b) k' = (if k' = k then ps else bucket b k')"
  by (simp add: bucket_def js_map)

lemma tally_correct:
  "tally_ok b \<Longrightarrow> tally advs b n = (b', n') \<Longrightarrow>
     tally_ok b' \<and> n' = n + responding advs \<and> (\<forall>k. bucket b' k = bucket b k @ voters k advs)"
proof (induction advs b n rule: tally.induct)
  case (1 b n)
  then show ?case by (simp add: responding_def)
next
  case (2 a advs b n)
  show ?case
  proof (cases "tally_key (hash a)")
    case None
    then have "hash a = NoVote" by (simp add: tk.key_None)
    with None show ?thesis using "2.IH"(1) "2.prems" by (simp add: responding_def)
  next
    case (Some key)
    let ?b = "map_set key (bucket b key @ [peerId a]) b"
    have "tally_ok ?b" using "2.prems"(1) by (auto simp: tally_ok_def js_map)
    moreover have "tally advs ?b (Suc n) = (b', n')"
      using "2.prems"(2) Some by (simp add: bucket_def)
    moreover have "hash a \<noteq> NoVote" using Some by (auto simp: tally_key_def)
    ultimately show ?thesis
      using "2.IH"(2)[OF Some, of "bucket b key"] Some by (simp add: bucket_def responding_def bucket_set [unfolded bucket_def])
  qed
qed

lemma tally_entries:
  assumes "tally advs [] 0 = (b, n)"
  shows "(k, ps) \<in> set b \<longleftrightarrow> ps = voters k advs \<and> ps \<noteq> []"
    and "n = responding advs"
proof -
  have "tally_ok []" by (simp add: tally_ok_def js_map)
  from tally_correct [OF this assms] have ok: "tally_ok b" "\<forall>k. bucket b k = voters k advs"
    and n: "n = responding advs" by (simp_all add: bucket_def js_map)
  show "n = responding advs" by (rule n)
  have "(k, ps) \<in> set b \<longleftrightarrow> map_get b k = Some ps"
    using ok(1) by (simp add: tally_ok_def map_get_iff_in)
  also have "\<dots> \<longleftrightarrow> ps = voters k advs \<and> ps \<noteq> []"
    using ok(1) ok(2) [rule_format, of k] unfolding bucket_def tally_ok_def by (cases "map_get b k") auto
  finally show "(k, ps) \<in> set b \<longleftrightarrow> ps = voters k advs \<and> ps \<noteq> []" .
qed

lemma best_bucket_max:
  "best_bucket bs best = (k, ps) \<Longrightarrow>
     length (snd best) \<le> length ps \<and> (\<forall>(k', ps')\<in>set bs. length ps' \<le> length ps)
   \<and> ((k, ps) = best \<or> (\<exists>k'. k = Some k' \<and> (k', ps) \<in> set bs))"
  by (induction bs best rule: best_bucket.induct) (fastforce split: if_splits)+

section \<open>The decision\<close>

definition tip_votes :: "advertisement list \<Rightarrow> bool" where
  "tip_votes advs \<longleftrightarrow> (\<exists>a\<in>set advs. \<exists>h. hash a = TipHash h)"

lemma voters_nonempty: "voters k advs \<noteq> [] \<longleftrightarrow> (\<exists>a\<in>set advs. tally_key (hash a) = Some k)"
  by (auto simp: voters_def filter_empty_conv)

lemma tally_key_tip: "tally_key v = Some k \<Longrightarrow> k \<noteq> UNKNOWN_DOC_TALLY_KEY \<Longrightarrow> \<exists>h. v = TipHash h \<and> k = tipsHashToHex h"
  by (cases v) auto

lemma eligible_entries:
  assumes "tally advs [] 0 = (b, n)"
  shows "(k, ps) \<in> set (eligible_buckets b) \<longleftrightarrow>
    ps = voters k advs \<and> ps \<noteq> [] \<and> (tip_votes advs \<longrightarrow> k \<noteq> UNKNOWN_DOC_TALLY_KEY)"
proof -
  have "list_ex (\<lambda>k. k \<noteq> UNKNOWN_DOC_TALLY_KEY) (map fst b) \<longleftrightarrow>
      (\<exists>k ps. (k, ps) \<in> set b \<and> k \<noteq> UNKNOWN_DOC_TALLY_KEY)"
    by (force simp: list_ex_iff)
  also have "\<dots> \<longleftrightarrow> (\<exists>k. k \<noteq> UNKNOWN_DOC_TALLY_KEY \<and> voters k advs \<noteq> [])"
    unfolding tally_entries(1)[OF assms] by blast
  also have "\<dots> \<longleftrightarrow> tip_votes advs"
  proof
    assume "\<exists>k. k \<noteq> UNKNOWN_DOC_TALLY_KEY \<and> voters k advs \<noteq> []"
    then show "tip_votes advs" by (auto simp: voters_nonempty tip_votes_def dest!: tally_key_tip)
  next
    assume "tip_votes advs"
    then obtain a h where "a \<in> set advs" "hash a = TipHash h" by (auto simp: tip_votes_def)
    then have "voters (tipsHashToHex h) advs \<noteq> []" unfolding voters_nonempty by (intro bexI[of _ a]) simp_all
    then show "\<exists>k. k \<noteq> UNKNOWN_DOC_TALLY_KEY \<and> voters k advs \<noteq> []" using hex_not_unknown by blast
  qed
  finally have "set (eligible_buckets b) = {(k, ps) \<in> set b. tip_votes advs \<longrightarrow> k \<noteq> UNKNOWN_DOC_TALLY_KEY}"
    by (auto simp: eligible_buckets_def Let_def)
  then show ?thesis by (simp add: tally_entries(1)[OF assms] conj_assoc)
qed

definition q_num :: "nat \<Rightarrow> jsnum" where
  "q_num q = Fin (of_nat q)"

lemma q_num_simps: "is_integer (q_num q)" "num_less (q_num q) 1 \<longleftrightarrow> q < 1" "nat (num_floor (q_num q)) = q"
  by (simp_all add: q_num_def jsnum_defs)

lemma positive_q: "1 \<le> q \<Longrightarrow> (\<not> is_integer (q_num q) \<or> num_less (q_num q) 1) = False"
  by (simp add: q_num_simps)

text \<open>The winning bucket, as a relation: the voters of a key, at least as many as of any other eligible key.\<close>

definition winner :: "advertisement list \<Rightarrow> string \<Rightarrow> bool" where
  "winner advs k \<longleftrightarrow> voters k advs \<noteq> [] \<and> (tip_votes advs \<longrightarrow> k \<noteq> UNKNOWN_DOC_TALLY_KEY)
     \<and> (\<forall>k'. (tip_votes advs \<longrightarrow> k' \<noteq> UNKNOWN_DOC_TALLY_KEY) \<longrightarrow> length (voters k' advs) \<le> length (voters k advs))"

lemma responding_pos: "0 < responding advs \<longleftrightarrow> (\<exists>k. voters k advs \<noteq> [])"
proof -
  have "0 < responding advs \<longleftrightarrow> (\<exists>a\<in>set advs. tally_key (hash a) \<noteq> None)"
    by (auto simp: responding_def tk.key_None filter_empty_conv)
  then show ?thesis by (auto simp: voters_nonempty)
qed

lemma eligible_exists:
  assumes "voters k advs \<noteq> []"
  shows "\<exists>k'. voters k' advs \<noteq> [] \<and> (tip_votes advs \<longrightarrow> k' \<noteq> UNKNOWN_DOC_TALLY_KEY)"
proof (cases "tip_votes advs")
  case True
  then obtain a h where "a \<in> set advs" "tally_key (hash a) = Some (tipsHashToHex h)"
    by (auto simp: tip_votes_def)
  then show ?thesis using hex_not_unknown by (metis voters_nonempty)
next
  case False
  with assms show ?thesis by blast
qed

lemma best_bucket_winner:
  assumes "tally advs [] 0 = (b, n)" "best_bucket (eligible_buckets b) (None, []) = (bk, bp)" "n \<noteq> 0"
  shows "\<exists>k. bk = Some k \<and> bp = voters k advs \<and> winner advs k"
proof -
  let ?el = "\<lambda>k. tip_votes advs \<longrightarrow> k \<noteq> UNKNOWN_DOC_TALLY_KEY"
  have mem: "(k, ps) \<in> set (eligible_buckets b) \<longleftrightarrow> ps = voters k advs \<and> ps \<noteq> [] \<and> ?el k" for k ps
    by (rule eligible_entries [OF assms(1)])
  have "n = responding advs" by (rule tally_entries(2) [OF assms(1)])
  then obtain k0 where k0: "voters k0 advs \<noteq> []" "?el k0"
    using assms(3) eligible_exists responding_pos[of advs] by blast
  have mx: "length (voters k advs) \<le> length bp" if "?el k" for k
  proof (cases "voters k advs = []")
    case False
    with mem that have "(k, voters k advs) \<in> set (eligible_buckets b)" by blast
    with best_bucket_max [OF assms(2)] show ?thesis by blast
  qed simp
  with k0 have "bp \<noteq> []" by fastforce
  then obtain k where "bk = Some k" "(k, bp) \<in> set (eligible_buckets b)"
    using best_bucket_max [OF assms(2)] by auto
  then show ?thesis using mem mx by (auto simp: winner_def)
qed

lemma decide_cases:
  assumes "1 \<le> q"
  shows "(responding advs = 0 \<and> (\<exists>r. decideLoadQuorum advs (q_num q) = Ok (Refused r 0 q [])))
   \<or> (\<exists>k. winner advs k \<and> length (voters k advs) < q
        \<and> (\<exists>s. decideLoadQuorum advs (q_num q) =
             Ok (Refused (if responding advs < q then Insufficient_responses else No_majority) (responding advs) q s)))
   \<or> (\<exists>k. winner advs k \<and> q \<le> length (voters k advs)
        \<and> decideLoadQuorum advs (q_num q) =
            Ok (Agreed (if k = UNKNOWN_DOC_TALLY_KEY then New_doc else Tip_hash) k (voters k advs) (responding advs) q))"
proof -
  obtain b n where t: "tally advs [] 0 = (b, n)" by fastforce
  have n: "n = responding advs" by (rule tally_entries(2) [OF t])
  obtain bk bp where bb: "best_bucket (eligible_buckets b) (None, []) = (bk, bp)" by fastforce
  show ?thesis
  proof (cases "responding advs = 0")
    case True
    then show ?thesis
      using t n assms by (cases "advs = []") (auto simp: decideLoadQuorum_def positive_q assms q_num_simps Let_def)
  next
    case False
    with n have "n \<noteq> 0" by simp
    from best_bucket_winner [OF t bb this] obtain k where k: "bk = Some k" "bp = voters k advs" "winner advs k" by blast
    have "advs \<noteq> []" using False by (auto simp: responding_def)
    then have "decideLoadQuorum advs (q_num q) =
      (if length (voters k advs) < q
       then Ok (Refused (if responding advs < q then Insufficient_responses else No_majority) (responding advs) q (summary b))
       else Ok (Agreed (if k = UNKNOWN_DOC_TALLY_KEY then New_doc else Tip_hash) k (voters k advs) (responding advs) q))"
      using t n bb k False assms by (simp add: decideLoadQuorum_def positive_q q_num_simps Let_def)
    with k(3) show ?thesis by (cases "length (voters k advs) < q") auto
  qed
qed

lemma winner_le: "winner advs k \<Longrightarrow> winner advs k' \<Longrightarrow> length (voters k' advs) \<le> length (voters k advs)"
  unfolding winner_def by blast

lemma winner_agrees:
  assumes "1 \<le> q" "winner advs k"
  shows "(\<exists>kind key ps rc q'. decideLoadQuorum advs (q_num q) = Ok (Agreed kind key ps rc q')) \<longleftrightarrow> q \<le> length (voters k advs)"
proof -
  have same: "length (voters k' advs) = length (voters k advs)" if "winner advs k'" for k'
    using that assms(2) by (intro le_antisym winner_le)
  have "responding advs \<noteq> 0" using assms(2) responding_pos[of advs] by (auto simp: winner_def)
  with decide_cases [OF assms(1), of advs] consider
      (refused) k' r s where "winner advs k'" "length (voters k' advs) < q"
        "decideLoadQuorum advs (q_num q) = Ok (Refused r (responding advs) q s)"
    | (agreed) k' kind where "winner advs k'" "q \<le> length (voters k' advs)"
        "decideLoadQuorum advs (q_num q) = Ok (Agreed kind k' (voters k' advs) (responding advs) q)"
    by blast
  then show ?thesis by cases (use same in auto)
qed

lemma votes_nonempty: "votes_for v advs \<noteq> [] \<longleftrightarrow> v \<in> hash ` set advs"
  by (auto simp: votes_for_def filter_empty_conv)

lemma winner_exists: "responding advs \<noteq> 0 \<Longrightarrow> \<exists>k. winner advs k"
  using decide_cases[of 1 advs] by auto

lemma winner_tip:
  assumes "winner advs k" "tip_votes advs"
  shows "\<exists>h. k = tipsHashToHex h \<and> voters k advs = votes_for (TipHash h) advs"
proof -
  from assms have "voters k advs \<noteq> []" "k \<noteq> UNKNOWN_DOC_TALLY_KEY" by (simp_all add: winner_def)
  then show ?thesis unfolding voters_nonempty using tally_key_tip voters_hex by metis
qed

lemma winner_unknown:
  assumes "winner advs k" "\<not> tip_votes advs"
  shows "k = UNKNOWN_DOC_TALLY_KEY"
proof (rule ccontr)
  assume "k \<noteq> UNKNOWN_DOC_TALLY_KEY"
  moreover from assms have "voters k advs \<noteq> []" by (simp add: winner_def)
  ultimately show False
    using assms(2) tally_key_tip unfolding tip_votes_def voters_nonempty by blast
qed

lemma winner_max_tip: "winner advs k \<Longrightarrow> length (votes_for (TipHash h) advs) \<le> length (voters k advs)"
  using hex_not_unknown[of h] unfolding winner_def voters_hex [symmetric] by blast

lemma tip_votes_responding: "tip_votes advs \<Longrightarrow> responding advs \<noteq> 0"
  by (auto simp: tip_votes_def responding_def filter_empty_conv) force

lemma enough_tip_votes: "1 \<le> q \<Longrightarrow> q \<le> length (votes_for (TipHash h) advs) \<Longrightarrow> tip_votes advs"
proof -
  assume "1 \<le> q" "q \<le> length (votes_for (TipHash h) advs)"
  then have "votes_for (TipHash h) advs \<noteq> []" by auto
  then show ?thesis unfolding votes_nonempty tip_votes_def by (metis imageE)
qed

lemma decide_agreed:
  assumes "1 \<le> q" "decideLoadQuorum advs (q_num q) = Ok (Agreed kind key ps rc q')"
  shows "q' = q \<and> rc = responding advs \<and> winner advs key \<and> ps = voters key advs \<and> q \<le> length ps
     \<and> kind = (if key = UNKNOWN_DOC_TALLY_KEY then New_doc else Tip_hash)"
  using decide_cases [OF assms(1), of advs] assms(2) by auto

lemma agreed_if_winner: "1 \<le> q \<Longrightarrow> winner advs k \<Longrightarrow> q \<le> length (voters k advs) \<Longrightarrow>
  \<exists>kind key ps rc q'. decideLoadQuorum advs (q_num q) = Ok (Agreed kind key ps rc q')"
  using winner_agrees by blast

lemma decide_tip_iff:
  assumes "1 \<le> q"
  shows "(\<exists>key ps rc q'. decideLoadQuorum advs (q_num q) = Ok (Agreed Tip_hash key ps rc q'))
           \<longleftrightarrow> (\<exists>h. q \<le> length (votes_for (TipHash h) advs))"
proof
  assume "\<exists>key ps rc q'. decideLoadQuorum advs (q_num q) = Ok (Agreed Tip_hash key ps rc q')"
  then obtain key ps rc q' where d: "decideLoadQuorum advs (q_num q) = Ok (Agreed Tip_hash key ps rc q')" by blast
  from decide_agreed [OF assms d] winner_unknown [of advs key] winner_tip [of advs key]
  show "\<exists>h. q \<le> length (votes_for (TipHash h) advs)" by (cases "tip_votes advs") auto
next
  assume "\<exists>h. q \<le> length (votes_for (TipHash h) advs)"
  then obtain h where h: "q \<le> length (votes_for (TipHash h) advs)" by blast
  then have tv: "tip_votes advs" using enough_tip_votes assms by blast
  then obtain k where k: "winner advs k" using tip_votes_responding winner_exists by blast
  with h have "q \<le> length (voters k advs)" using winner_max_tip[of advs k h] by simp
  from agreed_if_winner [OF assms k this] obtain kind key ps rc q' where
    d: "decideLoadQuorum advs (q_num q) = Ok (Agreed kind key ps rc q')" by blast
  from decide_agreed [OF assms d] tv have "kind = Tip_hash" by (auto simp: winner_def)
  with d show "\<exists>key ps rc q'. decideLoadQuorum advs (q_num q) = Ok (Agreed Tip_hash key ps rc q')" by blast
qed

lemma decide_new_iff:
  assumes "1 \<le> q"
  shows "(\<exists>key ps rc q'. decideLoadQuorum advs (q_num q) = Ok (Agreed New_doc key ps rc q'))
           \<longleftrightarrow> \<not> tip_votes advs \<and> q \<le> length (votes_for UnknownDoc advs)"
proof
  assume "\<exists>key ps rc q'. decideLoadQuorum advs (q_num q) = Ok (Agreed New_doc key ps rc q')"
  then obtain key ps rc q' where d: "decideLoadQuorum advs (q_num q) = Ok (Agreed New_doc key ps rc q')" by blast
  from decide_agreed [OF assms d] show "\<not> tip_votes advs \<and> q \<le> length (votes_for UnknownDoc advs)"
    by (auto simp: winner_def voters_unknown split: if_splits)
next
  assume r: "\<not> tip_votes advs \<and> q \<le> length (votes_for UnknownDoc advs)"
  then have "voters UNKNOWN_DOC_TALLY_KEY advs \<noteq> []" using assms by (auto simp: voters_unknown)
  then obtain k where k: "winner advs k" using responding_pos winner_exists by blast
  then have "k = UNKNOWN_DOC_TALLY_KEY" using r winner_unknown by blast
  with agreed_if_winner [OF assms k] r obtain kind key ps rc q' where
    d: "decideLoadQuorum advs (q_num q) = Ok (Agreed kind key ps rc q')" by (auto simp: voters_unknown)
  from decide_agreed [OF assms d] r winner_unknown[of advs key] have "kind = New_doc" by simp
  with d show "\<exists>key ps rc q'. decideLoadQuorum advs (q_num q) = Ok (Agreed New_doc key ps rc q')" by blast
qed

section \<open>Properties of the decision\<close>

text \<open>
  Claim C4.  Soundness of the quorum decision.  When the decision is to load a tip set, the winning hex is
  that of a hash \<open>h\<close> which at least \<open>q\<close> advertisements carry, the agreeing peers are exactly the peers that
  advertised \<open>h\<close>, and no other hash had more votes.  When the decision is to create the document, no peer
  advertised any hash and at least \<open>q\<close> peers disclaimed the document.
\<close>

theorem quorum_decision_sound:
  assumes "1 \<le> q" "decideLoadQuorum advs (q_num q) = Ok (Agreed kind key ps rc q')"
  shows "q \<le> length ps \<and>
    (case kind of
       Tip_hash \<Rightarrow> (\<exists>h. key = tipsHashToHex h \<and> ps = votes_for (TipHash h) advs
          \<and> (\<forall>h'. length (votes_for (TipHash h') advs) \<le> length ps))
     | New_doc \<Rightarrow> \<not> tip_votes advs \<and> ps = votes_for UnknownDoc advs)"
proof -
  from decide_agreed [OF assms] have w: "winner advs key" "ps = voters key advs" "q \<le> length ps"
    and k: "kind = (if key = UNKNOWN_DOC_TALLY_KEY then New_doc else Tip_hash)" by auto
  show ?thesis
  proof (cases "tip_votes advs")
    case True
    with winner_tip [OF w(1)] w k winner_max_tip [OF w(1)] hex_not_unknown show ?thesis by auto
  next
    case False
    with winner_unknown [OF w(1)] w k show ?thesis by (simp add: voters_unknown)
  qed
qed

text \<open>
  Completeness of the quorum decision: a tip set is loaded exactly when some hash has at least
  \<open>q\<close> votes, and the document is created exactly when nobody advertised a hash and at least \<open>q\<close> peers
  disclaimed it; so unrelated peers that merely do not hold the document never outvote one that does.
\<close>

theorem quorum_decision_complete:
  assumes "1 \<le> q"
  shows "((\<exists>key ps rc q'. decideLoadQuorum advs (q_num q) = Ok (Agreed Tip_hash key ps rc q'))
            \<longleftrightarrow> (\<exists>h. q \<le> length (votes_for (TipHash h) advs)))
       \<and> ((\<exists>key ps rc q'. decideLoadQuorum advs (q_num q) = Ok (Agreed New_doc key ps rc q'))
            \<longleftrightarrow> \<not> tip_votes advs \<and> q \<le> length (votes_for UnknownDoc advs))"
  using decide_tip_iff [OF assms] decide_new_iff [OF assms] by blast

lemma faulty_votes_bound:
  assumes "\<forall>a\<in>set advs. peerId a \<notin> faulty \<longrightarrow> hash a = v" "w \<noteq> v"
  shows "length (votes_for w advs) \<le> length (filter (\<lambda>a. peerId a \<in> faulty) advs)"
  using assms by (induction advs) (auto simp: votes_for_def)

lemma honest_votes:
  assumes "\<forall>a\<in>set advs. peerId a \<notin> faulty \<longrightarrow> hash a = v"
  shows "length advs - length (filter (\<lambda>a. peerId a \<in> faulty) advs) \<le> length (votes_for v advs)"
  using assms by (induction advs) (auto simp: votes_for_def)

lemma faulty_count:
  assumes "distinct (map peerId advs)"
  shows "length (filter (\<lambda>a. peerId a \<in> faulty) advs) = card (faulty \<inter> set (map peerId advs))"
proof -
  have "distinct (map peerId (filter (\<lambda>a. peerId a \<in> faulty) advs))"
    by (rule distinct_map_filter [OF assms])
  moreover have "set (map peerId (filter (\<lambda>a. peerId a \<in> faulty) advs)) = faulty \<inter> set (map peerId advs)" by auto
  ultimately show ?thesis by (metis distinct_card length_map)
qed

text \<open>
  Fault tolerance of the default threshold.  Probe \<open>k \<ge> 1\<close> distinct peers of which at most
  \<open>(k - 1) div 2\<close> are faulty, answer arbitrarily or not at all; if the other peers all hold the document and
  advertise its hash \<open>h\<close>, then with the default threshold the decision is to load \<open>h\<close>, and every honest
  peer is in the agreeing cohort.
\<close>

theorem quorum_tolerates_faulty_minority:
  assumes "distinct (map peerId advs)" "advs \<noteq> []"
    and "\<forall>a\<in>set advs. peerId a \<notin> faulty \<longrightarrow> hash a = TipHash h"
    and "card (faulty \<inter> set (map peerId advs)) \<le> (length advs - 1) div 2"
    and "q = nat (defaultQuorumQ (int (length advs)))"
  shows "\<exists>ps rc. decideLoadQuorum advs (q_num q) = Ok (Agreed Tip_hash (tipsHashToHex h) ps rc q)
     \<and> (\<forall>a\<in>set advs. peerId a \<notin> faulty \<longrightarrow> peerId a \<in> set ps)"
proof -
  let ?k = "length advs" and ?f = "length (filter (\<lambda>a. peerId a \<in> faulty) advs)"
  have f: "?f \<le> (?k - 1) div 2" using assms(4) faulty_count [OF assms(1)] by simp
  have q: "q = ?k div 2 + 1" using assms(2,5) by (auto simp: defaultQuorumQ_def nat_add_distrib nat_div_distrib)
  have k: "1 \<le> ?k" using assms(2) by (cases advs) auto
  have hv: "q \<le> length (votes_for (TipHash h) advs)"
    using honest_votes [OF assms(3)] f q k by linarith
  have "1 \<le> q" using q by simp
  then obtain key ps rc q' where d: "decideLoadQuorum advs (q_num q) = Ok (Agreed Tip_hash key ps rc q')"
    using decide_tip_iff hv by blast
  from decide_agreed [OF \<open>1 \<le> q\<close> d] winner_tip enough_tip_votes [OF \<open>1 \<le> q\<close> hv]
  obtain h' where h': "key = tipsHashToHex h'" "ps = votes_for (TipHash h') advs" "q \<le> length ps" "q' = q" by blast
  have "h' = h"
  proof (rule ccontr)
    assume "h' \<noteq> h"
    then have "length ps \<le> ?f" using faulty_votes_bound [OF assms(3)] h'(2) by simp
    with h'(3) f q k show False by linarith
  qed
  with d h' have "decideLoadQuorum advs (q_num q) = Ok (Agreed Tip_hash (tipsHashToHex h) ps rc q)" by simp
  moreover have "\<forall>a\<in>set advs. peerId a \<notin> faulty \<longrightarrow> peerId a \<in> set ps"
    using assms(3) h'(2) \<open>h' = h\<close> by (auto simp: votes_for_def)
  ultimately show ?thesis by blast
qed

section \<open>Thresholds, peers, comparison\<close>

lemma effectiveK_bounds: "0 \<le> effectiveK cK n" "effectiveK cK n \<le> int n"
  by (cases cK; auto simp: effectiveK_def min_def floor_mono le_floor_iff floor_le_iff)+

lemma effectiveQ_bounds: "0 < k \<Longrightarrow> 1 \<le> effectiveQ cQ k" "0 < k \<Longrightarrow> effectiveQ cQ k \<le> k"
  by (cases cQ; auto simp: effectiveQ_def defaultQuorumQ_def le_floor_iff floor_le_iff)+

text \<open>
  The clamps keep the gate meaningful for every configured number, \<^verbatim>\<open>NaN\<close>, infinities and
  fractions included: the number of probed peers is an integer between 0 and the number of known peers,
  the threshold for \<open>k \<ge> 1\<close> probed peers is an integer between 1 and \<open>k\<close>, and the default threshold is a
  strict majority of \<open>k\<close>.
\<close>

theorem quorum_thresholds_bounded:
  assumes "0 < k"
  shows "0 \<le> effectiveK cK n \<and> effectiveK cK n \<le> int n
     \<and> 1 \<le> effectiveQ cQ k \<and> effectiveQ cQ k \<le> k
     \<and> k < 2 * defaultQuorumQ k \<and> defaultQuorumQ k \<le> k"
  using assms effectiveK_bounds effectiveQ_bounds by (auto simp: defaultQuorumQ_def)

lemma find_skip_other: "\<not> P p \<Longrightarrow> find P (xs @ p # ys) = find P (xs @ ys)"
  by (induction xs) auto

lemma find_skip_later: "q \<in> set xs \<Longrightarrow> P q \<Longrightarrow> find P (xs @ ys) = find P xs"
  by (induction xs) auto

lemma find_skip: "q \<in> set xs \<Longrightarrow> f q = f p \<Longrightarrow> find (\<lambda>z. f z = x) (xs @ p # ys) = find (\<lambda>z. f z = x) (xs @ ys)"
  by (cases "f p = x") (simp_all add: find_skip_other find_skip_later)

lemma dedupe_loop_correct:
  assumes "distinct (map f out)" "set seen = f ` set out"
  shows "\<exists>kept. dedupe_loop f peers seen out = out @ kept \<and> subseq kept peers
     \<and> distinct (map f (out @ kept)) \<and> f ` set (out @ kept) = f ` set (out @ peers)
     \<and> (\<forall>x. find (\<lambda>p. f p = x) (out @ kept) = find (\<lambda>p. f p = x) (out @ peers))"
  using assms
proof (induction peers arbitrary: seen out)
  case (Cons p peers)
  show ?case
  proof (cases "f p \<in> set seen")
    case True
    from Cons.IH [OF Cons.prems] obtain kept where kept: "dedupe_loop f peers seen out = out @ kept"
      "subseq kept peers" "distinct (map f (out @ kept))" "f ` set (out @ kept) = f ` set (out @ peers)"
      "\<forall>x. find (\<lambda>p. f p = x) (out @ kept) = find (\<lambda>p. f p = x) (out @ peers)" by blast
    from True Cons.prems(2) obtain p' where "p' \<in> set out" "f p' = f p" by auto
    then have drop: "find (\<lambda>z. f z = x) (out @ p # peers) = find (\<lambda>z. f z = x) (out @ peers)" for x
      by (rule find_skip)
    have "f ` set (out @ p # peers) = f ` set (out @ peers)"
      using \<open>p' \<in> set out\<close> \<open>f p' = f p\<close> [symmetric] by auto
    with True kept drop show ?thesis by (intro exI[of _ kept]) (simp add: Let_def list_emb_Cons)
  next
    case False
    then have "distinct (map f (out @ [p]))" "set (set_add (f p) seen) = f ` set (out @ [p])"
      using Cons.prems by auto
    from Cons.IH [OF this] obtain kept where kept: "dedupe_loop f peers (set_add (f p) seen) (out @ [p]) = out @ p # kept"
      "subseq kept peers" "distinct (map f (out @ p # kept))" "f ` set (out @ p # kept) = f ` set (out @ p # peers)"
      "\<forall>x. find (\<lambda>p. f p = x) (out @ p # kept) = find (\<lambda>p. f p = x) (out @ p # peers)" by auto
    with False show ?thesis by (intro exI[of _ "p # kept"]) (simp add: Let_def)
  qed
qed auto

text \<open>
  Deduplication gives each remote peer one vote: the result is a subsequence of the input with
  pairwise distinct peer ids, covers every id of the input, and keeps for each id the first entry seen.
\<close>

theorem dedupe_one_entry_per_peer:
  "subseq (dedupePeersByPeerId peers f) peers \<and> distinct (map f (dedupePeersByPeerId peers f))
   \<and> f ` set (dedupePeersByPeerId peers f) = f ` set peers
   \<and> (\<forall>x. find (\<lambda>p. f p = x) (dedupePeersByPeerId peers f) = find (\<lambda>p. f p = x) peers)"
  using dedupe_loop_correct[of f "[]" "[]" peers] by (auto simp: dedupePeersByPeerId_def)

lemma or_nat_eq_0: "((x :: nat) OR y = 0) \<longleftrightarrow> x = 0 \<and> y = 0"
  by (simp add: or_eq_0_iff)

lemma xor_nat_eq_0: "((x :: nat) XOR y = 0) \<longleftrightarrow> x = y"
  by (metis xor.assoc xor.left_neutral xor.right_neutral xor_self_eq)

lemma hex_diff_eq_0:
  "hex_diff a b i n d = 0 \<longleftrightarrow> d = 0 \<and> (\<forall>j. i \<le> j \<and> j < i + n \<longrightarrow> char_code_at a j = char_code_at b j)"
proof (induction a b i n d rule: hex_diff.induct)
  case (2 a b i n d)
  have "(\<forall>j. i \<le> j \<and> j < i + Suc n \<longrightarrow> char_code_at a j = char_code_at b j) \<longleftrightarrow>
    char_code_at a i = char_code_at b i \<and> (\<forall>j. Suc i \<le> j \<and> j < Suc i + n \<longrightarrow> char_code_at a j = char_code_at b j)"
    by (metis Suc_leD Suc_leI add_Suc add_Suc_right le_eq_less_or_eq less_add_Suc1)
  then show ?case using 2 by (simp add: or_nat_eq_0 xor_nat_eq_0)
qed auto

text \<open>
  The constant-time comparison used by the post-load binding check decides string equality, for
  strings of any, also different, lengths.
\<close>

theorem constant_time_hex_equals_correct: "constantTimeHexEquals a b \<longleftrightarrow> a = b"
proof -
  have "constantTimeHexEquals a b \<longleftrightarrow> length a = length b \<and> (\<forall>j < length a. char_code_at a j = char_code_at b j)"
    by (auto simp: constantTimeHexEquals_def hex_diff_eq_0 xor_nat_eq_0)
  also have "\<dots> \<longleftrightarrow> a = b" by (auto simp: char_code_at_def list_eq_iff_nth_eq)
  finally show ?thesis .
qed

section \<open>Witnesses\<close>

definition demo_advs :: "advertisement list" where
  "demo_advs = [\<lparr>peerId = ''p'', hash = TipHash [7]\<rparr>, \<lparr>peerId = ''q'', hash = UnknownDoc\<rparr>,
     \<lparr>peerId = ''r'', hash = TipHash [7]\<rparr>]"

lemma demo_decision: "decideLoadQuorum demo_advs (q_num 2) = Ok (Agreed Tip_hash ''07'' [''p'', ''r''] 3 2)"
  by (simp add: demo_advs_def decideLoadQuorum_def q_num_def jsnum_defs tally_key_def tipsHashToHex_hex
      byte_hex_two hex_digit_def map_get_def map_set_def UNKNOWN_DOC_TALLY_KEY_def eligible_buckets_def Let_def)

theorem quorum_decision_sound_witness: "length [''p'', ''r''] \<ge> 2 \<and> (\<exists>h. ''07'' = tipsHashToHex h)"
  using quorum_decision_sound [OF _ demo_decision] by auto

theorem quorum_decision_complete_witness: "\<exists>h. 2 \<le> length (votes_for (TipHash h) demo_advs)"
  using quorum_decision_complete [of 2 demo_advs] demo_decision by force

theorem quorum_tolerates_faulty_minority_witness:
  "\<exists>ps rc. decideLoadQuorum demo_advs (q_num 2) = Ok (Agreed Tip_hash (tipsHashToHex [7]) ps rc 2)"
proof -
  have "distinct (map peerId demo_advs)" "demo_advs \<noteq> []"
    "\<forall>a\<in>set demo_advs. peerId a \<notin> {''q''} \<longrightarrow> hash a = TipHash [7]"
    "card ({''q''} \<inter> set (map peerId demo_advs)) \<le> (length demo_advs - 1) div 2"
    "2 = nat (defaultQuorumQ (int (length demo_advs)))"
    by (simp_all add: demo_advs_def defaultQuorumQ_def)
  from quorum_tolerates_faulty_minority [OF this] show ?thesis by blast
qed

theorem quorum_thresholds_bounded_witness:
  "effectiveK NaN 5 = 0 \<and> effectiveQ PosInf 3 = 2 \<and> 1 \<le> effectiveQ PosInf 3 \<and> effectiveQ PosInf 3 \<le> 3"
  using quorum_thresholds_bounded [of 3 NaN 5 PosInf]
  by (simp add: effectiveK_def effectiveQ_def defaultQuorumQ_def)

end
