(* ===== verification/LoadOrchestrator.thy ===== *)
theory LoadOrchestrator
  imports LoadQuorumCorrect
begin

text \<open>
  The probe round of \<^verbatim>\<open>packages/collabswarm/src/load-quorum-orchestrator.ts\<close>: \<^verbatim>\<open>runLoadQuorum\<close> validates the
  configuration, clamps K and Q, probes the first K peers, decides, and narrows the peer list to the
  agreeing cohort.  The network probe is an argument that returns a vote or throws.  Console output is
  not modelled.
\<close>

record orchestrator_config =
  enabled :: "bool option"
  cfg_k :: "jsnum option"
  cfg_q :: "jsnum option"
  timeoutMs :: "jsnum option"
  allowSinglePeer :: "bool option"

datatype 'p orchestrator_result = Skipped | NewDoc | Narrowed "'p list" string

definition quorum_failure :: "string \<Rightarrow> failed_reason \<Rightarrow> nat \<Rightarrow> nat \<Rightarrow> (string, nat) jsmap \<Rightarrow> quorum_error" where
  "quorum_failure path r respondingCount required agr = \<lparr>documentPath = path, reason = r,
     err_respondingCount = respondingCount, requiredQ = required, agreement = agr, detail = None\<rparr>"

text \<open>A probe that throws is recorded as a non-vote.\<close>

definition contained_probe :: "('p \<Rightarrow> string + vote) \<Rightarrow> 'p \<Rightarrow> vote" where
  "contained_probe probeFn peer = (case probeFn peer of Inl _ \<Rightarrow> NoVote | Inr v \<Rightarrow> v)"

definition single_peer_load ::
  "('p \<Rightarrow> string + vote) \<Rightarrow> string \<Rightarrow> 'p \<Rightarrow> quorum_error + 'p orchestrator_result" where
  "single_peer_load probeFn path probedPeer = (case contained_probe probeFn probedPeer of
     NoVote \<Rightarrow> Err (quorum_failure path Insufficient_responses 0 1 [])
   | UnknownDoc \<Rightarrow> Ok NewDoc
   | TipHash h \<Rightarrow> Ok (Narrowed [probedPeer] (tipsHashToHex h)))"

definition probe_round :: "('p \<Rightarrow> string) \<Rightarrow> ('p \<Rightarrow> string + vote) \<Rightarrow> 'p list \<Rightarrow> advertisement list" where
  "probe_round peerIdOf probeFn probedPeers =
     map (\<lambda>peer. \<lparr>peerId = peerIdOf peer, hash = contained_probe probeFn peer\<rparr>) probedPeers"

definition narrow_to_agreeing ::
  "'p list \<Rightarrow> ('p \<Rightarrow> string) \<Rightarrow> string \<Rightarrow> decision \<Rightarrow> quorum_error + 'p orchestrator_result" where
  "narrow_to_agreeing peers peerIdOf path d = (case d of
     Refused r respondingCount q agr \<Rightarrow> Err (quorum_failure path r respondingCount q agr)
   | Agreed New_doc _ _ _ _ \<Rightarrow> Ok NewDoc
   | Agreed Tip_hash winningHashHex agreeing respondingCount q \<Rightarrow>
       let narrowed = filter (\<lambda>p. peerIdOf p \<in> set agreeing) peers in
       if length narrowed = 0
       then Err (quorum_failure path No_majority respondingCount q [(winningHashHex, length agreeing)])
       else Ok (Narrowed narrowed winningHashHex))"

definition runLoadQuorum ::
  "'p list \<Rightarrow> ('p \<Rightarrow> string) \<Rightarrow> ('p \<Rightarrow> string + vote) \<Rightarrow> string \<Rightarrow> orchestrator_config
     \<Rightarrow> (string + quorum_error) + 'p orchestrator_result" where
  "runLoadQuorum peers peerIdOf probeFn path config =
     (if \<not> (case enabled config of None \<Rightarrow> True | Some b \<Rightarrow> b) then Ok Skipped
      else (case validateLoadQuorumConfig
                   \<lparr>loadQuorumK = cfg_k config, loadQuorumQ = cfg_q config, loadQuorumTimeoutMs = timeoutMs config\<rparr> of
        Inl e \<Rightarrow> Err (Inr (e\<lparr>documentPath := path\<rparr>))
      | Inr _ \<Rightarrow>
          let configuredK = (case cfg_k config of None \<Rightarrow> Fin 3 | Some x \<Rightarrow> x);
              single = (case allowSinglePeer config of None \<Rightarrow> False | Some b \<Rightarrow> b);
              k = effectiveK configuredK (length peers);
              configuredQ = (case cfg_q config of None \<Rightarrow> Fin (of_int (defaultQuorumQ k)) | Some x \<Rightarrow> x);
              q = effectiveQ configuredQ k
          in if k = 0 then Ok Skipped
             else if k = 1 \<and> \<not> single then Err (Inr (quorum_failure path Insufficient_responses 0 2 []))
             else if k = 1 \<and> single then
               (case single_peer_load probeFn path (hd peers) of Inl e \<Rightarrow> Err (Inr e) | Inr r \<Rightarrow> Ok r)
             else (case decideLoadQuorum (probe_round peerIdOf probeFn (take (nat k) peers)) (Fin (of_int q)) of
                 Inl msg \<Rightarrow> Err (Inl msg)
               | Inr d \<Rightarrow> (case narrow_to_agreeing peers peerIdOf path d of
                   Inl e \<Rightarrow> Err (Inr e) | Inr r \<Rightarrow> Ok r))))"

end
