(* ===== verification/LoadOrchestratorCorrect.thy ===== *)
theory LoadOrchestratorCorrect
  imports LoadOrchestrator
begin

text \<open>
  Correctness of the quorum orchestration: when the gate may be skipped, what a narrowed peer list
  guarantees, and that every failure is the structured quorum error of the document being loaded.
\<close>

section \<open>Configuration\<close>

definition valid_cfg :: "orchestrator_config \<Rightarrow> bool" where
  "valid_cfg c \<longleftrightarrow> validateLoadQuorumConfig
     \<lparr>loadQuorumK = cfg_k c, loadQuorumQ = cfg_q c, loadQuorumTimeoutMs = timeoutMs c\<rparr> = Ok ()"

definition is_enabled :: "orchestrator_config \<Rightarrow> bool" where
  "is_enabled c \<longleftrightarrow> enabled c \<noteq> Some False"

definition single_allowed :: "orchestrator_config \<Rightarrow> bool" where
  "single_allowed c \<longleftrightarrow> allowSinglePeer c = Some True"

definition probe_count :: "orchestrator_config \<Rightarrow> nat \<Rightarrow> nat" where
  "probe_count c n = nat (effectiveK (case cfg_k c of None \<Rightarrow> Fin 3 | Some x \<Rightarrow> x) n)"

definition threshold :: "orchestrator_config \<Rightarrow> nat \<Rightarrow> nat" where
  "threshold c k = nat (effectiveQ (case cfg_q c of None \<Rightarrow> Fin (of_int (defaultQuorumQ (int k))) | Some x \<Rightarrow> x) (int k))"

lemma cfg_k_valid: "valid_cfg c \<Longrightarrow> cfg_k c = Some x \<Longrightarrow> is_integer x \<and> \<not> num_less x 1"
  by (auto simp: valid_cfg_def validateLoadQuorumConfig_def checkPositiveInt_def try_bind_Ok_iff split: if_splits)

lemma probe_count_pos: "valid_cfg c \<Longrightarrow> 0 < n \<Longrightarrow> 0 < probe_count c n"
proof -
  assume v: "valid_cfg c" and n: "0 < n"
  let ?k = "case cfg_k c of None \<Rightarrow> Fin 3 | Some x \<Rightarrow> x"
  have "is_integer ?k \<and> \<not> num_less ?k 1"
    using cfg_k_valid [OF v] by (cases "cfg_k c") (auto simp: jsnum_defs)
  then obtain r where r: "?k = Fin r" "1 \<le> r" by (cases ?k) (auto simp: jsnum_defs)
  have "1 \<le> floor (min r (of_nat n))" using r(2) n by (simp add: le_floor_iff)
  with r n show ?thesis by (simp add: probe_count_def effectiveK_def)
qed

lemma probe_count_le: "probe_count c n \<le> n"
  using effectiveK_bounds(2)[of _ n] by (simp add: probe_count_def nat_le_iff)

lemma threshold_bounds: "0 < k \<Longrightarrow> 1 \<le> threshold c k" "0 < k \<Longrightarrow> threshold c k \<le> k"
  using effectiveQ_bounds[of "int k"
      "case cfg_q c of None \<Rightarrow> Fin (of_int (defaultQuorumQ (int k))) | Some x \<Rightarrow> x"]
  unfolding threshold_def by linarith+

lemma threshold_default: "0 < k \<Longrightarrow> cfg_q c = None \<Longrightarrow> threshold c k = k div 2 + 1"
proof -
  assume k: "0 < k" and q: "cfg_q c = None"
  have d: "defaultQuorumQ (int k) = int (k div 2 + 1)" using k by (simp add: defaultQuorumQ_def zdiv_int)
  have le: "int (k div 2 + 1) \<le> int k" using k by simp
  have "effectiveQ (Fin (of_int (int (k div 2 + 1)))) (int k) = int (k div 2 + 1)"
    using k le by (simp add: effectiveQ_def del: of_int_of_nat_eq)
  then show ?thesis by (simp add: threshold_def q d del: of_nat_add of_nat_Suc)
qed

section \<open>The run, by cases\<close>

lemma run_unfold:
  assumes "is_enabled c" "valid_cfg c"
  shows "runLoadQuorum peers f probe path c =
    (let k = probe_count c (length peers) in
     if k = 0 then Ok Skipped
     else if k = 1 \<and> \<not> single_allowed c then Err (Inr (quorum_failure path Insufficient_responses 0 2 []))
     else if k = 1 then (case single_peer_load probe path (hd peers) of Inl e \<Rightarrow> Err (Inr e) | Inr r \<Rightarrow> Ok r)
     else (case decideLoadQuorum (probe_round f probe (take k peers)) (q_num (threshold c k)) of
         Inl msg \<Rightarrow> Err (Inl msg)
       | Inr d \<Rightarrow> (case narrow_to_agreeing peers f path d of Inl e \<Rightarrow> Err (Inr e) | Inr r \<Rightarrow> Ok r)))"
proof -
  let ?K = "effectiveK (case cfg_k c of None \<Rightarrow> Fin 3 | Some x \<Rightarrow> x) (length peers)"
  have K: "?K = int (probe_count c (length peers))" using effectiveK_bounds(1) by (simp add: probe_count_def)
  have Q: "effectiveQ (case cfg_q c of None \<Rightarrow> Fin (of_int (defaultQuorumQ (int k))) | Some x \<Rightarrow> x) (int k)
      = int (threshold c k)" if "0 < k" for k
    using effectiveQ_bounds(1)[of "int k"
      "case cfg_q c of None \<Rightarrow> Fin (of_int (defaultQuorumQ (int k))) | Some x \<Rightarrow> x"] that
    unfolding threshold_def by linarith
  have e: "(case enabled c of None \<Rightarrow> True | Some b \<Rightarrow> b)" "(case allowSinglePeer c of None \<Rightarrow> False | Some b \<Rightarrow> b) = single_allowed c"
    using assms(1) by (auto simp: is_enabled_def single_allowed_def split: option.splits)
  note v = assms(2) [unfolded valid_cfg_def]
  show ?thesis
  proof (cases "probe_count c (length peers) = 0")
    case True
    then show ?thesis using e by (simp add: runLoadQuorum_def v Let_def K)
  next
    case False
    then show ?thesis using e Q [of "probe_count c (length peers)"]
      unfolding runLoadQuorum_def v Let_def K by (simp add: q_num_def)
  qed
qed

lemma run_disabled: "\<not> is_enabled c \<Longrightarrow> runLoadQuorum peers f probe path c = Ok Skipped"
  by (simp add: runLoadQuorum_def is_enabled_def)

lemma config_error_reason: "validateLoadQuorumConfig x = Err e \<Longrightarrow> reason e = Invalid_config"
  by (auto simp: validateLoadQuorumConfig_def checkPositiveInt_def checkBoundedPositiveInt_def config_error_def try_bind_def
      split: option.splits if_splits sum.splits)

lemma run_invalid: "is_enabled c \<Longrightarrow> \<not> valid_cfg c \<Longrightarrow>
  \<exists>e. runLoadQuorum peers f probe path c = Err (Inr e) \<and> documentPath e = path \<and> reason e = Invalid_config"
  by (cases "validateLoadQuorumConfig \<lparr>loadQuorumK = cfg_k c, loadQuorumQ = cfg_q c, loadQuorumTimeoutMs = timeoutMs c\<rparr>")
    (auto simp: runLoadQuorum_def valid_cfg_def is_enabled_def dest: config_error_reason split: option.splits)

section \<open>The cohort\<close>

definition advertisers :: "('p \<Rightarrow> string + vote) \<Rightarrow> vote \<Rightarrow> 'p list \<Rightarrow> 'p list" where
  "advertisers probe v ps = filter (\<lambda>p. contained_probe probe p = v) ps"

lemma votes_for_probe_round: "votes_for v (probe_round f probe ps) = map f (advertisers probe v ps)"
  by (induction ps) (simp_all add: votes_for_def probe_round_def advertisers_def)

lemma tip_votes_probe_round: "tip_votes (probe_round f probe ps) \<longleftrightarrow> (\<exists>p\<in>set ps. \<exists>h. contained_probe probe p = TipHash h)"
  by (auto simp: tip_votes_def probe_round_def)

lemma filter_ids_take:
  assumes "distinct (map f peers)"
  shows "filter (\<lambda>p. f p \<in> set (map f (filter P (take k peers)))) peers = filter P (take k peers)"
proof -
  have split: "peers = take k peers @ drop k peers" by simp
  have d: "distinct (map f (take k peers @ drop k peers))" using assms by simp
  then have inj: "inj_on f (set (take k peers))"
    and disj: "f ` set (take k peers) \<inter> f ` set (drop k peers) = {}" by (simp_all only: map_append distinct_append distinct_map set_map)
  have a: "filter (\<lambda>p. f p \<in> set (map f (filter P (take k peers)))) (take k peers) = filter P (take k peers)"
    using inj by (intro filter_cong) (auto dest: inj_onD)
  have b: "filter (\<lambda>p. f p \<in> set (map f (filter P (take k peers)))) (drop k peers) = []"
    using disj by (auto simp: filter_empty_conv)
  have "filter Q peers = filter Q (take k peers) @ filter Q (drop k peers)" for Q
    by (metis split filter_append)
  with a b show ?thesis by simp
qed

lemma narrow_agreed:
  assumes "distinct (map f peers)" "0 < q"
    and "decideLoadQuorum (probe_round f probe (take k peers)) (q_num q) = Ok (Agreed Tip_hash key as rc q')"
  shows "\<exists>h. narrow_to_agreeing peers f path (Agreed Tip_hash key as rc q')
        = Ok (Narrowed (advertisers probe (TipHash h) (take k peers)) (tipsHashToHex h))
      \<and> q \<le> length (advertisers probe (TipHash h) (take k peers))"
proof -
  let ?advs = "probe_round f probe (take k peers)"
  have q: "1 \<le> q" using assms(2) by simp
  from decide_agreed [OF q assms(3)] have w: "winner ?advs key" "as = voters key ?advs" "q \<le> length as"
    and "key \<noteq> UNKNOWN_DOC_TALLY_KEY" by (auto split: if_splits)
  then obtain h where h: "key = tipsHashToHex h" "as = map f (advertisers probe (TipHash h) (take k peers))"
    using winner_tip [OF w(1)] winner_unknown [OF w(1)] by (auto simp: votes_for_probe_round)
  have n: "filter (\<lambda>p. f p \<in> set as) peers = advertisers probe (TipHash h) (take k peers)"
    using filter_ids_take [OF assms(1)] by (simp add: h(2) advertisers_def)
  have "advertisers probe (TipHash h) (take k peers) \<noteq> []" using w(3) q h(2) by auto
  then have "narrow_to_agreeing peers f path (Agreed Tip_hash key as rc q')
        = Ok (Narrowed (advertisers probe (TipHash h) (take k peers)) (tipsHashToHex h))"
    unfolding narrow_to_agreeing_def by (simp add: n h(1) Let_def)
  with w(3) h(2) show ?thesis by auto
qed

lemma narrow_cases:
  "narrow_to_agreeing peers f path d = Ok r \<Longrightarrow>
     (\<exists>key as rc q. d = Agreed Tip_hash key as rc q \<and> (\<exists>ps. r = Narrowed ps key)) \<or>
     (\<exists>key as rc q. d = Agreed New_doc key as rc q \<and> r = NewDoc)"
  "narrow_to_agreeing peers f path d = Err e \<Longrightarrow> documentPath e = path"
  by (auto simp: narrow_to_agreeing_def quorum_failure_def Let_def split: decision.splits quorum_kind.splits if_splits)

lemma single_cases:
  "single_peer_load probe path p = Ok (Narrowed ps hex) \<longleftrightarrow> ps = [p] \<and> (\<exists>h. contained_probe probe p = TipHash h \<and> hex = tipsHashToHex h)"
  "single_peer_load probe path p = Ok NewDoc \<longleftrightarrow> contained_probe probe p = UnknownDoc"
  "single_peer_load probe path p \<noteq> Ok Skipped"
  "single_peer_load probe path p = Err e \<Longrightarrow> documentPath e = path"
  by (auto simp: single_peer_load_def quorum_failure_def split: vote.splits)

lemma decide_no_throw: "1 \<le> q \<Longrightarrow> \<exists>d. decideLoadQuorum advs (q_num q) = Ok d"
  using decide_cases[of q advs] by blast

lemma run_many:
  assumes "is_enabled c" "valid_cfg c" "2 \<le> probe_count c (length peers)" "k = probe_count c (length peers)"
  obtains d where "decideLoadQuorum (probe_round f probe (take k peers)) (q_num (threshold c k)) = Ok d"
    and "runLoadQuorum peers f probe path c
       = (case narrow_to_agreeing peers f path d of Inl e \<Rightarrow> Err (Inr e) | Inr r \<Rightarrow> Ok r)"
proof -
  have "1 \<le> threshold c k" using assms by (intro threshold_bounds) simp
  from decide_no_throw [OF this] obtain d where
    d: "decideLoadQuorum (probe_round f probe (take k peers)) (q_num (threshold c k)) = Ok d" by blast
  moreover have "runLoadQuorum peers f probe path c
       = (case narrow_to_agreeing peers f path d of Inl e \<Rightarrow> Err (Inr e) | Inr r \<Rightarrow> Ok r)"
    unfolding run_unfold [OF assms(1,2)] Let_def using assms(3) d by (simp add: assms(4))
  ultimately show thesis by (rule that)
qed

lemma probe_count_0: "valid_cfg c \<Longrightarrow> probe_count c (length peers) = 0 \<longleftrightarrow> peers = []"
  using probe_count_pos[of c "length peers"] probe_count_le[of c "length peers"] by (cases peers) auto

lemma run_one:
  assumes "is_enabled c" "valid_cfg c" "probe_count c (length peers) = 1"
  shows "runLoadQuorum peers f probe path c =
    (if single_allowed c then (case single_peer_load probe path (hd peers) of Inl e \<Rightarrow> Err (Inr e) | Inr r \<Rightarrow> Ok r)
     else Err (Inr (quorum_failure path Insufficient_responses 0 2 [])))"
  unfolding run_unfold [OF assms(1,2)] Let_def using assms(3) by simp

lemma probe_count_cases:
  assumes "valid_cfg c"
  obtains "peers = []" | "peers \<noteq> []" "probe_count c (length peers) = 1" | "peers \<noteq> []" "2 \<le> probe_count c (length peers)"
  using probe_count_0 [OF assms, of peers] by (metis One_nat_def less_2_cases_iff not_less)

lemma run_empty: "is_enabled c \<Longrightarrow> valid_cfg c \<Longrightarrow> runLoadQuorum [] f probe path c = Ok Skipped"
  using probe_count_0[of c "[]"] by (simp add: run_unfold)

lemma run_ok_valid: "runLoadQuorum peers f probe path c = Ok r \<Longrightarrow> r \<noteq> Skipped \<Longrightarrow> is_enabled c \<and> valid_cfg c"
  using run_disabled[of c peers f probe path] run_invalid[of c peers f probe path] by auto

section \<open>Properties of the gate\<close>

text \<open>
  The quorum gate is skipped only when it is switched off or there is no peer to ask: with the
  gate on and at least one known peer, \<open>runLoadQuorum\<close> never falls through to an unguarded load, whatever
  the probes answer.
\<close>

theorem quorum_gate_not_bypassed:
  "runLoadQuorum peers f probe path c = Ok Skipped \<longleftrightarrow> (if is_enabled c then valid_cfg c \<and> peers = [] else True)"
proof (cases "is_enabled c \<and> valid_cfg c")
  case False
  then show ?thesis using run_disabled[of c] run_invalid[of c] by (metis Inl_Inr_False)
next
  case True
  then have v: "is_enabled c" "valid_cfg c" by simp_all
  show ?thesis
  proof (cases rule: probe_count_cases [OF v(2), of peers])
    case 1
    then show ?thesis using v run_empty by simp
  next
    case 2
    then show ?thesis using v single_cases(3)[of probe path "hd peers"] by (auto simp: run_one split: sum.splits)
  next
    case 3
    obtain d where "runLoadQuorum peers f probe path c
       = (case narrow_to_agreeing peers f path d of Inl e \<Rightarrow> Err (Inr e) | Inr r \<Rightarrow> Ok r)"
      using run_many [OF v 3(2) refl] by blast
    then show ?thesis using v 3(1) narrow_cases(1)[of peers f path d Skipped] by (auto split: sum.split)
  qed
qed

lemma narrowed_cohort:
  assumes "distinct (map f peers)" "runLoadQuorum peers f probe path c = Ok (Narrowed ps hex)"
    and "k = probe_count c (length peers)"
  shows "\<exists>h. hex = tipsHashToHex h \<and> ps = advertisers probe (TipHash h) (take k peers) \<and> ps \<noteq> []
      \<and> (k = 1 \<longrightarrow> single_allowed c) \<and> (k \<noteq> 1 \<longrightarrow> threshold c k \<le> length ps)
      \<and> (k \<noteq> 1 \<and> cfg_q c = None \<longrightarrow> k < 2 * length ps)"
proof -
  have v: "is_enabled c" "valid_cfg c"
    using run_ok_valid [OF assms(2)] by simp_all
  show ?thesis
  proof (cases rule: probe_count_cases [OF v(2), of peers])
    case 1
    then show ?thesis using assms run_empty [OF v, of f probe path] by simp
  next
    case 2
    from 2(1) obtain p qs where p: "peers = p # qs" by (cases peers) auto
    from 2 assms(2) have "single_allowed c" "single_peer_load probe path p = Ok (Narrowed ps hex)"
      by (auto simp: run_one [OF v] p split: if_splits sum.splits)
    then show ?thesis using 2(2) assms(3) by (auto simp: single_cases p advertisers_def)
  next
    case 3
    obtain d where d: "decideLoadQuorum (probe_round f probe (take k peers)) (q_num (threshold c k)) = Ok d"
      and "runLoadQuorum peers f probe path c
         = (case narrow_to_agreeing peers f path d of Inl e \<Rightarrow> Err (Inr e) | Inr r \<Rightarrow> Ok r)"
      by (rule run_many [OF v 3(2) assms(3)])
    with assms(2) have r: "narrow_to_agreeing peers f path d = Ok (Narrowed ps hex)" by (simp split: sum.splits)
    obtain as rc q where e: "d = Agreed Tip_hash hex as rc q" using narrow_cases(1) [OF r] by auto
    have t: "0 < threshold c k" using threshold_bounds(1)[of k c] 3(2) assms(3) by simp
    from narrow_agreed [OF assms(1) t d [unfolded e], of path] r
    obtain h where h: "hex = tipsHashToHex h" "ps = advertisers probe (TipHash h) (take k peers)" "threshold c k \<le> length ps"
      by (auto simp: e)
    moreover have "cfg_q c = None \<Longrightarrow> k < 2 * length ps" using h(3) threshold_default[of k c] 3(2) assms(3) by auto
    ultimately show ?thesis using t 3(2) assms(3) by (intro exI[of _ h]) auto
  qed
qed

text \<open>
  The gate is live.  When it is on with a valid configuration, at least two peers (with distinct
  ids) are probed, and at least Q of them advertise the same tip set, the load goes ahead with a narrowed list, even if
  every other probe throws or lies.
\<close>

theorem quorum_gate_opens:
  assumes "is_enabled c" "valid_cfg c" "distinct (map f peers)"
    and "k = probe_count c (length peers)" "2 \<le> k"
    and "threshold c k \<le> length (advertisers probe (TipHash h) (take k peers))"
  shows "\<exists>ps hex. runLoadQuorum peers f probe path c = Ok (Narrowed ps hex)"
proof -
  have t: "0 < threshold c k" using threshold_bounds(1)[of k c] assms(5) by simp
  obtain d where d: "decideLoadQuorum (probe_round f probe (take k peers)) (q_num (threshold c k)) = Ok d"
    and r: "runLoadQuorum peers f probe path c
       = (case narrow_to_agreeing peers f path d of Inl e \<Rightarrow> Err (Inr e) | Inr r \<Rightarrow> Ok r)"
    using run_many [OF assms(1,2) assms(5) [unfolded assms(4)] assms(4)] by blast
  have "threshold c k \<le> length (votes_for (TipHash h) (probe_round f probe (take k peers)))"
    using assms(6) by (simp add: votes_for_probe_round)
  then obtain key as rc q where "decideLoadQuorum (probe_round f probe (take k peers)) (q_num (threshold c k))
      = Ok (Agreed Tip_hash key as rc q)"
    using decide_tip_iff t by (metis One_nat_def Suc_leI)
  from narrow_agreed [OF assms(3) t this, of path] this d r show ?thesis by auto
qed

text \<open>
  A document is created locally only on evidence: when the gate answers \<open>NewDoc\<close>, no probed
  peer advertised a tip set, and at least Q probed peers (the one probed peer, in single-peer mode)
  disclaimed the document.
\<close>

theorem quorum_new_doc_evidence:
  assumes "runLoadQuorum peers f probe path c = Ok NewDoc" "k = probe_count c (length peers)"
  shows "(\<forall>p\<in>set (take k peers). \<forall>h. contained_probe probe p \<noteq> TipHash h)
      \<and> (if k = 1 then single_allowed c \<and> advertisers probe UnknownDoc (take k peers) = take k peers
         else threshold c k \<le> length (advertisers probe UnknownDoc (take k peers)))"
proof -
  have v: "is_enabled c" "valid_cfg c"
    using run_ok_valid [OF assms(1)] by simp_all
  show ?thesis
  proof (cases rule: probe_count_cases [OF v(2), of peers])
    case 1
    then show ?thesis using assms run_empty [OF v, of f probe path] by simp
  next
    case 2
    from 2(1) obtain p qs where p: "peers = p # qs" by (cases peers) auto
    from 2 assms(1) have "single_allowed c" "single_peer_load probe path p = Ok NewDoc"
      by (auto simp: run_one [OF v] p split: if_splits sum.splits)
    then show ?thesis using 2(2) assms(2) by (auto simp: single_cases p advertisers_def)
  next
    case 3
    obtain d where d: "decideLoadQuorum (probe_round f probe (take k peers)) (q_num (threshold c k)) = Ok d"
      and "runLoadQuorum peers f probe path c
         = (case narrow_to_agreeing peers f path d of Inl e \<Rightarrow> Err (Inr e) | Inr r \<Rightarrow> Ok r)"
      by (rule run_many [OF v 3(2) assms(2)])
    with assms(1) have r: "narrow_to_agreeing peers f path d = Ok NewDoc" by (simp split: sum.splits)
    obtain key as rc q where "d = Agreed New_doc key as rc q" using narrow_cases(1) [OF r] by auto
    with d have "\<not> tip_votes (probe_round f probe (take k peers))
        \<and> threshold c k \<le> length (votes_for UnknownDoc (probe_round f probe (take k peers)))"
      using decide_new_iff[of "threshold c k" "probe_round f probe (take k peers)"] threshold_bounds(1)[of k c] 3(2) assms(2) by auto
    then show ?thesis using 3(2) assms(2) by (auto simp: tip_votes_probe_round votes_for_probe_round)
  qed
qed

text \<open>
  The error contract: whatever the configuration and the probes (throwing probes included),
  the only exception that leaves the gate is the structured quorum error, and it names the document that
  was being loaded.
\<close>

theorem quorum_errors_structured:
  assumes "runLoadQuorum peers f probe path c = Err e"
  shows "\<exists>qe. e = Inr qe \<and> documentPath qe = path"
proof (cases "is_enabled c \<and> valid_cfg c")
  case False
  then show ?thesis using assms run_disabled[of c peers f probe path] run_invalid[of c peers f probe path] by auto
next
  case True
  then have v: "is_enabled c" "valid_cfg c" by simp_all
  show ?thesis
  proof (cases rule: probe_count_cases [OF v(2), of peers])
    case 1
    then show ?thesis using run_empty [OF v, of f probe path] assms by simp
  next
    case 2
    then show ?thesis using assms single_cases(4)[of probe path "hd peers"]
      by (auto simp: run_one [OF v] quorum_failure_def split: sum.splits if_splits)
  next
    case 3
    obtain d where "runLoadQuorum peers f probe path c
       = (case narrow_to_agreeing peers f path d of Inl e \<Rightarrow> Err (Inr e) | Inr r \<Rightarrow> Ok r)"
      using run_many [OF v 3(2) refl] by blast
    then show ?thesis using assms narrow_cases(2)[of peers f path d] by (auto split: sum.splits)
  qed
qed

section \<open>A round with one liar and one dead peer\<close>

definition demo_probe :: "string \<Rightarrow> string + vote" where
  "demo_probe p = (if p = ''liar'' then Ok (TipHash [9]) else if p = ''dead'' then Err ''timeout'' else Ok (TipHash [7]))"

definition demo_q_config :: orchestrator_config where
  "demo_q_config = \<lparr>enabled = None, cfg_k = Some (Fin 4), cfg_q = Some (Fin 2), timeoutMs = None, allowSinglePeer = None\<rparr>"

abbreviation demo_peers :: "string list" where
  "demo_peers \<equiv> [''liar'', ''a'', ''dead'', ''b'', ''c'']"

lemma demo_q_valid: "is_enabled demo_q_config" "valid_cfg demo_q_config" "probe_count demo_q_config (Suc (Suc (Suc (Suc (Suc 0))))) = 4" "threshold demo_q_config 4 = 2"
  by (simp_all add: demo_q_config_def is_enabled_def valid_cfg_def validateLoadQuorumConfig_def checkPositiveInt_def
      checkBoundedPositiveInt_def jsnum_defs probe_count_def threshold_def effectiveK_def effectiveQ_def)

lemma demo_load_run: "runLoadQuorum demo_peers id demo_probe ''/doc'' demo_q_config = Ok (Narrowed [''a'', ''b''] ''07'')"
  by (simp add: run_unfold demo_q_valid probe_round_def contained_probe_def demo_probe_def)
    code_simp

text \<open>
  What a narrowed peer list guarantees.  For peers with distinct ids, the list is exactly the
  probed peers (the first K) that advertised one hash \<open>h\<close>, whose hex is the binding the loader checks
  later.  It has at least Q members, one only under the explicit single-peer setting, and with the
  default Q it is a strict majority of the probed peers.
\<close>

theorem quorum_narrowed_cohort:
  assumes "distinct (map f peers)" "runLoadQuorum peers f probe path c = Ok (Narrowed ps hex)"
    and "k = probe_count c (length peers)"
  shows "\<exists>h. hex = tipsHashToHex h \<and> ps = advertisers probe (TipHash h) (take k peers) \<and> ps \<noteq> []
      \<and> (k = 1 \<longrightarrow> single_allowed c) \<and> (k \<noteq> 1 \<longrightarrow> threshold c k \<le> length ps)
      \<and> (k \<noteq> 1 \<and> cfg_q c = None \<longrightarrow> k < 2 * length ps)"
  by (rule narrowed_cohort [OF assms])

theorem quorum_narrowed_cohort_witness:
  "\<exists>h. ''07'' = tipsHashToHex h \<and> [''a'', ''b''] = advertisers demo_probe (TipHash h) (take 4 demo_peers)"
proof -
  have d: "distinct (map id demo_peers)" by simp
  have k: "4 = probe_count demo_q_config (length demo_peers)" by (simp add: demo_q_valid)
  show ?thesis using quorum_narrowed_cohort [OF d demo_load_run k] by blast
qed

theorem quorum_gate_opens_witness: "\<exists>ps hex. runLoadQuorum demo_peers id demo_probe ''/doc'' demo_q_config = Ok (Narrowed ps hex)"
  by (rule quorum_gate_opens [OF demo_q_valid(1,2), where k = 4 and h = "[7]"])
    (simp_all add: demo_q_valid advertisers_def contained_probe_def demo_probe_def)

theorem quorum_new_doc_evidence_witness:
  "\<forall>h. contained_probe (\<lambda>_. Ok UnknownDoc) ''b'' \<noteq> TipHash h"
proof -
  have r: "runLoadQuorum demo_peers id (\<lambda>_. Ok UnknownDoc) ''/doc'' demo_q_config = Ok NewDoc"
    by (simp add: run_unfold demo_q_valid probe_round_def contained_probe_def) code_simp
  show ?thesis using quorum_new_doc_evidence [OF r refl] by (simp add: demo_q_valid)
qed

theorem quorum_errors_structured_witness:
  "\<exists>qe. runLoadQuorum demo_peers id (\<lambda>_. Err ''timeout'') ''/doc'' demo_q_config = Err (Inr qe) \<and> documentPath qe = ''/doc''"
proof -
  obtain e where r: "runLoadQuorum demo_peers id (\<lambda>_. Err ''timeout'') ''/doc'' demo_q_config = Err e"
    by (simp add: run_unfold demo_q_valid Let_def probe_round_def contained_probe_def decideLoadQuorum_def tally_key_def
        jsnum_defs q_num_def narrow_to_agreeing_def)
  show ?thesis using quorum_errors_structured [OF r] r by auto
qed

end
