(* ===== verification/TreeMath.thy ===== *)
theory TreeMath
  imports Prelude
begin

text \<open>
  The index arithmetic of \<^verbatim>\<open>packages/collabswarm/src/beekem/tree-math.ts\<close>.  Numbers are integers; the
  bitwise operators convert their operands to signed 32-bit integers and take shift counts modulo 32, as
  JavaScript does.  A call that throws returns \<open>Err\<close>; the \<^verbatim>\<open>while\<close> loops may run forever (for instance
  \<^verbatim>\<open>level(0xFFFFFFFF)\<close>), so every function that reaches one returns an option, \<open>None\<close> for a call that does
  not return.
\<close>

section \<open>The bitwise operators\<close>

definition to_int32 :: "int \<Rightarrow> int" where
  "to_int32 x = signed_take_bit 31 x"

definition js_and :: "int \<Rightarrow> int \<Rightarrow> int" where "js_and x y = to_int32 x AND to_int32 y"
definition js_or :: "int \<Rightarrow> int \<Rightarrow> int" where "js_or x y = to_int32 x OR to_int32 y"
definition js_xor :: "int \<Rightarrow> int \<Rightarrow> int" where "js_xor x y = to_int32 x XOR to_int32 y"
definition js_not :: "int \<Rightarrow> int" where "js_not x = NOT (to_int32 x)"
definition js_shl :: "int \<Rightarrow> nat \<Rightarrow> int" where "js_shl x k = to_int32 (push_bit (k mod 32) (to_int32 x))"
definition js_shr :: "int \<Rightarrow> nat \<Rightarrow> int" where "js_shr x k = drop_bit (k mod 32) (to_int32 x)"

section \<open>Results\<close>

datatype tree_error =
    Not_safe_int | Leaves_have_no_children | Root_has_no_parent | Empty_tree | Not_a_leaf_node

type_synonym 'a tree_result = "(tree_error + 'a) option"

definition tree_bind :: "'a tree_result \<Rightarrow> ('a \<Rightarrow> 'b tree_result) \<Rightarrow> 'b tree_result" where
  "tree_bind r f = (case r of None \<Rightarrow> None | Some (Inl e) \<Rightarrow> Some (Inl e) | Some (Inr v) \<Rightarrow> f v)"

lemma tree_bind_simps [simp]:
  "tree_bind None f = None"
  "tree_bind (Some (Err e)) f = Some (Err e)"
  "tree_bind (Some (Ok v)) f = f v"
  by (simp_all add: tree_bind_def)

section \<open>Nodes and levels\<close>

definition assertNonNegativeSafeInt :: "int \<Rightarrow> bool" where
  "assertNonNegativeSafeInt value \<longleftrightarrow> 0 \<le> value \<and> value \<le> 2 ^ 53 - 1"

definition isLeaf :: "int \<Rightarrow> bool" where
  "isLeaf index \<longleftrightarrow> js_and index 1 = 0"

definition isInternal :: "int \<Rightarrow> bool" where
  "isInternal index \<longleftrightarrow> js_and index 1 = 1"

partial_function (option) level_loop :: "int \<Rightarrow> nat \<Rightarrow> nat option" where
  "level_loop index k = (if js_and (js_shr index k) 1 = 1 then level_loop index (k + 1) else Some k)"

declare level_loop.simps [code]

definition level :: "int \<Rightarrow> nat tree_result" where
  "level index =
     (if \<not> assertNonNegativeSafeInt index then Some (Err Not_safe_int)
      else if js_and index 1 = 0 then Some (Ok 0)
      else map_option Ok (level_loop index 0))"

definition nodeWidth :: "int \<Rightarrow> int" where
  "nodeWidth numLeaves = (if numLeaves = 0 then 0 else 2 * numLeaves - 1)"

partial_function (option) log2_loop :: "int \<Rightarrow> nat \<Rightarrow> nat option" where
  "log2_loop x k = (if js_shr x k \<noteq> 0 then log2_loop x (k + 1) else Some k)"

declare log2_loop.simps [code]

definition log2 :: "int \<Rightarrow> nat tree_result" where
  "log2 x =
     (if \<not> assertNonNegativeSafeInt x then Some (Err Not_safe_int)
      else if x = 0 then Some (Ok 0)
      else map_option (\<lambda>k. Ok (k - 1)) (log2_loop x 0))"

section \<open>Children, parent, root\<close>

definition left :: "int \<Rightarrow> int tree_result" where
  "left index = tree_bind (level index) (\<lambda>k.
     if k = 0 then Some (Err Leaves_have_no_children)
     else Some (Ok (js_xor index (js_shl 1 (k - 1)))))"

partial_function (option) right_loop :: "int \<Rightarrow> int \<Rightarrow> (tree_error + int) option" where
  "right_loop w r =
     (if r \<ge> w then (case left r of None \<Rightarrow> None | Some (Inl e) \<Rightarrow> Some (Inl e) | Some (Inr l) \<Rightarrow> right_loop w l)
      else Some (Ok r))"

declare right_loop.simps [code]

definition right :: "int \<Rightarrow> int option \<Rightarrow> int tree_result" where
  "right index numLeaves = tree_bind (level index) (\<lambda>k.
     if k = 0 then Some (Err Leaves_have_no_children)
     else let r = js_xor index (js_shl 3 (k - 1)) in
       (case numLeaves of None \<Rightarrow> Some (Ok r) | Some n \<Rightarrow> right_loop (nodeWidth n) r))"

definition parentStep :: "int \<Rightarrow> int tree_result" where
  "parentStep index = tree_bind (level index) (\<lambda>k.
     Some (Ok (js_and (js_or index (js_shl 1 k)) (js_not (js_shl 1 (k + 1))))))"

definition root_node :: "int \<Rightarrow> int tree_result" where
  "root_node numLeaves =
     (if numLeaves = 0 then Some (Err Empty_tree)
      else if numLeaves = 1 then Some (Ok 0)
      else tree_bind (log2 (nodeWidth numLeaves)) (\<lambda>k. Some (Ok (js_shl 1 k - 1))))"

partial_function (option) parent_loop :: "int \<Rightarrow> int \<Rightarrow> (tree_error + int) option" where
  "parent_loop w p =
     (if p \<ge> w then (case parentStep p of None \<Rightarrow> None | Some (Inl e) \<Rightarrow> Some (Inl e) | Some (Inr q) \<Rightarrow> parent_loop w q)
      else Some (Ok p))"

declare parent_loop.simps [code]

definition parent :: "int \<Rightarrow> int \<Rightarrow> int tree_result" where
  "parent index numLeaves = tree_bind (root_node numLeaves) (\<lambda>r.
     if index = r then Some (Err Root_has_no_parent)
     else tree_bind (parentStep index) (parent_loop (nodeWidth numLeaves)))"

definition sibling :: "int \<Rightarrow> int \<Rightarrow> int tree_result" where
  "sibling index numLeaves = tree_bind (parent index numLeaves) (\<lambda>p.
     tree_bind (left p) (\<lambda>l. if l = index then right p (Some numLeaves) else left p))"

section \<open>Paths\<close>

partial_function (option) directPath_loop :: "int \<Rightarrow> int \<Rightarrow> int \<Rightarrow> int list \<Rightarrow> (tree_error + int list) option" where
  "directPath_loop numLeaves r current path =
     (if current = r then Some (Ok path)
      else (case parent current numLeaves of None \<Rightarrow> None | Some (Inl e) \<Rightarrow> Some (Inl e)
        | Some (Inr p) \<Rightarrow> directPath_loop numLeaves r p (path @ [p])))"

declare directPath_loop.simps [code]

definition directPath :: "int \<Rightarrow> int \<Rightarrow> int list tree_result" where
  "directPath leafIndex numLeaves =
     (if numLeaves \<le> 1 then Some (Ok [])
      else tree_bind (root_node numLeaves) (\<lambda>r. directPath_loop numLeaves r leafIndex []))"

fun siblings :: "int list \<Rightarrow> int \<Rightarrow> int list tree_result" where
  "siblings [] numLeaves = Some (Ok [])"
| "siblings (n # ns) numLeaves = tree_bind (sibling n numLeaves) (\<lambda>s.
     tree_bind (siblings ns numLeaves) (\<lambda>ss. Some (Ok (s # ss))))"

definition copath :: "int \<Rightarrow> int \<Rightarrow> int list tree_result" where
  "copath leafIndex numLeaves = tree_bind (directPath leafIndex numLeaves) (\<lambda>dp.
     siblings (leafIndex # butlast dp) numLeaves)"

definition leafToNodeIndex :: "int \<Rightarrow> int" where
  "leafToNodeIndex leafPosition = leafPosition * 2"

definition nodeToLeafIndex :: "int \<Rightarrow> int tree_result" where
  "nodeToLeafIndex nodeIndex =
     (if \<not> isLeaf nodeIndex then Some (Err Not_a_leaf_node) else Some (Ok (js_shr nodeIndex 1)))"

end
