(* ===== verification/Ecies.thy ===== *)
theory Ecies
  imports Prelude
begin

text \<open>
  The sealed box of \<^verbatim>\<open>packages/collabswarm/src/ecies.ts\<close>.  WebCrypto is a record of functions; a call that
  rejects is \<open>None\<close> there.  Randomness is the position in a supply of fresh key pairs and random bytes:
  every function that draws takes the position and returns the next one.
\<close>

section \<open>WebCrypto\<close>

record ('sk, 'pk) webcrypto =
  generateKey :: "nat \<Rightarrow> 'sk \<times> 'pk"
  getRandomValues :: "nat \<Rightarrow> nat \<Rightarrow> bytes" \<comment> \<open>length, position in the supply\<close>
  deriveBits :: "'pk \<Rightarrow> 'sk \<Rightarrow> bytes"
  deriveKey :: "bytes \<Rightarrow> bytes \<Rightarrow> bytes \<Rightarrow> bytes" \<comment> \<open>HKDF input key, salt, info; an AES-256 key\<close>
  encryptGcm :: "bytes \<Rightarrow> bytes \<Rightarrow> bytes \<Rightarrow> bytes" \<comment> \<open>key, nonce, plaintext\<close>
  decryptGcm :: "bytes \<Rightarrow> bytes \<Rightarrow> bytes \<Rightarrow> bytes option"
  exportRaw :: "'pk \<Rightarrow> bytes"
  importRaw :: "bytes \<Rightarrow> 'pk option"
  exportPkcs8 :: "'sk \<Rightarrow> bytes"
  importPkcs8 :: "bytes \<Rightarrow> 'sk option"
  sha256 :: "bytes \<Rightarrow> bytes"

datatype ecies_error =
    Sealed_truncated nat nat | Import_rejected | Decrypt_rejected | Bad_raw_key_length nat nat

section \<open>Sealing\<close>

definition AES_NONCE_LENGTH :: nat where "AES_NONCE_LENGTH = 12"
definition HKDF_SALT_LENGTH :: nat where "HKDF_SALT_LENGTH = 32"
definition ECIES_P256_PUBLIC_KEY_LENGTH :: nat where "ECIES_P256_PUBLIC_KEY_LENGTH = 65"

definition hkdfInfo :: bytes where
  "hkdfInfo = map of_char ''beekem-ecies''"

definition eciesSeal :: "('sk, 'pk) webcrypto \<Rightarrow> nat \<Rightarrow> bytes \<Rightarrow> 'pk \<Rightarrow> bytes \<times> nat" where
  "eciesSeal C r plaintext recipientPublicKey =
     (let (ephemeralPriv, ephemeralPub) = generateKey C r;
          sharedBits = deriveBits C recipientPublicKey ephemeralPriv;
          salt = getRandomValues C HKDF_SALT_LENGTH (r + 1);
          aesKey = deriveKey C sharedBits salt hkdfInfo;
          nonce = getRandomValues C AES_NONCE_LENGTH (r + 2);
          ciphertext = encryptGcm C aesKey nonce plaintext
      in (salt @ exportRaw C ephemeralPub @ nonce @ ciphertext, r + 3))"

definition eciesOpen :: "('sk, 'pk) webcrypto \<Rightarrow> bytes \<Rightarrow> 'sk \<Rightarrow> ecies_error + bytes" where
  "eciesOpen C sealed recipientPrivateKey =
     (let minLength = HKDF_SALT_LENGTH + ECIES_P256_PUBLIC_KEY_LENGTH + AES_NONCE_LENGTH + 16 in
      if length sealed < minLength then Err (Sealed_truncated (length sealed) minLength)
      else
        let salt = take HKDF_SALT_LENGTH sealed;
            rest1 = drop HKDF_SALT_LENGTH sealed;
            ephemeralPubBytes = take ECIES_P256_PUBLIC_KEY_LENGTH rest1;
            rest2 = drop ECIES_P256_PUBLIC_KEY_LENGTH rest1;
            nonce = take AES_NONCE_LENGTH rest2;
            ciphertext = drop AES_NONCE_LENGTH rest2
        in (case importRaw C ephemeralPubBytes of
              None \<Rightarrow> Err Import_rejected
            | Some ephemeralPublicKey \<Rightarrow>
                let sharedBits = deriveBits C ephemeralPublicKey recipientPrivateKey;
                    aesKey = deriveKey C sharedBits salt hkdfInfo
                in (case decryptGcm C aesKey nonce ciphertext of
                      None \<Rightarrow> Err Decrypt_rejected | Some plaintext \<Rightarrow> Ok plaintext)))"

definition importEciesPublicKey :: "('sk, 'pk) webcrypto \<Rightarrow> bytes \<Rightarrow> ecies_error + 'pk" where
  "importEciesPublicKey C raw =
     (if length raw \<noteq> ECIES_P256_PUBLIC_KEY_LENGTH
      then Err (Bad_raw_key_length ECIES_P256_PUBLIC_KEY_LENGTH (length raw))
      else (case importRaw C raw of None \<Rightarrow> Err Import_rejected | Some k \<Rightarrow> Ok k))"

definition exportEciesPublicKey :: "('sk, 'pk) webcrypto \<Rightarrow> 'pk \<Rightarrow> bytes" where
  "exportEciesPublicKey C key = exportRaw C key"

section \<open>What is relied on of WebCrypto\<close>

text \<open>
  \<open>pairs C\<close> relates the two halves of a key pair.  The documented behaviour: generated keys are pairs; ECDH
  agrees on both sides; AES-GCM decrypts what it encrypted and its output is 16 bytes longer; raw export is
  65 bytes and reverses under import, PKCS8 export reverses too; random values have the requested length.
\<close>

definition webcrypto_ok :: "('sk, 'pk) webcrypto \<Rightarrow> ('sk \<Rightarrow> 'pk \<Rightarrow> bool) \<Rightarrow> bool" where
  "webcrypto_ok C pairs \<longleftrightarrow>
     (\<forall>r. pairs (fst (generateKey C r)) (snd (generateKey C r)))
   \<and> (\<forall>n r. length (getRandomValues C n r) = n)
   \<and> (\<forall>a A b B. pairs a A \<longrightarrow> pairs b B \<longrightarrow> deriveBits C B a = deriveBits C A b)
   \<and> (\<forall>k n p. decryptGcm C k n (encryptGcm C k n p) = Some p \<and> length (encryptGcm C k n p) = length p + 16)
   \<and> (\<forall>p. length (exportRaw C p) = ECIES_P256_PUBLIC_KEY_LENGTH \<and> importRaw C (exportRaw C p) = Some p)
   \<and> (\<forall>s. importPkcs8 C (exportPkcs8 C s) = Some s)"

lemmas ecies_lengths = AES_NONCE_LENGTH_def HKDF_SALT_LENGTH_def ECIES_P256_PUBLIC_KEY_LENGTH_def

lemma open_seal:
  assumes "webcrypto_ok C pairs" "pairs sk pk" "eciesSeal C r m pk = (box, r')"
  shows "eciesOpen C box sk = Ok m"
proof -
  obtain es ep where e: "generateKey C r = (es, ep)" by fastforce
  have len: "length (getRandomValues C n q) = n" for n q using assms(1) by (simp add: webcrypto_ok_def)
  have p: "length (exportRaw C ep) = 65" "importRaw C (exportRaw C ep) = Some ep"
    using assms(1) by (simp_all add: webcrypto_ok_def ECIES_P256_PUBLIC_KEY_LENGTH_def)
  have g: "decryptGcm C k n (encryptGcm C k n q) = Some q" "length (encryptGcm C k n q) = length q + 16" for k n q
    using assms(1) by (simp_all add: webcrypto_ok_def)
  have "pairs es ep" using assms(1) e by (metis webcrypto_ok_def fst_conv snd_conv)
  then have d: "deriveBits C pk es = deriveBits C ep sk" using assms(1,2) unfolding webcrypto_ok_def by blast
  have box: "box = getRandomValues C 32 (r + 1) @ exportRaw C ep @ getRandomValues C 12 (r + 2)
      @ encryptGcm C (deriveKey C (deriveBits C ep sk) (getRandomValues C 32 (r + 1)) hkdfInfo) (getRandomValues C 12 (r + 2)) m"
    using assms(3) by (simp add: eciesSeal_def e Let_def d ecies_lengths)
  show ?thesis by (simp add: eciesOpen_def box len p g ecies_lengths Let_def)
qed

section \<open>Properties\<close>

text \<open>
  Sealing round trip: a box sealed to a public key is at least 125 bytes long, opens with the matching
  private key to the original plaintext whatever random values were drawn, and opening any shorter input
  reports truncation instead of reading past its end.
\<close>

theorem ecies_round_trip:
  assumes "webcrypto_ok C pairs" "pairs sk pk"
  shows "eciesOpen C (fst (eciesSeal C r m pk)) sk = Ok m
    \<and> length (fst (eciesSeal C r m pk)) = 125 + length m
    \<and> (\<forall>s. (\<exists>a b. eciesOpen C s sk = Err (Sealed_truncated a b)) \<longleftrightarrow> length s < 125)"
proof -
  have len: "length (getRandomValues C n q) = n" "length (exportRaw C x) = 65"
    "length (encryptGcm C k n' q') = length q' + 16" for n q x k n' q'
    using assms(1) by (simp_all add: webcrypto_ok_def ECIES_P256_PUBLIC_KEY_LENGTH_def)
  have "length (fst (eciesSeal C r m pk)) = 125 + length m"
    by (simp add: eciesSeal_def Let_def case_prod_beta len ecies_lengths)
  moreover have "eciesOpen C (fst (eciesSeal C r m pk)) sk = Ok m" using open_seal [OF assms] by (metis prod.collapse)
  moreover have "\<forall>s. (\<exists>a b. eciesOpen C s sk = Err (Sealed_truncated a b)) \<longleftrightarrow> length s < 125"
    by (auto simp: eciesOpen_def Let_def ecies_lengths split: option.splits)
  ultimately show ?thesis by blast
qed

section \<open>A concrete instance\<close>

text \<open>Keys are single bytes, a private key equals its public key, and the shared secret is their sum.\<close>

definition toy_tag :: "bytes \<Rightarrow> bytes" where
  "toy_tag k = take 16 (k @ replicate 16 0)"

definition toy_crypto :: "(byte, byte) webcrypto" where
  "toy_crypto = \<lparr>generateKey = (\<lambda>r. (of_nat (r + 100), of_nat (r + 100))),
     getRandomValues = (\<lambda>n r. replicate n (of_nat r)), deriveBits = (\<lambda>p s. [p + s]),
     deriveKey = (\<lambda>k s i. k), encryptGcm = (\<lambda>k n p. toy_tag k @ p),
     decryptGcm = (\<lambda>k n c. if take 16 c = toy_tag k then Some (drop 16 c) else None),
     exportRaw = (\<lambda>p. replicate 65 p), importRaw = (\<lambda>b. if length b = 65 then Some (hd b) else None),
     exportPkcs8 = (\<lambda>s. [s]), importPkcs8 = (\<lambda>b. if length b = 1 then Some (hd b) else None), sha256 = (\<lambda>b. b)\<rparr>"

lemma toy_crypto_ok: "webcrypto_ok toy_crypto (=)"
  by (auto simp: webcrypto_ok_def toy_crypto_def toy_tag_def ECIES_P256_PUBLIC_KEY_LENGTH_def)

theorem ecies_round_trip_witness: "eciesOpen toy_crypto (fst (eciesSeal toy_crypto 0 [1, 2, 3] 7)) 7 = Ok [1, 2, 3]"
  using ecies_round_trip [OF toy_crypto_ok, of 7 7 0 "[1, 2, 3]"] by simp

end
