(* ===== verification/BeeKem.thy ===== *)
theory BeeKem
  imports TreeMath Ecies
begin

text \<open>
  The ratchet tree of \<^verbatim>\<open>packages/collabswarm/src/beekem/beekem.ts\<close> with the data of \<^verbatim>\<open>types.ts\<close>.  An operation is a
  function of the object and of the position in the supply of randomness; it returns \<open>None\<close> when a loop of
  the tree arithmetic does not end, and otherwise a result or an exception together with the object as
  the operation left it, so that what was assigned before a throw stays assigned.  CryptoKeys are the
  type parameters \<open>'sk\<close> and \<open>'pk\<close>.
\<close>

section \<open>Data\<close>

datatype node_type = Leaf | Internal

record ('sk, 'pk) tree_node =
  ntype :: node_type
  index :: int
  publicKey :: "'pk option"
  privateKey :: "'sk option"

record path_node_update =
  nodeIndex :: int
  pnPublicKey :: bytes
  encryptedPrivateKey :: bytes

record path_update =
  senderLeafIndex :: int
  senderLeafPublicKey :: bytes
  updateNodes :: "path_node_update list"

record welcome_node =
  wnIndex :: int
  wnPublicKey :: "bytes option"

record beekem_welcome =
  leafIndex :: int
  pathKeys :: "path_node_update list"
  treeNodePublicKeys :: "welcome_node list"
  treeHash :: bytes

record ('sk, 'pk) beekem =
  nodes :: "(int, ('sk, 'pk) tree_node) jsmap"
  numLeaves :: int
  myLeafIndex :: int

datatype beekem_error =
    Tree_error tree_error
  | Ecies_error ecies_error
  | Key_import_rejected
  | No_intersection
  | Welcome_hash_mismatch
  | Tree_is_empty
  | No_private_key_for_root
  | Root_secret_unavailable
  | No_public_key_at_our_leaf
  | Missing_key_at_node int

section \<open>Operations as state transformers\<close>

type_synonym ('sk, 'pk) bk_state = "('sk, 'pk) beekem \<times> nat"
type_synonym ('sk, 'pk, 'a) bk = "('sk, 'pk) bk_state \<Rightarrow> ((beekem_error + 'a) \<times> ('sk, 'pk) bk_state) option"

definition bk_return :: "'a \<Rightarrow> ('sk, 'pk, 'a) bk" where
  "bk_return x s = Some (Ok x, s)"

definition bk_throw :: "beekem_error \<Rightarrow> ('sk, 'pk, 'a) bk" where
  "bk_throw e s = Some (Err e, s)"

definition bk_bind :: "('sk, 'pk, 'a) bk \<Rightarrow> ('a \<Rightarrow> ('sk, 'pk, 'b) bk) \<Rightarrow> ('sk, 'pk, 'b) bk" where
  "bk_bind m f s = (case m s of None \<Rightarrow> None | Some (Inl e, s') \<Rightarrow> Some (Err e, s') | Some (Inr x, s') \<Rightarrow> f x s')"

definition bk_get :: "('sk, 'pk, ('sk, 'pk) beekem) bk" where
  "bk_get s = Some (Ok (fst s), s)"

definition bk_tree :: "'a tree_result \<Rightarrow> ('sk, 'pk, 'a) bk" where
  "bk_tree r s = (case r of None \<Rightarrow> None | Some (Inl e) \<Rightarrow> Some (Err (Tree_error e), s) | Some (Inr x) \<Rightarrow> Some (Ok x, s))"

definition bk_ecies :: "ecies_error + 'a \<Rightarrow> ('sk, 'pk, 'a) bk" where
  "bk_ecies r s = (case r of Inl e \<Rightarrow> Some (Err (Ecies_error e), s) | Inr x \<Rightarrow> Some (Ok x, s))"

definition set_node :: "int \<Rightarrow> ('sk, 'pk) tree_node \<Rightarrow> ('sk, 'pk, unit) bk" where
  "set_node i n s = Some (Ok (), (fst s)\<lparr>nodes := map_set i n (nodes (fst s))\<rparr>, snd s)"

definition set_num_leaves :: "int \<Rightarrow> ('sk, 'pk, unit) bk" where
  "set_num_leaves n s = Some (Ok (), (fst s)\<lparr>numLeaves := n\<rparr>, snd s)"

definition set_my_leaf :: "int \<Rightarrow> ('sk, 'pk, unit) bk" where
  "set_my_leaf i s = Some (Ok (), (fst s)\<lparr>myLeafIndex := i\<rparr>, snd s)"

definition draw_key :: "('sk, 'pk) webcrypto \<Rightarrow> ('sk, 'pk, 'sk \<times> 'pk) bk" where
  "draw_key C s = Some (Ok (generateKey C (snd s)), fst s, snd s + 1)"

definition import_public :: "('sk, 'pk) webcrypto \<Rightarrow> bytes \<Rightarrow> ('sk, 'pk, 'pk) bk" where
  "import_public C raw = (case importRaw C raw of None \<Rightarrow> bk_throw Key_import_rejected | Some k \<Rightarrow> bk_return k)"

section \<open>Helpers\<close>

definition encryptNodeKey :: "('sk, 'pk) webcrypto \<Rightarrow> 'sk \<Rightarrow> 'pk \<Rightarrow> ('sk, 'pk, bytes) bk" where
  "encryptNodeKey C keyToEncrypt recipientPublicKey s =
     (let (box, r) = eciesSeal C (snd s) (exportPkcs8 C keyToEncrypt) recipientPublicKey in Some (Ok box, fst s, r))"

definition decryptNodeKey :: "('sk, 'pk) webcrypto \<Rightarrow> bytes \<Rightarrow> 'sk \<Rightarrow> ('sk, 'pk, 'sk) bk" where
  "decryptNodeKey C encryptedData recipientPrivateKey =
     bk_bind (bk_ecies (eciesOpen C encryptedData recipientPrivateKey)) (\<lambda>plaintext.
       case importPkcs8 C plaintext of None \<Rightarrow> bk_throw Key_import_rejected | Some k \<Rightarrow> bk_return k)"

text \<open>
  \<^verbatim>\<open>_resolvePublicKey\<close> and \<^verbatim>\<open>_resolveSubtreeKey\<close> are the same walk over two fields of the node: the node's own key,
  else, for an internal index, the first key found below its left and then its right child.
\<close>

partial_function (option) resolve ::
  "('n \<Rightarrow> 'k option) \<Rightarrow> (int, 'n) jsmap \<Rightarrow> int \<Rightarrow> int \<Rightarrow> (tree_error + 'k option) option" where
  "resolve f ns n i =
     (case Option.bind (map_get ns i) f of
        Some k \<Rightarrow> Some (Ok (Some k))
      | None \<Rightarrow>
          if isInternal i then
            (case left i of None \<Rightarrow> None | Some (Inl e) \<Rightarrow> Some (Inl e) | Some (Inr l) \<Rightarrow>
             (case right i (Some n) of None \<Rightarrow> None | Some (Inl e) \<Rightarrow> Some (Inl e) | Some (Inr r) \<Rightarrow>
              Option.bind (resolve f ns n l) (\<lambda>found. case found of
                  Inl e \<Rightarrow> Some (Inl e)
                | Inr (Some k) \<Rightarrow> Some (Ok (Some k))
                | Inr None \<Rightarrow> resolve f ns n r)))
          else Some (Ok None))"

declare resolve.simps [code]

definition resolvePublicKey :: "('sk, 'pk) beekem \<Rightarrow> int \<Rightarrow> 'pk option tree_result" where
  "resolvePublicKey b i = resolve publicKey (nodes b) (numLeaves b) i"

definition resolveSubtreeKey :: "('sk, 'pk) beekem \<Rightarrow> int \<Rightarrow> 'sk option tree_result" where
  "resolveSubtreeKey b i = resolve privateKey (nodes b) (numLeaves b) i"

definition isInSubtree :: "int \<Rightarrow> int \<Rightarrow> bool tree_result" where
  "isInSubtree leaf subtreeRoot =
     (if subtreeRoot = leaf then Some (Ok True)
      else if isLeaf subtreeRoot then Some (Ok False)
      else tree_bind (level subtreeRoot) (\<lambda>k.
        let halfSpan = js_shl 1 k; lo = subtreeRoot - halfSpan + 1; hi = subtreeRoot + halfSpan - 1
        in Some (Ok (lo \<le> leaf \<and> leaf \<le> hi))))"

definition findChildOnOurSide :: "('sk, 'pk) beekem \<Rightarrow> int \<Rightarrow> int option tree_result" where
  "findChildOnOurSide b i =
     (if isLeaf i then Some (Ok None)
      else tree_bind (left i) (\<lambda>leftChild. tree_bind (right i (Some (numLeaves b))) (\<lambda>rightChild.
        tree_bind (isInSubtree (myLeafIndex b) leftChild) (\<lambda>inLeft.
          if inLeft then Some (Ok (Some leftChild))
          else tree_bind (isInSubtree (myLeafIndex b) rightChild) (\<lambda>inRight.
            Some (Ok (if inRight then Some rightChild else None)))))))"

definition computeTreeHash :: "('sk, 'pk) webcrypto \<Rightarrow> ('sk, 'pk) beekem \<Rightarrow> bytes" where
  "computeTreeHash C b =
     sha256 C (concat (map (\<lambda>i. case map_get (nodes b) i of
         Some nd \<Rightarrow> (case publicKey nd of Some k \<Rightarrow> be32 (nat (i mod 2 ^ 32)) @ exportRaw C k | None \<Rightarrow> [])
       | None \<Rightarrow> []) (sort (map fst (nodes b)))))"

definition getRootSecret :: "('sk, 'pk) webcrypto \<Rightarrow> ('sk, 'pk, bytes) bk" where
  "getRootSecret C = bk_bind bk_get (\<lambda>b.
     if numLeaves b \<le> 0 then bk_throw Tree_is_empty
     else if numLeaves b = 1 then
       (case map_get (nodes b) 0 of
          None \<Rightarrow> bk_throw No_private_key_for_root
        | Some leaf \<Rightarrow> (case privateKey leaf of
            None \<Rightarrow> bk_throw No_private_key_for_root
          | Some sk \<Rightarrow> bk_return (sha256 C (exportPkcs8 C sk))))
     else bk_bind (bk_tree (root_node (numLeaves b))) (\<lambda>rootIndex.
       case map_get (nodes b) rootIndex of
          None \<Rightarrow> bk_throw Root_secret_unavailable
        | Some rootNode \<Rightarrow> (case privateKey rootNode of
            None \<Rightarrow> bk_throw Root_secret_unavailable
          | Some sk \<Rightarrow> bk_return (sha256 C (exportPkcs8 C sk)))))"

section \<open>Path updates\<close>

text \<open>
  The loop of \<^verbatim>\<open>_updatePath\<close> over the direct path and the copath: a fresh key pair per node, its private key sealed to
  the sibling's resolution.
\<close>

fun updatePath_loop ::
  "('sk, 'pk) webcrypto \<Rightarrow> int list \<Rightarrow> int list \<Rightarrow> path_node_update list \<Rightarrow> ('sk, 'pk, path_node_update list) bk" where
  "updatePath_loop C (ni # dp) (siblingIndex # cp) pathNodes =
     bk_bind (draw_key C) (\<lambda>(sk, pk).
     bk_bind bk_get (\<lambda>b.
     bk_bind (bk_tree (resolvePublicKey b siblingIndex)) (\<lambda>siblingPublicKey.
     bk_bind (case siblingPublicKey of Some spk \<Rightarrow> encryptNodeKey C sk spk | None \<Rightarrow> bk_return []) (\<lambda>enc.
     bk_bind (set_node ni \<lparr>ntype = Internal, index = ni, publicKey = Some pk, privateKey = Some sk\<rparr>) (\<lambda>_.
       updatePath_loop C dp cp
         (pathNodes @ [\<lparr>nodeIndex = ni, pnPublicKey = exportRaw C pk, encryptedPrivateKey = enc\<rparr>]))))))"
| "updatePath_loop C _ _ pathNodes = bk_return pathNodes"

definition updatePath :: "('sk, 'pk) webcrypto \<Rightarrow> ('sk, 'pk, path_update \<times> bytes) bk" where
  "updatePath C = bk_bind bk_get (\<lambda>b.
     case Option.bind (map_get (nodes b) (myLeafIndex b)) publicKey of
       None \<Rightarrow> bk_throw No_public_key_at_our_leaf
     | Some mypk \<Rightarrow>
         if numLeaves b = 1 then
           bk_bind (getRootSecret C) (\<lambda>rootSecret. bk_return
             (\<lparr>senderLeafIndex = myLeafIndex b, senderLeafPublicKey = exportRaw C mypk, updateNodes = []\<rparr>, rootSecret))
         else
           bk_bind (bk_tree (directPath (myLeafIndex b) (numLeaves b))) (\<lambda>dp.
           bk_bind (bk_tree (copath (myLeafIndex b) (numLeaves b))) (\<lambda>cp.
           bk_bind (updatePath_loop C dp cp []) (\<lambda>pathNodes.
           bk_bind (getRootSecret C) (\<lambda>rootSecret. bk_return
             (\<lparr>senderLeafIndex = myLeafIndex b, senderLeafPublicKey = exportRaw C mypk, updateNodes = pathNodes\<rparr>,
              rootSecret))))))"

section \<open>Welcomes\<close>

fun welcome_path_keys ::
  "('sk, 'pk) webcrypto \<Rightarrow> int list \<Rightarrow> 'pk \<Rightarrow> path_node_update list \<Rightarrow> ('sk, 'pk, path_node_update list) bk" where
  "welcome_path_keys C [] encryptionKey acc = bk_return acc"
| "welcome_path_keys C (ni # dp) encryptionKey acc = bk_bind bk_get (\<lambda>b.
     case map_get (nodes b) ni of
       None \<Rightarrow> bk_throw (Missing_key_at_node ni)
     | Some nd \<Rightarrow> (case (publicKey nd, privateKey nd) of
         (Some pk, Some sk) \<Rightarrow>
           bk_bind (encryptNodeKey C sk encryptionKey) (\<lambda>enc.
             welcome_path_keys C dp pk
               (acc @ [\<lparr>nodeIndex = ni, pnPublicKey = exportRaw C pk, encryptedPrivateKey = enc\<rparr>]))
       | _ \<Rightarrow> bk_throw (Missing_key_at_node ni)))"

definition welcome_tree_nodes ::
  "('sk, 'pk) webcrypto \<Rightarrow> int \<Rightarrow> int list \<Rightarrow> (int, ('sk, 'pk) tree_node) jsmap \<Rightarrow> welcome_node list" where
  "welcome_tree_nodes C newLeafIndex dp ns =
     map (\<lambda>(i, nd). \<lparr>wnIndex = i, wnPublicKey = map_option (exportRaw C) (publicKey nd)\<rparr>)
       (filter (\<lambda>(i, nd). i \<noteq> newLeafIndex \<and> i \<notin> set dp) ns)"

definition buildWelcome :: "('sk, 'pk) webcrypto \<Rightarrow> int \<Rightarrow> 'pk \<Rightarrow> ('sk, 'pk, beekem_welcome) bk" where
  "buildWelcome C newLeafIndex newMemberPublicKey = bk_bind bk_get (\<lambda>b.
     bk_bind (bk_tree (directPath newLeafIndex (numLeaves b))) (\<lambda>dp.
     bk_bind (welcome_path_keys C dp newMemberPublicKey []) (\<lambda>pks.
       bk_return \<lparr>leafIndex = newLeafIndex, pathKeys = pks,
         treeNodePublicKeys = welcome_tree_nodes C newLeafIndex dp (nodes b), treeHash = computeTreeHash C b\<rparr>)))"

section \<open>Membership operations\<close>

definition initialize :: "'sk \<Rightarrow> 'pk \<Rightarrow> ('sk, 'pk, unit) bk" where
  "initialize sk pk s = Some (Ok (),
     \<lparr>nodes = [(0, \<lparr>ntype = Leaf, index = 0, publicKey = Some pk, privateKey = Some sk\<rparr>)],
      numLeaves = 1, myLeafIndex = 0\<rparr>, snd s)"

definition addMember :: "('sk, 'pk) webcrypto \<Rightarrow> 'pk \<Rightarrow> ('sk, 'pk, path_update \<times> beekem_welcome \<times> bytes) bk" where
  "addMember C memberPublicKey = bk_bind bk_get (\<lambda>b.
     let newLeafIndex = leafToNodeIndex (numLeaves b) in
     bk_bind (set_num_leaves (numLeaves b + 1)) (\<lambda>_.
     bk_bind (set_node newLeafIndex
        \<lparr>ntype = Leaf, index = newLeafIndex, publicKey = Some memberPublicKey, privateKey = None\<rparr>) (\<lambda>_.
     bk_bind (updatePath C) (\<lambda>(pathUpdate, rootSecret).
     bk_bind (buildWelcome C newLeafIndex memberPublicKey) (\<lambda>welcome.
       bk_return (pathUpdate, welcome, rootSecret))))))"

fun blank_path :: "int list \<Rightarrow> ('sk, 'pk, unit) bk" where
  "blank_path [] = bk_return ()"
| "blank_path (i # is) =
     bk_bind (set_node i \<lparr>ntype = Internal, index = i, publicKey = None, privateKey = None\<rparr>) (\<lambda>_. blank_path is)"

definition refresh_own_leaf :: "('sk, 'pk) webcrypto \<Rightarrow> ('sk, 'pk, unit) bk" where
  "refresh_own_leaf C = bk_bind (draw_key C) (\<lambda>(sk, pk). bk_bind bk_get (\<lambda>b.
     set_node (myLeafIndex b) \<lparr>ntype = Leaf, index = myLeafIndex b, publicKey = Some pk, privateKey = Some sk\<rparr>))"

definition removeMember :: "('sk, 'pk) webcrypto \<Rightarrow> int \<Rightarrow> ('sk, 'pk, path_update \<times> bytes) bk" where
  "removeMember C memberLeafIndex =
     bk_bind (set_node memberLeafIndex \<lparr>ntype = Leaf, index = memberLeafIndex, publicKey = None, privateKey = None\<rparr>) (\<lambda>_.
     bk_bind bk_get (\<lambda>b.
     bk_bind (bk_tree (directPath memberLeafIndex (numLeaves b))) (\<lambda>removedPath.
     bk_bind (blank_path removedPath) (\<lambda>_.
     bk_bind (refresh_own_leaf C) (\<lambda>_. updatePath C)))))"

definition update :: "('sk, 'pk) webcrypto \<Rightarrow> ('sk, 'pk, path_update \<times> bytes) bk" where
  "update C = bk_bind (refresh_own_leaf C) (\<lambda>_. updatePath C)"

section \<open>Receiving\<close>

text \<open>
  The search of \<^verbatim>\<open>processPathUpdate\<close>: the first update node on our direct path, with the private key decrypted
  there if a key for it is held on our side.  \<open>None\<close> when no update node is on our path.
\<close>

definition open_at :: "('sk, 'pk) webcrypto \<Rightarrow> path_node_update \<Rightarrow> ('sk, 'pk, 'sk option) bk" where
  "open_at C pathNode = bk_bind bk_get (\<lambda>b.
     bk_bind (bk_tree (findChildOnOurSide b (nodeIndex pathNode))) (\<lambda>childOnOurSide.
       case childOnOurSide of
         None \<Rightarrow> bk_return None
       | Some child \<Rightarrow>
           (case Option.bind (map_get (nodes b) child) privateKey of
              Some sk \<Rightarrow> bk_bind (decryptNodeKey C (encryptedPrivateKey pathNode) sk) (\<lambda>k. bk_return (Some k))
            | None \<Rightarrow> bk_bind (bk_tree (resolveSubtreeKey b child)) (\<lambda>resolved.
                case resolved of
                  Some sk \<Rightarrow> bk_bind (decryptNodeKey C (encryptedPrivateKey pathNode) sk) (\<lambda>k. bk_return (Some k))
                | None \<Rightarrow> bk_return None))))"

fun find_intersection ::
  "('sk, 'pk) webcrypto \<Rightarrow> int list \<Rightarrow> nat \<Rightarrow> path_node_update list \<Rightarrow> ('sk, 'pk, ('sk option \<times> nat) option) bk" where
  "find_intersection C myDirectPath i [] = bk_return None"
| "find_intersection C myDirectPath i (pathNode # rest) =
     (if nodeIndex pathNode \<in> set myDirectPath
      then bk_bind (open_at C pathNode) (\<lambda>k. bk_return (Some (k, i)))
      else find_intersection C myDirectPath (i + 1) rest)"

fun update_above :: "('sk, 'pk) webcrypto \<Rightarrow> path_node_update list \<Rightarrow> ('sk, 'pk, unit) bk" where
  "update_above C [] = bk_return ()"
| "update_above C (pathNode # rest) =
     bk_bind (import_public C (pnPublicKey pathNode)) (\<lambda>pk.
     bk_bind bk_get (\<lambda>b.
     bk_bind (bk_tree (findChildOnOurSide b (nodeIndex pathNode))) (\<lambda>childOnOurSide.
     bk_bind (case Option.bind (Option.bind childOnOurSide (map_get (nodes b))) privateKey of
         Some csk \<Rightarrow> bk_bind (decryptNodeKey C (encryptedPrivateKey pathNode) csk) (\<lambda>k. bk_return (Some k))
       | None \<Rightarrow> bk_return None) (\<lambda>sk.
     bk_bind (set_node (nodeIndex pathNode)
        \<lparr>ntype = Internal, index = nodeIndex pathNode, publicKey = Some pk, privateKey = sk\<rparr>) (\<lambda>_.
       update_above C rest)))))"

fun update_below :: "('sk, 'pk) webcrypto \<Rightarrow> path_node_update list \<Rightarrow> ('sk, 'pk, unit) bk" where
  "update_below C [] = bk_return ()"
| "update_below C (pathNode # rest) =
     bk_bind (import_public C (pnPublicKey pathNode)) (\<lambda>pk.
     bk_bind (set_node (nodeIndex pathNode)
        \<lparr>ntype = Internal, index = nodeIndex pathNode, publicKey = Some pk, privateKey = None\<rparr>) (\<lambda>_.
       update_below C rest))"

definition processPathUpdate :: "('sk, 'pk) webcrypto \<Rightarrow> path_update \<Rightarrow> ('sk, 'pk, bytes) bk" where
  "processPathUpdate C u =
     bk_bind (import_public C (senderLeafPublicKey u)) (\<lambda>spk.
     bk_bind (set_node (senderLeafIndex u)
        \<lparr>ntype = Leaf, index = senderLeafIndex u, publicKey = Some spk, privateKey = None\<rparr>) (\<lambda>_.
     bk_bind bk_get (\<lambda>b.
     bk_bind (bk_tree (copath (myLeafIndex b) (numLeaves b))) (\<lambda>_.
     bk_bind (bk_tree (directPath (myLeafIndex b) (numLeaves b))) (\<lambda>myDirectPath.
     bk_bind (find_intersection C myDirectPath 0 (updateNodes u)) (\<lambda>found.
       case found of
         Some (Some sk, i) \<Rightarrow>
           let pathNode = updateNodes u ! i in
           bk_bind (import_public C (pnPublicKey pathNode)) (\<lambda>pk.
           bk_bind (set_node (nodeIndex pathNode)
              \<lparr>ntype = Internal, index = nodeIndex pathNode, publicKey = Some pk, privateKey = Some sk\<rparr>) (\<lambda>_.
           bk_bind (update_above C (drop (i + 1) (updateNodes u))) (\<lambda>_.
           bk_bind (update_below C (take i (updateNodes u))) (\<lambda>_.
             getRootSecret C))))
       | _ \<Rightarrow> bk_throw No_intersection))))))"

fun welcome_num_leaves :: "path_node_update list \<Rightarrow> int \<Rightarrow> int tree_result" where
  "welcome_num_leaves [] maxFromPath = Some (Ok maxFromPath)"
| "welcome_num_leaves (pk # pks) maxFromPath =
     tree_bind (nodeToLeafIndex (if nodeIndex pk mod 2 = 0 then nodeIndex pk else nodeIndex pk + 1)) (\<lambda>l.
       welcome_num_leaves pks (max maxFromPath (l + 1)))"

fun install_path_keys :: "('sk, 'pk) webcrypto \<Rightarrow> path_node_update list \<Rightarrow> 'sk \<Rightarrow> ('sk, 'pk, unit) bk" where
  "install_path_keys C [] currentPrivateKey = bk_return ()"
| "install_path_keys C (pathKey # rest) currentPrivateKey =
     bk_bind (import_public C (pnPublicKey pathKey)) (\<lambda>pk.
     bk_bind (decryptNodeKey C (encryptedPrivateKey pathKey) currentPrivateKey) (\<lambda>sk.
     bk_bind (set_node (nodeIndex pathKey)
        \<lparr>ntype = Internal, index = nodeIndex pathKey, publicKey = Some pk, privateKey = Some sk\<rparr>) (\<lambda>_.
       install_path_keys C rest sk)))"

fun install_tree_nodes :: "('sk, 'pk) webcrypto \<Rightarrow> welcome_node list \<Rightarrow> ('sk, 'pk, unit) bk" where
  "install_tree_nodes C [] = bk_return ()"
| "install_tree_nodes C (e # es) =
     bk_bind (case wnPublicKey e of
         Some raw \<Rightarrow> bk_bind (import_public C raw) (\<lambda>pk. bk_return (Some pk))
       | None \<Rightarrow> bk_return None) (\<lambda>pk.
     bk_bind (set_node (wnIndex e)
        \<lparr>ntype = (if isLeaf (wnIndex e) then Leaf else Internal), index = wnIndex e, publicKey = pk, privateKey = None\<rparr>) (\<lambda>_.
       install_tree_nodes C es))"

definition processWelcome :: "('sk, 'pk) webcrypto \<Rightarrow> beekem_welcome \<Rightarrow> 'sk \<Rightarrow> 'pk \<Rightarrow> ('sk, 'pk, bytes) bk" where
  "processWelcome C w sk pk =
     bk_bind (set_my_leaf (leafIndex w)) (\<lambda>_.
     bk_bind (bk_tree (nodeToLeafIndex (leafIndex w))) (\<lambda>l.
     bk_bind (bk_tree (welcome_num_leaves (pathKeys w) (l + 1))) (\<lambda>maxFromPath.
     bk_bind bk_get (\<lambda>b.
     bk_bind (set_num_leaves (max (numLeaves b) maxFromPath)) (\<lambda>_.
     bk_bind (set_node (leafIndex w)
        \<lparr>ntype = Leaf, index = leafIndex w, publicKey = Some pk, privateKey = Some sk\<rparr>) (\<lambda>_.
     bk_bind (install_path_keys C (pathKeys w) sk) (\<lambda>_.
     bk_bind (install_tree_nodes C (treeNodePublicKeys w)) (\<lambda>_.
     bk_bind bk_get (\<lambda>b'.
       if computeTreeHash C b' \<noteq> treeHash w then bk_throw Welcome_hash_mismatch
       else getRootSecret C)))))))))"

section \<open>Queries and compaction\<close>

fun find_leaf :: "('sk, 'pk) webcrypto \<Rightarrow> (int, ('sk, 'pk) tree_node) jsmap \<Rightarrow> bytes \<Rightarrow> int \<Rightarrow> nat \<Rightarrow> int option" where
  "find_leaf C ns target leafPos 0 = None"
| "find_leaf C ns target leafPos (Suc todo) =
     (let ni = leafToNodeIndex leafPos in
      case map_get ns ni of
        Some nd \<Rightarrow>
          if ntype nd = Leaf \<and> (case publicKey nd of Some k \<Rightarrow> exportRaw C k = target | None \<Rightarrow> False) then Some ni
          else find_leaf C ns target (leafPos + 1) todo
      | None \<Rightarrow> find_leaf C ns target (leafPos + 1) todo)"

definition findLeafByPublicKey :: "('sk, 'pk) webcrypto \<Rightarrow> ('sk, 'pk) beekem \<Rightarrow> 'pk + bytes \<Rightarrow> int option" where
  "findLeafByPublicKey C b key =
     find_leaf C (nodes b) (case key of Inl k \<Rightarrow> exportRaw C k | Inr raw \<Rightarrow> raw) 0 (nat (numLeaves b))"

definition is_blank :: "(int, ('sk, 'pk) tree_node) jsmap \<Rightarrow> int \<Rightarrow> bool" where
  "is_blank ns i = (case map_get ns i of None \<Rightarrow> True | Some nd \<Rightarrow> publicKey nd = None)"

fun compact_loop :: "int \<Rightarrow> int list \<Rightarrow> (int, ('sk, 'pk) tree_node) jsmap \<Rightarrow> (int, ('sk, 'pk) tree_node) jsmap tree_result" where
  "compact_loop n [] ns = Some (Ok ns)"
| "compact_loop n (leaf # leaves) ns =
     (if n \<le> 1 then Some (Ok ns)
      else tree_bind (directPath leaf n) (\<lambda>path.
        compact_loop n leaves (if list_all (is_blank ns) path then fold map_delete path (map_delete leaf ns) else ns)))"

definition compact :: "('sk, 'pk) beekem \<Rightarrow> ('sk, 'pk) beekem tree_result" where
  "compact b =
     (let blankedLeaves = filter (is_blank (nodes b)) (map (\<lambda>i. leafToNodeIndex (int i)) [0..<nat (numLeaves b)])
      in tree_bind (compact_loop (numLeaves b) blankedLeaves (nodes b)) (\<lambda>ns. Some (Ok (b\<lparr>nodes := ns\<rparr>))))"

end
