(* ===== verification/TreeMathCorrect.thy ===== *)
theory TreeMathCorrect
  imports TreeMath
begin

text \<open>
  Correctness of the tree arithmetic.  The reference is the coordinate of a node: \<open>node k m\<close> is the \<open>m\<close>-th
  node of level \<open>k\<close>, the root of the subtree that spans the leaves \<open>m * 2 ^ k\<close> up to \<open>(m + 1) * 2 ^ k - 1\<close>.
  The bit formulas are proved equal to coordinate arithmetic up to the 32-bit limit, \<open>2 ^ 30\<close> leaves; the
  loops are shown to end there.
\<close>

section \<open>Coordinates\<close>

definition node :: "nat \<Rightarrow> nat \<Rightarrow> int" where
  "node k m = int (m * 2 ^ (k + 1) + 2 ^ k - 1)"

lemma node_plus: "node k m + 1 = int (m * 2 ^ (k + 1) + 2 ^ k)"
  by (simp add: node_def of_nat_diff Suc_le_eq)

lemma node_eq: "node k m = int m * 2 ^ (k + 1) + 2 ^ k - 1"
  using node_plus[of k m] by simp

lemma node_nonneg [simp]: "0 \<le> node k m"
  by (simp add: node_def)

lemma node_0: "node 0 m = 2 * int m"
  by (simp add: node_eq)

lemma node_or: "node k m = push_bit (k + 1) (int m) OR mask k"
proof -
  have "push_bit (k + 1) (int m) AND mask k = (0 :: int)"
    by (rule bit_eqI) (auto simp only: bit_and_iff bit_push_bit_iff bit_mask_iff bit_0_eq bot_apply bot_bool_def)
  with plus_and_or[of "push_bit (k + 1) (int m)" "mask k"]
  have "push_bit (k + 1) (int m) OR mask k = push_bit (k + 1) (int m) + mask k" by simp
  then show ?thesis by (simp add: node_eq push_bit_eq_mult mask_eq_exp_minus_1)
qed

lemma bit_node: "bit (node k m) j \<longleftrightarrow> j < k \<or> j > k \<and> bit m (j - k - 1)"
  unfolding node_or bit_or_iff bit_push_bit_iff bit_mask_iff bit_of_nat_iff_bit by (auto simp: possible_bit_def)

text \<open>Every index has exactly one coordinate.\<close>

lemma node_inj: "node k m = node k' m' \<longleftrightarrow> k = k' \<and> m = m'"
proof
  assume eq: "node k m = node k' m'"
  have k: "k = k'"
  proof (rule ccontr)
    assume "k \<noteq> k'"
    then consider "k < k'" | "k' < k" by linarith
    then show False using eq bit_node[of k m] bit_node[of k' m'] by cases (metis nat_neq_iff)+
  qed
  with eq have "int m * 2 ^ (k + 1) = int m' * 2 ^ (k + 1)" by (simp add: node_eq)
  with k show "k = k' \<and> m = m'" by simp
qed simp

lemma node_exists: "\<exists>k m. int n = node k m"
proof (induction n rule: less_induct)
  case (less n)
  show ?case
  proof (cases "even n")
    case True
    then obtain m where "n = 2 * m" by blast
    then show ?thesis by (intro exI[of _ 0] exI[of _ m]) (simp add: node_0)
  next
    case False
    then obtain h where h: "n = 2 * h + 1" by (auto elim: oddE)
    have "h < n" using h by simp
    from less [OF this] obtain k m where "int h = node k m" by blast
    then have "int n = node (k + 1) m" using h by (simp add: node_eq algebra_simps)
    then show ?thesis by blast
  qed
qed

section \<open>The bit formulas\<close>

lemma to_int32_id: "0 \<le> x \<Longrightarrow> x < 2 ^ 31 \<Longrightarrow> to_int32 x = x"
  by (simp add: to_int32_def signed_take_bit_int_eq_self)

lemma js_and_one: "js_and x 1 = of_bool (bit x 0)"
  by (simp add: js_and_def to_int32_def and_one_eq bit_0 even_signed_take_bit_iff mod_2_eq_odd)

lemma isLeaf_iff: "isLeaf x \<longleftrightarrow> even x"
  by (simp add: isLeaf_def js_and_one bit_0)

lemma isInternal_iff: "isInternal x \<longleftrightarrow> odd x"
  by (simp add: isInternal_def js_and_one bit_0)

lemma js_shr_bit: "0 \<le> x \<Longrightarrow> x < 2 ^ 31 \<Longrightarrow> j < 32 \<Longrightarrow> js_and (js_shr x j) 1 = of_bool (bit x j)"
  by (simp add: js_and_one js_shr_def to_int32_id bit_drop_bit_eq)

lemma level_loop_node:
  assumes "node k m < 2 ^ 31" "k < 32" "j \<le> k"
  shows "level_loop (node k m) j = Some k"
  using assms(3)
proof (induction "k - j" arbitrary: j)
  case 0
  then show ?case using assms(1,2) by (subst level_loop.simps) (simp add: js_shr_bit bit_node)
next
  case (Suc d)
  then have "level_loop (node k m) (j + 1) = Some k" by simp
  moreover have "bit (node k m) j" using Suc by (simp add: bit_node)
  ultimately show ?case using Suc assms(1,2) by (subst level_loop.simps) (simp add: js_shr_bit)
qed

lemma node_level_bound: "node k m < 2 ^ 31 \<Longrightarrow> k < 32"
proof (rule ccontr)
  assume "node k m < 2 ^ 31" "\<not> k < 32"
  then have "(2 :: int) ^ 32 \<le> 2 ^ k" by (intro power_increasing) simp_all
  moreover have "2 ^ k \<le> node k m + 1" by (simp add: node_eq)
  ultimately show False using \<open>node k m < 2 ^ 31\<close> by simp
qed

lemma level_node: "node k m < 2 ^ 31 \<Longrightarrow> level (node k m) = Some (Ok k)"
  using node_level_bound[of k m] level_loop_node[of k m 0]
  by (cases k) (auto simp: level_def assertNonNegativeSafeInt_def js_and_one bit_node)

lemma to_int32_bits: "0 \<le> x \<Longrightarrow> x < 2 ^ 31 \<Longrightarrow> js_xor x y = x XOR to_int32 y" "0 \<le> x \<Longrightarrow> x < 2 ^ 31 \<Longrightarrow> js_or x y = x OR to_int32 y"
  by (simp_all add: js_xor_def js_or_def to_int32_id)

lemma js_shl_1: "k < 31 \<Longrightarrow> js_shl 1 k = 2 ^ k"
proof -
  assume "k < 31"
  then have "(2 :: int) ^ k < 2 ^ 31" by (intro power_strict_increasing) simp_all
  then show ?thesis using \<open>k < 31\<close> by (simp add: js_shl_def to_int32_id push_bit_eq_mult)
qed

lemma js_shl_3: "k < 30 \<Longrightarrow> js_shl 3 k = 3 * 2 ^ k"
proof -
  assume "k < 30"
  then have "(2 :: int) ^ k \<le> 2 ^ 29" by (intro power_increasing) simp_all
  then have "3 * (2 :: int) ^ k < 2 ^ 31" by simp
  moreover have "0 \<le> 3 * (2 :: int) ^ k" by simp
  ultimately show ?thesis using \<open>k < 30\<close>
    by (simp add: js_shl_def to_int32_id push_bit_eq_mult mult.commute)
qed

lemma bit_three: "bit (3 * 2 ^ k :: int) n \<longleftrightarrow> n = k \<or> n = Suc k"
proof -
  have three: "bit (3 :: int) j \<longleftrightarrow> j = 0 \<or> j = 1" for j
    by (cases j) (auto simp: bit_0 bit_Suc bit_1_iff)
  have "bit (3 * 2 ^ k :: int) n = bit (push_bit k 3 :: int) n" by (simp add: push_bit_eq_mult)
  then show ?thesis by (auto simp only: bit_push_bit_iff three) auto
qed

lemma bit_odd_nat: "bit (Suc (2 * m)) j \<longleftrightarrow> j = 0 \<or> bit m (j - 1)"
  by (cases j) (simp_all add: bit_0 bit_Suc)

lemma node_child_xor:
  "node (Suc k) m XOR 2 ^ k = node k (2 * m)"
  "node (Suc k) m XOR (3 * 2 ^ k) = node k (2 * m + 1)"
proof -
  show "node (Suc k) m XOR 2 ^ k = node k (2 * m)"
    by (rule bit_eqI) (auto simp: bit_xor_iff bit_node bit_exp_iff bit_double_iff)
  show "node (Suc k) m XOR (3 * 2 ^ k) = node k (2 * m + 1)"
  proof (rule bit_eqI)
    fix n
    consider "n < k" | "n = k" | "n = Suc k" | "Suc k < n" by linarith
    then show "bit (node (Suc k) m XOR 3 * 2 ^ k) n = bit (node k (2 * m + 1)) n"
      by cases (simp_all add: bit_xor_iff bit_node bit_three bit_odd_nat)
  qed
qed

lemma to_int32_shl: "to_int32 (js_shl x k) = js_shl x k"
  by (simp add: js_shl_def to_int32_def)

lemma left_node: "node (Suc k) m < 2 ^ 31 \<Longrightarrow> left (node (Suc k) m) = Some (Ok (node k (2 * m)))"
  using node_level_bound[of "Suc k" m]
  by (simp add: left_def level_node to_int32_bits to_int32_shl) (simp add: js_shl_1 node_child_xor)

lemma right_formula:
  "node (Suc k) m < 2 ^ 31 \<Longrightarrow> k < 30 \<Longrightarrow> js_xor (node (Suc k) m) (js_shl 3 k) = node k (2 * m + 1)"
  by (simp add: to_int32_bits to_int32_shl) (simp add: js_shl_3 node_child_xor)

lemma parent_step_bits: "(node k m OR 2 ^ k) AND NOT (2 ^ Suc k) = node (Suc k) (m div 2)"
proof (rule bit_eqI)
  fix n
  consider "n < k" | "n = k" | "n = Suc k" | "Suc k < n" by linarith
  then show "bit ((node k m OR 2 ^ k) AND NOT (2 ^ Suc k)) n = bit (node (Suc k) (m div 2)) n"
    by cases (auto simp: bit_and_iff bit_or_iff bit_not_iff bit_node bit_exp_iff Suc_diff_Suc
        simp flip: bit_Suc simp del: power_Suc)
qed

lemma node_parent_bound: "node k m < 2 ^ 31 \<Longrightarrow> k < 30 \<Longrightarrow> node k m OR 2 ^ k < 2 ^ 31"
proof -
  assume "node k m < 2 ^ 31" "k < 30"
  moreover have "(2 :: int) ^ k < 2 ^ 31" using \<open>k < 30\<close> by (intro power_strict_increasing) simp_all
  ultimately have "take_bit 31 (node k m) = node k m" "take_bit 31 ((2 :: int) ^ k) = 2 ^ k"
    by (simp_all add: take_bit_int_eq_self)
  then have "take_bit 31 (node k m OR 2 ^ k) = node k m OR 2 ^ k" by (simp only: take_bit_or)
  then show ?thesis by (metis take_bit_int_less_exp)
qed

lemma parentStep_node:
  assumes "node k m < 2 ^ 31" "k < 30"
  shows "parentStep (node k m) = Some (Ok (node (Suc k) (m div 2)))"
proof -
  have o: "js_or (node k m) (js_shl 1 k) = node k m OR 2 ^ k"
    using assms by (simp add: to_int32_bits to_int32_shl) (simp add: js_shl_1)
  have n: "js_not (js_shl 1 (k + 1)) = NOT (2 ^ Suc k)"
    unfolding js_not_def to_int32_shl using assms(2) by (simp add: js_shl_1)
  have "- (2 ^ 31) \<le> NOT (2 ^ Suc k :: int)"
    using power_strict_increasing[of "Suc k" 31 "2 :: int"] assms(2) by (simp add: not_int_def)
  moreover have "NOT (2 ^ Suc k :: int) < 2 ^ 31"
  proof -
    have "0 < (2 :: int) ^ Suc k" "0 < (2 :: int) ^ 31" by simp_all
    then show ?thesis unfolding not_int_def by linarith
  qed
  ultimately have "to_int32 (NOT (2 ^ Suc k)) = NOT (2 ^ Suc k)" unfolding to_int32_def by (rule signed_take_bit_int_eq_self)
  moreover have "to_int32 (node k m OR 2 ^ k) = node k m OR 2 ^ k"
    using node_parent_bound [OF assms] by (intro to_int32_id) simp_all
  ultimately show ?thesis
    unfolding parentStep_def level_node [OF assms(1)] tree_bind_simps o n js_and_def by (simp only: parent_step_bits)
qed

section \<open>Trees of a given size\<close>

text \<open>The height of the tree over \<open>n\<close> leaves, and when a coordinate is a node of that tree.\<close>

fun height :: "nat \<Rightarrow> nat" where
  "height n = (if n \<le> 1 then 0 else Suc (height ((n + 1) div 2)))"

declare height.simps [simp del]

definition valid :: "nat \<Rightarrow> nat \<Rightarrow> nat \<Rightarrow> bool" where
  "valid n k m \<longleftrightarrow> node k m < 2 * int n - 1"

lemma height_upper: "n \<le> 2 ^ height n"
proof (induction n rule: height.induct)
  case (1 n)
  then show ?case by (cases "n \<le> 1") (auto simp: height.simps[of n])
qed

lemma height_lower: "2 \<le> n \<Longrightarrow> 2 ^ (height n - 1) < n \<and> 0 < height n"
proof (induction n rule: height.induct)
  case (1 n)
  let ?m = "(n + 1) div 2"
  show ?case
  proof (cases "n = 2")
    case True
    then show ?thesis by (simp add: height.simps)
  next
    case False
    then have m: "2 \<le> ?m" "\<not> n \<le> 1" using 1(2) by auto
    with 1(1) have IH: "2 ^ (height ?m - 1) < ?m" "0 < height ?m" by auto
    have "(2 :: nat) ^ height ?m = 2 * 2 ^ (height ?m - 1)" using IH(2) by (metis Suc_diff_1 power_Suc)
    then show ?thesis using IH(1) m(2) by (simp add: height.simps[of n])
  qed
qed

lemma height_bound: "n \<le> 2 ^ 30 \<Longrightarrow> height n \<le> 30"
proof (rule ccontr)
  assume n: "n \<le> 2 ^ 30" and h: "\<not> height n \<le> 30"
  have two: "2 \<le> n" using h by (cases "n \<le> 1") (auto simp: height.simps)
  have "(2 :: nat) ^ 30 \<le> 2 ^ (height n - 1)" using h by (intro power_increasing) simp_all
  with height_lower [OF two] n show False by linarith
qed

lemma valid_iff:
  "valid n 0 m \<longleftrightarrow> m < n"
  "valid n (Suc k) m \<longleftrightarrow> (2 * m + 1) * 2 ^ k < n"
proof -
  show "valid n 0 m \<longleftrightarrow> m < n" by (auto simp: valid_def node_eq)
  have "valid n (Suc k) m \<longleftrightarrow> int (m * 2 ^ (Suc k + 1) + 2 ^ Suc k) < 2 * int n"
    using node_plus[of "Suc k" m] unfolding valid_def by linarith
  also have "\<dots> \<longleftrightarrow> m * 2 ^ (Suc k + 1) + 2 ^ Suc k < 2 * n" by presburger
  also have "m * 2 ^ (Suc k + 1) + 2 ^ Suc k = 2 * ((2 * m + 1) * 2 ^ k)" by (simp add: algebra_simps)
  finally show "valid n (Suc k) m \<longleftrightarrow> (2 * m + 1) * 2 ^ k < n" by linarith
qed

lemma valid_root: "2 \<le> n \<Longrightarrow> valid n (height n) 0"
  using height_lower[of n] valid_iff(2)[of n "height n - 1" 0] by simp

lemma valid_leaf: "valid n k m \<Longrightarrow> m * 2 ^ k < n"
proof (cases k)
  case (Suc j)
  assume "valid n k m"
  then have "(2 * m + 1) * 2 ^ j < n" by (simp add: Suc valid_iff)
  then show ?thesis by (simp add: Suc algebra_simps)
qed (simp add: valid_iff)

lemma valid_small: "n \<le> 2 ^ 30 \<Longrightarrow> valid n k m \<Longrightarrow> node k m < 2 ^ 31"
  by (simp add: valid_def)

lemma log2_loop_step:
  assumes "0 \<le> x" "x < 2 ^ 31" "k < 32"
  shows "js_shr x k \<noteq> 0 \<longleftrightarrow> 2 ^ k \<le> x"
proof -
  have "js_shr x k = x div 2 ^ k" using assms by (simp add: js_shr_def to_int32_id drop_bit_eq_div)
  then show ?thesis using assms(1) by (simp add: pos_imp_zdiv_neg_iff div_eq_0_iff not_less zdiv_eq_0_iff)
qed

lemma log2_loop_value:
  assumes "2 ^ h \<le> x" "x < 2 ^ Suc h" "x < 2 ^ 31" "h < 31" "k \<le> Suc h"
  shows "log2_loop x k = Some (Suc h)"
  using assms(5)
proof (induction "Suc h - k" arbitrary: k)
  case 0
  have "0 \<le> x" using assms(1) by (meson order_trans zero_le_numeral zero_le_power)
  with 0 assms(2,3,4) show ?case by (subst log2_loop.simps) (simp add: log2_loop_step not_le)
next
  case (Suc d)
  then have IH: "log2_loop x (k + 1) = Some (Suc h)" by simp
  have "(2 :: int) ^ k \<le> 2 ^ h" using Suc by (intro power_increasing) simp_all
  then have "2 ^ k \<le> x" using assms(1) by (rule order_trans)
  moreover have "0 \<le> x" using assms(1) by (meson order_trans zero_le_numeral zero_le_power)
  moreover have "k < 32" using Suc assms(4) by simp
  ultimately have "js_shr x k \<noteq> 0" using log2_loop_step [OF _ assms(3)] by blast
  with IH show ?case by (subst log2_loop.simps) simp
qed

lemma root_node_value:
  assumes "2 \<le> n" "n \<le> 2 ^ 30"
  shows "root_node (int n) = Some (Ok (node (height n) 0))"
proof -
  let ?h = "height n" and ?w = "2 * int n - 1"
  have p: "(2 :: nat) ^ ?h = 2 * 2 ^ (?h - 1)" using height_lower [OF assms(1)] by (metis Suc_diff_1 power_Suc)
  have b: "?h \<le> 30" using height_bound [OF assms(2)] .
  have "2 ^ ?h \<le> 2 * n - 1" using height_lower [OF assms(1)] p by linarith
  then have "int (2 ^ ?h) \<le> int (2 * n - 1)" by (simp only: of_nat_le_iff)
  then have l: "2 ^ ?h \<le> ?w" using assms(1) by (simp add: of_nat_diff)
  have "2 * n - 1 < 2 * 2 ^ ?h" using height_upper[of n] assms(1) by linarith
  then have "int (2 * n - 1) < int (2 * 2 ^ ?h)" by (simp only: of_nat_less_iff)
  then have u: "?w < 2 ^ Suc ?h" using assms(1) by (simp add: of_nat_diff)
  have w: "?w < 2 ^ 31" using assms(2) by simp
  have "log2_loop ?w 0 = Some (Suc ?h)" using l u w b by (intro log2_loop_value) simp_all
  then have "log2 (nodeWidth (int n)) = Some (Ok ?h)"
    using assms w by (simp add: log2_def nodeWidth_def assertNonNegativeSafeInt_def)
  then show ?thesis using assms(1) b by (simp add: root_node_def js_shl_1 node_eq)
qed

lemma node_full: "m < 2 ^ (h - k) \<Longrightarrow> k \<le> h \<Longrightarrow> node k m < 2 ^ Suc h"
proof -
  assume "m < 2 ^ (h - k)" "k \<le> h"
  then have "(m + 1) * 2 ^ (k + 1) \<le> 2 ^ (h - k) * 2 ^ (k + 1)" by (intro mult_right_mono) simp_all
  also have "\<dots> = (2 :: nat) ^ Suc h" using \<open>k \<le> h\<close> by (simp flip: power_add)
  finally have "m * 2 ^ (k + 1) + 2 ^ k < (2 :: nat) ^ Suc h + 1" by (simp add: algebra_simps)
  then have "int (m * 2 ^ (k + 1) + 2 ^ k) < int (2 ^ Suc h + 1)" by (simp only: of_nat_less_iff)
  then show ?thesis using node_plus[of k m] by simp
qed

lemma node_leaf_bound:
  assumes "n \<le> 2 ^ 30" "i < n" "k \<le> height n"
  shows "node k (i div 2 ^ k) < 2 ^ 31"
proof -
  have "i < 2 ^ (height n - k) * 2 ^ k" using assms(2,3) height_upper[of n] by (simp flip: power_add)
  then have "i div 2 ^ k < 2 ^ (height n - k)" by (simp add: div_less_iff_less_mult)
  from node_full [OF this assms(3)] have "node k (i div 2 ^ k) < 2 ^ Suc (height n)" .
  also have "(2 :: int) ^ Suc (height n) \<le> 2 ^ 31" using height_bound [OF assms(1)] by (intro power_increasing) simp_all
  finally show ?thesis .
qed

text \<open>The climb to the next valid ancestor, and the descent to the first valid node on the left.\<close>

lemma parent_loop_climbs:
  assumes "2 \<le> n" "n \<le> 2 ^ 30" "i < n" "k \<le> height n"
  shows "\<exists>j. k \<le> j \<and> j \<le> height n \<and> valid n j (i div 2 ^ j) \<and> (\<forall>l. k \<le> l \<and> l < j \<longrightarrow> \<not> valid n l (i div 2 ^ l))
      \<and> parent_loop (2 * int n - 1) (node k (i div 2 ^ k)) = Some (Ok (node j (i div 2 ^ j)))"
  using assms(4)
proof (induction "height n - k" arbitrary: k)
  case 0
  have "i < 2 ^ height n" using assms(3) height_upper[of n] by linarith
  then have "i div 2 ^ height n = 0" by simp
  with 0 valid_root [OF assms(1)] show ?case
    by (intro exI[of _ k]) (auto simp: valid_def not_le parent_loop.simps[of _ "node _ 0"])
next
  case (Suc d)
  show ?case
  proof (cases "valid n k (i div 2 ^ k)")
    case True
    then show ?thesis using Suc by (intro exI[of _ k]) (auto simp: valid_def not_le parent_loop.simps)
  next
    case False
    then have ge: "2 * int n - 1 \<le> node k (i div 2 ^ k)" by (simp add: valid_def)
    have k: "k < height n" "k < 30" using Suc height_bound [OF assms(2)] by auto
    have "parentStep (node k (i div 2 ^ k)) = Some (Ok (node (Suc k) (i div 2 ^ Suc k)))"
      using parentStep_node [OF node_leaf_bound [OF assms(2,3)] k(2)] Suc.prems
      by (simp add: div_mult2_eq mult.commute[of 2])
    then have step: "parent_loop (2 * int n - 1) (node k (i div 2 ^ k)) = parent_loop (2 * int n - 1) (node (Suc k) (i div 2 ^ Suc k))"
      using ge by (subst parent_loop.simps) simp
    have "d = height n - Suc k" "Suc k \<le> height n" using Suc k by auto
    from Suc.hyps(1) [OF this] obtain j where
      "Suc k \<le> j" "j \<le> height n" "valid n j (i div 2 ^ j)" and between: "\<forall>l. Suc k \<le> l \<and> l < j \<longrightarrow> \<not> valid n l (i div 2 ^ l)"
      and      "parent_loop (2 * int n - 1) (node (Suc k) (i div 2 ^ Suc k)) = Some (Ok (node j (i div 2 ^ j)))" by blast
    moreover have "\<forall>l. k \<le> l \<and> l < j \<longrightarrow> \<not> valid n l (i div 2 ^ l)"
      using between False by (metis Suc_leI le_neq_implies_less)
    ultimately show ?thesis using step by (intro exI[of _ j]) auto
  qed
qed

lemma right_loop_descends:
  assumes "n \<le> 2 ^ 30" "m * 2 ^ k < n" "node k m < 2 ^ 31"
  shows "\<exists>j. j \<le> k \<and> valid n j (m * 2 ^ (k - j)) \<and> (\<forall>l. j < l \<and> l \<le> k \<longrightarrow> \<not> valid n l (m * 2 ^ (k - l)))
     \<and> right_loop (2 * int n - 1) (node k m) = Some (Ok (node j (m * 2 ^ (k - j))))"
  using assms(2,3)
proof (induction k arbitrary: m)
  case 0
  then show ?case by (intro exI[of _ 0]) (auto simp: valid_iff right_loop.simps node_eq)
next
  case (Suc k)
  show ?case
  proof (cases "valid n (Suc k) m")
    case True
    then show ?thesis by (intro exI[of _ "Suc k"]) (auto simp: valid_def right_loop.simps not_le)
  next
    case False
    then have ge: "2 * int n - 1 \<le> node (Suc k) m" by (simp add: valid_def)
    have step: "right_loop (2 * int n - 1) (node (Suc k) m) = right_loop (2 * int n - 1) (node k (2 * m))"
      using ge left_node [OF Suc.prems(2)] by (subst right_loop.simps) simp
    have "node k (2 * m) \<le> node (Suc k) m" by (simp add: node_eq algebra_simps)
    with Suc.prems have "2 * m * 2 ^ k < n" "node k (2 * m) < 2 ^ 31" by (simp_all add: mult.commute mult.left_commute)
    from Suc.IH [OF this] obtain j where j: "j \<le> k" "valid n j (2 * m * 2 ^ (k - j))"
      "\<forall>l. j < l \<and> l \<le> k \<longrightarrow> \<not> valid n l (2 * m * 2 ^ (k - l))"
      "right_loop (2 * int n - 1) (node k (2 * m)) = Some (Ok (node j (2 * m * 2 ^ (k - j))))" by blast
    have up: "l \<le> k \<Longrightarrow> 2 * m * 2 ^ (k - l) = m * 2 ^ (Suc k - l)" for l by (simp add: Suc_diff_le)
    show ?thesis using j step False
      by (intro exI[of _ j]) (auto simp: up le_Suc_eq)
  qed
qed

text \<open>The leaves below a node.\<close>

definition leaves_under :: "nat \<Rightarrow> int \<Rightarrow> nat set" where
  "leaves_under n x = {l. l < n \<and> (\<exists>k m. x = node k m \<and> l div 2 ^ k = m)}"

lemma leaves_under_node: "leaves_under n (node k m) = {l. l < n \<and> l div 2 ^ k = m}"
  by (auto simp: leaves_under_def node_inj)

lemma node_width: "2 \<le> n \<Longrightarrow> nodeWidth (int n) = 2 * int n - 1"
  by (simp add: nodeWidth_def)

lemma valid_top: "valid n k m \<Longrightarrow> 2 \<le> n \<Longrightarrow> k \<le> height n"
proof (rule ccontr)
  assume v: "valid n k m" and "2 \<le> n" and "\<not> k \<le> height n"
  then obtain j where j: "k = Suc j" "height n \<le> j" by (cases k) auto
  have "(2 :: nat) ^ height n \<le> 2 ^ j" using j by (intro power_increasing) simp_all
  moreover have "2 ^ j \<le> (2 * m + 1) * 2 ^ j" by simp
  moreover have "(2 * m + 1) * 2 ^ j < n" using v unfolding j(1) valid_iff .
  ultimately show False using height_upper[of n] by linarith
qed

lemma parent_value:
  assumes "2 \<le> n" "n \<le> 2 ^ 30" "i < n" "valid n k (i div 2 ^ k)" "k \<noteq> height n"
  obtains j where "k < j" "j \<le> height n" "valid n j (i div 2 ^ j)"
    "\<forall>l. k < l \<and> l < j \<longrightarrow> \<not> valid n l (i div 2 ^ l)"
    "parent (node k (i div 2 ^ k)) (int n) = Some (Ok (node j (i div 2 ^ j)))"
proof -
  have k: "k < height n" "k < 30" using valid_top [OF assms(4,1)] assms(5) height_bound [OF assms(2)] by auto
  then have "Suc k \<le> height n" by simp
  from parent_loop_climbs [OF assms(1-3) this] obtain j where j: "Suc k \<le> j" "j \<le> height n" "valid n j (i div 2 ^ j)"
    "\<forall>l. Suc k \<le> l \<and> l < j \<longrightarrow> \<not> valid n l (i div 2 ^ l)"
    "parent_loop (2 * int n - 1) (node (Suc k) (i div 2 ^ Suc k)) = Some (Ok (node j (i div 2 ^ j)))" by blast
  have "parentStep (node k (i div 2 ^ k)) = Some (Ok (node (Suc k) (i div 2 ^ Suc k)))"
    using parentStep_node [OF valid_small [OF assms(2,4)] k(2)] by (simp add: div_mult2_eq mult.commute[of 2])
  then have "parent (node k (i div 2 ^ k)) (int n) = Some (Ok (node j (i div 2 ^ j)))"
    using j(5) k(1) by (simp add: parent_def root_node_value [OF assms(1,2)] node_inj node_width [OF assms(1)] del: power_Suc)
  with j show thesis by (intro that[of j]) (auto simp: Suc_le_eq)
qed

lemma right_value:
  assumes "2 \<le> n" "n \<le> 2 ^ 30" "valid n (Suc k) m"
  obtains j where "j \<le> k" "valid n j ((2 * m + 1) * 2 ^ (k - j))"
    "\<forall>l. j < l \<and> l \<le> k \<longrightarrow> \<not> valid n l ((2 * m + 1) * 2 ^ (k - l))"
    "right (node (Suc k) m) (Some (int n)) = Some (Ok (node j ((2 * m + 1) * 2 ^ (k - j))))"
proof -
  have s: "node (Suc k) m < 2 ^ 31" using valid_small [OF assms(2,3)] .
  have k: "k < 30" using valid_top [OF assms(3,1)] height_bound [OF assms(2)] by simp
  have f: "(2 * m + 1) * 2 ^ k < n" using assms(3) by (simp add: valid_iff)
  moreover have "(2 :: nat) ^ 30 = 2 ^ (30 - k) * 2 ^ k" using k by (simp flip: power_add)
  ultimately have "(2 * m + 1) * 2 ^ k < 2 ^ (30 - k) * 2 ^ k" using assms(2) by linarith
  then have "2 * m + 1 < 2 ^ (30 - k)" unfolding mult_less_cancel2 by blast
  then have "node k (2 * m + 1) < 2 ^ Suc 30" using k by (intro node_full) simp_all
  then have b: "node k (2 * m + 1) < 2 ^ 31" by simp
  from right_loop_descends [OF assms(2) f b] obtain j where j: "j \<le> k" "valid n j ((2 * m + 1) * 2 ^ (k - j))"
    "\<forall>l. j < l \<and> l \<le> k \<longrightarrow> \<not> valid n l ((2 * m + 1) * 2 ^ (k - l))"
    "right_loop (2 * int n - 1) (node k (2 * m + 1)) = Some (Ok (node j ((2 * m + 1) * 2 ^ (k - j))))" by blast
  have "right (node (Suc k) m) (Some (int n)) = Some (Ok (node j ((2 * m + 1) * 2 ^ (k - j))))"
    using j(4) by (simp add: right_def level_node [OF s] right_formula [OF s k] node_width [OF assms(1)] Let_def)
  with j show thesis by (intro that)
qed

section \<open>Siblings and paths\<close>

text \<open>A valid node's left child spans full, its clamped right child spans what is left of the tree.\<close>

lemma div_pow_Suc: "(l :: nat) div 2 ^ Suc k = l div 2 ^ k div 2"
  by (simp add: div_mult2_eq mult.commute[of 2])

lemma invalid_half:
  assumes "\<not> valid n (Suc l) m" "a < n" "a div 2 ^ Suc l = m"
  shows "a div 2 ^ l = 2 * m"
proof -
  have n: "n \<le> (2 * m + 1) * 2 ^ l" using assms(1) by (simp add: valid_iff)
  then have "a div 2 ^ l < 2 * m + 1" using assms(2) by (simp add: div_less_iff_less_mult)
  moreover have "a div 2 ^ l div 2 = m" using assms(3) by (simp only: div_pow_Suc)
  ultimately show ?thesis by linarith
qed

lemma clamp_keeps_leaves:
  assumes "j \<le> k" "\<forall>l. j < l \<and> l \<le> k \<longrightarrow> \<not> valid n l (m * 2 ^ (k - l))"
  shows "leaves_under n (node j (m * 2 ^ (k - j))) = leaves_under n (node k m)"
  using assms
proof (induction "k - j" arbitrary: j)
  case (Suc d)
  then have le: "Suc j \<le> k" and d: "d = k - Suc j" by auto
  have IH: "leaves_under n (node (Suc j) (m * 2 ^ (k - Suc j))) = leaves_under n (node k m)"
    using Suc.hyps(1) [OF d le] Suc.prems(2) by simp
  have p: "m * 2 ^ (k - j) = 2 * (m * 2 ^ (k - Suc j))" using le by (simp add: Suc_diff_Suc flip: power_Suc)
  have nv: "\<not> valid n (Suc j) (m * 2 ^ (k - Suc j))" using Suc.prems(2) le by simp
  have "l div 2 ^ j = m * 2 ^ (k - j) \<longleftrightarrow> l div 2 ^ Suc j = m * 2 ^ (k - Suc j)" if "l < n" for l
    using invalid_half [OF nv that] p by (auto simp: div_pow_Suc simp del: power_Suc)
  then show ?case using IH by (auto simp: leaves_under_node simp del: power_Suc)
qed simp

lemma children_leaves:
  "leaves_under n (node (Suc k) m) = leaves_under n (node k (2 * m)) \<union> leaves_under n (node k (2 * m + 1))"
  "leaves_under n (node k (2 * m)) \<inter> leaves_under n (node k (2 * m + 1)) = {}"
  by (auto simp: leaves_under_node div_pow_Suc simp del: power_Suc)

lemma left_valid: "valid n (Suc k) m \<Longrightarrow> valid n k (2 * m)"
proof (cases k)
  case (Suc j)
  assume "valid n (Suc k) m"
  then have "(2 * m + 1) * 2 ^ Suc j < n" by (simp only: valid_iff Suc)
  moreover have "(2 * (2 * m) + 1) * 2 ^ j \<le> (2 * m + 1) * 2 ^ Suc j" by simp
  ultimately show ?thesis unfolding Suc valid_iff by linarith
qed (simp add: valid_iff)

lemma climb_position:
  assumes "k \<le> j" "i < n" "\<forall>l. k < l \<and> l \<le> j \<longrightarrow> \<not> valid n l (i div 2 ^ l)"
  shows "i div 2 ^ k = i div 2 ^ j * 2 ^ (j - k)"
  using assms(1,3)
proof (induction "j - k" arbitrary: k)
  case (Suc d)
  then have le: "Suc k \<le> j" and d: "d = j - Suc k" by auto
  have "i div 2 ^ Suc k = i div 2 ^ j * 2 ^ (j - Suc k)" using Suc.hyps(1) [OF d le] Suc.prems(2) by simp
  moreover have "\<not> valid n (Suc k) (i div 2 ^ Suc k)" using Suc.prems(2) le lessI by blast
  then have "i div 2 ^ k = 2 * (i div 2 ^ Suc k)" using invalid_half assms(2) by blast
  ultimately show ?case using le by (simp only: mult.left_commute[of 2] power_Suc [symmetric] Suc_diff_Suc [symmetric] Suc_diff_le)
qed simp

text \<open>What the parent and the sibling of a node are: the parent's children, whose leaves partition the parent's.\<close>

lemma family:
  assumes "2 \<le> n" "n \<le> 2 ^ 30" "i < n" "valid n k (i div 2 ^ k)" "k \<noteq> height n"
  obtains j s where "k < j" "j \<le> height n" "valid n j (i div 2 ^ j)"
    "\<forall>l. k < l \<and> l < j \<longrightarrow> \<not> valid n l (i div 2 ^ l)"
    "parent (node k (i div 2 ^ k)) (int n) = Some (Ok (node j (i div 2 ^ j)))"
    "sibling (node k (i div 2 ^ k)) (int n) = Some (Ok s)"
    "left (node j (i div 2 ^ j)) = Some (Ok (node k (i div 2 ^ k))) \<and> right (node j (i div 2 ^ j)) (Some (int n)) = Some (Ok s)
     \<or> left (node j (i div 2 ^ j)) = Some (Ok s) \<and> right (node j (i div 2 ^ j)) (Some (int n)) = Some (Ok (node k (i div 2 ^ k)))"
    "leaves_under n (node j (i div 2 ^ j)) = leaves_under n (node k (i div 2 ^ k)) \<union> leaves_under n s"
    "leaves_under n (node k (i div 2 ^ k)) \<inter> leaves_under n s = {}"
    "s < 2 * int n - 1 \<and> 0 \<le> s"
proof -
  obtain j where j: "k < j" "j \<le> height n" "valid n j (i div 2 ^ j)"
    "\<forall>l. k < l \<and> l < j \<longrightarrow> \<not> valid n l (i div 2 ^ l)"
    "parent (node k (i div 2 ^ k)) (int n) = Some (Ok (node j (i div 2 ^ j)))" using parent_value [OF assms] by blast
  then obtain h where h: "j = Suc h" by (cases j) auto
  let ?q = "i div 2 ^ j" and ?x = "node k (i div 2 ^ k)"
  have l: "left (node j ?q) = Some (Ok (node h (2 * ?q)))" using left_node valid_small [OF assms(2) j(3)] unfolding h by blast
  obtain r where r: "r \<le> h" "valid n r ((2 * ?q + 1) * 2 ^ (h - r))"
    "\<forall>l. r < l \<and> l \<le> h \<longrightarrow> \<not> valid n l ((2 * ?q + 1) * 2 ^ (h - l))"
    "right (node j ?q) (Some (int n)) = Some (Ok (node r ((2 * ?q + 1) * 2 ^ (h - r))))"
    using right_value [OF assms(1,2) j(3) [unfolded h]] unfolding h by blast
  note kids = children_leaves[of n h ?q, folded h] clamp_keeps_leaves [OF r(1,3)]
  have "i div 2 ^ h div 2 = ?q" unfolding h by (simp only: div_pow_Suc)
  then consider "i div 2 ^ h = 2 * ?q" | "i div 2 ^ h = 2 * ?q + 1" by linarith
  then show thesis
  proof cases
    case 1
    have "valid n h (i div 2 ^ h)" using left_valid j(3) 1 unfolding h by metis
    then have "k = h" using j(1,4) unfolding h by (metis lessI less_antisym)
    then have x: "?x = node h (2 * ?q)" using 1 by simp
    have sib: "sibling ?x (int n) = Some (Ok (node r ((2 * ?q + 1) * 2 ^ (h - r))))"
      unfolding sibling_def j(5) tree_bind_simps l r(4) using x by simp
    show thesis by (rule that [OF j sib]) (use kids l r x in \<open>simp_all add: valid_def\<close>)
  next
    case 2
    have pos: "i div 2 ^ k = (2 * ?q + 1) * 2 ^ (h - k)"
      using climb_position[of k h i n] j(1,4) assms(3) 2 unfolding h by simp
    have "r = k"
    proof (rule ccontr)
      assume "r \<noteq> k"
      then consider "r < k" | "k < r" by linarith
      then show False
      proof cases
        case 1
        then show False using r(3) assms(4) pos j(1) h by auto
      next
        case 2
        have "i div 2 ^ r = (2 * ?q + 1) * 2 ^ (h - r)"
          using climb_position[of r h i n] 2 j(4) r(1) assms(3) \<open>i div 2 ^ h = 2 * ?q + 1\<close> unfolding h by simp
        then show False using r(1,2) 2 j(4) h by auto
      qed
    qed
    then have x: "?x = node r ((2 * ?q + 1) * 2 ^ (h - r))" using pos by simp
    have ne: "node h (2 * ?q) \<noteq> ?x"
    proof
      assume "node h (2 * ?q) = ?x"
      then have "h = k" "2 * ?q = i div 2 ^ k" by (simp_all add: node_inj)
      with 2 show False by simp
    qed
    have sib: "sibling ?x (int n) = Some (Ok (node h (2 * ?q)))" using ne by (simp add: sibling_def j(5) l)
    have "valid n h (2 * ?q)" using left_valid j(3) unfolding h by blast
    then show thesis by (intro that [OF j sib]) (use kids l r x in \<open>auto simp: valid_def\<close>)
  qed
qed

definition ancestors :: "nat \<Rightarrow> nat \<Rightarrow> nat \<Rightarrow> int list" where
  "ancestors n k i = map (\<lambda>j. node j (i div 2 ^ j)) (filter (\<lambda>j. valid n j (i div 2 ^ j)) [Suc k..<Suc (height n)])"

lemma ancestors_root: "ancestors n (height n) i = []"
  by (simp add: ancestors_def)

lemma ancestors_next:
  assumes "k < j" "j \<le> height n" "valid n j (i div 2 ^ j)" "\<forall>l. k < l \<and> l < j \<longrightarrow> \<not> valid n l (i div 2 ^ l)"
  shows "ancestors n k i = node j (i div 2 ^ j) # ancestors n j i"
proof -
  have "[Suc k..<Suc (height n)] = [Suc k..<j] @ j # [Suc j..<Suc (height n)]"
    using upt_add_eq_append[of "Suc k" j "Suc (height n) - j"] upt_conv_Cons[of j "Suc (height n)"] assms(1,2)
    by (simp del: upt_Suc)
  moreover have "filter (\<lambda>j. valid n j (i div 2 ^ j)) [Suc k..<j] = []"
    using assms(4) by (auto simp: filter_empty_conv Suc_le_eq)
  ultimately show ?thesis using assms(3) by (simp add: ancestors_def del: upt_Suc)
qed

lemma directPath_loop_value:
  assumes "2 \<le> n" "n \<le> 2 ^ 30" "i < n" "valid n k (i div 2 ^ k)"
  shows "directPath_loop (int n) (node (height n) 0) (node k (i div 2 ^ k)) acc = Some (Ok (acc @ ancestors n k i))"
  using assms(4)
proof (induction "height n - k" arbitrary: k acc rule: less_induct)
  case less
  have top: "i div 2 ^ height n = 0" using assms(3) height_upper[of n] by (simp add: div_eq_0_iff)
  show ?case
  proof (cases "k = height n")
    case True
    then show ?thesis using top by (subst directPath_loop.simps) (simp add: ancestors_root)
  next
    case False
    obtain j where j: "k < j" "j \<le> height n" "valid n j (i div 2 ^ j)" "\<forall>l. k < l \<and> l < j \<longrightarrow> \<not> valid n l (i div 2 ^ l)"
      "parent (node k (i div 2 ^ k)) (int n) = Some (Ok (node j (i div 2 ^ j)))"
      using parent_value [OF assms(1-3) less.prems False] by blast
    have "height n - j < height n - k" using j(1,2) by simp
    from less.hyps [OF this j(3), of "acc @ [node j (i div 2 ^ j)]"]
    show ?thesis using False j(5) by (subst directPath_loop.simps) (simp add: node_inj ancestors_next [OF j(1-4)])
  qed
qed

lemma directPath_value:
  assumes "2 \<le> n" "n \<le> 2 ^ 30" "i < n"
  shows "directPath (2 * int i) (int n) = Some (Ok (ancestors n 0 i))"
  using directPath_loop_value [OF assms, of 0 "[]"] assms
  by (simp add: directPath_def root_node_value valid_iff node_0)

text \<open>The copath, step by step: each element's leaves are those the path gains at that step.\<close>

fun gains :: "nat \<Rightarrow> int \<Rightarrow> int list \<Rightarrow> int list \<Rightarrow> bool" where
  "gains n x [] cs \<longleftrightarrow> cs = []"
| "gains n x (p # ps) cs \<longleftrightarrow> (\<exists>c cs'. cs = c # cs' \<and> leaves_under n p = leaves_under n x \<union> leaves_under n c
     \<and> leaves_under n x \<inter> leaves_under n c = {} \<and> 0 \<le> c \<and> c < 2 * int n - 1 \<and> gains n p ps cs')"

lemma siblings_gain:
  assumes "2 \<le> n" "n \<le> 2 ^ 30" "i < n" "valid n k (i div 2 ^ k)" "k \<noteq> height n"
  shows "\<exists>cs. siblings (node k (i div 2 ^ k) # butlast (ancestors n k i)) (int n) = Some (Ok cs)
     \<and> gains n (node k (i div 2 ^ k)) (ancestors n k i) cs"
  using assms(4,5)
proof (induction "height n - k" arbitrary: k rule: less_induct)
  case less
  obtain j s where j: "k < j" "j \<le> height n" "valid n j (i div 2 ^ j)" "\<forall>l. k < l \<and> l < j \<longrightarrow> \<not> valid n l (i div 2 ^ l)"
    and s: "sibling (node k (i div 2 ^ k)) (int n) = Some (Ok s)"
    "leaves_under n (node j (i div 2 ^ j)) = leaves_under n (node k (i div 2 ^ k)) \<union> leaves_under n s"
    "leaves_under n (node k (i div 2 ^ k)) \<inter> leaves_under n s = {}" "s < 2 * int n - 1 \<and> 0 \<le> s"
    using family [OF assms(1-3) less.prems] by metis
  note a = ancestors_next [OF j]
  show ?case
  proof (cases "j = height n")
    case True
    then show ?thesis using s by (intro exI[of _ "[s]"]) (simp add: a ancestors_root)
  next
    case False
    have "height n - j < height n - k" using j(1,2) by simp
    from less.hyps [OF this j(3) False] obtain cs where
      cs: "siblings (node j (i div 2 ^ j) # butlast (ancestors n j i)) (int n) = Some (Ok cs)"
        "gains n (node j (i div 2 ^ j)) (ancestors n j i) cs" by blast
    then have "ancestors n j i \<noteq> []" using valid_root [OF assms(1)] False j(2) height_upper[of n] assms(3)
      by (auto simp: ancestors_def filter_empty_conv simp del: upt_Suc intro!: bexI[of _ "height n"])
    with s cs show ?thesis by (intro exI[of _ "s # cs"]) (simp add: a del: siblings.simps(2) add: siblings.simps(2)[of "node k _"])
  qed
qed

lemma gains_count:
  "gains n x ps cs \<Longrightarrow> leaves_under n (last (x # ps)) = {..<n} \<Longrightarrow> l < n \<Longrightarrow>
    length (filter (\<lambda>c. l \<in> leaves_under n c) cs) = of_bool (l \<notin> leaves_under n x)"
proof (induction ps arbitrary: x cs)
  case (Cons p ps)
  then obtain c cs' where cs: "cs = c # cs'" "leaves_under n p = leaves_under n x \<union> leaves_under n c"
    "leaves_under n x \<inter> leaves_under n c = {}" "gains n p ps cs'" by auto
  have "length (filter (\<lambda>c. l \<in> leaves_under n c) cs') = of_bool (l \<notin> leaves_under n p)"
    using Cons.IH [OF cs(4)] Cons.prems by (simp split: if_splits)
  then show ?case using cs by auto
qed simp

section \<open>Properties\<close>

text \<open>
  The bit formulas compute coordinates.  For every node that the 32-bit operators can hold:
  \<open>level\<close> returns its level, \<open>left\<close> and \<open>right\<close> return the two nodes one level down, \<open>parentStep\<close> the
  node one level up, and \<open>left\<close> and \<open>right\<close> of a leaf throw.
\<close>

theorem tree_bit_formulas:
  assumes "node k m < 2 ^ 31" "k < 30"
  shows "level (node k m) = Some (Ok k)
    \<and> parentStep (node k m) = Some (Ok (node (Suc k) (m div 2)))
    \<and> (case k of
         0 \<Rightarrow> left (node k m) = Some (Err Leaves_have_no_children) \<and> right (node k m) None = Some (Err Leaves_have_no_children)
       | Suc j \<Rightarrow> left (node k m) = Some (Ok (node j (2 * m))) \<and> right (node k m) None = Some (Ok (node j (2 * m + 1))))"
proof (cases k)
  case 0
  then show ?thesis using assms parentStep_node [OF assms] by (simp add: level_node left_def right_def)
next
  case (Suc j)
  have "right (node k m) None = Some (Ok (node j (2 * m + 1)))"
    using assms right_formula[of j m] by (simp add: Suc right_def level_node Let_def)
  then show ?thesis using assms parentStep_node [OF assms] left_node[of j m] by (simp add: Suc level_node)
qed

text \<open>
  Claim C5.  The direct path of a leaf, in a tree of up to \<open>2 ^ 30\<close> leaves: the call returns, and the path is
  the list of the leaf's ancestors that exist in the truncated tree, bottom up, ending with the root.
\<close>

theorem tree_direct_path:
  assumes "2 \<le> n" "n \<le> 2 ^ 30" "i < n"
  shows "\<exists>dp. directPath (leafToNodeIndex (int i)) (int n) = Some (Ok dp)
    \<and> dp = map (\<lambda>j. node j (i div 2 ^ j)) (filter (\<lambda>j. node j (i div 2 ^ j) < nodeWidth (int n)) [1..<Suc (height n)])
    \<and> root_node (int n) = Some (Ok (last dp))"
proof -
  have a: "ancestors n 0 i
      = map (\<lambda>j. node j (i div 2 ^ j)) (filter (\<lambda>j. node j (i div 2 ^ j) < nodeWidth (int n)) [1..<Suc (height n)])"
    by (simp add: ancestors_def valid_def node_width [OF assms(1)] del: upt_Suc)
  have "i div 2 ^ height n = 0" using assms(3) height_upper[of n] by (simp add: div_eq_0_iff)
  then have "last (ancestors n 0 i) = node (height n) 0"
    using valid_root [OF assms(1)] height_lower [OF assms(1)] by (simp add: ancestors_def)
  with a directPath_value [OF assms] root_node_value [OF assms(1,2)] show ?thesis
    by (intro exI[of _ "ancestors n 0 i"]) (simp add: leafToNodeIndex_def mult.commute)
qed

text \<open>
  The copath covers the group.  In a tree of up to \<open>2 ^ 30\<close> leaves, the copath of a leaf returns
  one node per node of the direct path; every other leaf lies below exactly one copath node, and the leaf
  itself below none.  So a secret sealed to every copath node reaches each other member once.
\<close>

theorem tree_copath_covers:
  assumes "2 \<le> n" "n \<le> 2 ^ 30" "i < n"
  shows "\<exists>dp cp. directPath (2 * int i) (int n) = Some (Ok dp) \<and> copath (2 * int i) (int n) = Some (Ok cp)
    \<and> length cp = length dp
    \<and> (\<forall>l<n. length (filter (\<lambda>c. l \<in> leaves_under n c) cp) = (if l = i then 0 else 1))"
proof -
  have h: "0 \<noteq> height n" using height_lower [OF assms(1)] by simp
  have v: "valid n 0 (i div 2 ^ 0)" using assms(3) by (simp add: valid_iff)
  from siblings_gain [OF assms v h] obtain cs where
    cs: "siblings (2 * int i # butlast (ancestors n 0 i)) (int n) = Some (Ok cs)" "gains n (2 * int i) (ancestors n 0 i) cs"
    by (auto simp: node_0)
  have len: "gains n x ps cs \<Longrightarrow> length cs = length ps" for x ps cs
    by (induction ps arbitrary: x cs) auto
  have top: "i div 2 ^ height n = 0" using assms(3) height_upper[of n] by (simp add: div_eq_0_iff)
  have "last (2 * int i # ancestors n 0 i) = node (height n) 0"
    using valid_root [OF assms(1)] h top by (simp add: ancestors_def)
  moreover have "leaves_under n (node (height n) 0) = {..<n}"
    using height_upper[of n] by (auto simp: leaves_under_node div_eq_0_iff)
  ultimately have "\<forall>l<n. length (filter (\<lambda>c. l \<in> leaves_under n c) cs) = of_bool (l \<notin> leaves_under n (2 * int i))"
    using gains_count [OF cs(2)] by metis
  moreover have "leaves_under n (2 * int i) = {i}"
    using leaves_under_node[of n 0 i] assms(3) by (auto simp: node_0)
  ultimately show ?thesis using cs(1) len [OF cs(2)]
    by (intro exI[of _ "ancestors n 0 i"] exI[of _ cs]) (simp add: copath_def directPath_value [OF assms])
qed

text \<open>
  Parent and children agree: every node of a tree of up to \<open>2 ^ 30\<close> leaves, the root excepted, has
  a parent and a sibling, the two are the parent's \<open>left\<close> and (clamped) \<open>right\<close> children, and the leaves below
  the parent are split between them.
\<close>

theorem tree_family:
  assumes "2 \<le> n" "n \<le> 2 ^ 30" "0 \<le> x" "x < nodeWidth (int n)" "root_node (int n) \<noteq> Some (Ok x)"
  shows "\<exists>p s. parent x (int n) = Some (Ok p) \<and> sibling x (int n) = Some (Ok s) \<and> 0 \<le> s \<and> s < nodeWidth (int n)
    \<and> {left p, right p (Some (int n))} = {Some (Ok x), Some (Ok s)}
    \<and> leaves_under n p = leaves_under n x \<union> leaves_under n s \<and> leaves_under n x \<inter> leaves_under n s = {}"
proof -
  obtain k m where x: "x = node k m" using node_exists[of "nat x"] assms(3) by auto
  have v: "valid n k m" using assms(4) by (simp add: x valid_def node_width [OF assms(1)])
  let ?i = "m * 2 ^ k"
  have i: "?i < n" "?i div 2 ^ k = m" using valid_leaf [OF v] by simp_all
  have k: "k \<noteq> height n"
  proof
    assume "k = height n"
    then have "m * 2 ^ height n < 1 * 2 ^ height n" using i(1) height_upper[of n] by (simp only: mult_1)
    then have "m < 1" unfolding mult_less_cancel2 by blast
    then have "m = 0" by simp
    then show False using assms(5) x \<open>k = height n\<close> root_node_value [OF assms(1,2)] by simp
  qed
  show ?thesis
    by (rule family [OF assms(1,2) i(1) _ k, unfolded i(2)])
      (use v x node_width [OF assms(1)] in \<open>auto intro!: exI\<close>)
qed

text \<open>
  Outside the 32-bit range the guard of \<open>level\<close> does not help: \<open>0xFFFFFFFF\<close> is a safe integer,
  passes \<open>assertNonNegativeSafeInt\<close>, reads as minus one in every shift, and the loop never returns.
\<close>

theorem tree_level_diverges: "assertNonNegativeSafeInt (2 ^ 32 - 1) \<and> level (2 ^ 32 - 1) = None"
proof -
  have ones: "to_int32 (2 ^ 32 - 1) = -1"
    by (simp add: to_int32_def signed_take_bit_eq_if_negative bit_iff_odd_drop_bit take_bit_eq_mod mask_eq_exp_minus_1)
  have "level_loop x k = Some y \<Longrightarrow> to_int32 x = -1 \<longrightarrow> False" for x k y
    by (erule level_loop.raw_induct [where P = "\<lambda>x k y. to_int32 x = -1 \<longrightarrow> False", rotated])
      (auto simp: js_and_one js_shr_def split: if_splits)
  then have "level_loop (2 ^ 32 - 1) 0 = None" using ones by (cases "level_loop (2 ^ 32 - 1) 0") auto
  then show ?thesis by (simp add: level_def assertNonNegativeSafeInt_def js_and_one bit_0)
qed

section \<open>The tree of five leaves\<close>

lemma height_5: "height 5 = 3"
  by (simp add: height.simps)

theorem tree_bit_formulas_witness: "level 11 = Some (Ok 2) \<and> left 11 = Some (Ok 9) \<and> parentStep 11 = Some (Ok 7)"
  using tree_bit_formulas[of 2 1] by (simp add: node_eq numeral_2_eq_2)

theorem tree_direct_path_witness: "directPath (leafToNodeIndex 4) 5 = Some (Ok [7])"
  using tree_direct_path[of 5 4] by (simp add: height_5 node_eq nodeWidth_def upt_rec)

theorem tree_copath_covers_witness:
  "\<exists>dp cp. directPath 4 5 = Some (Ok dp) \<and> copath 4 5 = Some (Ok cp) \<and> length cp = length dp
    \<and> (\<forall>l<5. length (filter (\<lambda>c. l \<in> leaves_under 5 c) cp) = (if l = 2 then 0 else 1))"
  using tree_copath_covers[of 5 2] by simp

theorem tree_family_witness: "\<exists>p s. parent 8 5 = Some (Ok p) \<and> sibling 8 5 = Some (Ok s) \<and> leaves_under 5 8 \<inter> leaves_under 5 s = {}"
  using tree_family[of 5 8] by (simp add: nodeWidth_def root_node_value[of 5, simplified] height_5 node_eq) blast

end
