(* ===== verification/BeeKemCorrect.thy ===== *)
theory BeeKemCorrect
  imports BeeKem TreeMathCorrect
begin

text \<open>
  Correctness of the ratchet tree: what a new member derives from its welcome, what the other member of a pair
  derives from a path update, which keys an update after a removal is sealed to, leaf lookup, compaction, and
  two runs in which the code refuses operations of ordinary groups.
\<close>

section \<open>Running operations\<close>

named_theorems bk "steps of the ratchet tree operations"

lemma bk_bind_simps [bk]:
  "bk_bind (bk_return x) f s = f x s"
  "bk_bind (bk_throw e) f s = Some (Err e, s)"
  "bk_bind bk_get g s = g (fst s) s"
  "bk_bind (set_node i nd) h s = h () ((fst s)\<lparr>nodes := map_set i nd (nodes (fst s))\<rparr>, snd s)"
  "bk_bind (set_num_leaves n) h s = h () ((fst s)\<lparr>numLeaves := n\<rparr>, snd s)"
  "bk_bind (set_my_leaf i) h s = h () ((fst s)\<lparr>myLeafIndex := i\<rparr>, snd s)"
  "bk_bind (draw_key C) d s = d (generateKey C (snd s)) (fst s, snd s + 1)"
  "bk_bind (bk_tree (Some (Ok x))) f s = f x s"
  "bk_bind (bk_ecies (Ok x)) f s = f x s"
  "bk_bind (bk_bind m k) f s = bk_bind m (\<lambda>y. bk_bind (k y) f) s"
  by (simp_all add: bk_bind_def bk_return_def bk_throw_def bk_get_def set_node_def set_num_leaves_def set_my_leaf_def
      draw_key_def bk_tree_def bk_ecies_def split: option.split sum.split)

lemma bk_bind_Ok: "m s = Some (Ok x, s') \<Longrightarrow> bk_bind m f s = f x s'"
  by (simp add: bk_bind_def)

lemma bk_bind_Ok_iff:
  "bk_bind m f s = Some (Ok y, t) \<longleftrightarrow> (\<exists>x s'. m s = Some (Ok x, s') \<and> f x s' = Some (Ok y, t))"
  by (auto simp: bk_bind_def split: option.splits sum.splits prod.splits)

lemma bk_return_iff [bk]: "bk_return x s = Some (Ok y, t) \<longleftrightarrow> y = x \<and> t = s"
  by (auto simp: bk_return_def)

lemma bk_tree_Ok_iff: "bk_tree r s = Some (Ok x, t) \<longleftrightarrow> r = Some (Ok x) \<and> t = s"
  by (auto simp: bk_tree_def split: option.splits sum.splits)

lemma import_public_bind [bk]:
  "webcrypto_ok C pairs \<Longrightarrow> bk_bind (import_public C (exportRaw C k)) f s = f k s"
  by (simp add: import_public_def webcrypto_ok_def bk_bind_def bk_return_def)

lemma encrypt_bind [bk]:
  "bk_bind (encryptNodeKey C k pk) f s
     = f (fst (eciesSeal C (snd s) (exportPkcs8 C k) pk)) (fst s, snd (eciesSeal C (snd s) (exportPkcs8 C k) pk))"
  by (simp add: bk_bind_def encryptNodeKey_def Let_def split: prod.split)

text \<open>A private key sealed to one half of a key pair is recovered with the other half.\<close>

lemma decrypt_bind:
  assumes "webcrypto_ok C pairs" "pairs sk pk"
  shows "bk_bind (decryptNodeKey C (fst (eciesSeal C r (exportPkcs8 C k) pk)) sk) f s = f k s"
proof -
  have "eciesOpen C (fst (eciesSeal C r (exportPkcs8 C k) pk)) sk = Ok (exportPkcs8 C k)"
    using open_seal [OF assms] by (metis prod.collapse)
  then show ?thesis using assms(1) by (simp add: decryptNodeKey_def bk webcrypto_ok_def)
qed

section \<open>Public view and well-formed trees\<close>

definition pub :: "('sk, 'pk) beekem \<Rightarrow> int \<Rightarrow> 'pk option" where
  "pub b i = Option.bind (map_get (nodes b) i) publicKey"

definition wf_tree :: "('sk \<Rightarrow> 'pk \<Rightarrow> bool) \<Rightarrow> ('sk, 'pk) beekem \<Rightarrow> bool" where
  "wf_tree pairs b \<longleftrightarrow> map_ok (nodes b) \<and> 1 \<le> numLeaves b
     \<and> (\<exists>i. myLeafIndex b = 2 * int i \<and> int i < numLeaves b)
     \<and> (\<forall>i nd. map_get (nodes b) i = Some nd \<longrightarrow> 0 \<le> i \<and> i < 2 * numLeaves b - 1
          \<and> (\<forall>sk pk. privateKey nd = Some sk \<longrightarrow> publicKey nd = Some pk \<longrightarrow> pairs sk pk))"

lemma map_get_fst_set: "map_get m i = Some v \<Longrightarrow> i \<in> fst ` set m"
  by (metis map_get_in_set fst_conv image_eqI)

lemma tree_hash_cong:
  assumes "map_ok (nodes b)" "map_ok (nodes c)" "fst ` set (nodes b) = fst ` set (nodes c)" "pub b = pub c"
  shows "computeTreeHash C b = computeTreeHash C c"
proof -
  have s: "sort (map fst (nodes b)) = sort (map fst (nodes c))"
    using assms(1-3) by (intro sorted_distinct_set_unique) (simp_all add: map_ok_def)
  have "(case map_get (nodes x) i of Some nd \<Rightarrow> (case publicKey nd of Some k \<Rightarrow> be32 (nat (i mod 2 ^ 32)) @ exportRaw C k | None \<Rightarrow> [])
       | None \<Rightarrow> []) = (case pub x i of Some k \<Rightarrow> be32 (nat (i mod 2 ^ 32)) @ exportRaw C k | None \<Rightarrow> [])" for x :: "('a, 'b) beekem" and i
    by (simp add: pub_def split: option.split)
  then show ?thesis unfolding computeTreeHash_def s using assms(4) by simp
qed

section \<open>The effect of a path update on the sender\<close>

text \<open>\<open>changed_on ps b b'\<close>: the update touched exactly the nodes \<open>ps\<close>, each with a generated key pair.\<close>

definition changed_on :: "('sk, 'pk) webcrypto \<Rightarrow> int list \<Rightarrow> ('sk, 'pk) beekem \<Rightarrow> ('sk, 'pk) beekem \<Rightarrow> bool" where
  "changed_on C ps b b' \<longleftrightarrow> numLeaves b' = numLeaves b \<and> myLeafIndex b' = myLeafIndex b
     \<and> (map_ok (nodes b) \<longrightarrow> map_ok (nodes b'))
     \<and> (\<forall>i. i \<notin> set ps \<longrightarrow> map_get (nodes b') i = map_get (nodes b) i)
     \<and> (\<forall>i\<in>set ps. \<exists>q. map_get (nodes b') i
          = Some \<lparr>ntype = Internal, index = i, publicKey = Some (snd (generateKey C q)), privateKey = Some (fst (generateKey C q))\<rparr>)"

lemma changed_on_Nil: "changed_on C [] b b"
  by (simp add: changed_on_def)

lemma changed_on_Cons:
  assumes "changed_on C ps (b\<lparr>nodes := map_set i \<lparr>ntype = Internal, index = i,
      publicKey = Some (snd (generateKey C q)), privateKey = Some (fst (generateKey C q))\<rparr> (nodes b)\<rparr>) b'"
  shows "changed_on C (i # ps) b b'"
  using assms by (auto simp: changed_on_def js_map split: if_splits)

lemma updatePath_loop_effect:
  "updatePath_loop C dp cp acc (b, r) = Some (Ok ns, (b', r')) \<Longrightarrow> length cp = length dp \<Longrightarrow> changed_on C dp b b'"
proof (induction dp arbitrary: cp acc b r)
  case Nil
  then show ?case by (simp add: bk changed_on_Nil)
next
  case (Cons ni dp)
  then obtain sib cp' where cp: "cp = sib # cp'" "length cp' = length dp" by (cases cp) auto
  obtain sk pk where g: "generateKey C r = (sk, pk)" by fastforce
  let ?b = "b\<lparr>nodes := map_set ni \<lparr>ntype = Internal, index = ni, publicKey = Some pk, privateKey = Some sk\<rparr> (nodes b)\<rparr>"
  from Cons(2) obtain spk acc' q where "updatePath_loop C dp cp' acc' (?b, q) = Some (Ok ns, (b', r'))"
    by (auto simp: bk g cp bk_bind_Ok_iff[of "bk_tree _"] bk_tree_Ok_iff split: option.splits)
  from Cons.IH [OF this cp(2)] show ?case using g by (intro changed_on_Cons[where q = r]) simp
qed

text \<open>Where the seals of an update go: to public keys of the tree or to keys drawn during the update.\<close>

definition sealed_within :: "('sk, 'pk) webcrypto \<Rightarrow> 'pk set \<Rightarrow> path_node_update \<Rightarrow> bool" where
  "sealed_within C K pn \<longleftrightarrow> encryptedPrivateKey pn = []
     \<or> (\<exists>k\<in>K. \<exists>q m. encryptedPrivateKey pn = fst (eciesSeal C q m k))"

lemma resolve_in_tree:
  "resolve f ns n i = Some y \<Longrightarrow> y = Ok (Some k) \<longrightarrow> (\<exists>j nd. map_get ns j = Some nd \<and> f nd = Some k)"
proof (erule resolve.raw_induct [where P = "\<lambda>f ns n i y. y = Ok (Some k) \<longrightarrow> (\<exists>j nd. map_get ns j = Some nd \<and> f nd = Some k)", rotated])
  fix res f ns n i y
  assume IH: "\<And>f ns n i y. res f ns n i = Some y \<Longrightarrow> y = Ok (Some k) \<longrightarrow> (\<exists>j nd. map_get ns j = Some nd \<and> f nd = Some k)"
    and eq: "(case Option.bind (map_get ns i) f of Some k \<Rightarrow> Some (Ok (Some k))
      | None \<Rightarrow> if isInternal i then
            (case left i of None \<Rightarrow> None | Some (Inl e) \<Rightarrow> Some (Inl e) | Some (Inr l) \<Rightarrow>
             (case right i (Some n) of None \<Rightarrow> None | Some (Inl e) \<Rightarrow> Some (Inl e) | Some (Inr r) \<Rightarrow>
              Option.bind (res f ns n l) (\<lambda>found. case found of
                  Inl e \<Rightarrow> Some (Inl e)
                | Inr (Some k) \<Rightarrow> Some (Ok (Some k))
                | Inr None \<Rightarrow> res f ns n r)))
          else Some (Ok None)) = Some y"
  show "y = Ok (Some k) \<longrightarrow> (\<exists>j nd. map_get ns j = Some nd \<and> f nd = Some k)"
    using eq IH by (auto split: option.splits if_splits sum.splits bind_splits)
qed

lemma updatePath_loop_seals:
  "updatePath_loop C dp cp acc (b, r) = Some (Ok ns, (b', r')) \<Longrightarrow> length cp = length dp \<Longrightarrow>
   \<forall>pn\<in>set acc. sealed_within C K pn \<Longrightarrow> (\<forall>i k. pub b i = Some k \<longrightarrow> k \<in> K) \<Longrightarrow> (\<forall>q. snd (generateKey C q) \<in> K) \<Longrightarrow>
   \<forall>pn\<in>set ns. sealed_within C K pn"
proof (induction dp arbitrary: cp acc b r)
  case Nil
  then show ?case by (simp add: bk)
next
  case (Cons ni dp)
  then obtain sib cp' where cp: "cp = sib # cp'" "length cp' = length dp" by (cases cp) auto
  obtain sk pk where g: "generateKey C r = (sk, pk)" by fastforce
  let ?b = "b\<lparr>nodes := map_set ni \<lparr>ntype = Internal, index = ni, publicKey = Some pk, privateKey = Some sk\<rparr> (nodes b)\<rparr>"
  let ?pn = "\<lambda>enc. \<lparr>nodeIndex = ni, pnPublicKey = exportRaw C pk, encryptedPrivateKey = enc\<rparr>"
  from Cons(2) obtain spk where rs: "resolvePublicKey b sib = Some (Ok spk)"
    by (auto simp: bk g cp bk_bind_Ok_iff[of "bk_tree _"] bk_tree_Ok_iff)
  with Cons(2) obtain enc q where rec: "updatePath_loop C dp cp' (acc @ [?pn enc]) (?b, q) = Some (Ok ns, (b', r'))"
    and enc: "spk = None \<and> enc = [] \<or> (\<exists>k. spk = Some k \<and> enc = fst (eciesSeal C (r + 1) (exportPkcs8 C sk) k))"
    by (cases spk) (auto simp: bk g cp)
  have "spk = Some k \<Longrightarrow> k \<in> K" for k
  proof -
    assume k: "spk = Some k"
    then obtain j nd where "map_get (nodes b) j = Some nd" "publicKey nd = Some k"
      using resolve_in_tree [OF rs [unfolded resolvePublicKey_def], of k] by auto
    then have "pub b j = Some k" by (simp add: pub_def)
    then show "k \<in> K" using Cons.prems(4) by blast
  qed
  with enc have "sealed_within C K (?pn enc)" by (auto simp: sealed_within_def)
  moreover have "pk \<in> K" using Cons.prems(5) g by (metis snd_conv)
  then have "\<forall>i k. pub ?b i = Some k \<longrightarrow> k \<in> K" using Cons.prems(4) by (auto simp: pub_def js_map split: if_splits)
  moreover have "\<forall>pn\<in>set (acc @ [?pn enc]). sealed_within C K pn" using calculation(1) Cons.prems(3) by simp
  ultimately show ?case using Cons.IH [OF rec cp(2) _ _ Cons.prems(5)] by blast
qed

section \<open>The effect of a successful update\<close>

text \<open>The outcome of \<open>updatePath\<close> in a tree of at least two leaves.\<close>

lemma updatePath_many:
  assumes "updatePath C (b, r) = Some (Ok (u, secret), (b', r'))" "numLeaves b \<noteq> 1"
  shows "\<exists>mypk dp cp q. pub b (myLeafIndex b) = Some mypk \<and> directPath (myLeafIndex b) (numLeaves b) = Some (Ok dp)
     \<and> copath (myLeafIndex b) (numLeaves b) = Some (Ok cp)
     \<and> updatePath_loop C dp cp [] (b, r) = Some (Ok (updateNodes u), (b', q))
     \<and> getRootSecret C (b', q) = Some (Ok secret, (b', r'))
     \<and> senderLeafIndex u = myLeafIndex b \<and> senderLeafPublicKey u = exportRaw C mypk"
proof -
  have grs: "getRootSecret C s = Some (x, s') \<Longrightarrow> s' = s" for s s' x
    by (auto simp: getRootSecret_def bk_get_def bk_return_def bk_throw_def bk_bind_def bk_tree_def
        split: if_splits option.splits sum.splits)
  obtain mypk where m: "pub b (myLeafIndex b) = Some mypk"
    using assms(1) by (cases "pub b (myLeafIndex b)") (auto simp: updatePath_def bk pub_def bk_throw_def)
  with assms obtain dp cp ns s where e: "directPath (myLeafIndex b) (numLeaves b) = Some (Ok dp)"
    "copath (myLeafIndex b) (numLeaves b) = Some (Ok cp)" "updatePath_loop C dp cp [] (b, r) = Some (Ok ns, s)"
    "getRootSecret C s = Some (Ok secret, (b', r'))"
    "u = \<lparr>senderLeafIndex = myLeafIndex b, senderLeafPublicKey = exportRaw C mypk, updateNodes = ns\<rparr>"
    by (auto simp: updatePath_def pub_def bk bk_bind_Ok_iff[of "bk_tree _"] bk_tree_Ok_iff
        bk_bind_Ok_iff[of "updatePath_loop _ _ _ _"] bk_bind_Ok_iff[of "getRootSecret _"])
  with grs [OF e(4)] m show ?thesis by auto
qed

lemma getRootSecret_many:
  assumes "numLeaves b = int n" "2 \<le> n" "n \<le> 2 ^ 30"
  shows "getRootSecret C (b, r) = Some (Ok secret, s) \<longleftrightarrow>
    s = (b, r) \<and> (\<exists>nd sk. map_get (nodes b) (node (height n) 0) = Some nd \<and> privateKey nd = Some sk \<and> secret = sha256 C (exportPkcs8 C sk))"
  using assms(2) by (auto simp: getRootSecret_def bk assms(1) root_node_value [OF assms(2,3)] bk_throw_def split: option.splits)

lemma copath_length: "2 \<le> n \<Longrightarrow> n \<le> 2 ^ 30 \<Longrightarrow> i < n \<Longrightarrow> copath (2 * int i) (int n) = Some (Ok cp) \<Longrightarrow> length cp = length (ancestors n 0 i)"
proof -
  assume a: "2 \<le> n" "n \<le> 2 ^ 30" "i < n" "copath (2 * int i) (int n) = Some (Ok cp)"
  have sib: "siblings xs m = Some (Ok ys) \<Longrightarrow> length ys = length xs" for xs ys m
    by (induction xs arbitrary: ys) (auto simp: tree_bind_def split: option.splits sum.splits)
  have "ancestors n 0 i \<noteq> []"
    using valid_root [OF a(1)] height_lower [OF a(1)] height_upper[of n] a(3) by (simp add: ancestors_def div_eq_0_iff)
  then show ?thesis using a sib[of "2 * int i # butlast (ancestors n 0 i)"]
    by (simp add: copath_def directPath_value del: siblings.simps)
qed

lemma ancestors_odd: "x \<in> set (ancestors n 0 i) \<Longrightarrow> odd x \<and> 0 \<le> x \<and> x < 2 * int n - 1"
proof -
  assume "x \<in> set (ancestors n 0 i)"
  then obtain k where k: "1 \<le> k" "x = node k (i div 2 ^ k)" "valid n k (i div 2 ^ k)"
    by (auto simp: ancestors_def simp del: upt_Suc)
  then obtain j where "k = Suc j" by (cases k) auto
  then show ?thesis using k by (simp add: valid_def) (simp add: node_eq)
qed

section \<open>Welcomes\<close>

text \<open>The chain of path keys: each private key is sealed to the key before it.\<close>

fun key_chain :: "('sk, 'pk) webcrypto \<Rightarrow> ('sk, 'pk) beekem \<Rightarrow> int list \<Rightarrow> 'pk \<Rightarrow> path_node_update list \<Rightarrow> bool" where
  "key_chain C b [] k pks \<longleftrightarrow> pks = []"
| "key_chain C b (i # is) k pks \<longleftrightarrow> (\<exists>nd pk sk q rest. map_get (nodes b) i = Some nd \<and> publicKey nd = Some pk \<and> privateKey nd = Some sk
     \<and> pks = \<lparr>nodeIndex = i, pnPublicKey = exportRaw C pk, encryptedPrivateKey = fst (eciesSeal C q (exportPkcs8 C sk) k)\<rparr> # rest
     \<and> key_chain C b is pk rest)"

lemma welcome_path_keys_chain:
  "welcome_path_keys C dp k acc (b, r) = Some (Ok pks, (b', r')) \<Longrightarrow> b' = b \<and> (\<exists>new. pks = acc @ new \<and> key_chain C b dp k new)"
proof (induction dp arbitrary: k acc r)
  case Nil
  then show ?case by (simp add: bk)
next
  case (Cons i dp)
  then obtain nd pk sk where n: "map_get (nodes b) i = Some nd" "publicKey nd = Some pk" "privateKey nd = Some sk"
    by (auto simp: bk bk_throw_def split: option.splits)
  from Cons(2) obtain q where "welcome_path_keys C dp pk
      (acc @ [\<lparr>nodeIndex = i, pnPublicKey = exportRaw C pk, encryptedPrivateKey = fst (eciesSeal C r (exportPkcs8 C sk) k)\<rparr>]) (b, q)
      = Some (Ok pks, (b', r'))" by (auto simp: bk n)
  from Cons.IH [OF this] n show ?case by auto
qed

text \<open>The joiner installs the chain: it opens each seal with the key it has just obtained.\<close>

definition joined :: "('sk, 'pk) beekem \<Rightarrow> int list \<Rightarrow> ('sk, 'pk) beekem \<Rightarrow> ('sk, 'pk) beekem \<Rightarrow> bool" where
  "joined b is j j' \<longleftrightarrow> numLeaves j' = numLeaves j \<and> myLeafIndex j' = myLeafIndex j
     \<and> (map_ok (nodes j) \<longrightarrow> map_ok (nodes j'))
     \<and> (\<forall>i. i \<notin> set is \<longrightarrow> map_get (nodes j') i = map_get (nodes j) i)
     \<and> (\<forall>i\<in>set is. \<exists>nd nd'. map_get (nodes j') i = Some nd' \<and> map_get (nodes b) i = Some nd
          \<and> publicKey nd' = publicKey nd \<and> privateKey nd' = privateKey nd)"

lemma install_path_keys_joined:
  assumes "webcrypto_ok C pairs" "wf_tree pairs b"
  shows "key_chain C b is k pks \<Longrightarrow> pairs sk k \<Longrightarrow> \<exists>j'. install_path_keys C pks sk (j, r) = Some (Ok (), (j', r)) \<and> joined b is j j'"
proof (induction "is" arbitrary: k pks sk j)
  case Nil
  then show ?case by (simp add: bk_return_def joined_def)
next
  case (Cons i "is")
  then obtain nd pk sk' q rest where n: "map_get (nodes b) i = Some nd" "publicKey nd = Some pk" "privateKey nd = Some sk'"
    and p: "pks = \<lparr>nodeIndex = i, pnPublicKey = exportRaw C pk, encryptedPrivateKey = fst (eciesSeal C q (exportPkcs8 C sk') k)\<rparr> # rest"
    and rest: "key_chain C b is pk rest" by auto
  have "pairs sk' pk" using assms(2) n unfolding wf_tree_def by blast
  let ?nd = "\<lparr>ntype = Internal, index = i, publicKey = Some pk, privateKey = Some sk'\<rparr>"
  let ?j = "j\<lparr>nodes := map_set i ?nd (nodes j)\<rparr>"
  obtain j' where j': "install_path_keys C rest sk' (?j, r) = Some (Ok (), (j', r))" "joined b is ?j j'"
    using Cons.IH [OF rest \<open>pairs sk' pk\<close>] by blast
  have "install_path_keys C pks sk (j, r) = Some (Ok (), (j', r))"
    using j'(1) by (simp add: p bk import_public_bind [OF assms(1)] decrypt_bind [OF assms(1) Cons.prems(2)])
  moreover have "joined b (i # is) j j'"
  proof -
    have "\<exists>nd nd'. map_get (nodes j') i = Some nd' \<and> map_get (nodes b) i = Some nd
        \<and> publicKey nd' = publicKey nd \<and> privateKey nd' = privateKey nd"
    proof (cases "i \<in> set is")
      case True
      then show ?thesis using j'(2) unfolding joined_def by blast
    next
      case False
      then show ?thesis using j'(2) n by (simp add: joined_def js_map)
    qed
    then show ?thesis using j'(2) by (auto simp: joined_def js_map)
  qed
  ultimately show ?case by blast
qed

definition installed :: "(int, ('sk, 'pk) tree_node) jsmap \<Rightarrow> ('sk, 'pk) beekem \<Rightarrow> ('sk, 'pk) beekem \<Rightarrow> bool" where
  "installed xs j j' \<longleftrightarrow> numLeaves j' = numLeaves j \<and> myLeafIndex j' = myLeafIndex j
     \<and> (map_ok (nodes j) \<longrightarrow> map_ok (nodes j'))
     \<and> (map_ok xs \<longrightarrow> (\<forall>i. pub j' i = (case map_get xs i of Some nd \<Rightarrow> publicKey nd | None \<Rightarrow> pub j i)))
     \<and> (\<forall>i. map_get xs i = None \<longrightarrow> map_get (nodes j') i = map_get (nodes j) i)
     \<and> fst ` set (nodes j') = fst ` set (nodes j) \<union> fst ` set xs"

lemma keys_set_map_set: "fst ` set (map_set i n m) = insert i (fst ` set m)"
  using arg_cong [OF keys_map_set[of i n m], of set] by auto

lemma map_get_Cons: "map_get ((i, v) # xs) k = (if k = i then Some v else map_get xs k)"
  by (simp add: map_get_def)

lemma installed_Cons:
  assumes "installed xs (j\<lparr>nodes := map_set i nd' (nodes j)\<rparr>) j'" "publicKey nd' = publicKey nd"
  shows "installed ((i, nd) # xs) j j'"
proof -
  let ?j = "j\<lparr>nodes := map_set i nd' (nodes j)\<rparr>"
  have "pub j' k = (case map_get ((i, nd) # xs) k of Some nd \<Rightarrow> publicKey nd | None \<Rightarrow> pub j k)" if ok: "map_ok ((i, nd) # xs)" for k
  proof -
    have fresh: "map_get xs i = None" "map_ok xs" using ok by (auto simp: map_ok_def map_get_def map_of_eq_None_iff)
    have "pub ?j k = (if k = i then publicKey nd else pub j k)" using assms(2) by (simp add: pub_def js_map)
    moreover have "pub j' k = (case map_get xs k of Some nd \<Rightarrow> publicKey nd | None \<Rightarrow> pub ?j k)"
      using assms(1) fresh(2) unfolding installed_def by blast
    ultimately show ?thesis using fresh(1) by (cases "k = i") (auto simp: map_get_Cons split: option.split)
  qed
  then show ?thesis using assms(1)
    by (auto simp: installed_def js_map keys_set_map_set map_get_Cons split: if_splits)
qed

lemma install_tree_nodes_effect:
  assumes "webcrypto_ok C pairs"
  shows "\<exists>j'. install_tree_nodes C (map (\<lambda>(i, nd). \<lparr>wnIndex = i, wnPublicKey = map_option (exportRaw C) (publicKey nd)\<rparr>) xs) (j, r)
      = Some (Ok (), (j', r)) \<and> installed xs j j'"
proof (induction xs arbitrary: j)
  case Nil
  then show ?case by (simp add: bk_return_def js_map installed_def)
next
  case (Cons x xs)
  obtain i nd where x: "x = (i, nd)" by fastforce
  let ?nd = "\<lparr>ntype = (if isLeaf i then Leaf else Internal), index = i, publicKey = publicKey nd, privateKey = None\<rparr>"
  let ?j = "j\<lparr>nodes := map_set i ?nd (nodes j)\<rparr>"
  obtain j' where j': "install_tree_nodes C (map (\<lambda>(i, nd). \<lparr>wnIndex = i, wnPublicKey = map_option (exportRaw C) (publicKey nd)\<rparr>) xs) (?j, r)
      = Some (Ok (), (j', r))" "installed xs ?j j'"
    using Cons[of ?j] by blast
  have "install_tree_nodes C (map (\<lambda>(i, nd). \<lparr>wnIndex = i, wnPublicKey = map_option (exportRaw C) (publicKey nd)\<rparr>) (x # xs)) (j, r)
      = Some (Ok (), (j', r))"
    using j'(1) by (cases "publicKey nd") (simp_all add: x bk import_public_bind [OF assms])
  moreover have "installed (x # xs) j j'" unfolding x using j'(2) by (rule installed_Cons) simp
  ultimately show ?case by blast
qed

lemma map_get_filter_keys:
  "map_ok m \<Longrightarrow> map_get (filter (\<lambda>(i, v). P i) m) k = (if P k then map_get m k else None)"
  by (induction m) (auto simp: map_ok_def map_get_def split: if_splits)

lemma nodeToLeafIndex_even:
  "0 \<le> x \<Longrightarrow> x < 2 ^ 30 \<Longrightarrow> nodeToLeafIndex (2 * x) = Some (Ok x)"
  by (simp add: nodeToLeafIndex_def isLeaf_iff js_shr_def to_int32_id drop_bit_eq_div)

lemma welcome_num_leaves_bound:
  assumes "\<forall>pn\<in>set pks. odd (nodeIndex pn) \<and> 0 \<le> nodeIndex pn \<and> nodeIndex pn < 2 * int n - 1" "n \<le> 2 ^ 30"
  shows "welcome_num_leaves pks (int n) = Some (Ok (int n))"
  using assms(1)
proof (induction pks)
  case (Cons pn pks)
  then obtain l where l: "nodeIndex pn = 2 * l + 1" by (auto elim: oddE)
  have "0 \<le> l + 1" "l + 1 < 2 ^ 30" "l + 1 + 1 \<le> int n" using Cons.prems l assms(2) by auto
  then have "nodeToLeafIndex (2 * (l + 1)) = Some (Ok (l + 1))" "max (int n) (l + 1 + 1) = int n"
    using nodeToLeafIndex_even[of "l + 1"] by (simp_all add: max_def)
  then show ?case using Cons by (simp add: l algebra_simps)
qed simp

lemma key_chain_indices: "key_chain C b is k pks \<Longrightarrow> map nodeIndex pks = is"
  by (induction "is" arbitrary: k pks) auto

lemma key_chain_present: "key_chain C b is k pks \<Longrightarrow> i \<in> set is \<Longrightarrow> i \<in> fst ` set (nodes b)"
  by (induction "is" arbitrary: k pks) (auto dest: map_get_fst_set)

text \<open>Processing a welcome that was built from a tree reproduces the tree's public view and its root secret.\<close>

lemma processWelcome_built:
  assumes ok: "webcrypto_ok C pairs" and wf: "wf_tree pairs b" and kp: "pairs sk pk"
    and n: "numLeaves b = int n" "2 \<le> n" "n \<le> 2 ^ 30" and x: "x = 2 * (int n - 1)"
    and leaf: "pub b x = Some pk"
    and built: "buildWelcome C x pk (b, r) = Some (Ok w, (b, r'))"
    and secret: "getRootSecret C (b, q) = Some (Ok secret, t)"
    and fresh: "nodes j = []" "numLeaves j = 0"
  shows "\<exists>j'. processWelcome C w sk pk (j, r1) = Some (Ok secret, (j', r1)) \<and> pub j' = pub b \<and> numLeaves j' = int n"
proof -
  have x': "x = 2 * int (n - 1)" using x n(2) by simp
  define path where "path = ancestors n 0 (n - 1)"
  have dp: "directPath x (int n) = Some (Ok path)" unfolding x' path_def using n by (intro directPath_value) simp_all
  from built obtain pks where w: "w = \<lparr>leafIndex = x, pathKeys = pks, treeNodePublicKeys = welcome_tree_nodes C x path (nodes b),
      treeHash = computeTreeHash C b\<rparr>" and chain: "key_chain C b path pk pks"
    by (auto simp: buildWelcome_def bk n(1) dp bk_bind_Ok_iff[of "welcome_path_keys _ _ _ _"] dest!: welcome_path_keys_chain)
  have odd: "\<forall>pn\<in>set pks. odd (nodeIndex pn) \<and> 0 \<le> nodeIndex pn \<and> nodeIndex pn < 2 * int n - 1"
    using key_chain_indices [OF chain] ancestors_odd[of _ n "n - 1"] unfolding path_def [symmetric] by (metis image_eqI set_map)
  have cnt: "nodeToLeafIndex x = Some (Ok (int n - 1))" "welcome_num_leaves pks (int n) = Some (Ok (int n))"
    using nodeToLeafIndex_even[of "int n - 1"] welcome_num_leaves_bound [OF odd n(3)] n x by simp_all
  let ?leaf = "\<lparr>ntype = Leaf, index = x, publicKey = Some pk, privateKey = Some sk\<rparr>"
  let ?j1 = "j\<lparr>myLeafIndex := x, numLeaves := int n, nodes := map_set x ?leaf []\<rparr>"
  obtain j2 where j2: "install_path_keys C pks sk (?j1, r1) = Some (Ok (), (j2, r1))" "joined b path ?j1 j2"
    using install_path_keys_joined [OF ok wf chain kp] by blast
  let ?rest = "filter (\<lambda>(i, nd). i \<noteq> x \<and> i \<notin> set path) (nodes b)"
  obtain j3 where j3: "install_tree_nodes C (welcome_tree_nodes C x path (nodes b)) (j2, r1) = Some (Ok (), (j3, r1))"
    "installed ?rest j2 j3"
    using install_tree_nodes_effect [OF ok, of ?rest j2 r1] by (auto simp: welcome_tree_nodes_def)
  note ins = j3(2) [unfolded installed_def] and jn = j2(2) [unfolded joined_def]
  have mok: "map_ok (nodes b)" using wf by (simp add: wf_tree_def)
  have rok: "map_ok ?rest" using mok by (simp add: map_ok_def distinct_map_filter)
  have rest: "map_get ?rest i = (if i \<noteq> x \<and> i \<notin> set path then map_get (nodes b) i else None)" for i
    by (simp add: map_get_filter_keys [OF mok])
  have ok2: "map_ok (nodes j2)" using jn by (simp add: js_map)
  have ok3: "map_ok (nodes j3)" using ins ok2 by blast
  have x_dp: "x \<notin> set path" using ancestors_odd[of x n "n - 1"] x unfolding path_def [symmetric] by auto
  have pub2: "pub j2 i = (if i \<in> set path then pub b i else if i = x then Some pk else None)" for i
    using jn by (auto simp: pub_def js_map)
  have pub3: "pub j3 = pub b"
  proof
    fix i
    have "pub j3 i = (case map_get ?rest i of Some nd \<Rightarrow> publicKey nd | None \<Rightarrow> pub j2 i)" using ins rok by blast
    then have "pub j3 i = (if i \<noteq> x \<and> i \<notin> set path then pub b i else pub j2 i)"
      using pub2[of i] by (cases "map_get (nodes b) i") (auto simp: rest pub_def[of b])
    then show "pub j3 i = pub b i" using leaf by (auto simp: pub2)
  qed
  have "insert x (set path) \<subseteq> fst ` set (nodes b)"
    using key_chain_present [OF chain] leaf by (auto simp: pub_def bind_eq_Some_conv dest: map_get_fst_set)
  moreover have "fst ` set (nodes j2) = insert x (set path)"
  proof -
    have "i \<in> fst ` set (nodes j2) \<longleftrightarrow> map_get (nodes j2) i \<noteq> None" for i
      using map_has_iff[of "nodes j2" i] by (simp add: map_has_def)
    moreover have "map_get (nodes j2) i \<noteq> None \<longleftrightarrow> i = x \<or> i \<in> set path" for i
    proof (cases "i \<in> set path")
      case True
      then show ?thesis using jn by blast
    next
      case False
      then have "map_get (nodes j2) i = map_get (nodes ?j1) i" using jn by blast
      with False show ?thesis by (simp add: js_map)
    qed
    ultimately show ?thesis by blast
  qed
  moreover have "fst ` set ?rest = fst ` set (nodes b) - insert x (set path)" by force
  ultimately have keys: "fst ` set (nodes j3) = fst ` set (nodes b)" using ins by auto
  have hash: "computeTreeHash C j3 = computeTreeHash C b" by (rule tree_hash_cong [OF ok3 mok keys pub3])
  have root: "node (height n) 0 \<in> set path"
    using valid_root [OF n(2)] height_lower [OF n(2)] height_upper[of n] n(2) by (auto simp: path_def ancestors_def div_eq_0_iff)
  have "map_get (nodes j3) (node (height n) 0) = map_get (nodes j2) (node (height n) 0)" using ins root rest by simp
  moreover obtain nd nd' where "map_get (nodes j2) (node (height n) 0) = Some nd'" "map_get (nodes b) (node (height n) 0) = Some nd"
    "privateKey nd' = privateKey nd" using jn root by blast
  ultimately have "getRootSecret C (j3, r1) = Some (Ok secret, (j3, r1))"
    using secret ins jn by (simp add: getRootSecret_many [OF _ n(2,3)] n(1))
  then have "processWelcome C w sk pk (j, r1) = Some (Ok secret, (j3, r1))"
    using n(2) by (simp add: processWelcome_def w bk cnt fresh hash 
        bk_bind_Ok [where m = "install_path_keys C pks sk", OF j2(1)]
        bk_bind_Ok [where m = "install_tree_nodes C (welcome_tree_nodes C x path (nodes b))", OF j3(1)])
  then show ?thesis using pub3 ins jn by auto
qed

section \<open>Adding a member\<close>

lemma wf_changed:
  assumes "webcrypto_ok C pairs" "wf_tree pairs b" "changed_on C ps b b'"
    and "\<forall>i\<in>set ps. 0 \<le> i \<and> i < 2 * numLeaves b - 1"
  shows "wf_tree pairs b'"
proof -
  have gen: "pairs (fst (generateKey C q)) (snd (generateKey C q))" for q using assms(1) by (simp add: webcrypto_ok_def)
  have "0 \<le> i \<and> i < 2 * numLeaves b' - 1 \<and> (\<forall>sk pk. privateKey nd = Some sk \<longrightarrow> publicKey nd = Some pk \<longrightarrow> pairs sk pk)"
    if "map_get (nodes b') i = Some nd" for i nd
  proof (cases "i \<in> set ps")
    case True
    then obtain q where "map_get (nodes b') i
        = Some \<lparr>ntype = Internal, index = i, publicKey = Some (snd (generateKey C q)), privateKey = Some (fst (generateKey C q))\<rparr>"
      using assms(3) unfolding changed_on_def by blast
    then have "nd = \<lparr>ntype = Internal, index = i, publicKey = Some (snd (generateKey C q)), privateKey = Some (fst (generateKey C q))\<rparr>"
      using that by simp
    then show ?thesis using True assms(3,4) gen by (simp add: changed_on_def)
  next
    case False
    then have "map_get (nodes b) i = Some nd" using assms(3) that unfolding changed_on_def by metis
    moreover have "numLeaves b' = numLeaves b" using assms(3) unfolding changed_on_def by blast
    ultimately show ?thesis using assms(2) unfolding wf_tree_def by metis
  qed
  then show ?thesis using assms(2,3) unfolding wf_tree_def changed_on_def by metis
qed

text \<open>The outcome of a successful update in a well-formed tree.\<close>

lemma updatePath_wf:
  assumes "webcrypto_ok C pairs" "wf_tree pairs b" "numLeaves b = int n" "2 \<le> n" "n \<le> 2 ^ 30"
    and "updatePath C (b, r) = Some (Ok (u, secret), (b', r'))"
  shows "wf_tree pairs b' \<and> numLeaves b' = int n \<and> getRootSecret C (b', r') = Some (Ok secret, (b', r'))
    \<and> (\<forall>x. even x \<longrightarrow> map_get (nodes b') x = map_get (nodes b) x)"
proof -
  obtain i where i: "myLeafIndex b = 2 * int i" "i < n" using assms(2,3) by (auto simp: wf_tree_def)
  have n: "numLeaves b \<noteq> 1" using assms(3,4) by simp
  from updatePath_many [OF assms(6) n] obtain dp cp q where
    dp: "directPath (myLeafIndex b) (numLeaves b) = Some (Ok dp)" and cp: "copath (myLeafIndex b) (numLeaves b) = Some (Ok cp)"
    and loop: "updatePath_loop C dp cp [] (b, r) = Some (Ok (updateNodes u), (b', q))"
    and sec: "getRootSecret C (b', q) = Some (Ok secret, (b', r'))" by blast
  have d: "dp = ancestors n 0 i" using dp directPath_value [OF assms(4,5) i(2)] by (simp add: i(1) assms(3))
  have "length cp = length dp" using cp copath_length [OF assms(4,5) i(2)] by (simp add: i(1) assms(3) d)
  from updatePath_loop_effect [OF loop this] have ch: "changed_on C dp b b'" .
  have idx: "\<forall>x\<in>set dp. odd x \<and> 0 \<le> x \<and> x < 2 * numLeaves b - 1" using ancestors_odd unfolding d assms(3) by blast
  have num: "numLeaves b' = int n" using ch assms(3) by (simp add: changed_on_def)
  have "q = r'" using sec by (simp add: getRootSecret_many [OF num assms(4,5)])
  moreover have "wf_tree pairs b'" using wf_changed [OF assms(1,2) ch] idx by blast
  moreover have "\<forall>x. even x \<longrightarrow> map_get (nodes b') x = map_get (nodes b) x" using ch idx unfolding changed_on_def by blast
  ultimately show ?thesis using num sec by simp
qed

text \<open>
  Claim C6.  A new member joins with the inviter's secret.  When \<open>addMember\<close> succeeds in a well-formed tree, the
  welcome it returns, processed by a fresh instance with the new member's key pair, passes the tree-hash
  check and yields exactly the inviter's new root secret; joiner and inviter then agree on the size of the
  tree and on every public key in it.
\<close>

theorem beekem_welcome_agreement:
  assumes "webcrypto_ok C pairs" "pairs sk pk" "wf_tree pairs b" "numLeaves b < 2 ^ 30"
    and "addMember C pk (b, r) = Some (Ok (u, w, secret), (b', r'))"
    and "nodes j = []" "numLeaves j = 0"
  shows "\<exists>j'. processWelcome C w sk pk (j, r1) = Some (Ok secret, (j', r1))
    \<and> pub j' = pub b' \<and> numLeaves j' = numLeaves b' \<and> numLeaves b' = numLeaves b + 1
    \<and> getRootSecret C (b', r') = Some (Ok secret, (b', r'))"
proof -
  obtain m where m: "numLeaves b = int m" "1 \<le> m"
  proof
    show "numLeaves b = int (nat (numLeaves b))" "1 \<le> nat (numLeaves b)" using assms(3) by (auto simp: wf_tree_def)
  qed
  let ?x = "2 * (int (m + 1) - 1)"
  let ?b = "b\<lparr>numLeaves := int (m + 1), nodes := map_set ?x \<lparr>ntype = Leaf, index = ?x, publicKey = Some pk, privateKey = None\<rparr> (nodes b)\<rparr>"
  have x: "leafToNodeIndex (int m) = ?x" by (simp add: leafToNodeIndex_def)
  have n: "2 \<le> m + 1" "m + 1 \<le> 2 ^ 30" using m assms(4) by simp_all
  from assms(5) obtain s where up: "updatePath C (?b, r) = Some (Ok (u, secret), s)"
    and bw: "buildWelcome C ?x pk s = Some (Ok w, (b', r'))"
    by (auto simp: addMember_def bk m(1) x Let_def bk_bind_Ok_iff[of "updatePath _"] bk_bind_Ok_iff[of "buildWelcome _ _ _"] leafToNodeIndex_def algebra_simps)
  obtain b2 q where s: "s = (b2, q)" by fastforce
  have "map_get (nodes b) i = Some nd \<Longrightarrow> i < 1 + 2 * int m" for i nd
    using assms(3) m(1) unfolding wf_tree_def
    by (elim conjE allE[of _ i] allE[of _ nd] impE) auto
  then have wf: "wf_tree pairs ?b" using assms(3) m unfolding wf_tree_def by (auto simp: js_map split: if_splits)
  have up': "updatePath C (?b, r) = Some (Ok (u, secret), (b2, q))" using up s by simp
  from updatePath_wf [OF assms(1) wf _ n up'] have w2: "wf_tree pairs b2" "numLeaves b2 = int (m + 1)"
    "getRootSecret C (b2, q) = Some (Ok secret, (b2, q))" "\<forall>x. even x \<longrightarrow> map_get (nodes b2) x = map_get (nodes ?b) x" by auto
  have "b' = b2" using bw unfolding s
    by (auto simp: buildWelcome_def bk bk_bind_Ok_iff[of "bk_tree _"] bk_tree_Ok_iff bk_bind_Ok_iff[of "welcome_path_keys _ _ _ _"]
        dest!: welcome_path_keys_chain)
  have "pub b2 ?x = Some pk" using w2(4) by (simp add: pub_def js_map)
  from processWelcome_built [OF assms(1) w2(1) assms(2) w2(2) n refl this bw [unfolded s \<open>b' = b2\<close>] w2(3) assms(6,7)]
  obtain j' where "processWelcome C w sk pk (j, r1) = Some (Ok secret, (j', r1))" "pub j' = pub b2" "numLeaves j' = int (m + 1)" by blast
  moreover have "getRootSecret C (b2, r') = Some (Ok secret, (b2, r'))"
    using w2(3) by (simp add: getRootSecret_many [OF w2(2) n])
  ultimately show ?thesis using w2(2) m(1) unfolding \<open>b' = b2\<close> by (intro exI[of _ j']) simp
qed

section \<open>Updates between two members\<close>

lemma tree_2: "directPath 0 2 = Some (Ok [1])" "directPath 2 2 = Some (Ok [1])" "copath 0 2 = Some (Ok [2])" "copath 2 2 = Some (Ok [0])"
  "left 1 = Some (Ok 0)" "right 1 (Some 2) = Some (Ok 2)" "root_node 2 = Some (Ok 1)"
  by code_simp+

lemma resolve_present: "map_get ns i = Some nd \<Longrightarrow> f nd = Some k \<Longrightarrow> resolve f ns n i = Some (Ok (Some k))"
  by (subst resolve.simps) simp

lemma leaf_side: "myLeafIndex b \<in> {0, 2} \<Longrightarrow> numLeaves b = 2 \<Longrightarrow> findChildOnOurSide b 1 = Some (Ok (Some (myLeafIndex b)))"
  by (auto simp: findChildOnOurSide_def isLeaf_iff tree_2 isInSubtree_def)

text \<open>
  Two members stay in agreement.  In a group of two, whichever member runs \<open>update\<close>, the other one
  processes the path update it broadcasts and derives the same new root secret, and both then hold the
  same public keys for the sender's leaf and the root.
\<close>

theorem beekem_pair_update_agrees:
  assumes "webcrypto_ok C pairs" "numLeaves a = 2" "numLeaves b = 2"
    and "(myLeafIndex a, myLeafIndex b) \<in> {(0, 2), (2, 0)}"
    and "map_get (nodes b) (myLeafIndex b) = Some nd" "privateKey nd = Some sk"
    and "pub a (myLeafIndex b) = Some pk" "pairs sk pk"
    and "update C (a, r) = Some (Ok (u, secret), (a', r'))"
  shows "\<exists>b'. processPathUpdate C u (b, r1) = Some (Ok secret, (b', r1))
    \<and> pub b' (myLeafIndex a) = pub a' (myLeafIndex a) \<and> pub b' 1 = pub a' 1"
proof -
  let ?la = "myLeafIndex a" and ?lb = "myLeafIndex b"
  have l: "?la \<noteq> ?lb" "?la \<in> {0, 2}" "?lb \<in> {0, 2}" using assms(4) by auto
  have d: "directPath ?la 2 = Some (Ok [1])" "directPath ?lb 2 = Some (Ok [1])" "copath ?la 2 = Some (Ok [?lb])"
    "copath ?lb 2 = Some (Ok [?la])" using assms(4) tree_2 by auto
  obtain lsk lpk where g1: "generateKey C r = (lsk, lpk)" by fastforce
  obtain rsk rpk where g2: "generateKey C (Suc r) = (rsk, rpk)" by fastforce
  obtain nb where nb: "map_get (nodes a) ?lb = Some nb" "publicKey nb = Some pk" using assms(7) by (auto simp: pub_def bind_eq_Some_conv)
  let ?a1 = "a\<lparr>nodes := map_set ?la \<lparr>ntype = Leaf, index = ?la, publicKey = Some lpk, privateKey = Some lsk\<rparr> (nodes a)\<rparr>"
  let ?a2 = "?a1\<lparr>nodes := map_set 1 \<lparr>ntype = Internal, index = 1, publicKey = Some rpk, privateKey = Some rsk\<rparr> (nodes ?a1)\<rparr>"
  let ?enc = "fst (eciesSeal C (Suc (Suc r)) (exportPkcs8 C rsk) pk)"
  have "resolvePublicKey ?a1 ?lb = Some (Ok (Some pk))"
    using l(1) nb by (simp add: resolvePublicKey_def js_map resolve_present)
  then have a': "a' = ?a2" "secret = sha256 C (exportPkcs8 C rsk)"
    "u = \<lparr>senderLeafIndex = ?la, senderLeafPublicKey = exportRaw C lpk,
       updateNodes = [\<lparr>nodeIndex = 1, pnPublicKey = exportRaw C rpk, encryptedPrivateKey = ?enc\<rparr>]\<rparr>"
    using assms(9) by (auto simp: update_def refresh_own_leaf_def updatePath_def getRootSecret_def bk g1 g2 assms(2) d js_map tree_2 set_node_def)
  let ?b1 = "b\<lparr>nodes := map_set ?la \<lparr>ntype = Leaf, index = ?la, publicKey = Some lpk, privateKey = None\<rparr> (nodes b)\<rparr>"
  let ?b2 = "?b1\<lparr>nodes := map_set 1 \<lparr>ntype = Internal, index = 1, publicKey = Some rpk, privateKey = Some rsk\<rparr> (nodes ?b1)\<rparr>"
  have side: "findChildOnOurSide ?b1 1 = Some (Ok (Some ?lb))" using leaf_side[of ?b1] l(3) assms(3) by simp
  have "map_get (nodes ?b1) ?lb = Some nd" using l(1) assms(5) by (simp add: js_map)
  then have "processPathUpdate C u (b, r1) = Some (Ok secret, (?b2, r1))"
    using l by (simp add: a' processPathUpdate_def open_at_def getRootSecret_def bk import_public_bind [OF assms(1)]
        decrypt_bind [OF assms(1,8)] assms(3,6) d side tree_2 js_map bk_return_def)
  then show ?thesis unfolding a'(1) using l by (intro exI[of _ ?b2]) (auto simp: pub_def js_map)
qed

section \<open>Removing a member\<close>

lemma blank_path_effect:
  "\<exists>b'. blank_path is (b, r) = Some (Ok (), (b', r)) \<and> numLeaves b' = numLeaves b \<and> myLeafIndex b' = myLeafIndex b
     \<and> (map_ok (nodes b) \<longrightarrow> map_ok (nodes b'))
     \<and> (\<forall>x. map_get (nodes b') x = (if x \<in> set is then Some \<lparr>ntype = Internal, index = x, publicKey = None, privateKey = None\<rparr>
          else map_get (nodes b) x))"
proof (induction "is" arbitrary: b)
  case (Cons i "is")
  let ?b = "b\<lparr>nodes := map_set i \<lparr>ntype = Internal, index = i, publicKey = None, privateKey = None\<rparr> (nodes b)\<rparr>"
  obtain b' where b': "blank_path is (?b, r) = Some (Ok (), (b', r))" "numLeaves b' = numLeaves ?b" "myLeafIndex b' = myLeafIndex ?b"
     "map_ok (nodes ?b) \<longrightarrow> map_ok (nodes b')"
     "\<forall>x. map_get (nodes b') x = (if x \<in> set is then Some \<lparr>ntype = Internal, index = x, publicKey = None, privateKey = None\<rparr>
          else map_get (nodes ?b) x)" using Cons[of ?b] by blast
  then show ?case by (intro exI[of _ b']) (auto simp: bk js_map)
qed (simp add: bk_return_def)

lemma removed_keys_not_used:
  assumes "wf_tree pairs b" "numLeaves b = int n" "2 \<le> n" "n \<le> 2 ^ 30"
    and "even m" "m \<noteq> myLeafIndex b" "directPath m (numLeaves b) = Some (Ok path)"
    and "K = {k. \<exists>x\<in>insert m (set path). pub b x = Some k}"
    and "\<forall>x k. x \<notin> insert m (set path) \<longrightarrow> pub b x = Some k \<longrightarrow> k \<notin> K" "\<forall>q. snd (generateKey C q) \<notin> K"
    and "removeMember C m (b, r) = Some (Ok (u, secret), (b', r'))"
  shows "pub b' m = None \<and> (\<forall>x k. pub b' x = Some k \<longrightarrow> k \<notin> K) \<and> (\<forall>pn\<in>set (updateNodes u). sealed_within C (- K) pn)"
proof -
  let ?b1 = "b\<lparr>nodes := map_set m \<lparr>ntype = Leaf, index = m, publicKey = None, privateKey = None\<rparr> (nodes b)\<rparr>"
  obtain b2 where bp: "blank_path path (?b1, r) = Some (Ok (), (b2, r))" and b2: "numLeaves b2 = int n" "myLeafIndex b2 = myLeafIndex b"
     "\<forall>x. map_get (nodes b2) x = (if x \<in> set path then Some \<lparr>ntype = Internal, index = x, publicKey = None, privateKey = None\<rparr>
          else map_get (nodes ?b1) x)"
    using blank_path_effect[of path ?b1 r] assms(2) by auto
  obtain sk pk where g: "generateKey C r = (sk, pk)" by fastforce
  let ?b3 = "b2\<lparr>nodes := map_set (myLeafIndex b) \<lparr>ntype = Leaf, index = myLeafIndex b, publicKey = Some pk, privateKey = Some sk\<rparr> (nodes b2)\<rparr>"
  have up: "updatePath C (?b3, r + 1) = Some (Ok (u, secret), (b', r'))"
    using assms(11) by (simp add: removeMember_def refresh_own_leaf_def bk assms(7) bk_bind_Ok [where m = "blank_path path", OF bp] b2 g)
  have "pk \<notin> K" using assms(10) g by (metis snd_conv)
  moreover have "pub b2 x = (if x \<in> insert m (set path) then None else pub b x)" for x
    using b2(3) by (simp add: pub_def js_map)
  ultimately have p3: "pub ?b3 x = Some k \<Longrightarrow> k \<notin> K" for x k
    using assms(9) by (auto simp: pub_def js_map split: if_splits)
  have blank: "map_get (nodes ?b3) m = Some \<lparr>ntype = (if m \<in> set path then Internal else Leaf), index = m, publicKey = None, privateKey = None\<rparr>"
    using b2(3) assms(6) by (simp add: js_map)
  obtain i where i: "myLeafIndex b = 2 * int i" "i < n" using assms(1,2) by (auto simp: wf_tree_def)
  have n: "numLeaves ?b3 \<noteq> 1" using b2(1) assms(3) by simp
  from updatePath_many [OF up n] obtain dp cp q where
    dp: "directPath (myLeafIndex b) (int n) = Some (Ok dp)" and cp: "copath (myLeafIndex b) (int n) = Some (Ok cp)"
    and loop: "updatePath_loop C dp cp [] (?b3, r + 1) = Some (Ok (updateNodes u), (b', q))" by (auto simp: b2)
  have d: "dp = ancestors n 0 i" using dp directPath_value [OF assms(3,4) i(2)] by (simp add: i(1))
  have len: "length cp = length dp" using cp copath_length [OF assms(3,4) i(2)] by (simp add: i(1) d)
  have ch: "changed_on C dp ?b3 b'" using updatePath_loop_effect [OF loop len] .
  have "m \<notin> set dp" using ancestors_odd[of m n i] assms(5) unfolding d by auto
  then have "pub b' m = None" using ch blank by (auto simp: changed_on_def pub_def)
  moreover have "k \<notin> K" if "pub b' x = Some k" for x k
  proof (cases "x \<in> set dp")
    case True
    then obtain q where "pub b' x = Some (snd (generateKey C q))" using ch unfolding changed_on_def pub_def by fastforce
    then show ?thesis using assms(10) that by simp
  next
    case False
    then have "pub b' x = pub ?b3 x" using ch unfolding changed_on_def pub_def by simp
    then show ?thesis using p3 that by simp
  qed
  moreover have "\<forall>pn\<in>set (updateNodes u). sealed_within C (- K) pn"
    using updatePath_loop_seals [OF loop len, of "- K"] p3 assms(10) by simp
  ultimately show ?thesis by blast
qed

text \<open>
  Removal locks the removed member out of the update.  Let \<open>K\<close> be the public keys of the removed leaf and
  of its direct path, which are the keys whose private halves the member may hold, and suppose the rest of the
  tree and the key generator use other keys.  After a successful \<open>removeMember\<close> the leaf is blank, no key
  of \<open>K\<close> is left anywhere in the tree, and every seal of the broadcast path update is to a key outside \<open>K\<close>.
\<close>

theorem beekem_removed_keys_not_used:
  assumes "wf_tree pairs b" "numLeaves b = int n" "2 \<le> n" "n \<le> 2 ^ 30"
    and "even m" "m \<noteq> myLeafIndex b" "directPath m (numLeaves b) = Some (Ok path)"
    and "K = {k. \<exists>x\<in>insert m (set path). pub b x = Some k}"
    and "\<forall>x k. x \<notin> insert m (set path) \<longrightarrow> pub b x = Some k \<longrightarrow> k \<notin> K" "\<forall>q. snd (generateKey C q) \<notin> K"
    and "removeMember C m (b, r) = Some (Ok (u, secret), (b', r'))"
  shows "pub b' m = None \<and> (\<forall>x k. pub b' x = Some k \<longrightarrow> k \<notin> K) \<and> (\<forall>pn\<in>set (updateNodes u). sealed_within C (- K) pn)"
  by (rule removed_keys_not_used [OF assms])

section \<open>Looking up a leaf\<close>

definition leaf_matches :: "('sk, 'pk) webcrypto \<Rightarrow> ('sk, 'pk) beekem \<Rightarrow> bytes \<Rightarrow> int \<Rightarrow> bool" where
  "leaf_matches C b target x \<longleftrightarrow> (\<exists>nd k. map_get (nodes b) x = Some nd \<and> ntype nd = Leaf \<and> publicKey nd = Some k \<and> exportRaw C k = target)"

lemma find_leaf_step:
  "find_leaf C (nodes b) target p (Suc todo) = (if leaf_matches C b target (2 * p) then Some (2 * p) else find_leaf C (nodes b) target (p + 1) todo)"
  by (auto simp: leaf_matches_def leafToNodeIndex_def Let_def mult.commute split: option.splits)

lemma find_leaf_first:
  "find_leaf C (nodes b) target (int p) todo = Some x \<longleftrightarrow>
     (\<exists>i. p \<le> i \<and> i < p + todo \<and> x = 2 * int i \<and> leaf_matches C b target x \<and> (\<forall>j. p \<le> j \<and> j < i \<longrightarrow> \<not> leaf_matches C b target (2 * int j)))"
proof (induction todo arbitrary: p)
  case 0
  then show ?case by simp
next
  case (Suc todo)
  show ?case
  proof (cases "leaf_matches C b target (2 * int p)")
    case True
    then have r: "find_leaf C (nodes b) target (int p) (Suc todo) = Some x \<longleftrightarrow> x = 2 * int p" by (auto simp: find_leaf_step simp del: find_leaf.simps)
    show ?thesis unfolding r using True by (metis le_add1 le_neq_implies_less less_add_Suc1 add_Suc_right order_refl not_less)
  next
    case False
    then have r: "find_leaf C (nodes b) target (int p) (Suc todo) = find_leaf C (nodes b) target (int (Suc p)) todo"
      by (simp add: find_leaf_step add.commute del: find_leaf.simps)
    show ?thesis unfolding r Suc.IH using False by (metis Suc_leD Suc_leI add_Suc_right add_Suc le_neq_implies_less)
  qed
qed

text \<open>
  Leaf lookup is exact: \<open>findLeafByPublicKey\<close> returns a node index exactly when it is the lowest leaf
  slot of the tree that holds a non-blank leaf with that raw public key, so a blanked slot is never found
  again; and it returns nothing exactly when no leaf slot matches.
\<close>

theorem beekem_find_leaf_exact:
  "findLeafByPublicKey C b (Inr target) = Some x \<longleftrightarrow>
     (\<exists>i. int i < numLeaves b \<and> x = 2 * int i \<and> leaf_matches C b target x
        \<and> (\<forall>j. j < i \<longrightarrow> \<not> leaf_matches C b target (2 * int j)))"
proof -
  have "int i < numLeaves b \<longleftrightarrow> 0 \<le> i \<and> i < 0 + nat (numLeaves b)" for i by auto
  then show ?thesis using find_leaf_first[of C b target 0 "nat (numLeaves b)" x] by (simp add: findLeafByPublicKey_def)
qed

section \<open>Compaction\<close>

definition keeps_public :: "(int, ('sk, 'pk) tree_node) jsmap \<Rightarrow> (int, ('sk, 'pk) tree_node) jsmap \<Rightarrow> bool" where
  "keeps_public ns ns' \<longleftrightarrow> (map_ok ns \<longrightarrow> map_ok ns')
     \<and> (\<forall>x. map_get ns' x = map_get ns x \<or> map_get ns' x = None \<and> is_blank ns x)"

lemma keeps_public_trans: "keeps_public a b \<Longrightarrow> keeps_public b c \<Longrightarrow> keeps_public a c"
  unfolding keeps_public_def is_blank_def by metis

lemma keeps_public_delete: "is_blank ns x \<Longrightarrow> keeps_public ns (map_delete x ns)"
  by (auto simp: keeps_public_def js_map)

lemma blank_mono: "keeps_public ns ns' \<Longrightarrow> is_blank ns x \<Longrightarrow> is_blank ns' x"
  unfolding keeps_public_def is_blank_def by (metis option.simps(4))

lemma keeps_public_deletes: "\<forall>x\<in>set xs. is_blank ns x \<Longrightarrow> keeps_public ns (fold map_delete xs ns)"
proof (induction xs arbitrary: ns)
  case Nil
  then show ?case by (simp add: keeps_public_def)
next
  case (Cons x xs)
  have d: "keeps_public ns (map_delete x ns)" using Cons by (intro keeps_public_delete) simp
  with Cons have "keeps_public (map_delete x ns) (fold map_delete xs (map_delete x ns))" using blank_mono [OF d] by (intro Cons.IH) auto
  with d show ?case using keeps_public_trans by simp
qed

lemma compact_loop_keeps:
  assumes "\<forall>l\<in>set ls. is_blank ns l \<and> (\<exists>i. l = 2 * int i \<and> i < n)" "1 \<le> n" "n \<le> 2 ^ 30"
  shows "\<exists>ns'. compact_loop (int n) ls ns = Some (Ok ns') \<and> keeps_public ns ns'"
  using assms(1)
proof (induction ls arbitrary: ns)
  case Nil
  then show ?case by (simp add: keeps_public_def)
next
  case (Cons l ls)
  show ?case
  proof (cases "n = 1")
    case True
    then show ?thesis by (simp add: keeps_public_def)
  next
    case False
    obtain i where i: "l = 2 * int i" "i < n" using Cons.prems by auto
    let ?ns = "if list_all (is_blank ns) (ancestors n 0 i) then fold map_delete (ancestors n 0 i) (map_delete l ns) else ns"
    have "keeps_public ns (fold map_delete (l # ancestors n 0 i) ns)" if "list_all (is_blank ns) (ancestors n 0 i)"
      using that Cons.prems by (intro keeps_public_deletes) (simp add: list_all_iff)
    then have k: "keeps_public ns ?ns" by (simp add: keeps_public_def)
    have "\<forall>l\<in>set ls. is_blank ?ns l \<and> (\<exists>i. l = 2 * int i \<and> i < n)" using Cons.prems blank_mono [OF k] by auto
    from Cons.IH [OF this] obtain ns' where "compact_loop (int n) ls ?ns = Some (Ok ns')" "keeps_public ?ns ns'" by blast
    moreover have "directPath l (int n) = Some (Ok (ancestors n 0 i))"
      unfolding i(1) using False assms(2,3) i(2) by (intro directPath_value) simp_all
    ultimately show ?thesis using False assms(2) keeps_public_trans [OF k] by auto
  qed
qed

lemma tree_hash_nonblank:
  "computeTreeHash C b = sha256 C (concat (map (\<lambda>i. be32 (nat (i mod 2 ^ 32)) @ exportRaw C (the (pub b i)))
     (sort (filter (\<lambda>i. pub b i \<noteq> None) (map fst (nodes b))))))"
proof -
  have g: "(case map_get (nodes b) i of Some nd \<Rightarrow> (case publicKey nd of Some k \<Rightarrow> be32 (nat (i mod 2 ^ 32)) @ exportRaw C k | None \<Rightarrow> [])
       | None \<Rightarrow> []) = (if pub b i \<noteq> None then be32 (nat (i mod 2 ^ 32)) @ exportRaw C (the (pub b i)) else [])" for i
    by (simp add: pub_def split: option.split)
  have c: "concat (map (\<lambda>i. if P i then f i else []) xs) = concat (map f (filter P xs))" for P and f :: "int \<Rightarrow> bytes" and xs
    by (induction xs) simp_all
  show ?thesis unfolding computeTreeHash_def g c by (simp add: filter_sort)
qed

text \<open>
  Compaction is invisible.  In a tree of up to \<open>2 ^ 30\<close> leaves \<open>compact\<close> returns; it deletes blank nodes
  only, keeps every node that has a public key with its private key, and leaves the tree hash, which a
  welcome carries for verification, unchanged.
\<close>

theorem beekem_compact_invisible:
  assumes "map_ok (nodes b)" "numLeaves b = int n" "1 \<le> n" "n \<le> 2 ^ 30"
  shows "\<exists>b'. compact b = Some (Ok b') \<and> numLeaves b' = numLeaves b \<and> myLeafIndex b' = myLeafIndex b
    \<and> (\<forall>x. if pub b x = None then pub b' x = None else map_get (nodes b') x = map_get (nodes b) x)
    \<and> computeTreeHash C b' = computeTreeHash C b"
proof -
  let ?ls = "filter (is_blank (nodes b)) (map (\<lambda>i. leafToNodeIndex (int i)) [0..<nat (numLeaves b)])"
  have "\<forall>l\<in>set ?ls. is_blank (nodes b) l \<and> (\<exists>i. l = 2 * int i \<and> i < n)" using assms(2) by (auto simp: leafToNodeIndex_def)
  from compact_loop_keeps [OF this assms(3,4)] obtain ns where
    ns: "compact_loop (int n) ?ls (nodes b) = Some (Ok ns)" "keeps_public (nodes b) ns" by blast
  let ?b = "b\<lparr>nodes := ns\<rparr>"
  have blank: "is_blank (nodes b) x \<longleftrightarrow> pub b x = None" for x by (simp add: is_blank_def pub_def split: option.split)
  have view: "if pub b x = None then pub ?b x = None else map_get ns x = map_get (nodes b) x" for x
  proof -
    have "map_get ns x = map_get (nodes b) x \<or> map_get ns x = None \<and> is_blank (nodes b) x"
      using ns(2) by (simp add: keeps_public_def)
    then show ?thesis using blank[of x] by (auto simp: pub_def)
  qed
  then have p: "pub ?b = pub b" by (intro ext) (metis pub_def select_convs(1) surjective update_convs(1))
  have ok: "map_ok ns" using ns(2) assms(1) by (simp add: keeps_public_def)
  have "set (filter (\<lambda>i. pub b i \<noteq> None) (map fst ns)) = {i. pub b i \<noteq> None}"
    "set (filter (\<lambda>i. pub b i \<noteq> None) (map fst (nodes b))) = {i. pub b i \<noteq> None}"
  proof -
    have "pub c i \<noteq> None \<Longrightarrow> i \<in> fst ` set (nodes c)" for c :: "('a, 'b) beekem" and i
      by (auto simp: pub_def bind_eq_Some_conv dest: map_get_fst_set)
    from this[of ?b] this[of b] show "set (filter (\<lambda>i. pub b i \<noteq> None) (map fst ns)) = {i. pub b i \<noteq> None}"
      "set (filter (\<lambda>i. pub b i \<noteq> None) (map fst (nodes b))) = {i. pub b i \<noteq> None}" unfolding p by auto
  qed
  then have "sort (filter (\<lambda>i. pub b i \<noteq> None) (map fst ns)) = sort (filter (\<lambda>i. pub b i \<noteq> None) (map fst (nodes b)))"
    using ok assms(1) by (intro sorted_distinct_set_unique) (simp_all add: map_ok_def)
  then have "computeTreeHash C ?b = computeTreeHash C b" unfolding tree_hash_nonblank p by simp
  then show ?thesis using ns(1) view assms(2) by (intro exI[of _ ?b]) (simp add: compact_def)
qed

section \<open>Two runs that the code refuses\<close>

lemma initialize_bind [bk]: "bk_bind (initialize sk pk) f s = f () (\<lparr>nodes = [(0, \<lparr>ntype = Leaf, index = 0, publicKey = Some pk,
    privateKey = Some sk\<rparr>)], numLeaves = 1, myLeafIndex = 0\<rparr>, snd s)"
  by (simp add: bk_bind_def initialize_def)

lemma tree_3: "directPath 0 3 = Some (Ok [1, 3])" "directPath 2 3 = Some (Ok [1, 3])" "directPath 4 3 = Some (Ok [3])"
  "copath 0 3 = Some (Ok [2, 4])" "copath 2 3 = Some (Ok [0, 4])" "left 3 = Some (Ok 1)" "right 3 (Some 3) = Some (Ok 4)"
  "right 1 (Some 3) = Some (Ok 2)" "root_node 3 = Some (Ok 3)" "level 1 = Some (Ok 1)"
  by code_simp+

lemma tree_4: "directPath 0 4 = Some (Ok [1, 3])" "directPath 6 4 = Some (Ok [5, 3])" "copath 0 4 = Some (Ok [2, 5])"
  "left 5 = Some (Ok 4)" "right 5 (Some 4) = Some (Ok 6)" "root_node 4 = Some (Ok 3)"
  by code_simp+

lemma resolve_left_child:
  "map_get ns 5 = None \<Longrightarrow> map_get ns 4 = Some nd \<Longrightarrow> f nd = Some k \<Longrightarrow> resolve f ns 4 5 = Some (Ok (Some k))"
  by (subst resolve.simps) (simp add: isInternal_iff tree_4 resolve_present)

lemma resolve_blank_leaf:
  "map_get ns i = Some nd \<Longrightarrow> f nd = None \<Longrightarrow> even i \<Longrightarrow> resolve f ns n i = Some (Ok None)"
  by (subst resolve.simps) (simp add: isInternal_iff)

lemmas bk_run = addMember_def updatePath_def buildWelcome_def getRootSecret_def Let_def leafToNodeIndex_def resolvePublicKey_def

text \<open>
  A founder cannot add a fourth member.  Starting from \<open>initialize\<close>, two \<open>addMember\<close> calls succeed and the
  third throws, for every WebCrypto and all keys: the new leaf's direct path goes through node 5, which no
  update of leaf 0 ever fills.  The leaf stays in the tree, so the slot is spent.
\<close>

theorem beekem_fourth_member_refused:
  "\<exists>b r. bk_bind (initialize sk pk) (\<lambda>_. bk_bind (addMember C k1) (\<lambda>_. bk_bind (addMember C k2) (\<lambda>_. addMember C k3))) s
     = Some (Err (Missing_key_at_node 5), (b, r)) \<and> numLeaves b = 4 \<and> pub b 6 = Some k3"
  by (simp add: bk bk_run tree_2 tree_3 tree_4 js_map map_get_Cons resolve_present resolve_left_child case_prod_beta bk_throw_def pub_def)

text \<open>
  In a group of three, an update by leaf 0 is refused by leaf 1 (node 2).  The sender seals the root key to
  the other half of the tree, node 4; the receiver decrypts node 1 with its own leaf key and then tries node 1's
  key on the root's seal.  Where a seal opens only with the recipient's key, that throws.
\<close>

theorem beekem_middle_member_refuses:
  assumes "webcrypto_ok C pairs"
    and "\<forall>q m sk pk. \<not> pairs sk pk \<longrightarrow> (\<exists>e. eciesOpen C (fst (eciesSeal C q m pk)) sk = Err e)"
    and "numLeaves a = 3" "myLeafIndex a = 0" "pub a 2 = Some k2" "pub a 4 = Some k4"
    and "numLeaves b = 3" "myLeafIndex b = 2" "map_get (nodes b) 2 = Some nd" "privateKey nd = Some sk2" "pairs sk2 k2"
    and "\<not> pairs (fst (generateKey C (Suc r))) k4"
    and "update C (a, r) = Some (Ok (u, secret), (a', r'))"
  shows "\<exists>e s. processPathUpdate C u (b, r1) = Some (Err (Ecies_error e), s)"
proof -
  obtain n2 n4 where n: "map_get (nodes a) 2 = Some n2" "publicKey n2 = Some k2" "map_get (nodes a) 4 = Some n4" "publicKey n4 = Some k4"
    using assms(5,6) by (auto simp: pub_def bind_eq_Some_conv)
  obtain q3 m3 where u: "senderLeafIndex u = 0" "senderLeafPublicKey u = exportRaw C (snd (generateKey C r))"
    "updateNodes u = [\<lparr>nodeIndex = 1, pnPublicKey = exportRaw C (snd (generateKey C (Suc r))),
         encryptedPrivateKey = fst (eciesSeal C (Suc (Suc r)) (exportPkcs8 C (fst (generateKey C (Suc r)))) k2)\<rparr>,
       \<lparr>nodeIndex = 3, pnPublicKey = exportRaw C (snd (generateKey C q3)), encryptedPrivateKey = fst (eciesSeal C (Suc q3) m3 k4)\<rparr>]"
    using assms(13) by (auto simp: update_def refresh_own_leaf_def updatePath_def getRootSecret_def bk assms(3,4) tree_3 js_map set_node_def
        case_prod_beta n resolvePublicKey_def resolve_present)
  from assms(2,12) obtain e where e: "eciesOpen C (fst (eciesSeal C (Suc q3) m3 k4)) (fst (generateKey C (Suc r))) = Err e" by blast
  have throws: "bk_bind (decryptNodeKey C (fst (eciesSeal C (Suc q3) m3 k4)) (fst (generateKey C (Suc r)))) f t = Some (Err (Ecies_error e), t)" for f t
    by (simp add: decryptNodeKey_def bk) (simp add: bk_bind_def bk_ecies_def e)
  have two: "js_shl 1 (Suc 0) = 2" by code_simp
  show ?thesis
    by (simp add: processPathUpdate_def u bk import_public_bind [OF assms(1)] assms(7-10) tree_3 open_at_def findChildOnOurSide_def
        isLeaf_iff isInSubtree_def tree_2(5) two Let_def js_map decrypt_bind [OF assms(1,11)] throws)
qed

section \<open>A group of toy keys\<close>

abbreviation toy_leaf :: "int \<Rightarrow> byte \<Rightarrow> byte option \<Rightarrow> (byte, byte) tree_node" where
  "toy_leaf i k s \<equiv> \<lparr>ntype = Leaf, index = i, publicKey = Some k, privateKey = s\<rparr>"

definition toy_member :: "int \<Rightarrow> int \<Rightarrow> (byte, byte) beekem" where
  "toy_member n me = \<lparr>nodes = [(0, toy_leaf 0 1 (if me = 0 then Some 1 else None)), (2, toy_leaf 2 2 (if me = 2 then Some 2 else None)),
      (4, toy_leaf 4 3 (if me = 4 then Some 3 else None))], numLeaves = n, myLeafIndex = me\<rparr>"

definition toy_single :: "(byte, byte) beekem" where
  "toy_single = \<lparr>nodes = [(0, toy_leaf 0 1 (Some 1))], numLeaves = 1, myLeafIndex = 0\<rparr>"

definition toy_blank :: "(byte, byte) beekem" where
  "toy_blank = \<lparr>nodes = [], numLeaves = 0, myLeafIndex = -1\<rparr>"

lemma toy_generate: "generateKey toy_crypto r = (of_nat (r + 100), of_nat (r + 100))"
  by (simp add: toy_crypto_def)

lemma toy_single_wf: "wf_tree (=) toy_single"
  by (auto simp: wf_tree_def toy_single_def map_ok_def map_get_Cons js_map split: if_splits intro!: exI[of _ 0])

theorem beekem_welcome_agreement_witness:
  "\<exists>u w secret s j'. addMember toy_crypto 2 (toy_single, 0) = Some (Ok (u, w, secret), s)
     \<and> processWelcome toy_crypto w 2 2 (toy_blank, 50) = Some (Ok secret, (j', 50))"
proof -
  obtain u w secret b' r' where r: "addMember toy_crypto 2 (toy_single, 0) = Some (Ok (u, w, secret), (b', r'))"
    by (simp add: bk bk_run toy_single_def tree_2 js_map map_get_Cons resolve_present toy_generate bk_return_def)
  show ?thesis
    using beekem_welcome_agreement [OF toy_crypto_ok refl toy_single_wf _ r, of toy_blank 50] r
    by (auto simp: toy_single_def toy_blank_def)
qed

lemma toy_update: "\<exists>u secret a' r'. update toy_crypto (toy_member 2 0, 0) = Some (Ok (u, secret), (a', r'))"
  "\<exists>u secret a' r'. update toy_crypto (toy_member 3 0, 0) = Some (Ok (u, secret), (a', r'))"
  by (simp_all add: update_def refresh_own_leaf_def toy_member_def set_node_def bk bk_run tree_2 tree_3 js_map map_get_Cons
      resolve_present toy_generate bk_return_def)

theorem beekem_pair_update_agrees_witness:
  "\<exists>u secret s b'. update toy_crypto (toy_member 2 0, 0) = Some (Ok (u, secret), s)
     \<and> processPathUpdate toy_crypto u (toy_member 2 2, 50) = Some (Ok secret, (b', 50))"
proof -
  obtain u secret a' r' where r: "update toy_crypto (toy_member 2 0, 0) = Some (Ok (u, secret), (a', r'))" using toy_update(1) by blast
  have "\<exists>b'. processPathUpdate toy_crypto u (toy_member 2 2, 50) = Some (Ok secret, (b', 50))
    \<and> pub b' (myLeafIndex (toy_member 2 0)) = pub a' (myLeafIndex (toy_member 2 0)) \<and> pub b' 1 = pub a' 1"
    by (rule beekem_pair_update_agrees [OF toy_crypto_ok _ _ _ _ _ _ _ r, where nd = "toy_leaf 2 2 (Some 2)" and sk = 2 and pk = 2])
      (simp_all add: toy_member_def map_get_Cons pub_def)
  with r show ?thesis by blast
qed

lemma toy_isolating:
  "\<forall>q m sk pk. sk \<noteq> pk \<longrightarrow> (\<exists>e. eciesOpen toy_crypto (fst (eciesSeal toy_crypto q m pk)) sk = Err e)"
  by (simp add: eciesOpen_def eciesSeal_def toy_crypto_def toy_tag_def ecies_lengths)

theorem beekem_middle_member_refuses_witness:
  "\<exists>u secret s e s'. update toy_crypto (toy_member 3 0, 0) = Some (Ok (u, secret), s)
     \<and> processPathUpdate toy_crypto u (toy_member 3 2, 50) = Some (Err (Ecies_error e), s')"
proof -
  obtain u secret a' r' where r: "update toy_crypto (toy_member 3 0, 0) = Some (Ok (u, secret), (a', r'))" using toy_update(2) by blast
  have "\<exists>e s. processPathUpdate toy_crypto u (toy_member 3 2, 50) = Some (Err (Ecies_error e), s)"
    by (rule beekem_middle_member_refuses [OF toy_crypto_ok toy_isolating _ _ _ _ _ _ _ _ _ _ r,
          where nd = "toy_leaf 2 2 (Some 2)" and ?sk2.0 = 2 and ?k2.0 = 2 and ?k4.0 = 3])
      (simp_all add: toy_member_def map_get_Cons pub_def toy_generate)
  with r show ?thesis by blast
qed

theorem beekem_find_leaf_exact_witness: "findLeafByPublicKey toy_crypto (toy_member 3 0) (Inr (replicate 65 3)) = Some 4"
proof -
  have m: "leaf_matches toy_crypto (toy_member 3 0) (replicate 65 3) x \<longleftrightarrow> x = 4" for x
    by (auto simp: leaf_matches_def toy_member_def map_get_Cons js_map toy_crypto_def split: if_splits)
  show ?thesis unfolding beekem_find_leaf_exact m by (intro exI[of _ 2]) (simp add: toy_member_def)
qed

theorem beekem_compact_invisible_witness: "\<exists>b'. compact (toy_member 3 0) = Some (Ok b') \<and> numLeaves b' = 3"
  using beekem_compact_invisible[of "toy_member 3 0" 3 toy_crypto] by (auto simp: toy_member_def map_ok_def)

lemma toy_member_wf: "wf_tree (=) (toy_member 3 0)"
  by (auto simp: wf_tree_def toy_member_def map_ok_def map_get_Cons js_map split: if_splits intro!: exI[of _ 0])

theorem beekem_removed_keys_not_used_witness:
  "\<exists>u secret b' r'. removeMember (toy_crypto\<lparr>generateKey := (\<lambda>r. (200, 200))\<rparr>) 4 (toy_member 3 0, 0) = Some (Ok (u, secret), (b', r'))
     \<and> pub b' 4 = None \<and> (\<forall>x. pub b' x \<noteq> Some 3)"
proof -
  let ?C = "toy_crypto\<lparr>generateKey := (\<lambda>r. (200, 200))\<rparr>"
  obtain u secret b' r' where r: "removeMember ?C 4 (toy_member 3 0, 0) = Some (Ok (u, secret), (b', r'))"
    by (simp add: removeMember_def refresh_own_leaf_def toy_member_def set_node_def bk bk_run tree_3 js_map map_get_Cons
        resolve_present resolve_blank_leaf bk_return_def)
  have K: "{k. \<exists>x\<in>insert 4 (set [3]). pub (toy_member 3 0) x = Some k} = {3}"
    by (auto simp: pub_def toy_member_def map_get_Cons js_map split: if_splits)
  have "pub b' 4 = None \<and> (\<forall>x k. pub b' x = Some k \<longrightarrow> k \<notin> {3}) \<and> (\<forall>pn\<in>set (updateNodes u). sealed_within ?C (- {3}) pn)"
    by (rule beekem_removed_keys_not_used [OF toy_member_wf _ _ _ _ _ _ K [symmetric] _ _ r, where n = 3])
      (auto simp: toy_member_def tree_3 pub_def map_get_Cons js_map split: if_splits)
  with r show ?thesis by blast
qed

end
