(* ===== verification/ChangeDag.thy ===== *)
theory ChangeDag
  imports Prelude
begin

text \<open>
  The change DAG: the sync tree of \<^verbatim>\<open>crdt-change-node.ts\<close>, the traversals of \<^verbatim>\<open>merkle-cross-links.ts\<close> and the block
  collector of \<^verbatim>\<open>blockstore-gc.ts\<close> (all under
  \<^verbatim>\<open>packages/collabswarm/src/\<close>).  A \<^verbatim>\<open>children\<close> object is the list of its entries in iteration order.  The nested
  \<^verbatim>\<open>walk\<close> closures become pairs of functions, one on a node and one on a list of entries, that pass the
  captured sets.
\<close>

section \<open>Nodes\<close>

datatype change_kind = Document_change | Writer_change | Reader_change

datatype 'c change_node =
  Change_node (node_keyID: "string option") (kind: change_kind) (change: "'c option") (children: "'c children")
and 'c children = No_children | Deferred | Children "(string \<times> 'c change_node) list"

type_synonym 'c child_list = "(string \<times> 'c change_node) list"

definition child_size :: "'c child_list \<Rightarrow> nat" where
  "child_size = size_list (size_prod (\<lambda>_. 0) size)"

lemma child_size_simps [simp]:
  "child_size [] = 0"
  "child_size ((c, n) # ks) = Suc (Suc (size n + child_size ks))"
  by (simp_all add: child_size_def)

lemma children_bound: "children n = Children ks \<Longrightarrow> child_size ks < size n"
  by (cases n) (simp add: child_size_def)

section \<open>Tips and cross-links\<close>

definition MAX_RECENT_TIPS :: nat where "MAX_RECENT_TIPS = 4"
definition MAX_CROSS_LINKS :: nat where "MAX_CROSS_LINKS = 3"

record recent_tip =
  tip_cid :: string
  tip_kind :: change_kind

fun select_loop :: "recent_tip list \<Rightarrow> string option \<Rightarrow> string \<Rightarrow> int \<Rightarrow> recent_tip list \<Rightarrow> string list \<Rightarrow> recent_tip list" where
  "select_loop [] primaryParentId newCid maxCrossLinks out seen = out"
| "select_loop (tip # older) primaryParentId newCid maxCrossLinks out seen =
     (if int (length out) \<ge> maxCrossLinks then out
      else if Some (tip_cid tip) = primaryParentId then select_loop older primaryParentId newCid maxCrossLinks out seen
      else if tip_cid tip = newCid then select_loop older primaryParentId newCid maxCrossLinks out seen
      else if tip_cid tip \<in> set seen then select_loop older primaryParentId newCid maxCrossLinks out seen
      else select_loop older primaryParentId newCid maxCrossLinks (out @ [tip]) (set_add (tip_cid tip) seen))"

definition selectCrossLinks :: "recent_tip list \<Rightarrow> string option \<Rightarrow> string \<Rightarrow> int \<Rightarrow> recent_tip list" where
  "selectCrossLinks recentTips primaryParentId newCid maxCrossLinks =
     select_loop (rev recentTips) primaryParentId newCid maxCrossLinks [] []"

fun evict :: "nat \<Rightarrow> recent_tip list \<Rightarrow> recent_tip list" where
  "evict cap [] = []"
| "evict cap (t # ts) = (if length (t # ts) > cap then evict cap ts else t # ts)"

fun remove_first_cid :: "string \<Rightarrow> recent_tip list \<Rightarrow> recent_tip list" where
  "remove_first_cid c [] = []"
| "remove_first_cid c (t # ts) = (if tip_cid t = c then ts else t # remove_first_cid c ts)"

definition trackTipInList :: "recent_tip list \<Rightarrow> recent_tip \<Rightarrow> int \<Rightarrow> recent_tip list" where
  "trackTipInList recentTips entry maxRecentTips =
     (if tip_cid entry = [] then recentTips
      else let cap = nat (max 0 maxRecentTips) in
        if cap = 0 then []
        else evict cap (remove_first_cid (tip_cid entry) recentTips @ [entry]))"

section \<open>Merging a remote tree\<close>

type_synonym 'c sync_entry = "string \<times> change_kind \<times> 'c option"

datatype dag_error = Ipld_dereferencing_unsupported

function merge_walk ::
    "string option \<Rightarrow> string set \<Rightarrow> string option \<Rightarrow> 'c change_node \<Rightarrow> (string, 'c sync_entry) jsmap \<times> string list
       \<Rightarrow> dag_error + ((string, 'c sync_entry) jsmap \<times> string list)"
  and merge_walks ::
    "string option \<Rightarrow> string set \<Rightarrow> 'c child_list \<Rightarrow> (string, 'c sync_entry) jsmap \<times> string list
       \<Rightarrow> dag_error + ((string, 'c sync_entry) jsmap \<times> string list)" where
  "merge_walk localRootId localHashes nodeId node (byCid, walked) =
     (case nodeId of
        None \<Rightarrow> Ok (byCid, walked)
      | Some cid \<Rightarrow>
          if nodeId = localRootId then Ok (byCid, walked)
          else if cid \<in> localHashes then Ok (byCid, walked)
          else
            let byCid' = (case map_get byCid cid of
                  Some existing \<Rightarrow> if snd (snd existing) = None \<and> change node \<noteq> None
                    then map_set cid (cid, kind node, change node) byCid else byCid
                | None \<Rightarrow> map_set cid (cid, kind node, change node) byCid)
            in if cid \<in> set walked then Ok (byCid', walked)
               else (case children node of
                   No_children \<Rightarrow> Ok (byCid', walked)
                 | Deferred \<Rightarrow> Err Ipld_dereferencing_unsupported
                 | Children kids \<Rightarrow> merge_walks localRootId localHashes kids (byCid', set_add cid walked)))"
| "merge_walks localRootId localHashes [] st = Ok st"
| "merge_walks localRootId localHashes ((childId, childNode) # kids) st =
     try_bind (merge_walk localRootId localHashes (Some childId) childNode st)
       (merge_walks localRootId localHashes kids)"
  by pat_completeness auto
termination
  by (relation "measure (\<lambda>x. case x of Inl (_, _, _, n, _) \<Rightarrow> size n | Inr (_, _, ks, _) \<Rightarrow> child_size ks)")
    (auto dest: children_bound)

definition mergeRemoteSyncTree ::
  "string option \<Rightarrow> 'c change_node \<Rightarrow> string option \<Rightarrow> string set \<Rightarrow> dag_error + 'c sync_entry list" where
  "mergeRemoteSyncTree remoteRootId remoteRoot localRootId localHashes =
     try_bind (merge_walk localRootId localHashes remoteRootId remoteRoot ([], [])) (\<lambda>(byCid, walked). Ok (map snd byCid))"

section \<open>Reference collection\<close>

text \<open>\<^verbatim>\<open>collectReferencedAncestors\<close>: the state is the visited set and the output set.\<close>

function ancestors_walk :: "string option \<Rightarrow> 'c change_node \<Rightarrow> string list \<times> string list \<Rightarrow> string list \<times> string list"
  and ancestors_walks :: "'c child_list \<Rightarrow> string list \<times> string list \<Rightarrow> string list \<times> string list" where
  "ancestors_walk nodeId node (visited, out) =
     (case nodeId of
        Some cid \<Rightarrow> if cid \<in> set visited then (visited, out)
          else (case children node of Children kids \<Rightarrow> ancestors_walks kids (set_add cid visited, out) | _ \<Rightarrow> (set_add cid visited, out))
      | None \<Rightarrow> (case children node of Children kids \<Rightarrow> ancestors_walks kids (visited, out) | _ \<Rightarrow> (visited, out)))"
| "ancestors_walks [] st = st"
| "ancestors_walks ((childId, childNode) # kids) (visited, out) =
     ancestors_walks kids (ancestors_walk (Some childId) childNode (visited, set_add childId out))"
  by pat_completeness auto
termination
  by (relation "measure (\<lambda>x. case x of Inl (_, n, _) \<Rightarrow> size n | Inr (ks, _) \<Rightarrow> child_size ks)") (auto dest: children_bound)

definition collectReferencedAncestors :: "string option \<Rightarrow> 'c change_node \<Rightarrow> string list \<Rightarrow> string list" where
  "collectReferencedAncestors rootId rootNode out = snd (ancestors_walk rootId rootNode ([], out))"

text \<open>\<^verbatim>\<open>computeServedFrontier\<close>: the state is the CIDs, the referenced CIDs and the visited CIDs.\<close>

function frontier_walk ::
    "string option \<Rightarrow> 'c change_node \<Rightarrow> string list \<times> string list \<times> string list \<Rightarrow> string list \<times> string list \<times> string list"
  and frontier_walks ::
    "'c child_list \<Rightarrow> string list \<times> string list \<times> string list \<Rightarrow> string list \<times> string list \<times> string list" where
  "frontier_walk nodeId node (cids, referenced, visited) =
     (case nodeId of
        Some cid \<Rightarrow> if cid \<in> set visited then (cids, referenced, visited)
          else let st = (set_add cid cids, referenced, set_add cid visited)
               in (case children node of Children kids \<Rightarrow> frontier_walks kids st | _ \<Rightarrow> st)
      | None \<Rightarrow> (case children node of Children kids \<Rightarrow> frontier_walks kids (cids, referenced, visited)
                | _ \<Rightarrow> (cids, referenced, visited)))"
| "frontier_walks [] st = st"
| "frontier_walks ((childId, childNode) # kids) (cids, referenced, visited) =
     frontier_walks kids (frontier_walk (Some childId) childNode (set_add childId cids, set_add childId referenced, visited))"
  by pat_completeness auto
termination
  by (relation "measure (\<lambda>x. case x of Inl (_, n, _) \<Rightarrow> size n | Inr (ks, _) \<Rightarrow> child_size ks)") (auto dest: children_bound)

definition computeServedFrontier :: "string option \<Rightarrow> 'c change_node option \<Rightarrow> string option \<Rightarrow> string list" where
  "computeServedFrontier changeId changes snapshotBoundaryCid =
     (case (case changes of Some node \<Rightarrow> frontier_walk changeId node ([], [], []) | None \<Rightarrow> ([], [], [])) of
        (cids, referenced, visited) \<Rightarrow>
          let cids' = (case snapshotBoundaryCid of Some b \<Rightarrow> if b \<noteq> [] then set_add b cids else cids | None \<Rightarrow> cids)
          in filter (\<lambda>cid. cid \<notin> set referenced) cids')"

text \<open>\<^verbatim>\<open>treeContainsCid\<close>: the walk stops at the first hit; the visited set is threaded until then.\<close>

function contains_walk :: "string \<Rightarrow> string option \<Rightarrow> 'c change_node \<Rightarrow> string list \<Rightarrow> bool \<times> string list"
  and contains_walks :: "string \<Rightarrow> 'c child_list \<Rightarrow> string list \<Rightarrow> bool \<times> string list" where
  "contains_walk target nodeId node visited =
     (case nodeId of
        Some cid \<Rightarrow> if cid \<in> set visited then (False, visited)
          else (case children node of Children kids \<Rightarrow> contains_walks target kids (set_add cid visited) | _ \<Rightarrow> (False, set_add cid visited))
      | None \<Rightarrow> (case children node of Children kids \<Rightarrow> contains_walks target kids visited | _ \<Rightarrow> (False, visited)))"
| "contains_walks target [] visited = (False, visited)"
| "contains_walks target ((childId, childNode) # kids) visited =
     (if childId = target then (True, visited)
      else (case contains_walk target (Some childId) childNode visited of
          (True, v) \<Rightarrow> (True, v) | (False, v) \<Rightarrow> contains_walks target kids v))"
  by pat_completeness auto
termination
  by (relation "measure (\<lambda>x. case x of Inl (_, _, n, _) \<Rightarrow> size n | Inr (_, ks, _) \<Rightarrow> child_size ks)") (auto dest: children_bound)

definition treeContainsCid :: "string option \<Rightarrow> 'c change_node option \<Rightarrow> string option \<Rightarrow> bool" where
  "treeContainsCid rootId rootNode targetCid =
     (case targetCid of None \<Rightarrow> False | Some target \<Rightarrow>
        if target = [] then False
        else (case rootNode of None \<Rightarrow> False | Some node \<Rightarrow>
          if rootId = Some target then True else fst (contains_walk target rootId node [])))"

text \<open>\<^verbatim>\<open>collectAllCidsInTree\<close>: the state is the CIDs and the visited CIDs.\<close>

function all_walk :: "string option \<Rightarrow> 'c change_node \<Rightarrow> string list \<times> string list \<Rightarrow> string list \<times> string list"
  and all_walks :: "'c child_list \<Rightarrow> string list \<times> string list \<Rightarrow> string list \<times> string list" where
  "all_walk nodeId node (cids, visited) =
     (case nodeId of
        Some cid \<Rightarrow> if cid \<in> set visited then (cids, visited)
          else (case children node of Children kids \<Rightarrow> all_walks kids (set_add cid cids, set_add cid visited)
                | _ \<Rightarrow> (set_add cid cids, set_add cid visited))
      | None \<Rightarrow> (case children node of Children kids \<Rightarrow> all_walks kids (cids, visited) | _ \<Rightarrow> (cids, visited)))"
| "all_walks [] st = st"
| "all_walks ((childId, childNode) # kids) (cids, visited) =
     all_walks kids (all_walk (Some childId) childNode (set_add childId cids, visited))"
  by pat_completeness auto
termination
  by (relation "measure (\<lambda>x. case x of Inl (_, n, _) \<Rightarrow> size n | Inr (ks, _) \<Rightarrow> child_size ks)") (auto dest: children_bound)

definition collectAllCidsInTree :: "string option \<Rightarrow> 'c change_node option \<Rightarrow> string list" where
  "collectAllCidsInTree rootId rootNode = (case rootNode of
     None \<Rightarrow> (case rootId of Some r \<Rightarrow> if r \<noteq> [] then [r] else [] | None \<Rightarrow> [])
   | Some node \<Rightarrow> fst (all_walk rootId node ([], [])))"

fun strip_node :: "'c change_node \<Rightarrow> 'c change_node" and strip_children :: "'c child_list \<Rightarrow> 'c child_list" where
  "strip_node (Change_node key k ch (Children kids)) = Change_node key k None (Children (strip_children kids))"
| "strip_node (Change_node key k ch No_children) = Change_node key k None No_children"
| "strip_node (Change_node key k ch Deferred) = Change_node key k None Deferred"
| "strip_children [] = []"
| "strip_children ((cid, n) # kids) = (cid, strip_node n) # strip_children kids"

definition stripInlineChanges :: "'c change_node option \<Rightarrow> 'c change_node option" where
  "stripInlineChanges node = map_option strip_node node"

section \<open>Block collection\<close>

lemma child_size_sum: "sum_list (map size (map snd ks)) \<le> child_size (ks :: 'c child_list)"
  by (induction ks) auto

lemma kids_sum_bound: "children n = Children ks \<Longrightarrow> sum_list (map (size \<circ> snd) ks) < size n"
  using children_bound[of n ks] child_size_sum[of ks] by simp

lemma node_size_pos: "0 < size (n :: 'c change_node)"
  by (cases n) simp

text \<open>The breadth-first queue of \<^verbatim>\<open>collectTreeCIDs\<close>, without the read index.\<close>

function collect_queue :: "'c change_node list \<Rightarrow> string list \<Rightarrow> string list" where
  "collect_queue [] cids = cids"
| "collect_queue (current # queue) cids =
     (case children current of
        Children kids \<Rightarrow> collect_queue (queue @ map snd kids) (fold set_add (map fst kids) cids)
      | _ \<Rightarrow> collect_queue queue cids)"
  by pat_completeness auto
termination
  by (relation "measure (\<lambda>(q, _). sum_list (map size q))") (auto simp: node_size_pos dest: kids_sum_bound)

definition collectTreeCIDs :: "string \<Rightarrow> 'c change_node \<Rightarrow> string list" where
  "collectTreeCIDs rootCID rootNode = collect_queue [rootNode] (set_add rootCID [])"

definition filterDeletableCIDs ::
  "string list \<Rightarrow> string option \<Rightarrow> 'c change_node option \<Rightarrow> string list \<Rightarrow> string list" where
  "filterDeletableCIDs candidates retainedRootCID retainedRoot protectedCIDs =
     (let reachable = (case (retainedRootCID, retainedRoot) of
            (Some r, Some n) \<Rightarrow> if r \<noteq> [] then collectTreeCIDs r n else [] | _ \<Rightarrow> [])
      in fold (\<lambda>cid out. if cid \<in> set reachable then out else if cid \<in> set protectedCIDs then out else set_add cid out) candidates [])"

text \<open>
  \<^verbatim>\<open>loadChangeBlock\<close>: parsing and fetching are arguments that return a value or throw.  An error value is seen
  through its \<^verbatim>\<open>code\<close> and \<^verbatim>\<open>name\<close> fields; \<open>Primitive_error\<close> is a thrown value that is not an object.  The third component of
  the result is the list of calls to \<^verbatim>\<open>onMissing\<close>.
\<close>

datatype thrown = Primitive_error | Object_error "string option" "string option"

definition isBlockNotFoundError :: "thrown \<Rightarrow> bool" where
  "isBlockNotFoundError err = (case err of
     Primitive_error \<Rightarrow> False
   | Object_error code name \<Rightarrow> if code = Some ''ERR_NOT_FOUND'' then True else if name = Some ''NotFoundError'' then True else False)"

datatype load_error = Invalid_cid string thrown | Fetch_failed thrown

definition loadChangeBlock ::
  "string \<Rightarrow> string set \<Rightarrow> (string \<Rightarrow> thrown + 'p) \<Rightarrow> ('p \<Rightarrow> thrown + 'c) \<Rightarrow> (load_error + 'c option) \<times> (string \<times> thrown) list" where
  "loadChangeBlock cid knownHashes parseCID fetch =
     (if cid \<notin> knownHashes then (Ok None, [])
      else (case parseCID cid of
          Inl err \<Rightarrow> (Err (Invalid_cid cid err), [])
        | Inr parsed \<Rightarrow> (case fetch parsed of
            Inr block \<Rightarrow> (Ok (Some block), [])
          | Inl err \<Rightarrow> if isBlockNotFoundError err then (Ok None, [(cid, err)]) else (Err (Fetch_failed err), []))))"

end
