(* ===== verification/ChangeDagCorrect.thy ===== *)
theory ChangeDagCorrect
  imports ChangeDag
begin

text \<open>
  Correctness of the DAG traversals: what a merge of a remote tree returns, what the served frontier is, when
  the pruned walks see every CID, which blocks collection may delete, and the bounds of the tip list.
\<close>

section \<open>Occurrences\<close>

text \<open>\<open>below n c m\<close>: the entry \<open>c\<close> with node \<open>m\<close> occurs in a children map somewhere below \<open>n\<close>.\<close>

inductive below :: "'c change_node \<Rightarrow> string \<Rightarrow> 'c change_node \<Rightarrow> bool" where
  direct: "children n = Children ks \<Longrightarrow> (c, m) \<in> set ks \<Longrightarrow> below n c m"
| deeper: "children n = Children ks \<Longrightarrow> (c', m') \<in> set ks \<Longrightarrow> below m' c m \<Longrightarrow> below n c m"

inductive_cases below_elim: "below n c m"

definition keys_below :: "'c change_node \<Rightarrow> string set" where
  "keys_below n = {c. \<exists>m. below n c m}"

definition kid_keys :: "'c child_list \<Rightarrow> string set" where
  "kid_keys ks = fst ` set ks \<union> (\<Union>(c, m)\<in>set ks. keys_below m)"

lemma keys_below_children: "keys_below n = (case children n of Children ks \<Rightarrow> kid_keys ks | _ \<Rightarrow> {})"
proof (cases "children n")
  case (Children ks)
  have "c \<in> keys_below n \<longleftrightarrow> c \<in> kid_keys ks" for c
  proof
    assume "c \<in> keys_below n"
    then obtain m where "below n c m" by (auto simp: keys_below_def)
    then show "c \<in> kid_keys ks"
    proof cases
      case (direct ks')
      then show ?thesis using Children by (auto simp: kid_keys_def intro: rev_image_eqI)
    next
      case (deeper ks' c' m')
      then show ?thesis using Children by (auto simp: kid_keys_def keys_below_def intro!: bexI[of _ "(c', m')"])
    qed
  next
    assume "c \<in> kid_keys ks"
    then consider m where "(c, m) \<in> set ks" | c' m' m where "(c', m') \<in> set ks" "below m' c m"
      by (auto simp: kid_keys_def keys_below_def)
    then show "c \<in> keys_below n"
      using below.direct [OF Children] below.deeper [OF Children] unfolding keys_below_def by cases blast+
  qed
  then show ?thesis using Children by auto
qed (auto simp: keys_below_def elim: below.cases)

lemma kid_keys_simps [simp]: "kid_keys [] = {}" "kid_keys ((c, m) # ks) = insert c (keys_below m \<union> kid_keys ks)"
  by (auto simp: kid_keys_def)

definition kids_of :: "'c change_node \<Rightarrow> 'c child_list" where
  "kids_of n = (case children n of Children ks \<Rightarrow> ks | _ \<Rightarrow> [])"

lemma below_node [simp]:
  "below (Change_node key k ch (Children ks)) c m \<longleftrightarrow> (\<exists>(c', m')\<in>set ks. c' = c \<and> m' = m \<or> below m' c m)"
  "\<not> below (Change_node key k ch No_children) c m"
  "\<not> below (Change_node key k ch Deferred) c m"
  by (simp_all add: below.simps [of "Change_node _ _ _ _"]) blast

lemma below_kids: "(c, m) \<in> set (kids_of n) \<Longrightarrow> below n c m"
  by (cases "children n") (auto simp: kids_of_def intro: direct)

lemma below_trans: "below n c m \<Longrightarrow> below m c' m' \<Longrightarrow> below n c' m'"
  by (induction rule: below.induct) (auto intro: below.intros)

text \<open>Content addressing: a CID names one set of children wherever it occurs in the tree.\<close>

definition occurs :: "string option \<Rightarrow> 'c change_node \<Rightarrow> string \<Rightarrow> 'c change_node \<Rightarrow> bool" where
  "occurs r n c m \<longleftrightarrow> r = Some c \<and> m = n \<or> below n c m"

definition content_addressed :: "string option \<Rightarrow> 'c change_node \<Rightarrow> bool" where
  "content_addressed r n \<longleftrightarrow> (\<forall>c m m'. occurs r n c m \<longrightarrow> occurs r n c m' \<longrightarrow> kids_of m = kids_of m')"

section \<open>The pruned walk\<close>

text \<open>Every CID the walk newly visits has an occurrence all of whose children were recorded and visited.\<close>

definition expanded :: "(string \<times> 'c change_node) set \<Rightarrow> string list \<times> string list \<Rightarrow> string \<Rightarrow> bool" where
  "expanded occ st x \<longleftrightarrow> (\<exists>m. (x, m) \<in> occ \<and> fst ` set (kids_of m) \<subseteq> set (fst st) \<inter> set (snd st))"

definition walk_post :: "(string \<times> 'c change_node) set \<Rightarrow> string set \<Rightarrow> string list \<times> string list \<Rightarrow> string list \<times> string list \<Rightarrow> bool" where
  "walk_post occ new st st' \<longleftrightarrow> set (fst st) \<subseteq> set (fst st') \<and> set (snd st) \<subseteq> set (snd st')
     \<and> set (snd st') \<subseteq> set (snd st) \<union> new
     \<and> (\<forall>x\<in>set (fst st') - set (fst st). expanded occ st' x)"

lemma expanded_mono:
  "expanded occ st x \<Longrightarrow> occ \<subseteq> occ' \<Longrightarrow> set (fst st) \<subseteq> set (fst st') \<Longrightarrow> set (snd st) \<subseteq> set (snd st') \<Longrightarrow> expanded occ' st' x"
  unfolding expanded_def by blast

lemma walk_post_trans:
  assumes "walk_post occ new st st'" "walk_post occ' new' st' st''" "occ \<subseteq> occ''" "occ' \<subseteq> occ''"
  shows "walk_post occ'' (new \<union> new') st st''"
proof -
  have "expanded occ'' st'' x" if "x \<in> set (fst st'') - set (fst st)" for x
  proof (cases "x \<in> set (fst st')")
    case True
    then have "expanded occ st' x" using assms(1) that unfolding walk_post_def by blast
    then show ?thesis using assms(2,3) unfolding walk_post_def by (metis expanded_mono)
  next
    case False
    then have "expanded occ' st'' x" using assms(2) that unfolding walk_post_def by blast
    then show ?thesis using assms(4) expanded_mono by blast
  qed
  then show ?thesis using assms(1,2) unfolding walk_post_def by blast
qed

definition occ_node :: "string option \<Rightarrow> 'c change_node \<Rightarrow> (string \<times> 'c change_node) set" where
  "occ_node r n = {(c, m). occurs r n c m}"

definition occ_kids :: "'c child_list \<Rightarrow> (string \<times> 'c change_node) set" where
  "occ_kids ks = (\<Union>(c, m)\<in>set ks. occ_node (Some c) m)"

lemma occ_kids_node: "children n = Children ks \<Longrightarrow> occ_kids ks \<subseteq> occ_node r n"
  by (auto simp: occ_kids_def occ_node_def occurs_def intro: below.intros)

lemma walk_spec:
  fixes n :: "'c change_node" and ks :: "'c child_list"
  shows "walk_post (occ_node r n) (keys_below n) st (ancestors_walk r n st) \<and> (\<forall>c. r = Some c \<longrightarrow> c \<in> set (fst (ancestors_walk r n st)))"
  "walk_post (occ_kids ks) (kid_keys ks) st (ancestors_walks ks st) \<and> fst ` set ks \<subseteq> set (fst (ancestors_walks ks st)) \<inter> set (snd (ancestors_walks ks st))"
proof (induction r n st and ks st rule: ancestors_walk_ancestors_walks.induct)
  case (2 st)
  then show ?case by (simp add: walk_post_def)
next
  case (3 c m ks visited out)
  let ?s0 = "(visited, out)" and ?s1 = "(visited, set_add c out)"
  let ?s2 = "ancestors_walk (Some c) m ?s1"
  have a: "walk_post {} {c} ?s0 ?s1" by (auto simp: walk_post_def)
  have b: "walk_post (occ_node (Some c) m) (keys_below m) ?s1 ?s2" and c: "c \<in> set (fst ?s2)" using 3(1) by auto
  have d: "walk_post (occ_kids ks) (kid_keys ks) ?s2 (ancestors_walks ks ?s2)"
    and e: "fst ` set ks \<subseteq> set (fst (ancestors_walks ks ?s2)) \<inter> set (snd (ancestors_walks ks ?s2))" using 3(2) by auto
  have sub: "occ_node (Some c) m \<subseteq> occ_kids ((c, m) # ks)" "occ_kids ks \<subseteq> occ_kids ((c, m) # ks)" by (auto simp: occ_kids_def)
  have ab: "walk_post (occ_node (Some c) m) ({c} \<union> keys_below m) ?s0 ?s2" by (rule walk_post_trans [OF a b]) auto
  have "walk_post (occ_kids ((c, m) # ks)) ({c} \<union> keys_below m \<union> kid_keys ks) ?s0 (ancestors_walks ks ?s2)"
    by (rule walk_post_trans [OF ab d sub])
  moreover have "c \<in> set (fst (ancestors_walks ks ?s2))" "c \<in> set (snd (ancestors_walks ks ?s2))"
    using c b d unfolding walk_post_def by auto
  ultimately show ?case using e by simp
next
  case (1 r n visited out)
  define visited' where "visited' = (case r of Some c \<Rightarrow> set_add c visited | None \<Rightarrow> visited)"
  show ?case
  proof (cases "\<exists>c. r = Some c \<and> c \<in> set visited")
    case True
    then show ?thesis by (auto simp: walk_post_def)
  next
    case False
    have run: "ancestors_walk r n (visited, out)
        = (case children n of Children ks \<Rightarrow> ancestors_walks ks (visited', out) | _ \<Rightarrow> (visited', out))"
      using False by (cases r) (simp_all add: visited'_def split: children.split)
    let ?st = "ancestors_walk r n (visited, out)"
    have kids: "walk_post (occ_node r n) (keys_below n) (visited', out) ?st
        \<and> fst ` set (kids_of n) \<subseteq> set (fst ?st) \<inter> set (snd ?st)"
    proof (cases "children n")
      case (Children ks)
      have "walk_post (occ_kids ks) (kid_keys ks) (visited', out) (ancestors_walks ks (visited', out))
          \<and> fst ` set ks \<subseteq> set (fst (ancestors_walks ks (visited', out))) \<inter> set (snd (ancestors_walks ks (visited', out)))"
        using 1 Children False by (cases r) (auto simp: visited'_def)
      then show ?thesis using occ_kids_node [OF Children, of r] Children unfolding run
        by (auto simp: kids_of_def keys_below_children walk_post_def intro: expanded_mono)
    qed (simp_all add: run walk_post_def kids_of_def del: ancestors_walk.simps)
    have "expanded (occ_node r n) ?st c" if "r = Some c" for c
      using kids that by (auto simp: expanded_def occ_node_def occurs_def)
    then show ?thesis using kids by (cases r) (auto simp: walk_post_def visited'_def)
  qed
qed

text \<open>In a content-addressed tree the pruned walk records exactly the CIDs that occur below the root.\<close>

lemma collectReferencedAncestors_all:
  assumes "content_addressed r n"
  shows "set (collectReferencedAncestors r n out) = set out \<union> keys_below n"
proof -
  let ?st = "ancestors_walk r n ([], out)"
  have post: "walk_post (occ_node r n) (keys_below n) ([], out) ?st" using walk_spec(1) by blast
  have visited: "c \<in> set (fst ?st) \<Longrightarrow> occurs r n c m \<Longrightarrow> fst ` set (kids_of m) \<subseteq> set (fst ?st) \<inter> set (snd ?st)" for c m
  proof -
    assume "c \<in> set (fst ?st)" "occurs r n c m"
    then obtain m' where "occurs r n c m'" "fst ` set (kids_of m') \<subseteq> set (fst ?st) \<inter> set (snd ?st)"
      using post by (auto simp: walk_post_def expanded_def occ_node_def)
    then show ?thesis using assms \<open>occurs r n c m\<close> unfolding content_addressed_def by metis
  qed
  have root: "fst ` set (kids_of n) \<subseteq> set (fst ?st) \<inter> set (snd ?st)"
  proof (cases r)
    case None
    show ?thesis
    proof (cases "children n")
      case (Children ks)
      then show ?thesis using None walk_spec(2)[where ks = ks and st = "([], out)"] by (simp add: kids_of_def)
    qed (simp_all add: kids_of_def)
  next
    case (Some c)
    then show ?thesis using walk_spec(1)[where r = r and n = n and st = "([], out)"] visited[of c n] by (auto simp: occurs_def)
  qed
  have "below x c m \<Longrightarrow> (x = n \<or> (\<exists>d. occurs r n d x \<and> d \<in> set (fst ?st))) \<Longrightarrow> c \<in> set (snd ?st)" for x c m
  proof (induction rule: below.induct)
    case (direct x ks c m)
    then have "c \<in> fst ` set (kids_of x)" by (force simp: kids_of_def)
    then show ?case using direct.prems root visited by blast
  next
    case (deeper x ks c' m' c m)
    then have k: "c' \<in> fst ` set (kids_of x)" by (force simp: kids_of_def)
    then have v: "c' \<in> set (fst ?st)" using deeper.prems root visited by blast
    have "occurs r n c' m'" using deeper.prems deeper.hyps(1,2) by (auto simp: occurs_def intro: below.direct below_trans)
    then show ?case using deeper.IH v by blast
  qed
  then have "keys_below n \<subseteq> set (snd ?st)" by (auto simp: keys_below_def)
  then show ?thesis using post by (auto simp: collectReferencedAncestors_def walk_post_def)
qed

section \<open>The other walks follow the same path\<close>

declare ancestors_walk.simps [simp del] frontier_walk.simps [simp del] all_walk.simps [simp del] contains_walk.simps [simp del]
  merge_walk.simps [simp del]

lemmas walk_simps = ancestors_walk.simps frontier_walk.simps all_walk.simps contains_walk.simps

lemma walk_mono:
  "set (fst st) \<subseteq> set (fst (ancestors_walk r n st))" "set (snd st) \<subseteq> set (snd (ancestors_walk r n st))"
  "set (fst st') \<subseteq> set (fst (ancestors_walks ks st'))" "set (snd st') \<subseteq> set (snd (ancestors_walks ks st'))"
  using walk_spec(1)[where r = r and n = n and st = st] walk_spec(2)[where ks = ks and st = st'] by (auto simp: walk_post_def)

lemma frontier_walk_sim:
  fixes n :: "'c change_node" and ks :: "'c child_list"
  shows "set (fst (snd st)) \<union> set (snd (snd st)) \<subseteq> set (fst st) \<Longrightarrow>
      (snd (snd (frontier_walk r n st)), fst (snd (frontier_walk r n st))) = ancestors_walk r n (snd (snd st), fst (snd st))
      \<and> set (fst (frontier_walk r n st)) = set (fst st) \<union> set (fst (snd (frontier_walk r n st))) \<union> set (snd (snd (frontier_walk r n st)))"
    and "set (fst (snd st)) \<union> set (snd (snd st)) \<subseteq> set (fst st) \<Longrightarrow>
      (snd (snd (frontier_walks ks st)), fst (snd (frontier_walks ks st))) = ancestors_walks ks (snd (snd st), fst (snd st))
      \<and> set (fst (frontier_walks ks st)) = set (fst st) \<union> set (fst (snd (frontier_walks ks st))) \<union> set (snd (snd (frontier_walks ks st)))"
proof (induction r n st and ks st rule: frontier_walk_frontier_walks.induct)
  case (1 r n cids referenced visited)
  show ?case
  proof (cases r)
    case None
    then show ?thesis using 1 by (cases "children n") (auto simp: walk_simps)
  next
    case (Some c)
    show ?thesis
    proof (cases "c \<in> set visited")
      case True
      then show ?thesis using Some 1(3) by (auto simp: walk_simps)
    next
      case False
      show ?thesis
      proof (cases "children n")
        case (Children ks)
        let ?s = "(set_add c cids, referenced, set_add c visited)"
        have IH: "(snd (snd (frontier_walks ks ?s)), fst (snd (frontier_walks ks ?s))) = ancestors_walks ks (set_add c visited, referenced)"
          "set (fst (frontier_walks ks ?s)) = set (fst ?s) \<union> set (fst (snd (frontier_walks ks ?s))) \<union> set (snd (snd (frontier_walks ks ?s)))"
          using 1(2)[OF Some False refl Children] 1(3) by auto
        have "c \<in> set (snd (snd (frontier_walks ks ?s)))"
          using walk_mono(3)[of "(set_add c visited, referenced)" ks] IH(1) by (metis fst_conv insertI1 set_set_add subsetD)
        then show ?thesis using IH Some False Children by (auto simp: Let_def walk_simps)
      qed (use Some False 1(3) in \<open>auto simp: Let_def walk_simps\<close>)
    qed
  qed
next
  case (2 st)
  then show ?case by auto
next
  case (3 c m ks cids referenced visited)
  let ?s1 = "(set_add c cids, set_add c referenced, visited)"
  let ?s2 = "frontier_walk (Some c) m ?s1"
  have a: "(snd (snd ?s2), fst (snd ?s2)) = ancestors_walk (Some c) m (visited, set_add c referenced)"
    "set (fst ?s2) = set (fst ?s1) \<union> set (fst (snd ?s2)) \<union> set (snd (snd ?s2))" using 3(1,3) by auto
  have b: "(snd (snd (frontier_walks ks ?s2)), fst (snd (frontier_walks ks ?s2))) = ancestors_walks ks (snd (snd ?s2), fst (snd ?s2))"
    "set (fst (frontier_walks ks ?s2)) = set (fst ?s2) \<union> set (fst (snd (frontier_walks ks ?s2))) \<union> set (snd (snd (frontier_walks ks ?s2)))"
    using 3(2) a(2) by auto
  have mono: "set (fst (snd ?s2)) \<subseteq> set (fst (snd (frontier_walks ks ?s2)))" "set (snd (snd ?s2)) \<subseteq> set (snd (snd (frontier_walks ks ?s2)))"
    "set (set_add c referenced) \<subseteq> set (fst (snd ?s2))"
    using walk_mono(3,4)[of "(snd (snd ?s2), fst (snd ?s2))" ks] walk_mono(2)[of "(visited, set_add c referenced)" "Some c" m]
    unfolding b(1) [symmetric] a(1) [symmetric] by simp_all
  show ?case using a b mono by auto
qed


lemma all_walk_sim:
  fixes n :: "'c change_node" and ks :: "'c child_list"
  shows "set out \<union> set (snd st) \<subseteq> set (fst st) \<Longrightarrow>
      snd (all_walk r n st) = fst (ancestors_walk r n (snd st, out))
      \<and> set (fst (all_walk r n st)) = set (fst st) \<union> set (fst (ancestors_walk r n (snd st, out))) \<union> set (snd (ancestors_walk r n (snd st, out)))"
    and "set out \<union> set (snd st) \<subseteq> set (fst st) \<Longrightarrow>
      snd (all_walks ks st) = fst (ancestors_walks ks (snd st, out))
      \<and> set (fst (all_walks ks st)) = set (fst st) \<union> set (fst (ancestors_walks ks (snd st, out))) \<union> set (snd (ancestors_walks ks (snd st, out)))"
proof (induction r n st and ks st arbitrary: out and out rule: all_walk_all_walks.induct)
  case (1 r n cids visited)
  show ?case
  proof (cases "children n")
    case (Children ks)
    show ?thesis
    proof (cases r)
      case None
      then show ?thesis using 1(1)[OF None Children] 1(3) Children by (auto simp: walk_simps)
    next
      case (Some c)
      have c: "c \<in> set (fst (ancestors_walks ks (set_add c visited, out)))"
        using walk_mono(3)[of "(set_add c visited, out)" ks] by auto
      have pre: "set out \<union> set (snd (set_add c cids, set_add c visited)) \<subseteq> set (fst (set_add c cids, set_add c visited))" using 1(3) by auto
      show ?thesis
      proof (cases "c \<in> set visited")
        case True
        then show ?thesis using Some 1(3) by (auto simp: walk_simps)
      next
        case False
        then show ?thesis using 1(2)[OF Some False Children pre] c Children Some by (auto simp: walk_simps)
      qed
    qed
  qed (use 1(3) in \<open>auto simp: walk_simps split: option.splits\<close>)
next
  case (2 st)
  then show ?case by auto
next
  case (3 c m ks cids visited)
  let ?s1 = "(set_add c cids, visited)" and ?a1 = "(visited, set_add c out)"
  let ?s2 = "all_walk (Some c) m ?s1" and ?a2 = "ancestors_walk (Some c) m ?a1"
  have a: "snd ?s2 = fst ?a2" "set (fst ?s2) = set (fst ?s1) \<union> set (fst ?a2) \<union> set (snd ?a2)"
    using 3(1)[of "set_add c out"] 3(3) by auto
  have b: "snd (all_walks ks ?s2) = fst (ancestors_walks ks ?a2)"
    "set (fst (all_walks ks ?s2)) = set (fst ?s2) \<union> set (fst (ancestors_walks ks ?a2)) \<union> set (snd (ancestors_walks ks ?a2))"
    using 3(2)[of "snd ?a2"] a by auto
  have mono: "set (fst ?a2) \<subseteq> set (fst (ancestors_walks ks ?a2))" "set (snd ?a2) \<subseteq> set (snd (ancestors_walks ks ?a2))" "c \<in> set (snd ?a2)"
    using walk_mono(3,4)[of ?a2 ks] walk_mono(2)[of ?a1 "Some c" m] by auto
  show ?case using a b mono by auto
qed

lemma contains_walk_sim:
  fixes n :: "'c change_node" and ks :: "'c child_list"
  shows "t \<notin> set out \<Longrightarrow> (fst (contains_walk t r n visited) \<longleftrightarrow> t \<in> set (snd (ancestors_walk r n (visited, out))))
      \<and> (\<not> fst (contains_walk t r n visited) \<longrightarrow> snd (contains_walk t r n visited) = fst (ancestors_walk r n (visited, out)))"
    and "t \<notin> set out \<Longrightarrow> (fst (contains_walks t ks visited') \<longleftrightarrow> t \<in> set (snd (ancestors_walks ks (visited', out))))
      \<and> (\<not> fst (contains_walks t ks visited') \<longrightarrow> snd (contains_walks t ks visited') = fst (ancestors_walks ks (visited', out)))"
proof (induction t r n visited and t ks visited' arbitrary: out and out rule: contains_walk_contains_walks.induct)
  case (1 t r n visited)
  then show ?case by (cases r; cases "children n") (auto simp: walk_simps)
next
  case (2 t visited)
  then show ?case by simp
next
  case (3 t c m ks visited)
  let ?a1 = "(visited, set_add c out)"
  let ?a2 = "ancestors_walk (Some c) m ?a1"
  obtain found v where cw: "contains_walk t (Some c) m visited = (found, v)" by fastforce
  show ?case
  proof (cases "c = t")
    case True
    then show ?thesis using walk_mono(2)[of ?a1 "Some c" m] walk_mono(4)[of ?a2 ks] by auto
  next
    case False
    then have a: "found \<longleftrightarrow> t \<in> set (snd ?a2)" "\<not> found \<Longrightarrow> v = fst ?a2" using 3(1)[of "set_add c out"] 3(3) cw by auto
    show ?thesis
    proof (cases found)
      case True
      then show ?thesis using False a cw walk_mono(4)[of ?a2 ks] by auto
    next
      case nf: False
      then show ?thesis using False a cw 3(2)[of found v "snd ?a2"] by auto
    qed
  qed
qed

lemma frontier_distinct:
  fixes n :: "'c change_node" and ks :: "'c child_list"
  shows "distinct (fst st) \<Longrightarrow> distinct (fst (frontier_walk r n st))"
    and "distinct (fst st) \<Longrightarrow> distinct (fst (frontier_walks ks st))"
  by (induction r n st and ks st rule: frontier_walk_frontier_walks.induct)
    (auto simp: frontier_walk.simps Let_def distinct_set_add split: option.split children.split)

lemma walk_visited:
  fixes n :: "'c change_node" and ks :: "'c child_list"
  shows "set (fst (ancestors_walk r n st)) \<subseteq> set_option r \<union> set (fst st) \<union> set (snd (ancestors_walk r n st))"
    and "set (fst (ancestors_walks ks st)) \<subseteq> set (fst st) \<union> set (snd (ancestors_walks ks st))"
proof (induction r n st and ks st rule: ancestors_walk_ancestors_walks.induct)
  case (1 r n visited out)
  show ?case
  proof (cases "children n")
    case (Children ks)
    then show ?thesis using 1 by (cases r) (auto simp: ancestors_walk.simps)
  qed (auto simp: ancestors_walk.simps split: option.splits)
next
  case (2 st)
  then show ?case by simp
next
  case (3 c m ks visited out)
  then show ?case using walk_mono(4)[of "ancestors_walk (Some c) m (visited, set_add c out)" ks]
      walk_mono(2)[of "(visited, set_add c out)" "Some c" m] by auto
qed

section \<open>Properties of the walks\<close>

text \<open>
  The served frontier of a content-addressed payload is the set of its heads: the root CID and the
  snapshot boundary, less every CID that occurs as a children key anywhere in the tree.
\<close>

theorem dag_served_frontier_is_heads:
  assumes "content_addressed (Some c) n" "b \<noteq> Some []"
  shows "set (computeServedFrontier (Some c) (Some n) b) = ({c} \<union> set_option b) - keys_below n
    \<and> distinct (computeServedFrontier (Some c) (Some n) b)"
proof -
  let ?st = "frontier_walk (Some c) n ([], [], [])"
  obtain C R V where st: "?st = (C, R, V)" by (metis prod_cases3)
  have a: "ancestors_walk (Some c) n ([], []) = (V, R)" "set C = set R \<union> set V"
    using frontier_walk_sim(1)[of "([], [], [])" "Some c" n] st by auto
  have R: "set R = keys_below n" using collectReferencedAncestors_all [OF assms(1), of "[]"] a(1) by (simp add: collectReferencedAncestors_def)
  have "set V \<subseteq> {c} \<union> keys_below n" "c \<in> set V"
    using walk_spec(1)[where r = "Some c" and n = n and st = "([], [])"] unfolding a(1)
    by (auto simp: walk_post_def expanded_def occ_node_def occurs_def keys_below_def)
  then have "set C \<union> keys_below n = {c} \<union> keys_below n" using a(2) R by auto
  then have "(set C \<union> set_option b) - set R = ({c} \<union> set_option b) - keys_below n" using R by blast
  moreover have "distinct C" using frontier_distinct(1)[of "([], [], [])" "Some c" n] st by simp
  moreover obtain C' where "computeServedFrontier (Some c) (Some n) b = filter (\<lambda>cid. cid \<notin> set R) C'"
    "set C' = set C \<union> set_option b" "distinct C \<longrightarrow> distinct C'"
    using assms(2) st by (cases b) (simp_all add: computeServedFrontier_def Let_def distinct_set_add)
  ultimately show ?thesis by auto
qed

text \<open>A content-addressed tree: \<open>R\<close> above \<open>P\<close> and \<open>X\<close>, and \<open>X\<close> again below \<open>P\<close>.\<close>

definition cross_tree :: "nat change_node" where
  "cross_tree = Change_node None Document_change (Some 1) (Children
     [(''P'', Change_node None Document_change (Some 2) (Children [(''X'', Change_node None Document_change (Some 3) No_children)])),
      (''X'', Change_node None Document_change None No_children)])"

lemma cross_tree_keys: "keys_below cross_tree = {''P'', ''X''}"
  by (auto simp: keys_below_children cross_tree_def)

lemma cross_tree_content_addressed: "content_addressed (Some ''R'') cross_tree"
  by (auto simp: content_addressed_def occurs_def cross_tree_def kids_of_def)

theorem dag_served_frontier_is_heads_witness:
  "set (computeServedFrontier (Some ''R'') (Some cross_tree) (Some ''B'')) = {''R'', ''B''}"
  using dag_served_frontier_is_heads [OF cross_tree_content_addressed, of "Some ''B''"] by (auto simp: cross_tree_keys)

text \<open>
  The two membership queries agree: \<open>treeContainsCid\<close> finds a non-empty CID exactly when
  \<open>collectAllCidsInTree\<close> lists it, and in a content-addressed tree both see exactly the root CID and the CIDs
  that occur as children keys.
\<close>

theorem dag_contains_iff_collected:
  assumes "t \<noteq> []"
  shows "(treeContainsCid r (Some n) (Some t) \<longleftrightarrow> t \<in> set (collectAllCidsInTree r (Some n)))
    \<and> (content_addressed r n \<longrightarrow> set (collectAllCidsInTree r (Some n)) = set_option r \<union> keys_below n)"
proof -
  let ?a = "ancestors_walk r n ([], [])"
  have all: "set (collectAllCidsInTree r (Some n)) = set (fst ?a) \<union> set (snd ?a)"
    using all_walk_sim(1)[of "[]" "([], [])" r n] by (simp add: collectAllCidsInTree_def)
  have spec: "walk_post (occ_node r n) (keys_below n) ([], []) ?a" "\<forall>c. r = Some c \<longrightarrow> c \<in> set (fst ?a)"
    using walk_spec(1)[where r = r and n = n and st = "([], [])"] by blast+
  have visited: "x \<in> set (fst ?a) \<Longrightarrow> r = Some x \<or> x \<in> set (snd ?a)" for x using walk_visited(1)[where r = r and n = n and st = "([], [])"] by auto
  have "treeContainsCid r (Some n) (Some t) \<longleftrightarrow> r = Some t \<or> t \<in> set (snd ?a)"
    using assms contains_walk_sim(1)[of t "[]" r n "[]"] by (simp add: treeContainsCid_def)
  then have one: "treeContainsCid r (Some n) (Some t) \<longleftrightarrow> t \<in> set (collectAllCidsInTree r (Some n))"
    using all visited spec(2) by auto
  have "set (collectAllCidsInTree r (Some n)) = set_option r \<union> keys_below n" if "content_addressed r n"
  proof -
    have "set (snd ?a) = keys_below n" using collectReferencedAncestors_all [OF that, of "[]"] by (simp add: collectReferencedAncestors_def)
    then show ?thesis using all visited spec(2) by auto
  qed
  with one show ?thesis by blast
qed

theorem dag_contains_iff_collected_witness:
  "treeContainsCid (Some ''R'') (Some cross_tree) (Some ''X'') \<and> \<not> treeContainsCid (Some ''R'') (Some cross_tree) (Some ''Y'')"
  using dag_contains_iff_collected [of "''X''" "Some ''R''" cross_tree] dag_contains_iff_collected [of "''Y''" "Some ''R''" cross_tree]
    cross_tree_content_addressed by (simp add: cross_tree_keys)

section \<open>Merging\<close>

text \<open>
  \<open>vis known n c m\<close>: the entry occurs below \<open>n\<close> on a path of CIDs that are not known locally.  These are the
  occurrences a receiver has to look at.
\<close>

inductive vis :: "(string \<Rightarrow> bool) \<Rightarrow> 'c change_node \<Rightarrow> string \<Rightarrow> 'c change_node \<Rightarrow> bool" for known where
  vis_direct: "(c, m) \<in> set (kids_of n) \<Longrightarrow> \<not> known c \<Longrightarrow> vis known n c m"
| vis_deeper: "(c', m') \<in> set (kids_of n) \<Longrightarrow> \<not> known c' \<Longrightarrow> vis known m' c m \<Longrightarrow> vis known n c m"

lemma vis_unknown: "vis known n c m \<Longrightarrow> \<not> known c"
  by (induction rule: vis.induct) auto

lemma vis_snoc: "vis known n c m \<Longrightarrow> (c', m') \<in> set (kids_of m) \<Longrightarrow> \<not> known c' \<Longrightarrow> vis known n c' m'"
  by (induction rule: vis.induct) (blast intro: vis.intros)+

definition vis_node :: "(string \<Rightarrow> bool) \<Rightarrow> string \<Rightarrow> 'c change_node \<Rightarrow> (string \<times> 'c change_node) set" where
  "vis_node known r n = (if known r then {} else insert (r, n) {(c, m). vis known n c m})"

lemma vis_node_unknown: "(c, m) \<in> vis_node known r n \<Longrightarrow> \<not> known c"
  using vis_unknown[of known n c m] by (auto simp: vis_node_def split: if_splits)

definition vis_kids :: "(string \<Rightarrow> bool) \<Rightarrow> 'c child_list \<Rightarrow> (string \<times> 'c change_node) set" where
  "vis_kids known ks = (\<Union>(c, m)\<in>set ks. vis_node known c m)"

definition is_known :: "string option \<Rightarrow> string set \<Rightarrow> string \<Rightarrow> bool" where
  "is_known localRootId localHashes c \<longleftrightarrow> localRootId = Some c \<or> c \<in> localHashes"

type_synonym 'c merge_state = "(string, 'c sync_entry) jsmap \<times> string list"

text \<open>An occurrence is settled: known, or recorded with a payload no worse than its own and, if it has children, walked.\<close>

definition settled :: "(string \<Rightarrow> bool) \<Rightarrow> 'c merge_state \<Rightarrow> string \<Rightarrow> 'c change_node \<Rightarrow> bool" where
  "settled known st c m \<longleftrightarrow> known c \<or> (\<exists>e. map_get (fst st) c = Some e \<and> (change m \<noteq> None \<longrightarrow> snd (snd e) \<noteq> None)
     \<and> (kids_of m \<noteq> [] \<longrightarrow> c \<in> set (snd st)))"

definition all_settled :: "(string \<Rightarrow> bool) \<Rightarrow> 'c merge_state \<Rightarrow> 'c change_node \<Rightarrow> bool" where
  "all_settled known st m \<longleftrightarrow> (\<exists>ks. children m = Children ks \<and> (\<forall>(k, km)\<in>set ks. settled known st k km))"

definition grows :: "'c merge_state \<Rightarrow> 'c merge_state \<Rightarrow> bool" where
  "grows st st' \<longleftrightarrow> set (snd st) \<subseteq> set (snd st') \<and> (map_ok (fst st) \<longrightarrow> map_ok (fst st'))
     \<and> (\<forall>c e. map_get (fst st) c = Some e \<longrightarrow> (\<exists>e'. map_get (fst st') c = Some e' \<and> (snd (snd e) \<noteq> None \<longrightarrow> snd (snd e') \<noteq> None)))"

definition merge_post :: "(string \<Rightarrow> bool) \<Rightarrow> (string \<times> 'c change_node) set \<Rightarrow> 'c merge_state \<Rightarrow> 'c merge_state \<Rightarrow> bool" where
  "merge_post known occ st st' \<longleftrightarrow> grows st st'
     \<and> (\<forall>c e. map_get (fst st') c = Some e \<longrightarrow> map_get (fst st) c = Some e \<or> (\<exists>m. (c, m) \<in> occ \<and> e = (c, kind m, change m)))
     \<and> (\<forall>x\<in>set (snd st') - set (snd st). \<exists>m. (x, m) \<in> occ \<and> all_settled known st' m)"

lemma grows_refl: "grows st st"
  by (auto simp: grows_def)

lemma grows_trans: "grows a b \<Longrightarrow> grows b c \<Longrightarrow> grows a c"
  unfolding grows_def by (meson subset_trans)

lemma settled_mono:
  assumes "settled known st c m" "grows st st'"
  shows "settled known st' c m"
proof (cases "known c")
  case False
  then obtain e where e: "map_get (fst st) c = Some e" "change m \<noteq> None \<longrightarrow> snd (snd e) \<noteq> None" "kids_of m \<noteq> [] \<longrightarrow> c \<in> set (snd st)"
    using assms(1) by (auto simp: settled_def)
  then obtain e' where "map_get (fst st') c = Some e'" "snd (snd e) \<noteq> None \<longrightarrow> snd (snd e') \<noteq> None"
    using assms(2) unfolding grows_def by blast
  then show ?thesis using e assms(2) unfolding settled_def grows_def by blast
qed (simp add: settled_def)

lemma all_settled_mono: "all_settled known st m \<Longrightarrow> grows st st' \<Longrightarrow> all_settled known st' m"
  unfolding all_settled_def using settled_mono by (metis (no_types, lifting) case_prodD case_prodI2)

lemma merge_post_grows: "merge_post known occ a b \<Longrightarrow> grows a b"
  by (simp add: merge_post_def)

lemma merge_post_entry:
  "merge_post known occ a b \<Longrightarrow> map_get (fst b) c = Some e \<Longrightarrow> map_get (fst a) c = Some e \<or> (\<exists>m. (c, m) \<in> occ \<and> e = (c, kind m, change m))"
  unfolding merge_post_def by (elim conjE) (drule spec, drule spec, drule (1) mp)

lemma merge_post_walked:
  "merge_post known occ a b \<Longrightarrow> x \<in> set (snd b) \<Longrightarrow> x \<notin> set (snd a) \<Longrightarrow>
     \<exists>m. (x, m) \<in> occ \<and> all_settled known b m"
  unfolding merge_post_def by (elim conjE) (erule bspec, simp)

lemma merge_postI:
  assumes "grows a b"
    and "\<And>c e. map_get (fst b) c = Some e \<Longrightarrow> map_get (fst a) c = Some e \<or> (\<exists>m. (c, m) \<in> occ \<and> e = (c, kind m, change m))"
    and "\<And>x. x \<in> set (snd b) \<Longrightarrow> x \<notin> set (snd a) \<Longrightarrow> \<exists>m. (x, m) \<in> occ \<and> all_settled known b m"
  shows "merge_post known occ a b"
  unfolding merge_post_def by (intro conjI allI impI ballI) (use assms in blast)+

lemma merge_post_trans:
  assumes "merge_post known occ a b" "merge_post known occ' b c" "occ \<subseteq> occ''" "occ' \<subseteq> occ''"
  shows "merge_post known occ'' a c"
proof (rule merge_postI)
  have g: "grows a b" "grows b c" using assms(1,2) merge_post_grows by blast+
  then show "grows a c" by (rule grows_trans)
  show "map_get (fst a) x = Some e \<or> (\<exists>m. (x, m) \<in> occ'' \<and> e = (x, kind m, change m))" if "map_get (fst c) x = Some e" for x e
    using merge_post_entry [OF assms(2) that] merge_post_entry [OF assms(1), of x e] assms(3,4) by blast
  show "\<exists>m. (x, m) \<in> occ'' \<and> all_settled known c m" if "x \<in> set (snd c)" "x \<notin> set (snd a)" for x
  proof (cases "x \<in> set (snd b)")
    case True
    from merge_post_walked [OF assms(1) True that(2)] obtain m where
      "(x, m) \<in> occ" "all_settled known b m" by blast
    then show ?thesis using assms(3) all_settled_mono [OF _ g(2)] by blast
  next
    case False
    from merge_post_walked [OF assms(2) that(1) False] show ?thesis using assms(4) by blast
  qed
qed

lemma merge_post_mono: "merge_post known occ a b \<Longrightarrow> occ \<subseteq> occ' \<Longrightarrow> merge_post known occ' a b"
  by (rule merge_postI) (blast dest: merge_post_grows merge_post_entry merge_post_walked)+

text \<open>The first half of a visit: recording the entry.\<close>

definition record_entry :: "string \<Rightarrow> 'c change_node \<Rightarrow> (string, 'c sync_entry) jsmap \<Rightarrow> (string, 'c sync_entry) jsmap" where
  "record_entry cid node byCid = (case map_get byCid cid of
      Some existing \<Rightarrow> if snd (snd existing) = None \<and> change node \<noteq> None then map_set cid (cid, kind node, change node) byCid else byCid
    | None \<Rightarrow> map_set cid (cid, kind node, change node) byCid)"

lemma record_entry_post:
  "merge_post known {(c, n)} (B, W) (record_entry c n B, W)"
  "\<exists>e. map_get (record_entry c n B) c = Some e \<and> (change n \<noteq> None \<longrightarrow> snd (snd e) \<noteq> None)"
  by (auto simp: merge_post_def grows_def record_entry_def js_map split: option.splits)

lemma merge_walk_step:
  "merge_walk lr H r n (B, W) = (case r of None \<Rightarrow> Ok (B, W) | Some c \<Rightarrow>
     if is_known lr H c then Ok (B, W)
     else if c \<in> set W then Ok (record_entry c n B, W)
     else (case children n of
         No_children \<Rightarrow> Ok (record_entry c n B, W)
       | Deferred \<Rightarrow> Err Ipld_dereferencing_unsupported
       | Children kids \<Rightarrow> merge_walks lr H kids (record_entry c n B, set_add c W)))"
  by (cases r) (auto simp: merge_walk.simps is_known_def record_entry_def Let_def split: children.split)

lemma vis_kids_node: "\<not> known r \<Longrightarrow> vis_kids known (kids_of n) \<subseteq> vis_node known r n"
  by (auto simp: vis_kids_def vis_node_def split: if_splits intro: vis.intros)

lemma merge_spec:
  fixes n :: "'c change_node" and ks :: "'c child_list"
  shows "merge_walk lr H r n st = Ok st' \<Longrightarrow> r = Some c \<Longrightarrow>
      merge_post (is_known lr H) (vis_node (is_known lr H) c n) st st' \<and> settled (is_known lr H) st' c n"
    and "merge_walks lr H ks st = Ok st' \<Longrightarrow>
      merge_post (is_known lr H) (vis_kids (is_known lr H) ks) st st' \<and> (\<forall>(k, km)\<in>set ks. settled (is_known lr H) st' k km)"
proof (induction lr H r n st and lr H ks st arbitrary: st' c and st' rule: merge_walk_merge_walks.induct)
  case (2 lr H st)
  then show ?case by (auto simp: merge_post_def grows_refl)
next
  case (3 lr H c m ks st)
  let ?k = "is_known lr H"
  from 3(3) obtain st1 where s: "merge_walk lr H (Some c) m st = Ok st1" "merge_walks lr H ks st1 = Ok st'" by (auto simp: try_bind_Ok_iff)
  have a: "merge_post ?k (vis_node ?k c m) st st1" "settled ?k st1 c m" using 3(1)[OF s(1) refl] by auto
  have b: "merge_post ?k (vis_kids ?k ks) st1 st'" "\<forall>(k, km)\<in>set ks. settled ?k st' k km" using 3(2)[OF s(2)] by auto
  have "merge_post ?k (vis_kids ?k ((c, m) # ks)) st st'" by (rule merge_post_trans [OF a(1) b(1)]) (auto simp: vis_kids_def)
  moreover have "settled ?k st' c m" using settled_mono [OF a(2)] b(1) by (simp add: merge_post_def)
  ultimately show ?case using b(2) by auto
next
  case (1 lr H r n B W)
  let ?k = "is_known lr H" and ?B = "record_entry c n B"
  show ?case
  proof (cases "?k c")
    case True
    then show ?thesis using 1(2,3) by (auto simp: merge_walk_step merge_post_def grows_refl settled_def)
  next
    case unknown: False
    have self: "(c, n) \<in> vis_node ?k c n" by (simp add: vis_node_def unknown)
    have rec: "merge_post ?k (vis_node ?k c n) (B, W) (?B, W)"
      by (rule merge_post_mono [OF record_entry_post(1)]) (simp add: self)
    obtain e where e: "map_get ?B c = Some e" "change n \<noteq> None \<longrightarrow> snd (snd e) \<noteq> None" 
      using record_entry_post(2)[of c n B] by (elim exE conjE) (rule that)
    show ?thesis
    proof (cases "c \<in> set W \<or> children n = No_children")
      case True
      then have st': "st' = (?B, W)" using 1(2,3) unknown by (auto simp: merge_walk_step split: if_splits)
      have "settled ?k st' c n" using True e by (auto simp: st' settled_def kids_of_def)
      then show ?thesis using rec st' by simp
    next
      case False
      then obtain ks where ks: "children n = Children ks" "c \<notin> set W" and walk: "merge_walks lr H ks (?B, set_add c W) = Ok st'"
        using 1(2,3) unknown by (cases "children n") (auto simp: merge_walk_step)
      have neq: "r \<noteq> lr" and notin: "c \<notin> H" using unknown 1(3) by (auto simp: is_known_def)
      have kids: "merge_post ?k (vis_kids ?k ks) (?B, set_add c W) st'" "\<forall>(k, km)\<in>set ks. settled ?k st' k km"
        using 1(1)[OF 1(3) neq notin record_entry_def ks(2) ks(1) walk] by simp_all
      have sub: "vis_kids ?k ks \<subseteq> vis_node ?k c n" using vis_kids_node[of ?k c n] unknown ks(1) by (simp add: kids_of_def)
      have g: "grows (?B, set_add c W) st'" using kids(1) by (rule merge_post_grows)
      have "merge_post ?k (vis_node ?k c n) (?B, W) st'"
      proof (rule merge_postI)
        show "grows (?B, W) st'" using g by (auto simp: grows_def)
        show "map_get (fst (?B, W)) x = Some e \<or> (\<exists>m. (x, m) \<in> vis_node ?k c n \<and> e = (x, kind m, change m))"
          if "map_get (fst st') x = Some e" for x e using merge_post_entry [OF kids(1) that] sub by auto
        show "\<exists>m. (x, m) \<in> vis_node ?k c n \<and> all_settled ?k st' m"
          if "x \<in> set (snd st')" "x \<notin> set (snd (?B, W))" for x
        proof (cases "x = c")
          case True
          then show ?thesis using self kids(2) ks(1) by (intro exI[of _ n]) (simp add: all_settled_def)
        next
          case False
          then show ?thesis using merge_post_walked [OF kids(1) that(1)] that(2) sub by auto
        qed
      qed
      from merge_post_trans [OF rec this subset_refl subset_refl] have "merge_post ?k (vis_node ?k c n) (B, W) st'" .
      moreover have "settled ?k (?B, set_add c W) c n" using e by (auto simp: settled_def)
      then have "settled ?k st' c n" using g by (rule settled_mono)
      ultimately show ?thesis by simp
    qed
  qed
qed

text \<open>
  A tree in which the CID \<open>X\<close> occurs twice: first as a stub without children, then below \<open>P\<close> with its child \<open>Y\<close>.
\<close>

definition stub_tree :: "nat change_node" where
  "stub_tree = Change_node None Document_change (Some 1) (Children
     [(''X'', Change_node None Document_change None No_children),
      (''P'', Change_node None Document_change (Some 2) (Children
         [(''X'', Change_node None Document_change (Some 3) (Children
             [(''Y'', Change_node None Document_change (Some 4) No_children)]))]))])"

lemma vis_below: "(\<And>x. \<not> known x) \<Longrightarrow> vis known n c m \<longleftrightarrow> below n c m"
proof
  show "below n c m" if "vis known n c m" using that
    by (induction rule: vis.induct) (blast intro: below_kids below_trans [OF below_kids])+
  show "vis known n c m" if "\<And>x. \<not> known x" "below n c m" using that(2)
    by (induction rule: below.induct) (auto simp: kids_of_def that(1) intro: vis.intros)
qed

text \<open>When a CID has one list of children wherever it is given children, everything visible is settled by a successful walk.\<close>

lemma merge_settles:
  assumes run: "merge_walk lr H (Some r) n ([], []) = Ok (B, W)"
    and kids: "\<forall>c m m' ks ks'. (c, m) \<in> vis_node (is_known lr H) r n \<longrightarrow> (c, m') \<in> vis_node (is_known lr H) r n
           \<longrightarrow> children m = Children ks \<longrightarrow> children m' = Children ks' \<longrightarrow> ks = ks'"
    and "(c, m) \<in> vis_node (is_known lr H) r n"
  shows "settled (is_known lr H) (B, W) c m"
proof -
  let ?k = "is_known lr H" and ?occ = "vis_node (is_known lr H) r n"
  have post: "merge_post ?k ?occ ([], []) (B, W)" and root: "settled ?k (B, W) r n" using merge_spec(1)[OF run refl] by auto
  have step: "settled ?k (B, W) c' m'" if m: "(c, m) \<in> ?occ" "settled ?k (B, W) c m" and k: "(c', m') \<in> set (kids_of m)" for c m c' m'
  proof -
    obtain ks where ks: "children m = Children ks" "(c', m') \<in> set ks" using k by (cases "children m") (auto simp: kids_of_def)
    have "c \<in> set W" using m vis_node_unknown [OF m(1)] k by (auto simp: settled_def)
    then obtain m0 where "(c, m0) \<in> ?occ" "all_settled ?k (B, W) m0" using merge_post_walked [OF post, of c] by auto
    then show ?thesis using kids m(1) ks unfolding all_settled_def by blast
  qed
  have occ_step: "(c', m') \<in> ?occ" if "(c, m) \<in> ?occ" "(c', m') \<in> set (kids_of m)" "\<not> ?k c'" for c m c' m'
    using that vis_snoc[of ?k n c m c' m'] by (auto simp: vis_node_def split: if_splits intro: vis.intros)
  have "vis ?k x c m \<Longrightarrow> (d, x) \<in> ?occ \<Longrightarrow> settled ?k (B, W) d x \<Longrightarrow> settled ?k (B, W) c m" for x d
    by (induction arbitrary: d rule: vis.induct) (blast intro: step occ_step)+
  then show ?thesis using assms(3) root by (auto simp: vis_node_def split: if_splits)
qed

text \<open>The entries of a successful walk: one per key, each under its own CID and taken from an occurrence.\<close>

lemma merge_entries:
  assumes run: "merge_walk lr H (Some r) n ([], []) = Ok (B, W)"
  shows "map_ok B" "map fst (map snd B) = map fst B"
    "(c, e) \<in> set B \<longleftrightarrow> map_get B c = Some e"
    "map_get B c = Some e \<Longrightarrow> \<exists>m. (c, m) \<in> vis_node (is_known lr H) r n \<and> e = (c, kind m, change m)"
proof -
  have post: "merge_post (is_known lr H) (vis_node (is_known lr H) r n) ([], []) (B, W)" using merge_spec(1)[OF run refl] by auto
  show ok: "map_ok B" using merge_post_grows [OF post] by (simp add: grows_def js_map)
  have in_B: "(c, e) \<in> set B \<longleftrightarrow> map_get B c = Some e" for c e using map_get_iff_in [OF ok] by blast
  then show "(c, e) \<in> set B \<longleftrightarrow> map_get B c = Some e" .
  have entry: "\<exists>m. (c, m) \<in> vis_node (is_known lr H) r n \<and> e = (c, kind m, change m)" if "map_get B c = Some e" for c e
    using merge_post_entry [OF post, of c e] that by (simp add: js_map)
  then show "map_get B c = Some e \<Longrightarrow> \<exists>m. (c, m) \<in> vis_node (is_known lr H) r n \<and> e = (c, kind m, change m)" .
  have "fst (snd p) = fst p" if "p \<in> set B" for p
    using entry [of "fst p" "snd p"] in_B [of "fst p" "snd p"] that by auto
  then show "map fst (map snd B) = map fst B" by simp
qed

text \<open>
  A merge delivers exactly the new entries.  When \<open>mergeRemoteSyncTree\<close> succeeds on a tree in which a
  CID has one list of children wherever it is given children, the result lists every CID visible through unknown
  CIDs exactly once and no CID that is known locally; each entry is taken from an occurrence of its CID,
  and carries a payload whenever any visible occurrence does, in whatever order stubs and inline nodes come.
\<close>

theorem dag_merge_delivers_new:
  assumes "mergeRemoteSyncTree (Some r) n lr H = Ok es"
    and kids: "\<forall>c m m' ks ks'. (c, m) \<in> vis_node (is_known lr H) r n \<longrightarrow> (c, m') \<in> vis_node (is_known lr H) r n
           \<longrightarrow> children m = Children ks \<longrightarrow> children m' = Children ks' \<longrightarrow> ks = ks'"
  shows "distinct (map fst es) \<and> set (map fst es) = fst ` vis_node (is_known lr H) r n
    \<and> (\<forall>(c, k, ch)\<in>set es. \<not> is_known lr H c
        \<and> (\<exists>m. (c, m) \<in> vis_node (is_known lr H) r n \<and> k = kind m \<and> ch = change m)
        \<and> (ch = None \<longrightarrow> (\<forall>m. (c, m) \<in> vis_node (is_known lr H) r n \<longrightarrow> change m = None)))"
proof -
  let ?k = "is_known lr H" and ?occ = "vis_node (is_known lr H) r n"
  from assms(1) obtain B W where run: "merge_walk lr H (Some r) n ([], []) = Ok (B, W)" and es: "es = map snd B"
    by (auto simp: mergeRemoteSyncTree_def try_bind_Ok_iff)
  note B = merge_entries [OF run]
  have fst_es: "map fst es = map fst B" by (simp only: es B(2))
  have covered: "(c, m) \<in> ?occ \<Longrightarrow> \<exists>e. map_get B c = Some e \<and> (change m \<noteq> None \<longrightarrow> snd (snd e) \<noteq> None)" for c m
    using merge_settles [OF run kids, of c m] vis_node_unknown[of c m ?k r n] by (auto simp: settled_def)
  have "set (map fst es) = fst ` ?occ"
  proof (rule set_eqI)
    fix c
    have "c \<in> set (map fst B) \<longleftrightarrow> (\<exists>e. (c, e) \<in> set B)" by force
    also have "\<dots> \<longleftrightarrow> (\<exists>e. map_get B c = Some e)" using B(3) [of c] by blast
    also have "\<dots> \<longleftrightarrow> (\<exists>m. (c, m) \<in> ?occ)" using covered [of c] B(4) [of c] by blast
    finally show "c \<in> set (map fst es) \<longleftrightarrow> c \<in> fst ` ?occ" unfolding fst_es by force
  qed
  moreover have "distinct (map fst es)" using B(1) unfolding fst_es by (simp add: map_ok_def)
  moreover have "\<not> ?k c \<and> (\<exists>m. (c, m) \<in> ?occ \<and> k = kind m \<and> ch = change m) \<and> (ch = None \<longrightarrow> (\<forall>m. (c, m) \<in> ?occ \<longrightarrow> change m = None))"
    if "(c, k, ch) \<in> set es" for c k ch
  proof -
    from that obtain c' where "(c', c, k, ch) \<in> set B" unfolding es by auto
    then have "map_get B c' = Some (c, k, ch)" using B(3) [of c' "(c, k, ch)"] by simp
    with B(4) [of c'] have e: "map_get B c = Some (c, k, ch)" by auto
    from B(4) [OF this] obtain m where "(c, m) \<in> ?occ" "k = kind m" "ch = change m" by auto
    moreover have "change m = None" if "ch = None" "(c, m) \<in> ?occ" for m using covered [OF that(2)] e that(1) by auto
    ultimately show ?thesis using vis_node_unknown[of c _ ?k r n] by blast
  qed
  ultimately show ?thesis by blast
qed

theorem dag_merge_delivers_new_witness:
  "set (map fst [(''R'', Document_change, Some 1), (''X'', Document_change, Some 3), (''P'', Document_change, Some 2), (''Y'', Document_change, Some (4 :: nat))])
     = fst ` vis_node (is_known None {}) ''R'' stub_tree"
proof -
  have run: "mergeRemoteSyncTree (Some ''R'') stub_tree None {} =
      Ok [(''R'', Document_change, Some 1), (''X'', Document_change, Some 3), (''P'', Document_change, Some 2), (''Y'', Document_change, Some 4)]"
    by code_simp
  define F where "F c = (if c = ''R'' then kids_of stub_tree else if c = ''P'' then kids_of (snd (kids_of stub_tree ! 1))
      else kids_of (snd (kids_of (snd (kids_of stub_tree ! 1)) ! 0)))" for c :: string
  have "ks = F c" if "(c, m) \<in> vis_node (is_known None {}) ''R'' stub_tree" "children m = Children ks" for c m ks
  proof -
    have "c = ''R'' \<and> m = stub_tree \<or> below stub_tree c m"
      using that(1) by (auto simp: vis_node_def is_known_def vis_below)
    then show ?thesis
    proof
      assume "below stub_tree c m"
      then show ?thesis using that(2) by (auto simp: stub_tree_def F_def kids_of_def)
    qed (use that(2) in \<open>simp add: F_def kids_of_def\<close>)
  qed
  then have "\<forall>c m m' ks ks'. (c, m) \<in> vis_node (is_known None {}) ''R'' stub_tree \<longrightarrow> (c, m') \<in> vis_node (is_known None {}) ''R'' stub_tree
      \<longrightarrow> children m = Children ks \<longrightarrow> children m' = Children ks' \<longrightarrow> ks = ks'"
    by blast
  from dag_merge_delivers_new [OF run this] show ?thesis by blast
qed

section \<open>Stubs\<close>

text \<open>
  In a tree where a stub of a CID comes before its full node, \<open>collectAllCidsInTree\<close> and
  \<open>treeContainsCid\<close> overlook the descendants of the full node: \<open>Y\<close> is a children key of the tree and the
  merge delivers it with its payload, but neither query sees it.
\<close>

theorem dag_stub_hides_descendants:
  "''Y'' \<in> keys_below stub_tree
   \<and> ''Y'' \<notin> set (collectAllCidsInTree (Some ''R'') (Some stub_tree))
   \<and> \<not> treeContainsCid (Some ''R'') (Some stub_tree) (Some ''Y'')
   \<and> mergeRemoteSyncTree (Some ''R'') stub_tree None {} =
       Ok [(''R'', Document_change, Some 1), (''X'', Document_change, Some 3), (''P'', Document_change, Some 2), (''Y'', Document_change, Some 4)]
   \<and> ''Y'' \<in> set (collectTreeCIDs ''R'' stub_tree)"
proof (intro conjI)
  show "''Y'' \<in> keys_below stub_tree" by (simp add: keys_below_children stub_tree_def)
  show "''Y'' \<notin> set (collectAllCidsInTree (Some ''R'') (Some stub_tree))" by code_simp
  show "\<not> treeContainsCid (Some ''R'') (Some stub_tree) (Some ''Y'')" by code_simp
  show "mergeRemoteSyncTree (Some ''R'') stub_tree None {} =
       Ok [(''R'', Document_change, Some 1), (''X'', Document_change, Some 3), (''P'', Document_change, Some 2), (''Y'', Document_change, Some 4)]"
    by code_simp
  show "''Y'' \<in> set (collectTreeCIDs ''R'' stub_tree)" by code_simp
qed

section \<open>Block collection\<close>

lemma set_fold_set_add [simp]: "set (fold set_add ks cids) = set ks \<union> set cids"
  by (induction ks arbitrary: cids) auto

lemma set_collect_queue: "set (collect_queue q cids) = set cids \<union> (\<Union>n\<in>set q. keys_below n)"
proof (induction q cids rule: collect_queue.induct)
  case (2 n q cids)
  have "fst ` set ks \<union> (\<Union>m\<in>snd ` set ks. keys_below m) = kid_keys ks" for ks :: "'a child_list"
  proof (induction ks)
    case (Cons k ks)
    then show ?case by (cases k) (auto simp flip: Cons.IH)
  qed simp
  then show ?case using 2 by (cases "children n") (auto simp: keys_below_children)
qed simp

lemma set_keep_fold:
  "set (fold (\<lambda>cid out. if P cid then out else if Q cid then out else set_add cid out) cs out) = {c \<in> set cs. \<not> P c \<and> \<not> Q c} \<union> set out"
  by (induction cs arbitrary: out) auto

lemma set_filterDeletableCIDs:
  "set (filterDeletableCIDs cs r n p) = set cs - (case (r, n) of
     (Some c, Some m) \<Rightarrow> if c \<noteq> [] then {c} \<union> keys_below m else {} | _ \<Rightarrow> {}) - set p"
  unfolding filterDeletableCIDs_def Let_def set_keep_fold collectTreeCIDs_def
  by (cases r; cases n) (auto simp: set_collect_queue simp del: collect_queue.simps)

text \<open>
  Claim C7.  Collection never deletes a block that is still needed and never keeps another: the deletable CIDs are exactly
  the candidates that are neither protected nor the root nor a children key anywhere in the retained tree, with no
  assumption on the tree.
\<close>

theorem dag_gc_exact:
  assumes "r \<noteq> []"
  shows "set (filterDeletableCIDs candidates (Some r) (Some n) protectedCIDs) =
      set candidates - ({r} \<union> keys_below n) - set protectedCIDs
    \<and> set (filterDeletableCIDs candidates None (None :: 'c change_node option) protectedCIDs) = set candidates - set protectedCIDs"
  using assms by (simp add: set_filterDeletableCIDs)

theorem dag_gc_exact_witness:
  "set (filterDeletableCIDs [''Y'', ''Z'', ''W''] (Some ''R'') (Some stub_tree) [''W'']) = {''Z''}"
proof -
  have "keys_below stub_tree = {''X'', ''P'', ''Y''}" by (auto simp: keys_below_children stub_tree_def)
  then show ?thesis using dag_gc_exact [of "''R''" "[''Y'', ''Z'', ''W'']" stub_tree "[''W'']"] by auto
qed

section \<open>Recent tips and cross-links\<close>

text \<open>The last \<open>k\<close> elements of a list.\<close>

definition latest :: "nat \<Rightarrow> 'a list \<Rightarrow> 'a list" where
  "latest k xs = drop (length xs - k) xs"

lemma evict_latest: "evict cap xs = latest cap xs"
  by (induction xs) (auto simp: latest_def Suc_diff_le)

lemma latest_append: "k \<le> length ys \<Longrightarrow> latest k (xs @ ys) = latest k ys"
  by (simp add: latest_def)

lemma distinct_latest: "distinct xs \<Longrightarrow> distinct (latest k xs)"
  by (simp add: latest_def)

lemma remove_first_cid_filter:
  "distinct (map tip_cid ts) \<Longrightarrow> map tip_cid (remove_first_cid c ts) = filter (\<lambda>x. x \<noteq> c) (map tip_cid ts)"
proof (induction ts)
  case (Cons t ts)
  have "filter (\<lambda>x. x \<noteq> tip_cid t) (map tip_cid ts) = map tip_cid ts" if "tip_cid t \<notin> tip_cid ` set ts"
    using that by (auto simp: filter_id_conv image_iff)
  then show ?case using Cons by auto
qed simp

lemma latest_move_to_back:
  assumes "distinct L" "0 < k"
  shows "latest k (filter (\<lambda>x. x \<noteq> c) (latest k L) @ [c]) = latest k (filter (\<lambda>x. x \<noteq> c) L @ [c])"
proof -
  define A where "A = take (length L - k) L"
  have L: "L = A @ latest k L" by (simp add: A_def latest_def)
  let ?T = "filter (\<lambda>x. x \<noteq> c) (latest k L) @ [c]"
  have split: "filter (\<lambda>x. x \<noteq> c) L @ [c] = filter (\<lambda>x. x \<noteq> c) A @ ?T" by (subst L) simp
  show ?thesis
  proof (cases "k \<le> length ?T")
    case True
    then show ?thesis unfolding split by (simp only: latest_append)
  next
    case False
    have "filter (\<lambda>x. x \<noteq> c) (latest k L) = removeAll c (latest k L)" by (simp add: removeAll_filter_not_eq eq_commute)
    also have "length \<dots> \<ge> length (latest k L) - 1"
      using assms(1) by (simp add: distinct_remove1_removeAll [symmetric] distinct_latest length_remove1)
    finally have "length (latest k L) < k" using False assms(2) by auto
    then have "A = []" using L by (auto simp: A_def latest_def split: if_splits)
    then show ?thesis unfolding split by simp
  qed
qed

lemma remdups_snoc: "remdups (xs @ [c]) = filter (\<lambda>x. x \<noteq> c) (remdups xs) @ [c]"
  by (induction xs) auto

definition track_all :: "int \<Rightarrow> recent_tip list \<Rightarrow> recent_tip list" where
  "track_all cap entries = fold (\<lambda>e ts. trackTipInList ts e cap) entries []"

lemma track_all_latest:
  assumes "0 < cap" "\<forall>e\<in>set es. tip_cid e \<noteq> []"
  shows "map tip_cid (track_all cap es) = latest (nat cap) (remdups (map tip_cid es))"
  using assms(2)
proof (induction es rule: rev_induct)
  case Nil
  then show ?case by (simp add: track_all_def latest_def)
next
  case (snoc e es)
  let ?ts = "track_all cap es" and ?R = "remdups (map tip_cid es)"
  have IH: "map tip_cid ?ts = latest (nat cap) ?R" using snoc by simp
  have "map tip_cid (track_all cap (es @ [e])) = latest (nat cap) (map tip_cid (remove_first_cid (tip_cid e) ?ts @ [e]))"
    using assms(1) snoc.prems by (simp add: track_all_def trackTipInList_def Let_def evict_latest latest_def drop_map)
  also have "\<dots> = latest (nat cap) (filter (\<lambda>x. x \<noteq> tip_cid e) (latest (nat cap) ?R) @ [tip_cid e])"
    using IH by (simp add: remove_first_cid_filter distinct_latest)
  also have "\<dots> = latest (nat cap) (remdups (map tip_cid (es @ [e])))"
    using assms(1) by (simp add: latest_move_to_back remdups_snoc)
  finally show ?case .
qed

lemma select_loop_take:
  assumes "distinct (map tip_cid ts)" "tip_cid ` set ts \<inter> set seen = {}" "int (length out) \<le> k"
  shows "select_loop ts p c k out seen =
    out @ take (nat k - length out) (filter (\<lambda>t. Some (tip_cid t) \<noteq> p \<and> tip_cid t \<noteq> c) ts)"
  using assms by (induction ts p c k out seen rule: select_loop.induct) (auto simp: take_Cons' nat_le_iff set_add_def)

text \<open>
  For every history of tracked tips, the recent-tip list holds exactly the \<open>cap\<close> most recently tracked distinct
  CIDs, oldest first; the cross-links of a new change are the newest of them, at most \<open>maxCrossLinks\<close>, without the primary parent and
  the change itself.
\<close>

theorem dag_cross_links_most_recent:
  assumes "0 < cap" "\<forall>e\<in>set es. tip_cid e \<noteq> []" "0 \<le> maxLinks"
  shows "map tip_cid (track_all cap es) = latest (nat cap) (remdups (map tip_cid es))
    \<and> selectCrossLinks (track_all cap es) parentId newCid maxLinks =
        take (nat maxLinks) (filter (\<lambda>t. Some (tip_cid t) \<noteq> parentId \<and> tip_cid t \<noteq> newCid) (rev (track_all cap es)))"
proof -
  have tips: "map tip_cid (track_all cap es) = latest (nat cap) (remdups (map tip_cid es))"
    using assms(1,2) by (rule track_all_latest)
  then have "distinct (map tip_cid (track_all cap es))" by (simp add: distinct_latest)
  then show ?thesis using tips assms(3) by (simp add: selectCrossLinks_def select_loop_take rev_map [symmetric])
qed

theorem dag_cross_links_most_recent_witness:
  "selectCrossLinks (track_all 4 (map (\<lambda>c. \<lparr>tip_cid = c, tip_kind = Document_change\<rparr>) [''a'', ''b'', ''a'', ''c'', ''d'', ''e''])) (Some ''e'') ''f'' 3
     = map (\<lambda>c. \<lparr>tip_cid = c, tip_kind = Document_change\<rparr>) [''d'', ''c'', ''a'']"
proof -
  let ?es = "map (\<lambda>c. \<lparr>tip_cid = c, tip_kind = Document_change\<rparr>) [''a'', ''b'', ''a'', ''c'', ''d'', ''e'']"
  have "track_all 4 ?es = map (\<lambda>c. \<lparr>tip_cid = c, tip_kind = Document_change\<rparr>) [''a'', ''c'', ''d'', ''e'']" by code_simp
  then show ?thesis using dag_cross_links_most_recent [of 4 ?es 3 "Some ''e''" "''f''"] by simp
qed

end
