(* ===== verification/DagJson.thy ===== *)
theory DagJson
  imports ChangeDag
begin

text \<open>
  The JSON form of a sync tree: \<^verbatim>\<open>packages/collabswarm/src/merkle-dag-serialization.ts\<close>.  A JSON value is a datatype;
  an object is the list of its entries, and a field that is \<^verbatim>\<open>undefined\<close> in the source is absent.  The leaf encoder and decoder of a
  provider are arguments; the decoder may throw.
\<close>

section \<open>Values\<close>

datatype json = JNull | JBool bool | JNumber jsnum | JString string | JArray "json list" | JObject "(string \<times> json) list"

type_synonym json_fields = "(string \<times> json) list"

definition field :: "json_fields \<Rightarrow> string \<Rightarrow> json option" where
  "field fs key = map_of fs key"

definition fields_size :: "json_fields \<Rightarrow> nat" where
  "fields_size = size_list (size_prod (\<lambda>_. 0) size)"

lemma fields_size_simps [simp]:
  "fields_size [] = 0"
  "fields_size ((k, v) # fs) = Suc (Suc (size v + fields_size fs))"
  "size (JObject fs) = Suc (fields_size fs)"
  by (simp_all add: fields_size_def)

lemma field_size: "field fs key = Some v \<Longrightarrow> size v < fields_size fs"
  by (induction fs) (auto simp: field_def split: if_splits)

section \<open>Kinds and diagnostics\<close>

definition kind_name :: "change_kind \<Rightarrow> string" where
  "kind_name k = (case k of Document_change \<Rightarrow> ''document'' | Writer_change \<Rightarrow> ''writer'' | Reader_change \<Rightarrow> ''reader'')"

definition isValidChangeNodeKind :: "json option \<Rightarrow> change_kind option" where
  "isValidChangeNodeKind value = (case value of
     Some (JString s) \<Rightarrow> if s = ''document'' then Some Document_change else if s = ''writer'' then Some Writer_change
       else if s = ''reader'' then Some Reader_change else None
   | _ \<Rightarrow> None)"

definition describeValue :: "json option \<Rightarrow> string" where
  "describeValue value = (case value of
     None \<Rightarrow> ''undefined'' | Some JNull \<Rightarrow> ''null'' | Some (JArray _) \<Rightarrow> ''array'' | Some (JBool _) \<Rightarrow> ''boolean''
   | Some (JNumber _) \<Rightarrow> ''number'' | Some (JString _) \<Rightarrow> ''string'' | Some (JObject _) \<Rightarrow> ''object'')"

datatype 'e wire_error =
    Node_not_object string
  | Invalid_kind "json option"
  | Invalid_keyID string
  | Leaf_error 'e
  | Children_not_object
  | Child_not_object string string

section \<open>Encoding\<close>

definition wire_node :: "string option \<Rightarrow> change_kind \<Rightarrow> json option \<Rightarrow> json option \<Rightarrow> json" where
  "wire_node keyID k ch kids = JObject
     ((case keyID of Some i \<Rightarrow> [(''keyID'', JString i)] | None \<Rightarrow> []) @ [(''kind'', JString (kind_name k))]
      @ (case ch of Some c \<Rightarrow> [(''change'', c)] | None \<Rightarrow> []) @ (case kids of Some j \<Rightarrow> [(''children'', j)] | None \<Rightarrow> []))"

fun serializeChangeNodeForJSON :: "('c \<Rightarrow> json) \<Rightarrow> 'c change_node \<Rightarrow> json"
  and serialize_children :: "('c \<Rightarrow> json) \<Rightarrow> 'c child_list \<Rightarrow> json_fields \<Rightarrow> json_fields" where
  "serializeChangeNodeForJSON encodeLeaf (Change_node keyID k ch (Children kids)) =
     wire_node keyID k (map_option encodeLeaf ch) (Some (JObject (serialize_children encodeLeaf kids [])))"
| "serializeChangeNodeForJSON encodeLeaf (Change_node keyID k ch Deferred) =
     wire_node keyID k (map_option encodeLeaf ch) (Some (JBool False))"
| "serializeChangeNodeForJSON encodeLeaf (Change_node keyID k ch No_children) =
     wire_node keyID k (map_option encodeLeaf ch) None"
| "serialize_children encodeLeaf [] obj = obj"
| "serialize_children encodeLeaf ((hash, child) # kids) obj =
     serialize_children encodeLeaf kids (map_set hash (serializeChangeNodeForJSON encodeLeaf child) obj)"

section \<open>Decoding\<close>

definition wire_keyID :: "json option \<Rightarrow> 'e wire_error + string option" where
  "wire_keyID v = (case v of
     None \<Rightarrow> Ok None | Some (JString i) \<Rightarrow> Ok (Some i) | _ \<Rightarrow> Err (Invalid_keyID (describeValue v)))"

definition wire_change :: "(json \<Rightarrow> 'e + 'c) \<Rightarrow> json option \<Rightarrow> 'e wire_error + 'c option" where
  "wire_change decodeLeaf v = (case v of
     None \<Rightarrow> Ok None
   | Some c \<Rightarrow> (case decodeLeaf c of Inl e \<Rightarrow> Err (Leaf_error e) | Inr ch \<Rightarrow> Ok (Some ch)))"

function deserializeChangeNodeFromJSON :: "(json \<Rightarrow> 'e + 'c) \<Rightarrow> json \<Rightarrow> 'e wire_error + 'c change_node"
  and deserialize_children ::
    "(json \<Rightarrow> 'e + 'c) \<Rightarrow> json_fields \<Rightarrow> 'c child_list \<Rightarrow> 'e wire_error + 'c child_list" where
  "deserializeChangeNodeFromJSON decodeLeaf node = (case node of
     JObject fs \<Rightarrow>
       (case isValidChangeNodeKind (field fs ''kind'') of
          None \<Rightarrow> Err (Invalid_kind (field fs ''kind''))
        | Some k \<Rightarrow>
            try_bind (wire_keyID (field fs ''keyID'')) (\<lambda>keyID.
            try_bind (wire_change decodeLeaf (field fs ''change'')) (\<lambda>ch.
              case field fs ''children'' of
                None \<Rightarrow> Ok (Change_node keyID k ch No_children)
              | Some (JBool False) \<Rightarrow> Ok (Change_node keyID k ch Deferred)
              | Some (JObject kids) \<Rightarrow>
                  try_bind (deserialize_children decodeLeaf kids []) (\<lambda>ks. Ok (Change_node keyID k ch (Children ks)))
              | _ \<Rightarrow> Err Children_not_object)))
   | _ \<Rightarrow> Err (Node_not_object (describeValue (Some node))))"
| "deserialize_children decodeLeaf [] obj = Ok obj"
| "deserialize_children decodeLeaf ((hash, child) # kids) obj = (case child of
     JObject _ \<Rightarrow> try_bind (deserializeChangeNodeFromJSON decodeLeaf child)
       (\<lambda>n. deserialize_children decodeLeaf kids (map_set hash n obj))
   | _ \<Rightarrow> Err (Child_not_object hash (describeValue (Some child))))"
  by pat_completeness auto
termination
  by (relation "measure (\<lambda>x. case x of Inl (_, j) \<Rightarrow> size j | Inr (_, fs, _) \<Rightarrow> fields_size fs)")
    (auto dest!: field_size simp: fields_size_def)

section \<open>Round trip\<close>

text \<open>A JavaScript object has one entry per key, at every level of the tree.\<close>

fun keys_unique :: "'c change_node \<Rightarrow> bool" and all_unique :: "'c child_list \<Rightarrow> bool" where
  "keys_unique (Change_node keyID k ch (Children kids)) \<longleftrightarrow> distinct (map fst kids) \<and> all_unique kids"
| "keys_unique (Change_node keyID k ch Deferred) \<longleftrightarrow> True"
| "keys_unique (Change_node keyID k ch No_children) \<longleftrightarrow> True"
| "all_unique [] \<longleftrightarrow> True"
| "all_unique ((c, n) # kids) \<longleftrightarrow> keys_unique n \<and> all_unique kids"

lemma serialize_children_distinct:
  "distinct (map fst obj @ map fst kids)
    \<Longrightarrow> serialize_children enc kids obj = obj @ map (\<lambda>(c, n). (c, serializeChangeNodeForJSON enc n)) kids"
  by (induction kids arbitrary: obj) (auto simp: map_set_fresh)

lemma wire_node_fields:
  "\<exists>fs. wire_node keyID k ch kids = JObject fs \<and> field fs ''kind'' = Some (JString (kind_name k))
     \<and> field fs ''keyID'' = map_option JString keyID \<and> field fs ''change'' = ch \<and> field fs ''children'' = kids"
  by (auto simp: wire_node_def field_def split: option.splits)

lemma isValidChangeNodeKind_name [simp]: "isValidChangeNodeKind (Some (JString (kind_name k))) = Some k"
  by (cases k) (simp_all add: isValidChangeNodeKind_def kind_name_def)

lemma serialized_is_object: "\<exists>fs. serializeChangeNodeForJSON enc n = JObject fs"
  by (cases "(enc, n)" rule: serializeChangeNodeForJSON.cases) (simp_all add: wire_node_def)

text \<open>What the decoder does with an encoded node, the children given.\<close>

lemma deserialize_wire_node:
  fixes dec :: "json \<Rightarrow> 'e + 'c"
  assumes "\<And>c. dec (enc c) = Ok c"
  shows "deserializeChangeNodeFromJSON dec (wire_node keyID k (map_option enc ch) kids) =
    (case kids of None \<Rightarrow> Ok (Change_node keyID k ch No_children)
     | Some (JBool False) \<Rightarrow> Ok (Change_node keyID k ch Deferred)
     | Some (JObject fs) \<Rightarrow> try_bind (deserialize_children dec fs []) (\<lambda>ks. Ok (Change_node keyID k ch (Children ks)))
     | _ \<Rightarrow> Err Children_not_object)"
proof -
  obtain fs where fs: "wire_node keyID k (map_option enc ch) kids = JObject fs" "field fs ''kind'' = Some (JString (kind_name k))"
    "field fs ''keyID'' = map_option JString keyID" "field fs ''change'' = map_option enc ch" "field fs ''children'' = kids"
    using wire_node_fields by blast
  have "wire_keyID (field fs ''keyID'') = (Ok keyID :: 'e wire_error + string option)" by (cases keyID) (simp_all add: fs wire_keyID_def)
  moreover have "wire_change dec (field fs ''change'') = Ok ch" by (cases ch) (simp_all add: fs assms wire_change_def)
  ultimately show ?thesis unfolding fs(1) by (simp add: fs(2,5))
qed

lemma deserialize_children_serialized:
  assumes "\<And>c n. (c, n) \<in> set kids \<Longrightarrow> deserializeChangeNodeFromJSON dec (serializeChangeNodeForJSON enc n) = Ok n"
    and "distinct (map fst obj @ map fst kids)"
  shows "deserialize_children dec (map (\<lambda>(c, n). (c, serializeChangeNodeForJSON enc n)) kids) obj = Ok (obj @ kids)"
  using assms
proof (induction kids arbitrary: obj)
  case (Cons e kids)
  obtain c n where e: "e = (c, n)" by (cases e)
  obtain fs where fs: "serializeChangeNodeForJSON enc n = JObject fs" using serialized_is_object by blast
  have "deserializeChangeNodeFromJSON dec (JObject fs) = Ok n" using Cons.prems(1)[of c n] e fs by simp
  moreover have "deserialize_children dec (map (\<lambda>(c, n). (c, serializeChangeNodeForJSON enc n)) kids) (obj @ [(c, n)]) = Ok ((obj @ [(c, n)]) @ kids)"
    using Cons.prems e by (intro Cons.IH) auto
  moreover have "map_set c n obj = obj @ [(c, n)]" using Cons.prems(2) e by (intro map_set_fresh) auto
  ultimately show ?case using e fs by (simp del: deserializeChangeNodeFromJSON.simps)
qed simp

lemma deserialize_serialize:
  assumes "\<And>c. dec (enc c) = Ok c"
  shows "keys_unique n \<Longrightarrow> deserializeChangeNodeFromJSON dec (serializeChangeNodeForJSON enc n) = Ok n"
    and "all_unique kids \<Longrightarrow> \<forall>(c, n)\<in>set kids. deserializeChangeNodeFromJSON dec (serializeChangeNodeForJSON enc n) = Ok n"
proof (induction n and kids rule: keys_unique_all_unique.induct)
  case (1 keyID k ch kids)
  then have "deserialize_children dec (serialize_children enc kids []) [] = Ok kids"
    using deserialize_children_serialized[of kids dec enc "[]"] serialize_children_distinct[of "[]" kids enc] by fastforce
  then show ?case by (simp add: deserialize_wire_node [where dec = dec and enc = enc, OF assms] del: deserializeChangeNodeFromJSON.simps)
qed (auto simp: deserialize_wire_node [where dec = dec and enc = enc, OF assms] simp del: deserializeChangeNodeFromJSON.simps)

text \<open>Decoded trees have one entry per key, whatever the input.\<close>

lemma deserialize_OkE:
  fixes dec :: "json \<Rightarrow> 'e + 'c"
  assumes "deserializeChangeNodeFromJSON dec j = Ok n"
  obtains fs where "j = JObject fs"
    "isValidChangeNodeKind (field fs ''kind'') = Some (kind n)"
    "wire_keyID (field fs ''keyID'') = (Ok (node_keyID n) :: 'e wire_error + string option)"
    "children n = No_children \<or> children n = Deferred
     \<or> (\<exists>kids ks. field fs ''children'' = Some (JObject kids) \<and> deserialize_children dec kids [] = Ok ks \<and> children n = Children ks)"
proof -
  obtain fs where j: "j = JObject fs" using assms by (cases j) auto
  from assms obtain k where k: "isValidChangeNodeKind (field fs ''kind'') = Some k"
    unfolding j by (cases "isValidChangeNodeKind (field fs ''kind'')") auto
  from assms obtain keyID where i: "wire_keyID (field fs ''keyID'') = (Ok keyID :: 'e wire_error + string option)"
    unfolding j by (cases "wire_keyID (field fs ''keyID'') :: 'e wire_error + string option") (auto simp: k)
  from assms obtain ch where ch: "wire_change dec (field fs ''change'') = Ok ch"
    unfolding j by (cases "wire_change dec (field fs ''change'')") (auto simp: k i)
  show ?thesis
  proof (rule that [OF j])
    show "isValidChangeNodeKind (field fs ''kind'') = Some (kind n)"
      "wire_keyID (field fs ''keyID'') = (Ok (node_keyID n) :: 'e wire_error + string option)"
      "children n = No_children \<or> children n = Deferred
       \<or> (\<exists>kids ks. field fs ''children'' = Some (JObject kids) \<and> deserialize_children dec kids [] = Ok ks \<and> children n = Children ks)"
      using assms unfolding j by (auto simp: k i ch try_bind_Ok_iff split: option.splits json.splits bool.splits)
  qed
qed

lemma keys_unique_children:
  "keys_unique n \<longleftrightarrow> (\<forall>ks. children n = Children ks \<longrightarrow> map_ok ks \<and> all_unique ks)"
  by (cases n rule: keys_unique.cases) (auto simp: map_ok_def)

lemma all_unique_set: "all_unique kids \<longleftrightarrow> (\<forall>(c, n)\<in>set kids. keys_unique n)"
  by (induction kids) auto

lemma fields_size_member: "(h, j) \<in> set fs \<Longrightarrow> size j < fields_size fs"
  by (induction fs) auto

lemma deserialize_children_unique:
  assumes "\<And>h j n. (h, j) \<in> set fs \<Longrightarrow> deserializeChangeNodeFromJSON dec j = Ok n \<Longrightarrow> keys_unique n"
    and "deserialize_children dec fs obj = Ok kids" "map_ok obj" "all_unique obj"
  shows "map_ok kids \<and> all_unique kids"
  using assms
proof (induction fs arbitrary: obj)
  case (Cons f fs)
  obtain h j where f: "f = (h, j)" by (cases f)
  with Cons.prems(2) obtain n where n: "deserializeChangeNodeFromJSON dec j = Ok n" "deserialize_children dec fs (map_set h n obj) = Ok kids"
    by (cases j) (auto simp: try_bind_Ok_iff simp del: deserializeChangeNodeFromJSON.simps)
  have "keys_unique n" using Cons.prems(1)[of h j n] f n(1) by simp
  moreover have "set (map_set h n obj) \<subseteq> insert (h, n) (set obj)" by (induction obj) (auto simp: map_set_def)
  ultimately have "all_unique (map_set h n obj)" using Cons.prems(4) by (auto simp: all_unique_set)
  then show ?case using Cons.IH [OF _ n(2)] Cons.prems(1,3) by (auto simp: js_map)
qed simp

lemma deserialized_unique: "deserializeChangeNodeFromJSON dec j = Ok n \<Longrightarrow> keys_unique n"
proof (induction j arbitrary: n rule: measure_induct_rule [of size])
  case (less j)
  from less.prems show ?case
  proof (rule deserialize_OkE)
    fix fs
    assume j: "j = JObject fs" and kids: "children n = No_children \<or> children n = Deferred
     \<or> (\<exists>kids ks. field fs ''children'' = Some (JObject kids) \<and> deserialize_children dec kids [] = Ok ks \<and> children n = Children ks)"
    show "keys_unique n" unfolding keys_unique_children
    proof (intro allI impI)
      fix ks assume ks: "children n = Children ks"
      then obtain kids where k: "field fs ''children'' = Some (JObject kids)" "deserialize_children dec kids [] = Ok ks" using kids by auto
      have "keys_unique m" if "(h, v) \<in> set kids" "deserializeChangeNodeFromJSON dec v = Ok m" for h v m
        using less.IH[of v m] that fields_size_member[OF that(1)] field_size[OF k(1)] j
        by (simp add: fields_size_def del: deserializeChangeNodeFromJSON.simps)
      then show "map_ok ks \<and> all_unique ks" using k(2) by (rule deserialize_children_unique) (simp_all add: map_ok_def)
    qed
  qed
qed

text \<open>
  With a leaf decoder that inverts the leaf encoder, decoding an encoded tree gives the tree back.  Every
  accepted wire message, whatever extra or repeated fields it has, decodes to a tree with one entry per children key, which survives a
  further round trip unchanged.
\<close>

theorem dag_json_round_trip:
  assumes "\<And>c. dec (enc c) = Ok c"
  shows "(keys_unique n \<longrightarrow> deserializeChangeNodeFromJSON dec (serializeChangeNodeForJSON enc n) = Ok n)
    \<and> (deserializeChangeNodeFromJSON dec j = Ok m \<longrightarrow>
        keys_unique m \<and> deserializeChangeNodeFromJSON dec (serializeChangeNodeForJSON enc m) = Ok m)"
  using deserialize_serialize(1)[where dec = dec and enc = enc, OF assms] deserialized_unique by blast

definition text_leaf :: "json \<Rightarrow> unit + string" where
  "text_leaf j = (case j of JString s \<Rightarrow> Ok s | _ \<Rightarrow> Err ())"

definition text_node :: "string change_node" where
  "text_node = Change_node (Some ''k1'') Document_change (Some ''hi'')
     (Children [(''a'', Change_node None Writer_change None Deferred), (''b'', Change_node None Reader_change (Some ''yo'') No_children)])"

theorem dag_json_round_trip_witness:
  "deserializeChangeNodeFromJSON text_leaf (serializeChangeNodeForJSON JString text_node) = Ok text_node
   \<and> deserializeChangeNodeFromJSON text_leaf (JObject [(''kind'', JString ''owner'')]) = Err (Invalid_kind (Some (JString ''owner'')))"
proof
  have "keys_unique text_node" by (simp add: text_node_def)
  then show "deserializeChangeNodeFromJSON text_leaf (serializeChangeNodeForJSON JString text_node) = Ok text_node"
    using dag_json_round_trip [of text_leaf JString text_node] by (simp add: text_leaf_def)
  show "deserializeChangeNodeFromJSON text_leaf (JObject [(''kind'', JString ''owner'')]) = Err (Invalid_kind (Some (JString ''owner'')))"
    by (simp add: field_def isValidChangeNodeKind_def)
qed

end
