(* ===== verification/Ucan.thy ===== *)
theory Ucan
  imports DagJson
begin

text \<open>
  Capabilities and delegation tokens: \<^verbatim>\<open>packages/collabswarm/src/capabilities.ts\<close> and \<^verbatim>\<open>ucan.ts\<close>.  The key resolver of the
  caller, WebCrypto, the text codecs (\<^verbatim>\<open>JSON.stringify\<close> with \<^verbatim>\<open>TextEncoder\<close>, \<^verbatim>\<open>JSON.parse\<close> with \<^verbatim>\<open>TextDecoder\<close>, \<^verbatim>\<open>btoa\<close>, \<^verbatim>\<open>atob\<close>)
  and the clock are the fields of \<open>ucan_env\<close>; a call that throws returns \<open>Err\<close>.  The clock gives the value of
  \<^verbatim>\<open>Date.now()\<close> at its n-th reading.
\<close>

section \<open>Capabilities\<close>

definition CAP_DOC_ADMIN :: string where "CAP_DOC_ADMIN = ''/doc/admin''"
definition CAP_DOC_WRITE :: string where "CAP_DOC_WRITE = ''/doc/write''"
definition CAP_DOC_READ :: string where "CAP_DOC_READ = ''/doc/read''"
definition CAP_DOC_HISTORY :: string where "CAP_DOC_HISTORY = ''/doc/history''"

definition CAPABILITY_HIERARCHY :: "string list" where
  "CAPABILITY_HIERARCHY = [CAP_DOC_ADMIN, CAP_DOC_WRITE, CAP_DOC_READ]"

definition NON_HIERARCHICAL_CAPABILITIES :: "string list" where
  "NON_HIERARCHICAL_CAPABILITIES = [CAP_DOC_HISTORY]"

fun index_from :: "nat \<Rightarrow> 'a list \<Rightarrow> 'a \<Rightarrow> int" where
  "index_from i [] x = - 1"
| "index_from i (y # ys) x = (if y = x then int i else index_from (Suc i) ys x)"

definition capabilityImplies :: "string \<Rightarrow> string \<Rightarrow> bool" where
  "capabilityImplies held required =
     (let heldIndex = index_from 0 CAPABILITY_HIERARCHY held;
          requiredIndex = index_from 0 CAPABILITY_HIERARCHY required
      in if heldIndex = - 1 \<or> requiredIndex = - 1 then held = required else heldIndex \<le> requiredIndex)"

definition field_marker :: string where "field_marker = ''/field/''"

fun isFieldCapability :: "string \<Rightarrow> bool" where
  "isFieldCapability [] = False"
| "isFieldCapability (c # cs) = (take 7 (c # cs) = field_marker \<or> isFieldCapability cs)"

definition line_terminator :: "char \<Rightarrow> bool" where
  "line_terminator c \<longleftrightarrow> of_char c = (10 :: nat) \<or> of_char c = (13 :: nat)"

text \<open>The leftmost match of \<^verbatim>\<open>/\/field\/(.+)$/\<close>: a dot matches no line terminator.\<close>

fun getFieldPath :: "string \<Rightarrow> string option" where
  "getFieldPath [] = None"
| "getFieldPath (c # cs) =
     (if take 7 (c # cs) = field_marker \<and> drop 7 (c # cs) \<noteq> [] \<and> \<not> list_ex line_terminator (drop 7 (c # cs))
      then Some (drop 7 (c # cs)) else getFieldPath cs)"

section \<open>Tokens\<close>

record ucan_capability =
  resource :: string
  ability :: string

record ucan =
  u_version :: string
  u_issuer :: string
  u_audience :: string
  u_capabilities :: "ucan_capability list"
  u_expiration :: "rat option"
  u_notBefore :: "rat option"
  u_nonce :: string
  u_proofs :: "string list"
  u_signature :: string

datatype ucan_exn = Text_rejected | Not_a_ucan | Key_rejected | Crypto_failed

record ('k, 'sk) ucan_env =
  resolvePublicKey :: "string \<Rightarrow> ucan_exn + 'k"
  subtleSign :: "'sk \<Rightarrow> bytes \<Rightarrow> ucan_exn + bytes"
  subtleVerify :: "'k \<Rightarrow> bytes \<Rightarrow> bytes \<Rightarrow> ucan_exn + bool"
  exportKeyRaw :: "'k \<Rightarrow> ucan_exn + bytes"
  encodeText :: "json \<Rightarrow> bytes"
  parseText :: "bytes \<Rightarrow> ucan_exn + json"
  btoa :: "bytes \<Rightarrow> string"
  atob :: "string \<Rightarrow> ucan_exn + bytes"
  clock :: "nat \<Rightarrow> int"

section \<open>Serialization\<close>

definition json_of_capability :: "ucan_capability \<Rightarrow> json" where
  "json_of_capability c = JObject [(''resource'', JString (resource c)), (''ability'', JString (ability c))]"

definition json_of_time :: "rat option \<Rightarrow> json" where
  "json_of_time t = (case t of None \<Rightarrow> json.JNull | Some s \<Rightarrow> json.JNumber (Fin s))"

definition canonicalPayloadString :: "ucan \<Rightarrow> json" where
  "canonicalPayloadString payload = JObject
     [(''version'', JString (u_version payload)), (''audience'', JString (u_audience payload)),
      (''capabilities'', JArray (map json_of_capability (u_capabilities payload))),
      (''expiration'', json_of_time (u_expiration payload)), (''issuer'', JString (u_issuer payload)),
      (''nonce'', JString (u_nonce payload)), (''notBefore'', json_of_time (u_notBefore payload)),
      (''proofs'', JArray (map JString (u_proofs payload)))]"

definition deterministicStringify :: "ucan \<Rightarrow> json" where
  "deterministicStringify u = JObject
     [(''version'', JString (u_version u)), (''audience'', JString (u_audience u)),
      (''capabilities'', JArray (map json_of_capability (u_capabilities u))),
      (''expiration'', json_of_time (u_expiration u)), (''issuer'', JString (u_issuer u)),
      (''nonce'', JString (u_nonce u)), (''notBefore'', json_of_time (u_notBefore u)),
      (''proofs'', JArray (map JString (u_proofs u))), (''signature'', JString (u_signature u))]"

definition serializeUCAN :: "('k, 'sk) ucan_env \<Rightarrow> ucan \<Rightarrow> string" where
  "serializeUCAN E u = btoa E (encodeText E (deterministicStringify u))"

text \<open>
  \<^verbatim>\<open>deserializeUCAN\<close> casts the parsed value to the interface; a value that does not have the fields of the
  interface is the exception \<open>Not_a_ucan\<close> here.
\<close>

definition json_text :: "json option \<Rightarrow> ucan_exn + string" where
  "json_text j = (case j of Some (JString s) \<Rightarrow> Ok s | _ \<Rightarrow> Err Not_a_ucan)"

definition json_list :: "json option \<Rightarrow> ucan_exn + json list" where
  "json_list j = (case j of Some (JArray js) \<Rightarrow> Ok js | _ \<Rightarrow> Err Not_a_ucan)"

definition json_time :: "json option \<Rightarrow> ucan_exn + rat option" where
  "json_time j = (case j of Some json.JNull \<Rightarrow> Ok None | Some (json.JNumber (Fin s)) \<Rightarrow> Ok (Some s) | _ \<Rightarrow> Err Not_a_ucan)"

fun map_try :: "('a \<Rightarrow> 'e + 'b) \<Rightarrow> 'a list \<Rightarrow> 'e + 'b list" where
  "map_try f [] = Ok []"
| "map_try f (x # xs) = try_bind (f x) (\<lambda>y. try_bind (map_try f xs) (\<lambda>ys. Ok (y # ys)))"

definition json_capability :: "json \<Rightarrow> ucan_exn + ucan_capability" where
  "json_capability j = (case j of
     JObject fs \<Rightarrow> try_bind (json_text (field fs ''resource'')) (\<lambda>r. try_bind (json_text (field fs ''ability''))
       (\<lambda>a. Ok \<lparr>resource = r, ability = a\<rparr>))
   | _ \<Rightarrow> Err Not_a_ucan)"

definition ucan_of_json :: "json \<Rightarrow> ucan_exn + ucan" where
  "ucan_of_json j = (case j of
     JObject fs \<Rightarrow>
       try_bind (json_text (field fs ''version'')) (\<lambda>v.
       try_bind (json_text (field fs ''issuer'')) (\<lambda>i.
       try_bind (json_text (field fs ''audience'')) (\<lambda>a.
       try_bind (json_list (field fs ''capabilities'')) (\<lambda>cs. try_bind (map_try json_capability cs) (\<lambda>caps.
       try_bind (json_time (field fs ''expiration'')) (\<lambda>e.
       try_bind (json_time (field fs ''notBefore'')) (\<lambda>b.
       try_bind (json_text (field fs ''nonce'')) (\<lambda>n.
       try_bind (json_list (field fs ''proofs'')) (\<lambda>ps. try_bind (map_try (\<lambda>p. json_text (Some p)) ps) (\<lambda>prfs.
       try_bind (json_text (field fs ''signature'')) (\<lambda>s.
         Ok \<lparr>u_version = v, u_issuer = i, u_audience = a, u_capabilities = caps, u_expiration = e, u_notBefore = b,
             u_nonce = n, u_proofs = prfs, u_signature = s\<rparr>)))))))))))
   | _ \<Rightarrow> Err Not_a_ucan)"

definition deserializeUCAN :: "('k, 'sk) ucan_env \<Rightarrow> string \<Rightarrow> ucan_exn + ucan" where
  "deserializeUCAN E encoded = try_bind (atob E encoded) (\<lambda>b. try_bind (parseText E b) ucan_of_json)"

section \<open>Signing\<close>

definition generateNonce :: "bytes \<Rightarrow> string" where
  "generateNonce random = hex_of_bytes random"

definition createUCAN ::
  "('k, 'sk) ucan_env \<Rightarrow> 'sk \<Rightarrow> string \<Rightarrow> string \<Rightarrow> ucan_capability list \<Rightarrow> string list \<Rightarrow> rat option \<Rightarrow> rat option
     \<Rightarrow> bytes \<Rightarrow> ucan_exn + ucan" where
  "createUCAN E issuerPrivateKey issuerPublicKeyBase64 audiencePublicKeyBase64 capabilities proofs expiration notBefore random =
     (let payload = \<lparr>u_version = ''0.1.0'', u_issuer = issuerPublicKeyBase64, u_audience = audiencePublicKeyBase64,
          u_capabilities = capabilities, u_expiration = expiration, u_notBefore = notBefore,
          u_nonce = generateNonce random, u_proofs = proofs, u_signature = []\<rparr>
      in try_bind (subtleSign E issuerPrivateKey (encodeText E (canonicalPayloadString payload)))
           (\<lambda>signatureBytes. Ok (payload\<lparr>u_signature := btoa E signatureBytes\<rparr>)))"

definition verifyUCANSignature :: "('k, 'sk) ucan_env \<Rightarrow> ucan \<Rightarrow> 'k \<Rightarrow> ucan_exn + bool" where
  "verifyUCANSignature E u issuerPublicKey =
     try_bind (atob E (u_signature u)) (\<lambda>signatureBytes.
       subtleVerify E issuerPublicKey signatureBytes (encodeText E (canonicalPayloadString u)))"

definition arraysEqual :: "bytes \<Rightarrow> bytes \<Rightarrow> bool" where
  "arraysEqual a b = (if length a \<noteq> length b then False else list_all (\<lambda>i. a ! i = b ! i) [0 ..< length a])"

section \<open>Chain validation\<close>

datatype ucan_error =
    Depth_exceeded | Circular_delegation | Expired | Not_yet_valid | Bad_signature | Root_not_creator
  | Audience_mismatch | Not_authorized string string

datatype verdict = Valid | Rejected ucan_error

text \<open>The shared \<^verbatim>\<open>visited\<close> set and the number of clock readings so far.\<close>

type_synonym ucan_state = "string list \<times> nat"

text \<open>\<^verbatim>\<open>Date.now() / 1000\<close> in seconds; the clock is read only when the bound is not null.\<close>

definition seconds :: "('k, 'sk) ucan_env \<Rightarrow> nat \<Rightarrow> rat" where
  "seconds E i = of_int (clock E i) / 1000"

definition check_times :: "('k, 'sk) ucan_env \<Rightarrow> ucan \<Rightarrow> nat \<Rightarrow> ucan_error option \<times> nat" where
  "check_times E u t =
     (let t' = (if u_expiration u = None then t else Suc t);
          t'' = (if u_notBefore u = None then t' else Suc t')
      in case u_expiration u of
           Some e \<Rightarrow> if seconds E t > e then (Some Expired, t')
             else (case u_notBefore u of Some b \<Rightarrow> if seconds E t' < b then (Some Not_yet_valid, t'') else (None, t'') | None \<Rightarrow> (None, t''))
         | None \<Rightarrow> (case u_notBefore u of Some b \<Rightarrow> if seconds E t' < b then (Some Not_yet_valid, t'') else (None, t'') | None \<Rightarrow> (None, t'')))"

definition proof_has_cap :: "ucan \<Rightarrow> ucan_capability \<Rightarrow> bool" where
  "proof_has_cap prf cap \<longleftrightarrow>
     list_ex (\<lambda>proofCap. resource proofCap = resource cap \<and> capabilityImplies (ability proofCap) (ability cap)) (u_capabilities prf)"

definition issued_by_root :: "('k, 'sk) ucan_env \<Rightarrow> 'k \<Rightarrow> 'k \<Rightarrow> ucan_exn + bool" where
  "issued_by_root E rootPublicKey issuerKey =
     try_bind (exportKeyRaw E rootPublicKey) (\<lambda>rootKeyBytes. try_bind (exportKeyRaw E issuerKey)
       (\<lambda>issuerKeyBytes. Ok (arraysEqual rootKeyBytes issuerKeyBytes)))"

function validateUCANChain ::
    "('k, 'sk) ucan_env \<Rightarrow> 'k \<Rightarrow> ucan \<Rightarrow> int \<Rightarrow> ucan_state \<Rightarrow> ucan_exn + (verdict \<times> ucan_state)"
  and validate_proofs ::
    "('k, 'sk) ucan_env \<Rightarrow> 'k \<Rightarrow> ucan \<Rightarrow> string list \<Rightarrow> int \<Rightarrow> ucan_state \<Rightarrow> ucan_exn + (verdict \<times> ucan_state)" where
  "validateUCANChain E rootPublicKey u maxDepth (visited, t) =
     (if maxDepth \<le> 0 then Ok (Rejected Depth_exceeded, (visited, t))
      else let fingerprint = serializeUCAN E u in
        if fingerprint \<in> set visited then Ok (Rejected Circular_delegation, (visited, t))
        else let visited' = set_add fingerprint visited in
          case check_times E u t of
            (Some err, t') \<Rightarrow> Ok (Rejected err, (visited', t'))
          | (None, t') \<Rightarrow>
              try_bind (resolvePublicKey E (u_issuer u)) (\<lambda>issuerKey.
              try_bind (verifyUCANSignature E u issuerKey) (\<lambda>ok.
                if \<not> ok then Ok (Rejected Bad_signature, (visited', t'))
                else if u_proofs u = [] then
                  try_bind (issued_by_root E rootPublicKey issuerKey) (\<lambda>same.
                    if same then Ok (Valid, (visited', t')) else Ok (Rejected Root_not_creator, (visited', t')))
                else validate_proofs E rootPublicKey u (u_proofs u) (maxDepth - 1) (visited', t'))))"
| "validate_proofs E rootPublicKey u [] depth st = Ok (Valid, st)"
| "validate_proofs E rootPublicKey u (proofStr # rest) depth st =
     try_bind (deserializeUCAN E proofStr) (\<lambda>prf.
       if u_audience prf \<noteq> u_issuer u then Ok (Rejected Audience_mismatch, st)
       else (case find (\<lambda>cap. \<not> proof_has_cap prf cap) (u_capabilities u) of
           Some cap \<Rightarrow> Ok (Rejected (Not_authorized (ability cap) (resource cap)), st)
         | None \<Rightarrow> try_bind (validateUCANChain E rootPublicKey prf depth st) (\<lambda>(v, st').
             if v \<noteq> Valid then Ok (v, st') else validate_proofs E rootPublicKey u rest depth st')))"
  by pat_completeness auto
termination
  by (relation "inv_image (less_than <*lex*> less_than) (\<lambda>x. case x of
        Inl (_, _, _, d, _) \<Rightarrow> (2 * nat d + 1, 0) | Inr (_, _, _, ps, d, _) \<Rightarrow> (2 * nat d + 2, length ps))") auto

end
