(* ===== verification/UcanCorrect.thy ===== *)
theory UcanCorrect
  imports Ucan
begin

text \<open>
  What a validated delegation chain guarantees, and a chain without a cycle that is refused as circular.
\<close>

section \<open>Capabilities are ordered\<close>

lemma capabilityImplies_refl [simp]: "capabilityImplies a a"
  by (simp add: capabilityImplies_def Let_def)

lemma capabilityImplies_trans [trans]:
  "capabilityImplies a b \<Longrightarrow> capabilityImplies b c \<Longrightarrow> capabilityImplies a c"
  by (auto simp: capabilityImplies_def Let_def split: if_splits)

lemma capabilityImplies_levels:
  "capabilityImplies CAP_DOC_ADMIN CAP_DOC_WRITE \<and> capabilityImplies CAP_DOC_WRITE CAP_DOC_READ
   \<and> \<not> capabilityImplies CAP_DOC_READ CAP_DOC_WRITE \<and> \<not> capabilityImplies CAP_DOC_ADMIN CAP_DOC_HISTORY"
  by code_simp

section \<open>Authorised chains\<close>

definition signed :: "('k, 'sk) ucan_env \<Rightarrow> ucan \<Rightarrow> bool" where
  "signed E u \<longleftrightarrow> (\<exists>k. resolvePublicKey E (u_issuer u) = Ok k \<and> verifyUCANSignature E u k = Ok True)"

definition in_time :: "('k, 'sk) ucan_env \<Rightarrow> ucan \<Rightarrow> bool" where
  "in_time E u \<longleftrightarrow> (\<forall>e. u_expiration u = Some e \<longrightarrow> (\<exists>i. seconds E i \<le> e)) \<and> (\<forall>b. u_notBefore u = Some b \<longrightarrow> (\<exists>i. b \<le> seconds E i))"

definition root_token :: "('k, 'sk) ucan_env \<Rightarrow> 'k \<Rightarrow> ucan \<Rightarrow> bool" where
  "root_token E root_key u \<longleftrightarrow> u_proofs u = []
     \<and> (\<exists>k bs. resolvePublicKey E (u_issuer u) = Ok k \<and> exportKeyRaw E k = Ok bs \<and> exportKeyRaw E root_key = Ok bs)"

definition covers :: "ucan \<Rightarrow> ucan \<Rightarrow> bool" where
  "covers p u \<longleftrightarrow> (\<forall>cap\<in>set (u_capabilities u). \<exists>c\<in>set (u_capabilities p).
     resource c = resource cap \<and> capabilityImplies (ability c) (ability cap))"

definition delegates :: "('k, 'sk) ucan_env \<Rightarrow> ucan \<Rightarrow> ucan \<Rightarrow> bool" where
  "delegates E u p \<longleftrightarrow> (\<exists>s\<in>set (u_proofs u). deserializeUCAN E s = Ok p) \<and> u_audience p = u_issuer u \<and> covers p u"

definition chain_ok :: "('k, 'sk) ucan_env \<Rightarrow> 'k \<Rightarrow> nat \<Rightarrow> ucan list \<Rightarrow> bool" where
  "chain_ok E root_key d chain \<longleftrightarrow> chain \<noteq> [] \<and> length chain \<le> d \<and> (\<forall>t\<in>set chain. signed E t \<and> in_time E t)
     \<and> successively (delegates E) chain \<and> root_token E root_key (last chain)"

lemma covers_trans: "covers r p \<Longrightarrow> covers p u \<Longrightarrow> covers r u"
  unfolding covers_def by (metis capabilityImplies_trans)

lemma covers_refl: "covers u u"
  unfolding covers_def by (metis capabilityImplies_refl)

lemma chain_covers: "successively (delegates E) chain \<Longrightarrow> chain \<noteq> [] \<Longrightarrow> covers (last chain) (hd chain)"
proof (induction chain)
  case (Cons u chain)
  then show ?case
    by (cases chain) (auto simp: covers_refl delegates_def intro: covers_trans)
qed simp

lemma check_times_None:
  assumes "check_times E u t = (None, t')"
  shows "in_time E u"
  unfolding in_time_def
proof (intro conjI allI impI)
  fix e assume e: "u_expiration u = Some e"
  then have "\<not> seconds E t > e" using assms by (auto simp: check_times_def Let_def split: if_splits)
  then show "\<exists>i. seconds E i \<le> e" by (intro exI[of _ t]) simp
next
  fix b assume b: "u_notBefore u = Some b"
  then have "\<not> seconds E (if u_expiration u = None then t else Suc t) < b"
    using assms by (auto simp: check_times_def Let_def split: if_splits option.splits)
  then show "\<exists>i. b \<le> seconds E i" by (auto simp: not_less)
qed

lemma arraysEqual_eq [simp]: "arraysEqual a b \<longleftrightarrow> a = b"
  unfolding arraysEqual_def list_all_iff list_eq_iff_nth_eq by auto

lemma find_None_covers: "find (\<lambda>cap. \<not> proof_has_cap p cap) (u_capabilities u) = None \<longleftrightarrow> covers p u"
  by (auto simp: find_None_iff proof_has_cap_def list_ex_iff covers_def)

lemma validate_ValidE:
  assumes "validateUCANChain E rk u d (visited, t) = Ok (Valid, st')"
  obtains t' k where "0 < d" "check_times E u t = (None, t')" "resolvePublicKey E (u_issuer u) = Ok k" "verifyUCANSignature E u k = Ok True"
    "if u_proofs u = [] then issued_by_root E rk k = Ok True
     else validate_proofs E rk u (u_proofs u) (d - 1) (set_add (serializeUCAN E u) visited, t') = Ok (Valid, st')"
proof -
  have d: "0 < d" "serializeUCAN E u \<notin> set visited" using assms by (auto simp: Let_def split: if_splits)
  obtain err t' where c: "check_times E u t = (err, t')" by (cases "check_times E u t")
  have err: "err = None" using assms d c by (cases err) (auto simp: Let_def)
  show ?thesis
    using assms d that [OF d(1) c [unfolded err]] c err
    by (auto simp: Let_def try_bind_Ok_iff split: if_splits)
qed

lemma validate_sound:
  shows "validateUCANChain E rk u d st = Ok (Valid, st') \<Longrightarrow> \<exists>chain. hd chain = u \<and> chain_ok E rk (nat d) chain"
    and "validate_proofs E rk u ps d st = Ok (Valid, st')
      \<Longrightarrow> \<forall>s\<in>set ps. \<exists>p chain. deserializeUCAN E s = Ok p \<and> u_audience p = u_issuer u \<and> covers p u \<and> hd chain = p \<and> chain_ok E rk (nat d) chain"
proof (induction E rk u d st and E rk u ps d st arbitrary: st' and st' rule: validateUCANChain_validate_proofs.induct)
  case (1 E rk u d visited t)
  from 1(2) obtain t' k where d: "0 < d" and c: "check_times E u t = (None, t')" and k: "resolvePublicKey E (u_issuer u) = Ok k"
    and v: "verifyUCANSignature E u k = Ok True" and rest: "if u_proofs u = [] then issued_by_root E rk k = Ok True
     else validate_proofs E rk u (u_proofs u) (d - 1) (set_add (serializeUCAN E u) visited, t') = Ok (Valid, st')"
    by (rule validate_ValidE)
  have u: "signed E u \<and> in_time E u" using k v check_times_None [OF c] by (auto simp: signed_def)
  show ?case
  proof (cases "u_proofs u = []")
    case True
    then have "root_token E rk u" using rest k by (auto simp: issued_by_root_def root_token_def try_bind_Ok_iff)
    then have "chain_ok E rk (nat d) [u]" using u d by (auto simp: chain_ok_def)
    then show ?thesis by (intro exI[of _ "[u]"]) simp
  next
    case False
    have new: "serializeUCAN E u \<notin> set visited" using 1(2) d by (auto simp: Let_def split: if_splits)
    from False rest have "validate_proofs E rk u (u_proofs u) (d - 1) (set_add (serializeUCAN E u) visited, t') = Ok (Valid, st')" by simp
    from 1(1) [OF _ refl new refl c [symmetric] refl _ False this] d
    have "\<forall>s\<in>set (u_proofs u). \<exists>p chain. deserializeUCAN E s = Ok p \<and> u_audience p = u_issuer u \<and> covers p u \<and> hd chain = p
        \<and> chain_ok E rk (nat (d - 1)) chain" by simp
    moreover obtain s where "s \<in> set (u_proofs u)" using False by (cases "u_proofs u") auto
    ultimately obtain chain where chain: "delegates E u (hd chain)" "chain_ok E rk (nat (d - 1)) chain"
      by (force simp: delegates_def)
    then have "chain_ok E rk (nat d) (u # chain)" using u d
      by (cases chain) (auto simp: chain_ok_def)
    then show ?thesis by (intro exI[of _ "u # chain"]) simp
  qed
next
  case (3 E rk u s rest d st)
  from 3(3) obtain p where p: "deserializeUCAN E s = Ok p" "u_audience p = u_issuer u" "covers p u"
    by (auto simp: try_bind_Ok_iff simp flip: find_None_covers split: if_splits option.splits)
  from 3(3) obtain st1 where st1: "validateUCANChain E rk p d st = Ok (Valid, st1)" "validate_proofs E rk u rest d st1 = Ok (Valid, st')"
    using p by (auto simp: try_bind_Ok_iff find_None_covers [THEN iffD2] simp del: validateUCANChain.simps split: if_splits)
  have none: "find (\<lambda>cap. \<not> proof_has_cap p cap) (u_capabilities u) = None" using p(3) by (simp add: find_None_covers)
  have "\<exists>chain. hd chain = p \<and> chain_ok E rk (nat d) chain"
    using p(2) none st1(1) by (intro 3(1)) simp_all
  moreover have "\<forall>s\<in>set rest. \<exists>p chain. deserializeUCAN E s = Ok p \<and> u_audience p = u_issuer u \<and> covers p u \<and> hd chain = p
      \<and> chain_ok E rk (nat d) chain"
    using p(2) none st1(2) by (intro 3(2) [where x = p and xa = Valid, OF _ none _ st1(2)]) simp_all
  ultimately show ?case using p by auto
qed simp


section \<open>A small environment\<close>

text \<open>
  Keys are strings and resolve to themselves, a signature is valid when it is the reversed issuer, and the text of a token is its nonce: the
  four tokens below are the ones the codec knows.
\<close>

definition token :: "string \<Rightarrow> string \<Rightarrow> string \<Rightarrow> string \<Rightarrow> string list \<Rightarrow> ucan" where
  "token n iss aud cap ps = \<lparr>u_version = ''0.1.0'', u_issuer = iss, u_audience = aud,
     u_capabilities = [\<lparr>resource = ''doc'', ability = cap\<rparr>], u_expiration = None, u_notBefore = None, u_nonce = n, u_proofs = ps,
     u_signature = rev iss\<rparr>"

definition root_to_carol :: ucan where "root_to_carol = token ''r'' ''Root'' ''Carol'' CAP_DOC_ADMIN []"
definition carol_to_dave1 :: ucan where "carol_to_dave1 = token ''a'' ''Carol'' ''Dave'' CAP_DOC_WRITE [''r'']"
definition carol_to_dave2 :: ucan where "carol_to_dave2 = token ''b'' ''Carol'' ''Dave'' CAP_DOC_WRITE [''r'']"
definition dave_to_erin :: ucan where "dave_to_erin = token ''u'' ''Dave'' ''Erin'' CAP_DOC_READ [''a'', ''b'']"

definition text_bytes :: "string \<Rightarrow> bytes" where "text_bytes s = map of_char s"

definition token_text :: "json \<Rightarrow> bytes" where
  "token_text j = (case j of
     JObject fs \<Rightarrow> (case (field fs ''signature'', field fs ''nonce'', field fs ''issuer'') of
         (Some _, Some (JString n), _) \<Rightarrow> text_bytes n
       | (None, _, Some (JString i)) \<Rightarrow> text_bytes (rev i)
       | _ \<Rightarrow> [])
   | _ \<Rightarrow> [])"

definition token_parse :: "bytes \<Rightarrow> ucan_exn + json" where
  "token_parse b = (if b = text_bytes ''r'' then Ok (deterministicStringify root_to_carol)
     else if b = text_bytes ''a'' then Ok (deterministicStringify carol_to_dave1)
     else if b = text_bytes ''b'' then Ok (deterministicStringify carol_to_dave2)
     else Err Text_rejected)"

definition small_env :: "(string, string) ucan_env" where
  "small_env = \<lparr>resolvePublicKey = Ok, subtleSign = (\<lambda>k m. Ok m), subtleVerify = (\<lambda>k s m. Ok (s = m)),
     exportKeyRaw = (\<lambda>k. Ok (text_bytes k)), encodeText = token_text, parseText = token_parse,
     btoa = map (\<lambda>b. char_of (unat b)), atob = (\<lambda>s. Ok (text_bytes s)), clock = (\<lambda>_. 0)\<rparr>"


text \<open>
  The visited set is shared by the proofs of a token, so a delegation without any cycle is refused as
  circular when two of its proofs rest on the same token: both proofs of \<open>dave_to_erin\<close> validate, but the token does not.
\<close>

theorem ucan_shared_proof_refused:
  "validateUCANChain small_env ''Root'' carol_to_dave1 10 ([], 0) = Ok (Valid, ([''a'', ''r''], 0))
   \<and> validateUCANChain small_env ''Root'' carol_to_dave2 10 ([], 0) = Ok (Valid, ([''b'', ''r''], 0))
   \<and> deserializeUCAN small_env ''a'' = Ok carol_to_dave1 \<and> deserializeUCAN small_env ''b'' = Ok carol_to_dave2
   \<and> validateUCANChain small_env ''Root'' dave_to_erin 10 ([], 0) = Ok (Rejected Circular_delegation, ([''u'', ''a'', ''r'', ''b''], 0))"
  by (intro conjI; code_simp)

end
