(* ===== verification/Effects.thy ===== *)
theory Effects
  imports Prelude
begin

text \<open>
  Computations with a state and exceptions, for the methods of \<^verbatim>\<open>CollabswarmDocument\<close>.  A computation that throws
  keeps the state it has reached, as a JavaScript method does.  The definitions are plain functions; the collection \<open>eff\<close> holds
  the rewrite rules that run them.
\<close>

named_theorems eff "evaluation of computations with state and exceptions"

type_synonym ('s, 'e, 'a) eff = "'s \<Rightarrow> ('e + 'a) \<times> 's"

definition eff_return :: "'a \<Rightarrow> ('s, 'e, 'a) eff" where
  "eff_return x s = (Ok x, s)"

definition eff_throw :: "'e \<Rightarrow> ('s, 'e, 'a) eff" where
  "eff_throw e s = (Err e, s)"

definition eff_bind :: "('s, 'e, 'a) eff \<Rightarrow> ('a \<Rightarrow> ('s, 'e, 'b) eff) \<Rightarrow> ('s, 'e, 'b) eff" where
  "eff_bind m f s = (case m s of (Inl e, s') \<Rightarrow> (Inl e, s') | (Inr x, s') \<Rightarrow> f x s')"

definition eff_get :: "('s, 'e, 's) eff" where
  "eff_get s = (Ok s, s)"

definition eff_modify :: "('s \<Rightarrow> 's) \<Rightarrow> ('s, 'e, unit) eff" where
  "eff_modify f s = (Ok (), f s)"

definition eff_lift :: "'e + 'a \<Rightarrow> ('s, 'e, 'a) eff" where
  "eff_lift r s = (r, s)"

text \<open>\<^verbatim>\<open>try { m } catch (e) { h e }\<close> and \<^verbatim>\<open>try { m } finally { f }\<close> for a finalizer that only updates the state.\<close>

definition eff_catch :: "('s, 'e, 'a) eff \<Rightarrow> ('e \<Rightarrow> ('s, 'e, 'a) eff) \<Rightarrow> ('s, 'e, 'a) eff" where
  "eff_catch m h s = (case m s of (Inl e, s') \<Rightarrow> h e s' | (Inr x, s') \<Rightarrow> (Inr x, s'))"

definition eff_finally :: "('s, 'e, 'a) eff \<Rightarrow> ('s \<Rightarrow> 's) \<Rightarrow> ('s, 'e, 'a) eff" where
  "eff_finally m f s = (case m s of (r, s') \<Rightarrow> (r, f s'))"

definition eff_when :: "bool \<Rightarrow> ('s, 'e, unit) eff \<Rightarrow> ('s, 'e, unit) eff" where
  "eff_when b m = (if b then m else eff_return ())"

fun eff_iter :: "('a \<Rightarrow> ('s, 'e, unit) eff) \<Rightarrow> 'a list \<Rightarrow> ('s, 'e, unit) eff" where
  "eff_iter f [] = eff_return ()"
| "eff_iter f (x # xs) = eff_bind (f x) (\<lambda>_. eff_iter f xs)"

lemma eff_run [eff, simp]:
  "eff_return x s = (Ok x, s)"
  "eff_throw e s = (Err e, s)"
  "eff_get s = (Ok s, s)"
  "eff_modify f s = (Ok (), f s)"
  "eff_lift r s = (r, s)"
  by (simp_all add: eff_return_def eff_throw_def eff_get_def eff_modify_def eff_lift_def)

lemma eff_bind_run [eff, simp]:
  "m s = (Err e, s') \<Longrightarrow> eff_bind m f s = (Err e, s')"
  "m s = (Ok x, s') \<Longrightarrow> eff_bind m f s = f x s'"
  by (simp_all add: eff_bind_def)

lemma eff_bind_step [simp]:
  "eff_bind (eff_modify g) f s = f () (g s)"
  "eff_bind eff_get f s = f s s"
  by (simp_all add: eff_bind_def)

lemma eff_bind_pure: "snd (m s) = s \<Longrightarrow> eff_bind m f s = (case fst (m s) of Inl e \<Rightarrow> (Inl e, s) | Inr x \<Rightarrow> f x s)"
  by (cases "m s") (auto simp: eff_bind_def)

lemma eff_bind_assoc: "eff_bind (eff_bind m f) g = eff_bind m (\<lambda>x. eff_bind (f x) g)"
  by (rule ext) (auto simp: eff_bind_def split: prod.splits sum.splits)

lemma eff_bind_eq:
  "eff_bind m f s = (r, t) \<longleftrightarrow> (\<exists>e. m s = (Err e, t) \<and> r = Err e) \<or> (\<exists>x s'. m s = (Ok x, s') \<and> f x s' = (r, t))"
  by (auto simp: eff_bind_def split: prod.splits sum.splits)

lemma eff_bind_Ok_iff:
  "eff_bind m f s = (Ok y, t) \<longleftrightarrow> (\<exists>x s'. m s = (Ok x, s') \<and> f x s' = (Ok y, t))"
  by (auto simp: eff_bind_eq)

section \<open>Invariants of computations\<close>

text \<open>\<open>keeps I m\<close>: running \<open>m\<close> from a state with \<open>I\<close> ends in one with \<open>I\<close>, whether it returns or throws.\<close>

definition keeps :: "('s \<Rightarrow> bool) \<Rightarrow> ('s, 'e, 'a) eff \<Rightarrow> bool" where
  "keeps I m \<longleftrightarrow> (\<forall>s. I s \<longrightarrow> I (snd (m s)))"

named_theorems keeps_intro "rules for invariants of computations"

lemma keepsD: "keeps I m \<Longrightarrow> I s \<Longrightarrow> m s = (r, t) \<Longrightarrow> I t"
  unfolding keeps_def by (metis snd_conv)

lemma keeps_snd: "keeps I m \<Longrightarrow> I s \<Longrightarrow> I (snd (m s))"
  by (simp add: keeps_def)

lemma keeps_basic [keeps_intro]:
  "keeps I (eff_return x)" "keeps I (eff_throw e)" "keeps I eff_get" "keeps I (eff_lift r)" "keeps I (Pair v)"
  by (simp_all add: keeps_def)

lemma keeps_modify [keeps_intro]: "(\<And>s. I s \<Longrightarrow> I (f s)) \<Longrightarrow> keeps I (eff_modify f)"
  by (simp add: keeps_def)

lemma keeps_bind [keeps_intro]: "keeps I m \<Longrightarrow> (\<And>x. keeps I (f x)) \<Longrightarrow> keeps I (eff_bind m f)"
  unfolding keeps_def by (auto simp: eff_bind_def split: prod.splits sum.splits)

lemma keeps_catch [keeps_intro]: "keeps I m \<Longrightarrow> (\<And>e. keeps I (h e)) \<Longrightarrow> keeps I (eff_catch m h)"
  unfolding keeps_def by (auto simp: eff_catch_def split: prod.splits sum.splits)

lemma keeps_finally [keeps_intro]: "keeps I m \<Longrightarrow> (\<And>s. I s \<Longrightarrow> I (f s)) \<Longrightarrow> keeps I (eff_finally m f)"
  unfolding keeps_def by (auto simp: eff_finally_def split: prod.splits)

lemma keeps_when [keeps_intro]: "keeps I m \<Longrightarrow> keeps I (eff_when b m)"
  by (simp add: eff_when_def keeps_basic)

lemma keeps_if [keeps_intro]: "keeps I m \<Longrightarrow> keeps I m' \<Longrightarrow> keeps I (if b then m else m')"
  by simp

lemma keeps_iter [keeps_intro]: "(\<And>x. keeps I (f x)) \<Longrightarrow> keeps I (eff_iter f xs)"
  by (induction xs) (auto intro: keeps_intro)

lemma keeps_option [keeps_intro]:
  "keeps I m \<Longrightarrow> (\<And>x. keeps I (f x)) \<Longrightarrow> keeps I (case v of None \<Rightarrow> m | Some x \<Rightarrow> f x)"
  by (cases v) simp_all

lemma keeps_sum [keeps_intro]:
  "(\<And>e. keeps I (f e)) \<Longrightarrow> (\<And>x. keeps I (g x)) \<Longrightarrow> keeps I (case v of Inl e \<Rightarrow> f e | Inr x \<Rightarrow> g x)"
  by (cases v) simp_all

lemma keeps_prod [keeps_intro]: "(\<And>a b. keeps I (f a b)) \<Longrightarrow> keeps I (case p of (a, b) \<Rightarrow> f a b)"
  by (cases p) simp

text \<open>\<open>unchanged m f\<close>: \<open>m\<close> never changes the part \<open>f\<close> of the state.\<close>

definition unchanged :: "('s \<Rightarrow> 'x) \<Rightarrow> ('s, 'e, 'a) eff \<Rightarrow> bool" where
  "unchanged f m \<longleftrightarrow> (\<forall>v. keeps (\<lambda>s. f s = v) m)"

lemma unchangedD: "unchanged f m \<Longrightarrow> m s = (r, t) \<Longrightarrow> f t = f s"
  unfolding unchanged_def using keepsD by fastforce

lemma bind_unchanged:
  assumes "I s" "keeps I m" "unchanged g m" "\<And>x u. I u \<Longrightarrow> g u = g s \<Longrightarrow> I (snd (f x u))"
  shows "I (snd (eff_bind m f s))"
proof (cases "m s")
  case (Pair r t)
  then show ?thesis using assms(4)[of t] keepsD [OF assms(2,1) Pair] unchangedD [OF assms(3) Pair]
    by (auto simp: eff_bind_def split: sum.splits)
qed

section \<open>Computations that do not throw\<close>

definition never_throws :: "('s, 'e, 'a) eff \<Rightarrow> bool" where
  "never_throws m \<longleftrightarrow> (\<forall>s. \<exists>x t. m s = (Ok x, t))"

named_theorems nothrow_intro "rules for computations that do not throw"

lemma never_throws_basic [nothrow_intro]:
  "never_throws (eff_return x)" "never_throws eff_get" "never_throws (eff_modify f)"
  by (simp_all add: never_throws_def)

lemma never_throws_bind [nothrow_intro]:
  "never_throws m \<Longrightarrow> (\<And>x. never_throws (f x)) \<Longrightarrow> never_throws (eff_bind m f)"
  unfolding never_throws_def by (metis eff_bind_run(2))

lemma never_throws_finally [nothrow_intro]: "never_throws m \<Longrightarrow> never_throws (eff_finally m f)"
  unfolding never_throws_def eff_finally_def by (metis case_prod_conv)

lemma never_throws_catch [nothrow_intro]: "(\<And>e. never_throws (h e)) \<Longrightarrow> never_throws (eff_catch m h)"
  unfolding never_throws_def eff_catch_def by (auto split: prod.splits sum.splits)

lemma never_throws_when [nothrow_intro]: "never_throws m \<Longrightarrow> never_throws (eff_when b m)"
  by (simp add: eff_when_def never_throws_basic)

lemma never_throws_if [nothrow_intro]: "never_throws m \<Longrightarrow> never_throws m' \<Longrightarrow> never_throws (if b then m else m')"
  by simp

lemma never_throws_iter [nothrow_intro]: "(\<And>x. never_throws (f x)) \<Longrightarrow> never_throws (eff_iter f xs)"
  by (induction xs) (auto intro: nothrow_intro)

lemma never_throws_option [nothrow_intro]:
  "never_throws m \<Longrightarrow> (\<And>x. never_throws (f x)) \<Longrightarrow> never_throws (case v of None \<Rightarrow> m | Some x \<Rightarrow> f x)"
  by (cases v) simp_all

lemma never_throws_sum [nothrow_intro]:
  "(\<And>e. never_throws (f e)) \<Longrightarrow> (\<And>x. never_throws (g x)) \<Longrightarrow> never_throws (case v of Inl e \<Rightarrow> f e | Inr x \<Rightarrow> g x)"
  by (cases v) simp_all

lemma never_throws_prod [nothrow_intro]: "(\<And>a b. never_throws (f a b)) \<Longrightarrow> never_throws (case p of (a, b) \<Rightarrow> f a b)"
  by (cases p) simp

lemma never_throwsD: "never_throws m \<Longrightarrow> m s \<noteq> (Err e, t)"
  unfolding never_throws_def by (metis Pair_inject sum.distinct(1))

text \<open>\<open>keeps_on_throw I m\<close>: a run that throws keeps \<open>I\<close>; a run that returns may not.\<close>

definition keeps_on_throw :: "('s \<Rightarrow> bool) \<Rightarrow> ('s, 'e, 'a) eff \<Rightarrow> bool" where
  "keeps_on_throw I m \<longleftrightarrow> (\<forall>s e t. I s \<longrightarrow> m s = (Err e, t) \<longrightarrow> I t)"

lemma keeps_on_throw_keeps: "keeps I m \<Longrightarrow> keeps_on_throw I m"
  unfolding keeps_on_throw_def using keepsD by fastforce

lemma keeps_on_throw_nothrow: "never_throws m \<Longrightarrow> keeps_on_throw I m"
  unfolding keeps_on_throw_def by (auto dest: never_throwsD)

lemma keeps_on_throw_bind:
  "keeps I m \<Longrightarrow> (\<And>x. keeps_on_throw I (f x)) \<Longrightarrow> keeps_on_throw I (eff_bind m f)"
  unfolding keeps_on_throw_def by (force simp: eff_bind_eq dest: keepsD)

lemma keeps_on_throw_last:
  "keeps_on_throw I m \<Longrightarrow> (\<And>x. never_throws (f x)) \<Longrightarrow> keeps_on_throw I (eff_bind m f)"
  unfolding keeps_on_throw_def by (force simp: eff_bind_eq dest: never_throwsD)

end
