(* ===== verification/DocCore.thy ===== *)
theory DocCore
  imports Effects ChangeDag TipsHash
begin

text \<open>
  The document core of \<^verbatim>\<open>packages/collabswarm/src/collabswarm-document.ts\<close>: the state of a \<^verbatim>\<open>CollabswarmDocument\<close>, publishing a
  change, applying a sync message, snapshots with pruning and block collection, and transactions.  Every
  method is one computation on the document state; interleavings of several methods are sequences of such computations.  The CRDT,
  ACL, keychain, crypto and serialization providers, the network and the user's handlers are the fields of \<open>doc_env\<close>.
  Numbers of the wire format are integers; logging is left out.
\<close>

section \<open>Messages and snapshots\<close>

record ('c, 'pk) snapshot_node =
  sn_state :: 'c
  sn_lastChangeNodeCID :: string
  sn_compactedCount :: int
  sn_signature :: bytes
  sn_publicKey :: "'pk option"
  sn_timestamp :: int

record ('c, 'pk) sync_message =
  m_documentId :: string
  m_changeId :: "string option"
  m_changes :: "'c change_node option"
  m_snapshot :: "('c, 'pk) snapshot_node option"
  m_keychainChanges :: "'c option"
  m_welcomeEpochId :: "bytes option"
  m_welcomeRecipient :: "string option"
  m_welcomeRecipientKemPublicKey :: "bytes option"
  m_eciesSealed :: "bytes option"
  m_pathUpdate :: "bytes option" \<comment> \<open>the serialized path update\<close>
  m_pathUpdateEpochId :: "bytes option"
  m_tipsHash :: "bytes option"
  m_tips :: "string list option"
  m_signature :: "string option"

definition empty_message :: "string \<Rightarrow> ('c, 'pk) sync_message" where
  "empty_message path = \<lparr>m_documentId = path, m_changeId = None, m_changes = None, m_snapshot = None, m_keychainChanges = None,
     m_welcomeEpochId = None, m_welcomeRecipient = None, m_welcomeRecipientKemPublicKey = None, m_eciesSealed = None,
     m_pathUpdate = None, m_pathUpdateEpochId = None, m_tipsHash = None, m_tips = None, m_signature = None\<rparr>"

record compaction_config =
  cc_enabled :: bool
  snapshotInterval :: int
  minChangesBeforeSnapshot :: int
  pruneAfterSnapshot :: bool
  gcAfterPrune :: bool
  keepRecentNodes :: int

definition defaultCompactionConfig :: compaction_config where
  "defaultCompactionConfig = \<lparr>cc_enabled = False, snapshotInterval = 500, minChangesBeforeSnapshot = 100,
     pruneAfterSnapshot = True, gcAfterPrune = False, keepRecentNodes = 50\<rparr>"

datatype history_visibility = Current_only | Since_invited | Full_history

section \<open>Environment and state\<close>

datatype doc_error =
    Empty_keychain | No_nonce | Not_a_writer | Provider_threw string | Publish_failed | Handler_threw
  | Dag_error dag_error | Bad_cid string | Block_unavailable string | Undecryptable string
  | Bad_timestamp | Bad_compacted_count | Cid_too_large | State_too_large
  | Transaction_in_progress | No_transaction | Committing | Use_addChange
  | Bind_check_failed string

record ('doc, 'c, 'fn, 'acl, 'kc, 'pk, 'key) doc_env =
  documentPath :: string
  userPublicKey :: 'pk
  enableSigning :: bool
  topic :: string
  compactionConfig :: compaction_config
  newDocument :: 'doc
  remoteChange :: "'doc \<Rightarrow> 'c \<Rightarrow> 'doc"
  localChange :: "'doc \<Rightarrow> string \<Rightarrow> 'fn list \<Rightarrow> doc_error + ('doc \<times> 'c)"
  applySnapshot :: "('doc \<Rightarrow> 'c \<Rightarrow> 'doc) option"
  getSnapshot :: "('doc \<Rightarrow> 'c) option"
  aclInit :: 'acl
  aclMerge :: "'c \<Rightarrow> 'acl \<Rightarrow> 'acl"
  aclAdd :: "'pk \<Rightarrow> 'acl \<Rightarrow> 'acl \<times> 'c"
  aclRemove :: "'pk \<Rightarrow> 'acl \<Rightarrow> 'acl \<times> 'c"
  aclCheck :: "'acl \<Rightarrow> 'pk \<Rightarrow> bool"
  aclUsers :: "'acl \<Rightarrow> 'pk list"
  kcInit :: 'kc
  kcMerge :: "'c \<Rightarrow> 'kc \<Rightarrow> doc_error + 'kc"
  kcCurrent :: "'kc \<Rightarrow> doc_error + (bytes \<times> 'key option)"
  kcGetKey :: "'kc \<Rightarrow> bytes \<Rightarrow> 'key option"
  kcKeys :: "'kc \<Rightarrow> doc_error + (bytes \<times> 'key) list"
  kcHistory :: "'kc \<Rightarrow> 'c"
  kcCurrentKeyChange :: "'kc \<Rightarrow> doc_error + 'c"
  kcHistorySince :: "('kc \<Rightarrow> bytes \<Rightarrow> doc_error + 'c) option"
  keyIDLength :: nat
  nonceLength :: nat \<comment> \<open>\<^verbatim>\<open>nonceBits\<close>: a length in bytes, as the code uses it\<close>
  auth_sign :: "bytes \<Rightarrow> doc_error + bytes"
  auth_verify :: "bytes \<Rightarrow> 'pk \<Rightarrow> bytes \<Rightarrow> bool"
  auth_encrypt :: "nat \<Rightarrow> bytes \<Rightarrow> 'key \<Rightarrow> bytes option \<times> bytes" \<comment> \<open>position in the randomness; nonce and data\<close>
  auth_decrypt :: "bytes \<Rightarrow> 'key \<Rightarrow> bytes \<Rightarrow> bytes option"
  serializeChanges :: "'c \<Rightarrow> bytes"
  deserializeChanges :: "bytes \<Rightarrow> doc_error + 'c"
  serializeSyncMessage :: "('c, 'pk) sync_message \<Rightarrow> bytes"
  deserializeSyncMessage :: "bytes \<Rightarrow> doc_error + ('c, 'pk) sync_message"
  base64_decode :: "string \<Rightarrow> bytes option"
  base64_encode :: "bytes \<Rightarrow> string"
  addBytes :: "bytes \<Rightarrow> string"
  parseCID :: "string \<Rightarrow> bool"
  fetchRemote :: "string \<Rightarrow> bytes option"
  schedule :: "(string \<times> change_kind) list \<Rightarrow> (string \<times> change_kind) list" \<comment> \<open>the order in which fetches complete\<close>
  unpinned :: "string \<Rightarrow> bool" \<comment> \<open>unpinning succeeds or the block is not pinned\<close>
  publishes :: "nat \<Rightarrow> bool" \<comment> \<open>whether the n-th publication succeeds\<close>
  callHandler :: "nat \<Rightarrow> 'doc \<Rightarrow> 'pk list \<Rightarrow> 'pk list \<Rightarrow> string list \<Rightarrow> bool" \<comment> \<open>whether a handler returns\<close>
  dateNow :: "nat \<Rightarrow> int"

record ('doc, 'c, 'fn, 'acl, 'kc, 'pk) swarm_doc =
  document :: 'doc
  readers :: 'acl
  writers :: 'acl
  keychain :: 'kc
  lastSyncMessage :: "('c, 'pk) sync_message option"
  hashes :: "string list"
  referencedAncestors :: "string list"
  recentTips :: "recent_tip list"
  latestSnapshot :: "('c, 'pk) snapshot_node option"
  changesSinceSnapshot :: int
  compactionInProgress :: bool
  snapshotUnsupported :: bool
  documentChangeCount :: int
  pendingChangeFns :: "'fn list"
  inTransaction :: bool
  committing :: bool
  remoteHandlers :: "(string, nat) jsmap"
  localHandlers :: "(string, nat) jsmap"
  cachedWriterKeys :: "'pk list option"
  writerKeysVersion :: nat
  writerMutationsInFlight :: nat
  historyVisibility :: history_visibility
  invitationEpoch :: "bytes option"
  pendingWelcomes :: "(string, ('c, 'pk) sync_message \<times> int) jsmap"
  ratchetWelcome :: "bytes option" \<comment> \<open>the BeeKEM Welcome the local ratchet tree was bootstrapped from\<close>
  drainsRequested :: nat \<comment> \<open>asynchronous drains of the pending Welcomes that were started\<close>
  blocks :: "string \<Rightarrow> bytes option"
  published :: "(string \<times> bytes) list"
  ticks :: nat

type_synonym ('doc, 'c, 'fn, 'acl, 'kc, 'pk, 'a) doc_eff = "(('doc, 'c, 'fn, 'acl, 'kc, 'pk) swarm_doc, doc_error, 'a) eff"

definition new_doc :: "('doc, 'c, 'fn, 'acl, 'kc, 'pk, 'key) doc_env \<Rightarrow> ('doc, 'c, 'fn, 'acl, 'kc, 'pk) swarm_doc" where
  "new_doc E = \<lparr>document = newDocument E, readers = aclInit E, writers = aclInit E, keychain = kcInit E,
     lastSyncMessage = None, hashes = [], referencedAncestors = [], recentTips = [], latestSnapshot = None,
     changesSinceSnapshot = 0, compactionInProgress = False, snapshotUnsupported = False, documentChangeCount = 0,
     pendingChangeFns = [], inTransaction = False, committing = False, remoteHandlers = [], localHandlers = [],
     cachedWriterKeys = None, writerKeysVersion = 0, writerMutationsInFlight = 0, historyVisibility = Current_only,
     invitationEpoch = None, pendingWelcomes = [], ratchetWelcome = None, drainsRequested = 0, blocks = (\<lambda>_. None), published = [], ticks = 0\<rparr>"

section \<open>Handlers and membership\<close>

definition subscribe :: "string \<Rightarrow> nat \<Rightarrow> bool \<Rightarrow> bool \<Rightarrow> ('doc, 'c, 'fn, 'acl, 'kc, 'pk, unit) doc_eff" where
  "subscribe i handler onRemote onLocal = eff_modify (\<lambda>s.
     s\<lparr>remoteHandlers := (if onRemote then map_set i handler (remoteHandlers s) else remoteHandlers s),
       localHandlers := (if onLocal then map_set i handler (localHandlers s) else localHandlers s)\<rparr>)"

definition unsubscribe :: "string \<Rightarrow> ('doc, 'c, 'fn, 'acl, 'kc, 'pk, unit) doc_eff" where
  "unsubscribe i = eff_modify (\<lambda>s.
     s\<lparr>remoteHandlers := map_delete i (remoteHandlers s), localHandlers := map_delete i (localHandlers s)\<rparr>)"

definition getWriters :: "('doc, 'c, 'fn, 'acl, 'kc, 'pk, 'key) doc_env \<Rightarrow> ('doc, 'c, 'fn, 'acl, 'kc, 'pk) swarm_doc \<Rightarrow> 'pk list" where
  "getWriters E s = aclUsers E (writers s)"

definition getReaders :: "('doc, 'c, 'fn, 'acl, 'kc, 'pk, 'key) doc_env \<Rightarrow> ('doc, 'c, 'fn, 'acl, 'kc, 'pk) swarm_doc \<Rightarrow> 'pk list" where
  "getReaders E s = aclUsers E (readers s) @ filter (\<lambda>w. \<not> aclCheck E (readers s) w) (aclUsers E (writers s))"

definition fire_handlers ::
  "('doc, 'c, 'fn, 'acl, 'kc, 'pk, 'key) doc_env \<Rightarrow> (string, nat) jsmap \<Rightarrow> string list \<Rightarrow> ('doc, 'c, 'fn, 'acl, 'kc, 'pk, unit) doc_eff" where
  "fire_handlers E hs cids = eff_iter (\<lambda>(i, h). eff_bind eff_get (\<lambda>s.
     if callHandler E h (document s) (getReaders E s) (getWriters E s) cids then eff_return () else eff_throw Handler_threw)) hs"

definition fireRemoteUpdateHandlers :: "('doc, 'c, 'fn, 'acl, 'kc, 'pk, 'key) doc_env \<Rightarrow> string list \<Rightarrow> ('doc, 'c, 'fn, 'acl, 'kc, 'pk, unit) doc_eff" where
  "fireRemoteUpdateHandlers E cids = eff_bind eff_get (\<lambda>s. fire_handlers E (remoteHandlers s) cids)"

definition fireLocalUpdateHandlers :: "('doc, 'c, 'fn, 'acl, 'kc, 'pk, 'key) doc_env \<Rightarrow> string list \<Rightarrow> ('doc, 'c, 'fn, 'acl, 'kc, 'pk, unit) doc_eff" where
  "fireLocalUpdateHandlers E cids = eff_bind eff_get (\<lambda>s. fire_handlers E (localHandlers s) cids)"

definition ensureCurrentUserCanWrite :: "('doc, 'c, 'fn, 'acl, 'kc, 'pk, 'key) doc_env \<Rightarrow> ('doc, 'c, 'fn, 'acl, 'kc, 'pk, unit) doc_eff" where
  "ensureCurrentUserCanWrite E = eff_bind eff_get (\<lambda>s.
     if aclCheck E (writers s) (userPublicKey E) then eff_return () else eff_throw Not_a_writer)"

section \<open>Writer keys and signatures\<close>

definition invalidateWriterKeyCache :: "('doc, 'c, 'fn, 'acl, 'kc, 'pk) swarm_doc \<Rightarrow> ('doc, 'c, 'fn, 'acl, 'kc, 'pk) swarm_doc" where
  "invalidateWriterKeyCache s = s\<lparr>cachedWriterKeys := None, writerKeysVersion := Suc (writerKeysVersion s)\<rparr>"

definition begin_writer_mutation :: "('doc, 'c, 'fn, 'acl, 'kc, 'pk) swarm_doc \<Rightarrow> ('doc, 'c, 'fn, 'acl, 'kc, 'pk) swarm_doc" where
  "begin_writer_mutation s = invalidateWriterKeyCache (s\<lparr>writerMutationsInFlight := Suc (writerMutationsInFlight s)\<rparr>)"

definition end_writer_mutation :: "('doc, 'c, 'fn, 'acl, 'kc, 'pk) swarm_doc \<Rightarrow> ('doc, 'c, 'fn, 'acl, 'kc, 'pk) swarm_doc" where
  "end_writer_mutation s = invalidateWriterKeyCache (s\<lparr>writerMutationsInFlight := writerMutationsInFlight s - 1\<rparr>)"

definition mergeWriters :: "('doc, 'c, 'fn, 'acl, 'kc, 'pk, 'key) doc_env \<Rightarrow> 'c \<Rightarrow> ('doc, 'c, 'fn, 'acl, 'kc, 'pk, unit) doc_eff" where
  "mergeWriters E ch = eff_modify (\<lambda>s. end_writer_mutation ((begin_writer_mutation s)\<lparr>writers := aclMerge E ch (writers s)\<rparr>))"

definition mutate_writers :: "('acl \<Rightarrow> 'acl \<times> 'c) \<Rightarrow> ('doc, 'c, 'fn, 'acl, 'kc, 'pk, 'c) doc_eff" where
  "mutate_writers op = eff_bind eff_get (\<lambda>s. case op (writers s) of (acl', ch) \<Rightarrow>
     eff_bind (eff_modify (\<lambda>s. end_writer_mutation ((begin_writer_mutation s)\<lparr>writers := acl'\<rparr>))) (\<lambda>_. eff_return ch))"

definition mergeReaders :: "('doc, 'c, 'fn, 'acl, 'kc, 'pk, 'key) doc_env \<Rightarrow> 'c \<Rightarrow> ('doc, 'c, 'fn, 'acl, 'kc, 'pk, unit) doc_eff" where
  "mergeReaders E ch = eff_modify (\<lambda>s. s\<lparr>readers := aclMerge E ch (readers s),
     drainsRequested := (if pendingWelcomes s \<noteq> [] then Suc (drainsRequested s) else drainsRequested s)\<rparr>)"

text \<open>Without an interleaved mutation the first round of the loop of \<^verbatim>\<open>_getWriterKeys\<close> returns.\<close>

definition getWriterKeys :: "('doc, 'c, 'fn, 'acl, 'kc, 'pk, 'key) doc_env \<Rightarrow> ('doc, 'c, 'fn, 'acl, 'kc, 'pk, 'pk list) doc_eff" where
  "getWriterKeys E = eff_bind eff_get (\<lambda>s.
     case (writerMutationsInFlight s, cachedWriterKeys s) of
       (0, Some keys) \<Rightarrow> eff_return keys
     | (0, None) \<Rightarrow> eff_bind (eff_modify (\<lambda>s. s\<lparr>cachedWriterKeys := Some (aclUsers E (writers s))\<rparr>)) (\<lambda>_. eff_return (aclUsers E (writers s)))
     | _ \<Rightarrow> eff_return (aclUsers E (writers s)))"

definition any_verifies :: "('doc, 'c, 'fn, 'acl, 'kc, 'pk, 'key) doc_env \<Rightarrow> 'pk list \<Rightarrow> bytes \<Rightarrow> bytes \<Rightarrow> bool" where
  "any_verifies E keys raw sig = list_ex (\<lambda>k. auth_verify E raw k sig) keys"

definition check_signature_of :: "('doc, 'c, 'fn, 'acl, 'kc, 'pk, 'key) doc_env \<Rightarrow> bytes \<Rightarrow> string \<Rightarrow> ('doc, 'c, 'fn, 'acl, 'kc, 'pk, bool) doc_eff" where
  "check_signature_of E raw signature = eff_bind (getWriterKeys E) (\<lambda>keys.
     if keys = [] then eff_return False
     else (case base64_decode E signature of None \<Rightarrow> eff_return False
           | Some sig \<Rightarrow> eff_return (any_verifies E keys raw sig)))"

definition verifyWriterSignature :: "('doc, 'c, 'fn, 'acl, 'kc, 'pk, 'key) doc_env \<Rightarrow> bytes \<Rightarrow> string \<Rightarrow> ('doc, 'c, 'fn, 'acl, 'kc, 'pk, bool) doc_eff" where
  "verifyWriterSignature E raw signature =
     (if \<not> enableSigning E then eff_return True else check_signature_of E raw signature)"

definition verifyWelcomeWriterSignature :: "('doc, 'c, 'fn, 'acl, 'kc, 'pk, 'key) doc_env \<Rightarrow> bytes \<Rightarrow> string \<Rightarrow> ('doc, 'c, 'fn, 'acl, 'kc, 'pk, bool) doc_eff" where
  "verifyWelcomeWriterSignature E raw signature = check_signature_of E raw signature"

definition verifySnapshotSignature :: "('doc, 'c, 'fn, 'acl, 'kc, 'pk, 'key) doc_env \<Rightarrow> bytes \<Rightarrow> bytes \<Rightarrow> ('doc, 'c, 'fn, 'acl, 'kc, 'pk, bool) doc_eff" where
  "verifySnapshotSignature E payload sig =
     (if \<not> enableSigning E then eff_return True
      else eff_bind (getWriterKeys E) (\<lambda>keys. eff_return (any_verifies E keys payload sig)))"

definition signAsWriterUnconditional :: "('doc, 'c, 'fn, 'acl, 'kc, 'pk, 'key) doc_env \<Rightarrow> ('c, 'pk) sync_message \<Rightarrow> ('doc, 'c, 'fn, 'acl, 'kc, 'pk, string) doc_eff" where
  "signAsWriterUnconditional E m = eff_bind (eff_lift (auth_sign E (serializeSyncMessage E (m\<lparr>m_signature := None\<rparr>))))
     (\<lambda>raw. eff_return (base64_encode E raw))"

definition signAsWriter :: "('doc, 'c, 'fn, 'acl, 'kc, 'pk, 'key) doc_env \<Rightarrow> ('c, 'pk) sync_message \<Rightarrow> ('doc, 'c, 'fn, 'acl, 'kc, 'pk, string) doc_eff" where
  "signAsWriter E m = (if \<not> enableSigning E then eff_return [] else signAsWriterUnconditional E m)"

section \<open>Blocks\<close>

definition tick :: "('doc, 'c, 'fn, 'acl, 'kc, 'pk, nat) doc_eff" where
  "tick = eff_bind eff_get (\<lambda>s. eff_bind (eff_modify (\<lambda>s. s\<lparr>ticks := Suc (ticks s)\<rparr>)) (\<lambda>_. eff_return (ticks s)))"

text \<open>Encrypt with the current key and prepend the key ID and the nonce.\<close>

definition seal_with_current :: "('doc, 'c, 'fn, 'acl, 'kc, 'pk, 'key) doc_env \<Rightarrow> bytes \<Rightarrow> ('doc, 'c, 'fn, 'acl, 'kc, 'pk, bytes) doc_eff" where
  "seal_with_current E content = eff_bind eff_get (\<lambda>s. eff_bind (eff_lift (kcCurrent E (keychain s))) (\<lambda>(keyID, key).
     case key of None \<Rightarrow> eff_throw Empty_keychain
     | Some k \<Rightarrow> eff_bind tick (\<lambda>t. case auth_encrypt E t content k of
         (None, _) \<Rightarrow> eff_throw No_nonce
       | (Some nonce, data) \<Rightarrow> eff_return (keyID @ nonce @ data))))"

definition putBlock :: "('doc, 'c, 'fn, 'acl, 'kc, 'pk, 'key) doc_env \<Rightarrow> 'c \<Rightarrow> ('doc, 'c, 'fn, 'acl, 'kc, 'pk, string) doc_eff" where
  "putBlock E ch = eff_bind (seal_with_current E (serializeChanges E ch)) (\<lambda>b.
     eff_bind (eff_modify (\<lambda>s. s\<lparr>blocks := (blocks s)(addBytes E b \<mapsto> b)\<rparr>)) (\<lambda>_. eff_return (addBytes E b)))"

definition decryptBlock :: "('doc, 'c, 'fn, 'acl, 'kc, 'pk, 'key) doc_env \<Rightarrow> 'kc \<Rightarrow> bytes \<Rightarrow> bytes \<Rightarrow> bytes \<Rightarrow> bytes option" where
  "decryptBlock E kc keyID nonce data = (case kcGetKey E kc keyID of
     Some key \<Rightarrow> auth_decrypt E data key nonce | None \<Rightarrow> None)"

definition getBlock :: "('doc, 'c, 'fn, 'acl, 'kc, 'pk, 'key) doc_env \<Rightarrow> ('doc, 'c, 'fn, 'acl, 'kc, 'pk) swarm_doc \<Rightarrow> string \<Rightarrow> doc_error + 'c" where
  "getBlock E s cid = (case (case blocks s cid of Some b \<Rightarrow> Some b | None \<Rightarrow> fetchRemote E cid) of
     None \<Rightarrow> Err (Block_unavailable cid)
   | Some b \<Rightarrow> (case decryptBlock E (keychain s) (take (keyIDLength E) b)
          (take (nonceLength E) (drop (keyIDLength E) b)) (drop (keyIDLength E + nonceLength E) b) of
       None \<Rightarrow> Err (Undecryptable cid)
     | Some content \<Rightarrow> deserializeChanges E content))"

section \<open>Snapshots, pruning and compaction\<close>

text \<open>\<^verbatim>\<open>collectACLNodes\<close>: the collected ACL leaves and the CIDs of pruned document nodes.\<close>

definition is_acl :: "change_kind \<Rightarrow> bool" where
  "is_acl k \<longleftrightarrow> k = Reader_change \<or> k = Writer_change"

definition leaf_of :: "'c change_node \<Rightarrow> 'c change_node" where
  "leaf_of n = Change_node (node_keyID n) (kind n) (change n) No_children"

definition collect_one :: "string \<Rightarrow> 'c change_node \<Rightarrow> 'c child_list \<times> string list \<Rightarrow> 'c child_list \<times> string list" where
  "collect_one childHash childNode st =
     (if is_acl (kind childNode) then (map_set childHash (leaf_of childNode) (fst st), snd st)
      else (fst st, set_add childHash (snd st)))"

function collectACLNodes :: "'c child_list \<Rightarrow> 'c child_list \<times> string list \<Rightarrow> 'c child_list \<times> string list" where
  "collectACLNodes [] st = st"
| "collectACLNodes ((childHash, childNode) # rest) st = collectACLNodes rest (case children childNode of
     Children ks \<Rightarrow> collectACLNodes ks (collect_one childHash childNode st) | _ \<Rightarrow> collect_one childHash childNode st)"
  by pat_completeness auto
termination
  by (relation "measure (\<lambda>(ks, _). child_size ks)") (auto dest: children_bound)

text \<open>
  The breadth-first pass of \<^verbatim>\<open>_pruneChanges\<close>.  The queue holds the nodes with their paths of children keys; the children of
  a boundary node are replaced, which no other node of the queue can observe, so the replacements are
  collected and applied afterwards.
\<close>

definition count_visit :: "'c change_node \<Rightarrow> int \<Rightarrow> int" where
  "count_visit current visited = (if is_acl (kind current) then visited else visited + 1)"

function prune_queue ::
  "int \<Rightarrow> (string list \<times> 'c change_node) list \<Rightarrow> int \<Rightarrow> string list \<Rightarrow> (string list \<times> 'c children) list
     \<Rightarrow> string list \<times> (string list \<times> 'c children) list" where
  "prune_queue keepCount [] visited pruned edits = (pruned, edits)"
| "prune_queue keepCount ((path, current) # queue) visited pruned edits = (case children current of
     Children kids \<Rightarrow>
       if \<not> is_acl (kind current) \<and> count_visit current visited \<ge> keepCount
       then (case collectACLNodes kids ([], pruned) of (preserved, pruned') \<Rightarrow>
           prune_queue keepCount queue (count_visit current visited) pruned'
             (edits @ [(path, if preserved = [] then No_children else Children preserved)]))
       else prune_queue keepCount (queue @ map (\<lambda>(k, n). (path @ [k], n)) kids) (count_visit current visited) pruned edits
   | _ \<Rightarrow> prune_queue keepCount queue (count_visit current visited) pruned edits)"
  by pat_completeness auto
termination
  by (relation "measure (\<lambda>(_, q, _, _, _). sum_list (map (size \<circ> snd) q))")
    (auto simp: node_size_pos comp_def case_prod_beta dest: kids_sum_bound)

fun rebuild :: "(string list \<times> 'c children) list \<Rightarrow> string list \<Rightarrow> 'c change_node \<Rightarrow> 'c change_node"
  and rebuild_list :: "(string list \<times> 'c children) list \<Rightarrow> string list \<Rightarrow> 'c child_list \<Rightarrow> 'c child_list" where
  "rebuild edits path (Change_node i k c (Children kids)) = (case map_of edits path of
     Some ks \<Rightarrow> Change_node i k c ks | None \<Rightarrow> Change_node i k c (Children (rebuild_list edits path kids)))"
| "rebuild edits path (Change_node i k c No_children) = Change_node i k c No_children"
| "rebuild edits path (Change_node i k c Deferred) = Change_node i k c Deferred"
| "rebuild_list edits path [] = []"
| "rebuild_list edits path ((h, n) # kids) = (h, rebuild edits (path @ [h]) n) # rebuild_list edits path kids"

definition prune_tree :: "int \<Rightarrow> 'c change_node \<Rightarrow> string list \<times> 'c change_node" where
  "prune_tree keepCount tree = (case prune_queue keepCount [([], tree)] 0 [] [] of
     (pruned, edits) \<Rightarrow> (pruned, rebuild edits [] tree))"

definition truthy :: "string option \<Rightarrow> bool" where
  "truthy v \<longleftrightarrow> v \<noteq> None \<and> v \<noteq> Some []"

definition pruneChanges :: "int \<Rightarrow> ('doc, 'c, 'fn, 'acl, 'kc, 'pk, string list) doc_eff" where
  "pruneChanges keepCount = eff_bind eff_get (\<lambda>s. case lastSyncMessage s of
     None \<Rightarrow> eff_return []
   | Some m \<Rightarrow> (case m_changes m of None \<Rightarrow> eff_return []
       | Some tree \<Rightarrow>
           if keepCount \<le> (0 :: int) \<or> \<not> truthy (m_changeId m) then eff_return []
           else (case prune_tree keepCount tree of (pruned, tree') \<Rightarrow>
             eff_bind (eff_modify (\<lambda>s. s\<lparr>lastSyncMessage := Some (m\<lparr>m_changes := Some tree'\<rparr>)\<rparr>)) (\<lambda>_. eff_return pruned))))"

definition gcPrunedBlocks :: "('doc, 'c, 'fn, 'acl, 'kc, 'pk, 'key) doc_env \<Rightarrow> string list \<Rightarrow> ('doc, 'c, 'fn, 'acl, 'kc, 'pk, unit) doc_eff" where
  "gcPrunedBlocks E cids = eff_iter (\<lambda>cid.
     if parseCID E cid \<and> unpinned E cid then eff_modify (\<lambda>s. s\<lparr>blocks := (blocks s)(cid := None)\<rparr>) else eff_return ()) cids"

definition be64 :: "nat \<Rightarrow> bytes" where
  "be64 n = be32 (n div 2 ^ 32) @ be32 n"

definition buildSnapshotSignPayload :: "bytes \<Rightarrow> string \<Rightarrow> int \<Rightarrow> int \<Rightarrow> doc_error + bytes" where
  "buildSnapshotSignPayload stateBytes lastChangeNodeCID timestamp compactedCount =
     (if timestamp < 0 \<or> timestamp > 2 ^ 53 - 1 then Err Bad_timestamp
      else if compactedCount < 0 \<or> compactedCount > 2 ^ 32 - 1 then Err Bad_compacted_count
      else if length (text_encode lastChangeNodeCID) > 2 ^ 32 - 1 then Err Cid_too_large
      else if length stateBytes > 2 ^ 32 - 1 then Err State_too_large
      else Ok ([1] @ be64 (nat timestamp) @ be32 (nat compactedCount)
             @ lp_field (text_encode lastChangeNodeCID) @ lp_field stateBytes))"

text \<open>The part of \<^verbatim>\<open>snapshot\<close> after the node is built: pruning and block collection.\<close>

definition prune_after_snapshot :: "('doc, 'c, 'fn, 'acl, 'kc, 'pk, 'key) doc_env \<Rightarrow> string \<Rightarrow> ('doc, 'c, 'fn, 'acl, 'kc, 'pk, unit) doc_eff" where
  "prune_after_snapshot E boundary = eff_bind eff_get (\<lambda>s.
     if lastSyncMessage s = None \<or> \<not> pruneAfterSnapshot (compactionConfig E) then eff_return ()
     else eff_bind (pruneChanges (keepRecentNodes (compactionConfig E))) (\<lambda>pruned. eff_bind eff_get (\<lambda>s'.
       case lastSyncMessage s' of None \<Rightarrow> eff_return ()
       | Some m \<Rightarrow>
           if gcAfterPrune (compactionConfig E) \<and> pruned \<noteq> [] \<and> m_changes m \<noteq> None \<and> truthy (m_changeId m)
           then gcPrunedBlocks E (filterDeletableCIDs pruned (m_changeId m) (m_changes m) (if boundary \<noteq> [] then [boundary] else []))
           else eff_return ())))"

text \<open>Build, sign and adopt a snapshot of the current state, then prune.\<close>

definition build_snapshot :: "('doc, 'c, 'fn, 'acl, 'kc, 'pk, 'key) doc_env \<Rightarrow> ('doc \<Rightarrow> 'c) \<Rightarrow> nat \<Rightarrow> ('doc, 'c, 'fn, 'acl, 'kc, 'pk, ('c, 'pk) snapshot_node option) doc_eff" where
  "build_snapshot E get_state t = eff_bind eff_get (\<lambda>s.
     let state = get_state (document s);
         boundary = (case lastSyncMessage s of Some m \<Rightarrow> (case m_changeId m of Some c \<Rightarrow> c | None \<Rightarrow> []) | None \<Rightarrow> []);
         timestamp = dateNow E t; count = documentChangeCount s
     in eff_bind (if enableSigning E
          then eff_bind (eff_lift (buildSnapshotSignPayload (serializeChanges E state) boundary timestamp count))
                 (\<lambda>payload. eff_lift (auth_sign E payload))
          else eff_return []) (\<lambda>signature.
        let node = \<lparr>sn_state = state, sn_lastChangeNodeCID = boundary, sn_compactedCount = count, sn_signature = signature,
                    sn_publicKey = Some (userPublicKey E), sn_timestamp = timestamp\<rparr>
        in eff_bind (eff_modify (\<lambda>s. s\<lparr>latestSnapshot := Some node, changesSinceSnapshot := 0\<rparr>)) (\<lambda>_.
           eff_bind (prune_after_snapshot E boundary) (\<lambda>_. eff_return (Some node)))))"

definition take_snapshot :: "('doc, 'c, 'fn, 'acl, 'kc, 'pk, 'key) doc_env \<Rightarrow> ('doc, 'c, 'fn, 'acl, 'kc, 'pk, ('c, 'pk) snapshot_node option) doc_eff" where
  "take_snapshot E = eff_bind (ensureCurrentUserCanWrite E) (\<lambda>_.
     case getSnapshot E of
       None \<Rightarrow> eff_bind (eff_modify (\<lambda>s. s\<lparr>snapshotUnsupported := True\<rparr>)) (\<lambda>_. eff_return None)
     | Some get_state \<Rightarrow> eff_bind tick (build_snapshot E get_state))"

definition maybeCompact :: "('doc, 'c, 'fn, 'acl, 'kc, 'pk, 'key) doc_env \<Rightarrow> ('doc, 'c, 'fn, 'acl, 'kc, 'pk, unit) doc_eff" where
  "maybeCompact E = eff_bind eff_get (\<lambda>s.
     if \<not> cc_enabled (compactionConfig E) \<or> snapshotUnsupported s then eff_return ()
     else if compactionInProgress s then eff_return ()
     else if documentChangeCount s < minChangesBeforeSnapshot (compactionConfig E) then eff_return ()
     else if changesSinceSnapshot s < snapshotInterval (compactionConfig E) then eff_return ()
     else if \<not> aclCheck E (writers s) (userPublicKey E) then eff_return ()
     else eff_bind (eff_modify (\<lambda>s. s\<lparr>compactionInProgress := True\<rparr>)) (\<lambda>_.
       eff_finally (eff_bind (take_snapshot E) (\<lambda>_. eff_return ())) (\<lambda>s. s\<lparr>compactionInProgress := False\<rparr>)))"

section \<open>Publishing a change\<close>

definition createSyncMessage :: "('doc, 'c, 'fn, 'acl, 'kc, 'pk, 'key) doc_env \<Rightarrow> ('doc, 'c, 'fn, 'acl, 'kc, 'pk) swarm_doc \<Rightarrow> ('c, 'pk) sync_message" where
  "createSyncMessage E s = (case lastSyncMessage s of Some m \<Rightarrow> m | None \<Rightarrow> empty_message (documentPath E))"

definition trackTip :: "string \<Rightarrow> change_kind \<Rightarrow> ('doc, 'c, 'fn, 'acl, 'kc, 'pk, unit) doc_eff" where
  "trackTip cid k = eff_modify (\<lambda>s. s\<lparr>recentTips := trackTipInList (recentTips s) \<lparr>tip_cid = cid, tip_kind = k\<rparr> (int MAX_RECENT_TIPS)\<rparr>)"

definition add_hash :: "string \<Rightarrow> ('doc, 'c, 'fn, 'acl, 'kc, 'pk, unit) doc_eff" where
  "add_hash cid = eff_modify (\<lambda>s. s\<lparr>hashes := set_add cid (hashes s)\<rparr>)"

definition count_document_change :: "('doc, 'c, 'fn, 'acl, 'kc, 'pk, unit) doc_eff" where
  "count_document_change = eff_modify (\<lambda>s.
     s\<lparr>documentChangeCount := documentChangeCount s + 1, changesSinceSnapshot := changesSinceSnapshot s + 1\<rparr>)"

text \<open>The children of a new change node: the previous tree under its root and stubs of other recent tips.\<close>

definition add_cross_links :: "recent_tip list \<Rightarrow> 'c child_list \<Rightarrow> 'c child_list" where
  "add_cross_links tips kids = fold (\<lambda>tip ks. if map_has ks (tip_cid tip) then ks
     else map_set (tip_cid tip) (Change_node None (tip_kind tip) None No_children) ks) tips kids"

definition change_children :: "('c, 'pk) sync_message \<Rightarrow> recent_tip list \<Rightarrow> string \<Rightarrow> 'c children" where
  "change_children m tips hash = (case (m_changeId m, m_changes m) of
     (Some p, Some tree) \<Rightarrow> if p = [] then No_children
       else Children (add_cross_links (selectCrossLinks tips (Some p) hash (int MAX_CROSS_LINKS)) [(p, tree)])
   | _ \<Rightarrow> No_children)"

definition publish :: "('doc, 'c, 'fn, 'acl, 'kc, 'pk, 'key) doc_env \<Rightarrow> bytes \<Rightarrow> ('doc, 'c, 'fn, 'acl, 'kc, 'pk, unit) doc_eff" where
  "publish E b = eff_bind tick (\<lambda>t. if publishes E t
     then eff_modify (\<lambda>s. s\<lparr>published := published s @ [(topic E, b)]\<rparr>) else eff_throw Publish_failed)"

definition kid_list :: "'c children \<Rightarrow> 'c child_list" where
  "kid_list ks = (case ks of Children kids \<Rightarrow> kids | _ \<Rightarrow> [])"

text \<open>The end of \<^verbatim>\<open>_makeChange\<close>: encrypt and publish the message, run the handlers, count the change.\<close>

definition announce :: "('doc, 'c, 'fn, 'acl, 'kc, 'pk, 'key) doc_env \<Rightarrow> ('c, 'pk) sync_message \<Rightarrow> string \<Rightarrow> change_kind
    \<Rightarrow> ('doc, 'c, 'fn, 'acl, 'kc, 'pk, unit) doc_eff" where
  "announce E m hash k = eff_bind (seal_with_current E (serializeSyncMessage E m)) (\<lambda>b.
     eff_bind (publish E b) (\<lambda>_.
     eff_bind (fireLocalUpdateHandlers E [hash]) (\<lambda>_.
     if k = Document_change then eff_bind count_document_change (\<lambda>_. maybeCompact E) else eff_return ())))"

definition makeChange :: "('doc, 'c, 'fn, 'acl, 'kc, 'pk, 'key) doc_env \<Rightarrow> 'c \<Rightarrow> change_kind \<Rightarrow> ('doc, 'c, 'fn, 'acl, 'kc, 'pk, unit) doc_eff" where
  "makeChange E ch k = eff_bind (putBlock E ch) (\<lambda>hash. eff_bind (add_hash hash) (\<lambda>_. eff_bind eff_get (\<lambda>s.
     let m = createSyncMessage E s;
         node = Change_node None k (Some ch) (change_children m (recentTips s) hash);
         m' = m\<lparr>m_changeId := Some hash, m_changes := Some node\<rparr>
     in eff_bind (eff_modify (\<lambda>s. s\<lparr>referencedAncestors := fold set_add (map fst (kid_list (children node))) (referencedAncestors s)\<rparr>)) (\<lambda>_.
        eff_bind (trackTip hash k) (\<lambda>_.
        eff_bind (signAsWriter E m') (\<lambda>signature.
        let m'' = m'\<lparr>m_signature := Some signature\<rparr> in
        eff_bind (eff_modify (\<lambda>s. s\<lparr>lastSyncMessage := Some m''\<rparr>)) (\<lambda>_.
        announce E m'' hash k)))))))"

section \<open>Applying a sync message\<close>

text \<open>
  The first loop of \<^verbatim>\<open>_syncDocumentChanges\<close>: inline entries are applied, the others are collected as missing.
  The accumulator is the new document, the applied entries and the missing ones.
\<close>

fun apply_sent :: "('doc, 'c, 'fn, 'acl, 'kc, 'pk, 'key) doc_env \<Rightarrow> 'c sync_entry list \<Rightarrow> 'doc \<times> (string \<times> change_kind) list \<times> (string \<times> change_kind) list
    \<Rightarrow> ('doc, 'c, 'fn, 'acl, 'kc, 'pk, 'doc \<times> (string \<times> change_kind) list \<times> (string \<times> change_kind) list) doc_eff" where
  "apply_sent E [] acc = eff_return acc"
| "apply_sent E ((h, k, None) # entries) (doc, applied, missing) = apply_sent E entries (doc, applied, missing @ [(h, k)])"
| "apply_sent E ((h, k, Some ch) # entries) (doc, applied, missing) = (case k of
     Document_change \<Rightarrow> eff_bind count_document_change (\<lambda>_. apply_sent E entries (remoteChange E doc ch, applied @ [(h, k)], missing))
   | Reader_change \<Rightarrow> eff_bind (mergeReaders E ch) (\<lambda>_. apply_sent E entries (doc, applied @ [(h, k)], missing))
   | Writer_change \<Rightarrow> eff_bind (mergeWriters E ch) (\<lambda>_. apply_sent E entries (doc, applied @ [(h, k)], missing)))"

definition commit_sent :: "('doc, 'c, 'fn, 'acl, 'kc, 'pk, 'key) doc_env \<Rightarrow> 'doc \<Rightarrow> (string \<times> change_kind) list \<Rightarrow> ('doc, 'c, 'fn, 'acl, 'kc, 'pk, unit) doc_eff" where
  "commit_sent E doc applied = eff_bind (eff_modify (\<lambda>s. s\<lparr>document := doc, hashes := fold set_add (map fst applied) (hashes s)\<rparr>)) (\<lambda>_.
     eff_bind (eff_iter (\<lambda>(h, k). trackTip h k) (rev applied)) (\<lambda>_. fireRemoteUpdateHandlers E (map fst applied)))"

text \<open>One fetched block; failures, also of a handler, are caught and logged.\<close>

definition apply_fetched :: "('doc, 'c, 'fn, 'acl, 'kc, 'pk, 'key) doc_env \<Rightarrow> string \<times> change_kind \<Rightarrow> ('doc, 'c, 'fn, 'acl, 'kc, 'pk, unit) doc_eff" where
  "apply_fetched E = (\<lambda>(h, k). eff_bind eff_get (\<lambda>s. case getBlock E s h of
     Inl _ \<Rightarrow> eff_return ()
   | Inr ch \<Rightarrow> eff_catch (
       eff_bind (case k of
           Document_change \<Rightarrow> eff_modify (\<lambda>s. s\<lparr>document := remoteChange E (document s) ch\<rparr>)
         | Reader_change \<Rightarrow> mergeReaders E ch
         | Writer_change \<Rightarrow> mergeWriters E ch) (\<lambda>_.
       eff_bind (add_hash h) (\<lambda>_.
       eff_bind (eff_when (k = Document_change) count_document_change) (\<lambda>_.
       eff_bind (trackTip h k) (\<lambda>_. fireRemoteUpdateHandlers E [h]))))) (\<lambda>_. eff_return ())))"

definition refreshLastSyncMessageFromSync :: "('doc, 'c, 'fn, 'acl, 'kc, 'pk, 'key) doc_env \<Rightarrow> string option \<Rightarrow> 'c change_node \<Rightarrow> ('doc, 'c, 'fn, 'acl, 'kc, 'pk, unit) doc_eff" where
  "refreshLastSyncMessageFromSync E receivedChangeId receivedChanges = eff_modify (\<lambda>s.
     let adopt = (\<lambda>m. s\<lparr>lastSyncMessage := Some (m\<lparr>m_changeId := receivedChangeId, m_changes := Some receivedChanges,
           m_signature := None, m_tips := None, m_tipsHash := None\<rparr>)\<rparr>)
     in if \<not> truthy receivedChangeId then s
        else let prior = (case lastSyncMessage s of Some m \<Rightarrow> m_changeId m | None \<Rightarrow> None) in
          if \<not> truthy prior then adopt (createSyncMessage E s)
          else if prior = receivedChangeId then s
          else if treeContainsCid receivedChangeId (Some receivedChanges) prior then adopt (createSyncMessage E s)
          else s)"

text \<open>The fetches of the missing entries, up to a CID that does not parse, and the steps after them.\<close>

definition finish_sync :: "('doc, 'c, 'fn, 'acl, 'kc, 'pk, 'key) doc_env \<Rightarrow> string option \<Rightarrow> 'c change_node \<Rightarrow> (string \<times> change_kind) list
    \<Rightarrow> ('doc, 'c, 'fn, 'acl, 'kc, 'pk, unit) doc_eff" where
  "finish_sync E changeId tree missing = (let launched = takeWhile (\<lambda>(h, _). parseCID E h) missing in
     eff_bind (eff_iter (apply_fetched E) (schedule E launched)) (\<lambda>_.
     if length launched < length missing then eff_throw (Bad_cid (fst (missing ! length launched)))
     else eff_bind (refreshLastSyncMessageFromSync E changeId tree) (\<lambda>_. maybeCompact E)))"

definition syncDocumentChanges :: "('doc, 'c, 'fn, 'acl, 'kc, 'pk, 'key) doc_env \<Rightarrow> string option \<Rightarrow> 'c change_node \<Rightarrow> ('doc, 'c, 'fn, 'acl, 'kc, 'pk, unit) doc_eff" where
  "syncDocumentChanges E changeId tree = eff_bind (eff_modify (\<lambda>s.
       s\<lparr>referencedAncestors := collectReferencedAncestors changeId tree (referencedAncestors s)\<rparr>)) (\<lambda>_.
     eff_bind eff_get (\<lambda>s.
     case mergeRemoteSyncTree changeId tree (case lastSyncMessage s of Some m \<Rightarrow> m_changeId m | None \<Rightarrow> None) (set (hashes s)) of
       Inl e \<Rightarrow> eff_throw (Dag_error e)
     | Inr entries \<Rightarrow> eff_bind (apply_sent E entries (document s, [], [])) (\<lambda>(doc, applied, missing).
         eff_bind (if applied \<noteq> [] then commit_sent E doc applied else eff_return ()) (\<lambda>_.
         finish_sync E changeId tree missing))))"

text \<open>\<^verbatim>\<open>_applyACLFromTree\<close>: the ACL payloads of the tree in the order of the recursion.\<close>

fun acl_changes :: "'c change_node \<Rightarrow> (change_kind \<times> 'c) list" and acl_changes_list :: "'c child_list \<Rightarrow> (change_kind \<times> 'c) list" where
  "acl_changes (Change_node i k c (Children kids)) =
     (case c of Some ch \<Rightarrow> if is_acl k then [(k, ch)] else [] | None \<Rightarrow> []) @ acl_changes_list kids"
| "acl_changes (Change_node i k c No_children) = (case c of Some ch \<Rightarrow> if is_acl k then [(k, ch)] else [] | None \<Rightarrow> [])"
| "acl_changes (Change_node i k c Deferred) = (case c of Some ch \<Rightarrow> if is_acl k then [(k, ch)] else [] | None \<Rightarrow> [])"
| "acl_changes_list [] = []"
| "acl_changes_list ((h, n) # kids) = acl_changes n @ acl_changes_list kids"

definition applyACLFromTree :: "('doc, 'c, 'fn, 'acl, 'kc, 'pk, 'key) doc_env \<Rightarrow> 'c change_node \<Rightarrow> ('doc, 'c, 'fn, 'acl, 'kc, 'pk, unit) doc_eff" where
  "applyACLFromTree E tree = eff_iter (\<lambda>(k, ch). if k = Writer_change then mergeWriters E ch else mergeReaders E ch) (acl_changes tree)"

definition newer_snapshot :: "('c, 'pk) snapshot_node option \<Rightarrow> ('c, 'pk) snapshot_node \<Rightarrow> bool" where
  "newer_snapshot latest incoming = (case latest of None \<Rightarrow> True
   | Some l \<Rightarrow> sn_compactedCount incoming > sn_compactedCount l
       \<or> sn_compactedCount incoming = sn_compactedCount l \<and> sn_lastChangeNodeCID incoming > sn_lastChangeNodeCID l)"

definition snapshot_valid :: "('doc, 'c, 'fn, 'acl, 'kc, 'pk, 'key) doc_env \<Rightarrow> ('c, 'pk) snapshot_node \<Rightarrow> ('doc, 'c, 'fn, 'acl, 'kc, 'pk, bool) doc_eff" where
  "snapshot_valid E incoming =
     (if \<not> enableSigning E then eff_return True
      else (case buildSnapshotSignPayload (serializeChanges E (sn_state incoming)) (sn_lastChangeNodeCID incoming)
              (sn_timestamp incoming) (sn_compactedCount incoming) of
          Inl _ \<Rightarrow> eff_return False
        | Inr payload \<Rightarrow> verifySnapshotSignature E payload (sn_signature incoming)))"

definition apply_snapshot :: "('doc, 'c, 'fn, 'acl, 'kc, 'pk, 'key) doc_env \<Rightarrow> ('c, 'pk) snapshot_node \<Rightarrow> ('doc, 'c, 'fn, 'acl, 'kc, 'pk, unit) doc_eff" where
  "apply_snapshot E incoming = eff_modify (\<lambda>s. s\<lparr>
     document := (case applySnapshot E of Some f \<Rightarrow> f (document s) (sn_state incoming) | None \<Rightarrow> remoteChange E (document s) (sn_state incoming)),
     latestSnapshot := Some incoming,
     documentChangeCount := max (documentChangeCount s) (sn_compactedCount incoming),
     changesSinceSnapshot := 0,
     hashes := (if sn_lastChangeNodeCID incoming \<noteq> [] then set_add (sn_lastChangeNodeCID incoming) (hashes s) else hashes s)\<rparr>)"

definition receive_snapshot :: "('doc, 'c, 'fn, 'acl, 'kc, 'pk, 'key) doc_env \<Rightarrow> ('c, 'pk) snapshot_node \<Rightarrow> ('doc, 'c, 'fn, 'acl, 'kc, 'pk, unit) doc_eff" where
  "receive_snapshot E incoming = eff_bind eff_get (\<lambda>s.
     if newer_snapshot (latestSnapshot s) incoming
     then eff_bind (snapshot_valid E incoming) (\<lambda>ok. if ok then apply_snapshot E incoming else eff_return ())
     else eff_return ())"

definition authenticate :: "('doc, 'c, 'fn, 'acl, 'kc, 'pk, 'key) doc_env \<Rightarrow> ('c, 'pk) sync_message \<Rightarrow> bool \<Rightarrow> ('doc, 'c, 'fn, 'acl, 'kc, 'pk, bool) doc_eff" where
  "authenticate E m verifySignature =
     (if enableSigning E \<and> \<not> truthy (m_signature m) then eff_return False
      else if enableSigning E \<and> verifySignature
      then verifyWriterSignature E (serializeSyncMessage E (m\<lparr>m_signature := None\<rparr>)) (the (m_signature m))
      else eff_return True)"

definition merge_keychain :: "('doc, 'c, 'fn, 'acl, 'kc, 'pk, 'key) doc_env \<Rightarrow> 'c \<Rightarrow> ('doc, 'c, 'fn, 'acl, 'kc, 'pk, unit) doc_eff" where
  "merge_keychain E ch = eff_bind eff_get (\<lambda>s. eff_bind (eff_lift (kcMerge E ch (keychain s)))
     (\<lambda>kc. eff_modify (\<lambda>s. s\<lparr>keychain := kc\<rparr>)))"

definition sync :: "('doc, 'c, 'fn, 'acl, 'kc, 'pk, 'key) doc_env \<Rightarrow> ('c, 'pk) sync_message \<Rightarrow> bool \<Rightarrow> ('doc, 'c, 'fn, 'acl, 'kc, 'pk, bool) doc_eff" where
  "sync E m verifySignature = eff_bind (authenticate E m verifySignature) (\<lambda>ok.
     if \<not> ok then eff_return False
     else eff_bind (case m_keychainChanges m of Some ch \<Rightarrow> merge_keychain E ch | None \<Rightarrow> eff_return ()) (\<lambda>_.
          eff_bind (case m_changes m of Some tree \<Rightarrow> applyACLFromTree E tree | None \<Rightarrow> eff_return ()) (\<lambda>_.
          eff_bind (case m_snapshot m of Some incoming \<Rightarrow> receive_snapshot E incoming | None \<Rightarrow> eff_return ()) (\<lambda>_.
          eff_bind (case m_changes m of Some tree \<Rightarrow> syncDocumentChanges E (m_changeId m) tree | None \<Rightarrow> eff_return ()) (\<lambda>_.
          eff_return True)))))"

section \<open>Local changes and transactions\<close>

definition do_change :: "('doc, 'c, 'fn, 'acl, 'kc, 'pk, 'key) doc_env \<Rightarrow> 'fn \<Rightarrow> string \<Rightarrow> ('doc, 'c, 'fn, 'acl, 'kc, 'pk, unit) doc_eff" where
  "do_change E changeFn text_message = eff_bind eff_get (\<lambda>s.
     if inTransaction s then eff_throw Use_addChange
     else eff_bind (ensureCurrentUserCanWrite E) (\<lambda>_.
          eff_bind (eff_lift (localChange E (document s) text_message [changeFn])) (\<lambda>(doc, ch).
          eff_bind (eff_modify (\<lambda>s. s\<lparr>document := doc\<rparr>)) (\<lambda>_. makeChange E ch Document_change))))"

definition startChange :: "('doc, 'c, 'fn, 'acl, 'kc, 'pk, unit) doc_eff" where
  "startChange = eff_bind eff_get (\<lambda>s. if inTransaction s then eff_throw Transaction_in_progress
     else eff_modify (\<lambda>s. s\<lparr>inTransaction := True, pendingChangeFns := []\<rparr>))"

definition addChange :: "'fn \<Rightarrow> ('doc, 'c, 'fn, 'acl, 'kc, 'pk, unit) doc_eff" where
  "addChange changeFn = eff_bind eff_get (\<lambda>s. if \<not> inTransaction s then eff_throw No_transaction
     else if committing s then eff_throw Committing
     else eff_modify (\<lambda>s. s\<lparr>pendingChangeFns := pendingChangeFns s @ [changeFn]\<rparr>))"

text \<open>The rollback of \<^verbatim>\<open>endChange\<close>: entries of the two sets past their sizes at the start are removed.\<close>

definition rollback :: "('doc, 'c, 'fn, 'acl, 'kc, 'pk) swarm_doc \<Rightarrow> ('doc, 'c, 'fn, 'acl, 'kc, 'pk) swarm_doc \<Rightarrow> ('doc, 'c, 'fn, 'acl, 'kc, 'pk) swarm_doc" where
  "rollback before s = s\<lparr>document := document before,
     hashes := (if length (hashes s) > length (hashes before) then take (length (hashes before)) (hashes s) else hashes s),
     referencedAncestors := (if length (referencedAncestors s) > length (referencedAncestors before)
       then take (length (referencedAncestors before)) (referencedAncestors s) else referencedAncestors s),
     lastSyncMessage := lastSyncMessage before, documentChangeCount := documentChangeCount before,
     changesSinceSnapshot := changesSinceSnapshot before, recentTips := recentTips before,
     inTransaction := False, pendingChangeFns := []\<rparr>"

definition commit_pending :: "('doc, 'c, 'fn, 'acl, 'kc, 'pk, 'key) doc_env \<Rightarrow> 'fn list \<Rightarrow> string \<Rightarrow> ('doc, 'c, 'fn, 'acl, 'kc, 'pk, unit) doc_eff" where
  "commit_pending E fns text_message = eff_bind (ensureCurrentUserCanWrite E) (\<lambda>_. eff_bind eff_get (\<lambda>s.
     eff_bind (eff_lift (localChange E (document s) text_message fns)) (\<lambda>(doc, ch).
     eff_bind (eff_modify (\<lambda>s. s\<lparr>document := doc\<rparr>)) (\<lambda>_.
     eff_bind (makeChange E ch Document_change) (\<lambda>_.
     eff_modify (\<lambda>s. s\<lparr>inTransaction := False, pendingChangeFns := []\<rparr>))))))"

definition endChange :: "('doc, 'c, 'fn, 'acl, 'kc, 'pk, 'key) doc_env \<Rightarrow> string \<Rightarrow> ('doc, 'c, 'fn, 'acl, 'kc, 'pk, unit) doc_eff" where
  "endChange E text_message = eff_bind eff_get (\<lambda>s.
     if \<not> inTransaction s then eff_throw No_transaction
     else if committing s then eff_throw Committing
     else if pendingChangeFns s = [] then eff_modify (\<lambda>s. s\<lparr>inTransaction := False, pendingChangeFns := []\<rparr>)
     else eff_bind (eff_modify (\<lambda>s. s\<lparr>committing := True\<rparr>)) (\<lambda>_.
       eff_finally
         (eff_catch (commit_pending E (pendingChangeFns s) text_message)
            (\<lambda>err. eff_bind (eff_modify (rollback s)) (\<lambda>_. eff_throw err)))
         (\<lambda>s. s\<lparr>committing := False\<rparr>)))"

definition addWriter :: "('doc, 'c, 'fn, 'acl, 'kc, 'pk, 'key) doc_env \<Rightarrow> 'pk \<Rightarrow> ('doc, 'c, 'fn, 'acl, 'kc, 'pk, unit) doc_eff" where
  "addWriter E writer = eff_bind (ensureCurrentUserCanWrite E) (\<lambda>_. eff_bind eff_get (\<lambda>s.
     if aclCheck E (writers s) writer then eff_return ()
     else eff_bind (mutate_writers (aclAdd E writer)) (\<lambda>ch. makeChange E ch Writer_change)))"

section \<open>Views\<close>

definition currentFrontier :: "('doc, 'c, 'fn, 'acl, 'kc, 'pk) swarm_doc \<Rightarrow> string list" where
  "currentFrontier s = filter (\<lambda>cid. cid \<notin> set (referencedAncestors s)) (hashes s)"

definition servedFrontier :: "('doc, 'c, 'fn, 'acl, 'kc, 'pk) swarm_doc \<Rightarrow> string list" where
  "servedFrontier s = computeServedFrontier
     (case lastSyncMessage s of Some m \<Rightarrow> m_changeId m | None \<Rightarrow> None)
     (case lastSyncMessage s of Some m \<Rightarrow> m_changes m | None \<Rightarrow> None)
     (map_option sn_lastChangeNodeCID (latestSnapshot s))"

definition historySize :: "('doc, 'c, 'fn, 'acl, 'kc, 'pk) swarm_doc \<Rightarrow> nat" where
  "historySize s = length (hashes s)"

definition hasChange :: "('doc, 'c, 'fn, 'acl, 'kc, 'pk) swarm_doc \<Rightarrow> string \<Rightarrow> bool" where
  "hasChange s cid \<longleftrightarrow> cid \<in> set (hashes s)"

end
