(* ===== verification/DocSample.thy ===== *)
theory DocSample
  imports DocCore
begin

text \<open>
  Concrete providers for the document model: a log of strings as the CRDT, key lists as ACLs, one document key, signatures that
  name the signer and repeat the signed bytes, and CIDs that are the stored bytes.  The witnesses of the document properties run in this environment.
\<close>

definition text_decode :: "bytes \<Rightarrow> string" where
  "text_decode b = map (\<lambda>w. char_of (unat w)) b"

type_synonym sample_env = "(string list, string, string, string list, unit, string, unit) doc_env"
type_synonym sample_doc = "(string list, string, string, string list, unit, string) swarm_doc"

definition sample_env :: "string \<Rightarrow> compaction_config \<Rightarrow> (nat \<Rightarrow> bool) \<Rightarrow> sample_env" where
  "sample_env user cfg pubs = \<lparr>documentPath = ''/doc'', userPublicKey = user, enableSigning = True, topic = ''topic'',
     compactionConfig = cfg, newDocument = [], remoteChange = (\<lambda>d c. d @ [c]),
     localChange = (\<lambda>d m fns. Ok (d @ fns, concat fns)), applySnapshot = Some (\<lambda>d c. [c]), getSnapshot = Some concat,
     aclInit = [], aclMerge = set_add, aclAdd = (\<lambda>pk acl. (set_add pk acl, pk)), aclRemove = (\<lambda>pk acl. (filter (\<lambda>p. p \<noteq> pk) acl, pk)),
     aclCheck = (\<lambda>acl pk. pk \<in> set acl), aclUsers = (\<lambda>acl. acl),
     kcInit = (), kcMerge = (\<lambda>_ _. Ok ()), kcCurrent = (\<lambda>_. Ok ([7], Some ())), kcGetKey = (\<lambda>_ i. if i = [7] then Some () else None),
     kcKeys = (\<lambda>_. Ok [([7], ())]), kcHistory = (\<lambda>_. ''history''), kcCurrentKeyChange = (\<lambda>_. Ok ''current''), kcHistorySince = None,
     keyIDLength = 1, nonceLength = 1,
     auth_sign = (\<lambda>b. Ok (text_encode user @ b)), auth_verify = (\<lambda>b pk sig. sig = text_encode pk @ b),
     auth_encrypt = (\<lambda>t b k. (Some [of_nat t], b)), auth_decrypt = (\<lambda>d k n. Some d),
     serializeChanges = text_encode, deserializeChanges = (\<lambda>b. Ok (text_decode b)),
     serializeSyncMessage = (\<lambda>m. text_encode (case m_changeId m of Some c \<Rightarrow> c | None \<Rightarrow> [])),
     deserializeSyncMessage = (\<lambda>b. Err (Provider_threw [])),
     base64_decode = (\<lambda>s. Some (text_encode s)), base64_encode = text_decode, addBytes = text_decode,
     parseCID = (\<lambda>c. c \<noteq> []), fetchRemote = (\<lambda>_. None), schedule = (\<lambda>xs. xs), unpinned = (\<lambda>_. True),
     publishes = pubs, callHandler = (\<lambda>_ _ _ _ _. True), dateNow = int\<rparr>"

definition eager_compaction :: compaction_config where
  "eager_compaction = \<lparr>cc_enabled = True, snapshotInterval = 2, minChangesBeforeSnapshot = 2,
     pruneAfterSnapshot = True, gcAfterPrune = True, keepRecentNodes = 1\<rparr>"

text \<open>A document of the user \<^verbatim>\<open>a\<close> in which \<^verbatim>\<open>a\<close> is the only writer.\<close>

definition sample_doc :: "sample_env \<Rightarrow> sample_doc" where
  "sample_doc E = (new_doc E)\<lparr>writers := [''a'']\<rparr>"

definition sample_failing :: sample_env where
  "sample_failing = sample_env ''a'' defaultCompactionConfig (\<lambda>_. False)"

definition sample_pending :: sample_doc where
  "sample_pending = (sample_doc sample_failing)\<lparr>inTransaction := True, pendingChangeFns := [''x'', ''y'']\<rparr>"

text \<open>The definitions that run the document operations in a concrete environment.\<close>

lemmas doc_run = endChange_def commit_pending_def makeChange_def announce_def putBlock_def seal_with_current_def tick_def ensureCurrentUserCanWrite_def
  add_hash_def createSyncMessage_def change_children_def trackTip_def signAsWriter_def signAsWriterUnconditional_def publish_def
  fireLocalUpdateHandlers_def fire_handlers_def count_document_change_def maybeCompact_def Let_def eff_finally_def eff_catch_def
  eff_bind_def

lemmas sample_run = sample_env_def sample_doc_def new_doc_def empty_message_def sample_failing_def sample_pending_def defaultCompactionConfig_def
  trackTipInList_def kid_list_def

lemma sample_commit_fails: "fst (endChange sample_failing [] sample_pending) = Err Publish_failed"
  by (simp add: doc_run sample_run)

end
