(* ===== verification/DocTransaction.thy ===== *)
theory DocTransaction
  imports DocSample "HOL-Library.Sublist"
begin

text \<open>
  Transactions of \<^verbatim>\<open>collabswarm-document.ts\<close>: a failing \<^verbatim>\<open>endChange\<close> restores the document exactly, and a published change is the new head.
\<close>

section \<open>What a failing commit may have changed\<close>

text \<open>Two states that differ only in the fields that \<^verbatim>\<open>_makeChange\<close> writes before it can fail; the two sets only grow at their ends.\<close>

definition frame where
  "frame s = (readers s, writers s, keychain s, latestSnapshot s, compactionInProgress s, snapshotUnsupported s, pendingChangeFns s,
     inTransaction s, committing s, remoteHandlers s, localHandlers s, cachedWriterKeys s, writerKeysVersion s,
     writerMutationsInFlight s, historyVisibility s, invitationEpoch s, pendingWelcomes s, ratchetWelcome s, drainsRequested s)"

definition working :: "('doc, 'c, 'fn, 'acl, 'kc, 'pk) swarm_doc \<Rightarrow> ('doc, 'c, 'fn, 'acl, 'kc, 'pk) swarm_doc \<Rightarrow> bool" where
  "working s t \<longleftrightarrow> frame t = frame s \<and> prefix (hashes s) (hashes t) \<and> prefix (referencedAncestors s) (referencedAncestors t)"

lemma working_refl: "working s s"
  by (simp add: working_def)

lemma prefix_set_add: "prefix xs (set_add x xs)"
  by (simp add: set_add_def)

lemma prefix_fold_set_add: "prefix xs (fold set_add ys xs)"
  by (induction ys arbitrary: xs) (auto intro: prefix_order.trans [OF prefix_set_add])

lemma working_upd:
  assumes "working s t"
  shows "working s (t\<lparr>document := d\<rparr>)" "working s (t\<lparr>ticks := n\<rparr>)" "working s (t\<lparr>published := p\<rparr>)" "working s (t\<lparr>blocks := b\<rparr>)"
    "working s (t\<lparr>recentTips := rt\<rparr>)" "working s (t\<lparr>lastSyncMessage := m\<rparr>)"
    "working s (t\<lparr>documentChangeCount := c1, changesSinceSnapshot := c2\<rparr>)"
    "working s (t\<lparr>hashes := set_add h (hashes t)\<rparr>)"
    "working s (t\<lparr>referencedAncestors := fold set_add hs (referencedAncestors t)\<rparr>)"
  using assms by (auto simp: working_def frame_def intro: prefix_order.trans prefix_set_add prefix_fold_set_add)

lemma keeps_working_basic [keeps_intro]:
  "keeps (working s) tick" "keeps (working s) (add_hash h)" "keeps (working s) (trackTip h k)"
  "keeps (working s) count_document_change"
  by (auto simp: tick_def add_hash_def trackTip_def count_document_change_def intro!: keeps_intro working_upd)

lemma keeps_fire_handlers [keeps_intro]: "keeps I (fire_handlers E hs cids)"
  unfolding fire_handlers_def by (intro keeps_intro)

lemma keeps_fire [keeps_intro]: "keeps I (fireLocalUpdateHandlers E cids)" "keeps I (fireRemoteUpdateHandlers E cids)"
  unfolding fireLocalUpdateHandlers_def fireRemoteUpdateHandlers_def by (intro keeps_intro)+

lemma keeps_pure_checks [keeps_intro]:
  "keeps I (ensureCurrentUserCanWrite E)" "keeps I (signAsWriterUnconditional E m)" "keeps I (signAsWriter E m)"
  unfolding ensureCurrentUserCanWrite_def signAsWriter_def signAsWriterUnconditional_def by (intro keeps_intro)+

lemma keeps_seal [keeps_intro]: "(\<And>s n. I s \<Longrightarrow> I (s\<lparr>ticks := n\<rparr>)) \<Longrightarrow> keeps I (seal_with_current E b)"
  unfolding seal_with_current_def tick_def by (intro keeps_intro; simp)

lemma keeps_working_blocks [keeps_intro]:
  "keeps (working s) (putBlock E ch)" "keeps (working s) (publish E b)"
  unfolding putBlock_def publish_def tick_def by (intro keeps_intro working_upd; assumption)+

text \<open>Compaction fails only before it has changed anything but the clock.\<close>

lemma pruneChanges_Ok [nothrow_intro]: "never_throws (pruneChanges k)"
  unfolding pruneChanges_def by (intro nothrow_intro)

lemma prune_after_snapshot_Ok [nothrow_intro]: "never_throws (prune_after_snapshot E b)"
  unfolding prune_after_snapshot_def gcPrunedBlocks_def by (intro nothrow_intro)

lemma take_snapshot_Err:
  assumes "take_snapshot E s = (Err e, t)"
  shows "\<exists>n. t = s\<lparr>ticks := n\<rparr>"
proof -
  have [simp]: "prune_after_snapshot E b s' \<noteq> (Err e', t')" for b s' e' t'
    by (rule never_throwsD) (rule nothrow_intro)
  have self: "\<exists>n. s = s\<lparr>ticks := n\<rparr>" by (intro exI [of _ "ticks s"]) simp
  show ?thesis using assms self unfolding take_snapshot_def build_snapshot_def ensureCurrentUserCanWrite_def tick_def
    by (auto simp: eff_bind_eq Let_def split: if_splits option.splits)
qed

lemma maybeCompact_Err:
  assumes "maybeCompact E s = (Err e, t)"
  shows "\<exists>n. t = s\<lparr>ticks := n\<rparr>"
proof -
  have "\<not> compactionInProgress s \<and> (\<exists>n. t = s\<lparr>ticks := n, compactionInProgress := False\<rparr>)"
    using assms unfolding maybeCompact_def
    by (auto simp: eff_bind_eq eff_finally_def split: if_splits prod.splits dest!: take_snapshot_Err)
  then show ?thesis by (cases s) auto
qed

lemma keeps_on_throw_maybeCompact: "keeps_on_throw (working s) (maybeCompact E)"
  unfolding keeps_on_throw_def using maybeCompact_Err working_upd(2) by metis

lemma makeChange_Err: "keeps_on_throw (working s) (makeChange E ch k)"
  unfolding makeChange_def announce_def Let_def
  by (intro keeps_on_throw_bind keeps_intro working_upd)
    (auto intro: keeps_on_throw_bind keeps_working_basic keeps_on_throw_maybeCompact keeps_on_throw_nothrow never_throws_basic)

lemma commit_pending_Err: "keeps_on_throw (working s) (commit_pending E fns text_message)"
proof -
  have last: "keeps_on_throw (working s) (eff_bind (makeChange E ch k) (\<lambda>_. eff_modify f))" for ch k f
    by (rule keeps_on_throw_last [OF makeChange_Err]) (rule never_throws_basic)
  show ?thesis unfolding commit_pending_def case_prod_beta
    by (assumption | rule last | rule keeps_on_throw_bind keeps_intro working_upd)+
qed

lemma rollback_working:
  assumes "working (s\<lparr>committing := True\<rparr>) t"
  shows "(rollback s t)\<lparr>committing := False\<rparr>
    = s\<lparr>committing := False, inTransaction := False, pendingChangeFns := [], blocks := blocks t, published := published t, ticks := ticks t\<rparr>"
proof -
  have "take (length xs) ys = xs" "length ys \<le> length xs \<Longrightarrow> ys = xs" if "prefix xs ys" for xs ys :: "string list"
    using that by (auto simp: prefix_def)
  then show ?thesis using assms
    by (intro swarm_doc.equality) (auto simp: rollback_def working_def frame_def)
qed



end
