(* ===== verification/DocInvariant.thy ===== *)
theory DocInvariant
  imports DocTransaction DocSample ChangeDagCorrect
begin

text \<open>
  The invariant of the document state over every sequence of operations, and what never shrinks: known CIDs, the change counter and the latest snapshot.
\<close>

section \<open>Operations as steps\<close>

datatype ('c, 'pk, 'fn) doc_op =
    Op_subscribe string nat bool bool
  | Op_unsubscribe string
  | Op_change 'fn string
  | Op_startChange
  | Op_addChange 'fn
  | Op_endChange string
  | Op_addWriter 'pk
  | Op_sync "('c, 'pk) sync_message" bool
  | Op_snapshot

definition doc_step :: "('doc, 'c, 'fn, 'acl, 'kc, 'pk, 'key) doc_env \<Rightarrow> ('doc, 'c, 'fn, 'acl, 'kc, 'pk) swarm_doc
    \<Rightarrow> ('c, 'pk, 'fn) doc_op \<Rightarrow> ('doc, 'c, 'fn, 'acl, 'kc, 'pk) swarm_doc" where
  "doc_step E s op = (case op of
     Op_subscribe i h r l \<Rightarrow> snd (subscribe i h r l s)
   | Op_unsubscribe i \<Rightarrow> snd (unsubscribe i s)
   | Op_change fn text_message \<Rightarrow> snd (do_change E fn text_message s)
   | Op_startChange \<Rightarrow> snd (startChange s)
   | Op_addChange fn \<Rightarrow> snd (addChange fn s)
   | Op_endChange text_message \<Rightarrow> snd (endChange E text_message s)
   | Op_addWriter pk \<Rightarrow> snd (addWriter E pk s)
   | Op_sync m verify \<Rightarrow> snd (sync E m verify s)
   | Op_snapshot \<Rightarrow> snd (take_snapshot E s))"

section \<open>The invariant\<close>

definition snapshot_count :: "('doc, 'c, 'fn, 'acl, 'kc, 'pk) swarm_doc \<Rightarrow> int option" where
  "snapshot_count s = map_option sn_compactedCount (latestSnapshot s)"

definition doc_ok :: "('doc, 'c, 'fn, 'acl, 'kc, 'pk, 'key) doc_env \<Rightarrow> ('doc, 'c, 'fn, 'acl, 'kc, 'pk) swarm_doc \<Rightarrow> bool" where
  "doc_ok E s \<longleftrightarrow> distinct (hashes s) \<and> distinct (referencedAncestors s)
     \<and> distinct (map tip_cid (recentTips s)) \<and> length (recentTips s) \<le> MAX_RECENT_TIPS
     \<and> writerMutationsInFlight s = 0 \<and> (\<forall>keys. cachedWriterKeys s = Some keys \<longrightarrow> keys = aclUsers E (writers s))
     \<and> 0 \<le> changesSinceSnapshot s \<and> changesSinceSnapshot s \<le> documentChangeCount s
     \<and> (\<forall>n. snapshot_count s = Some n \<longrightarrow> n \<le> documentChangeCount s)
     \<and> (inTransaction s \<or> pendingChangeFns s = [])"

text \<open>\<open>doc_grows s t\<close>: nothing that \<open>s\<close> knows is lost in \<open>t\<close>.\<close>

definition doc_grows :: "('doc, 'c, 'fn, 'acl, 'kc, 'pk) swarm_doc \<Rightarrow> ('doc, 'c, 'fn, 'acl, 'kc, 'pk) swarm_doc \<Rightarrow> bool" where
  "doc_grows s t \<longleftrightarrow> set (hashes s) \<subseteq> set (hashes t) \<and> documentChangeCount s \<le> documentChangeCount t
     \<and> (\<forall>n. snapshot_count s = Some n \<longrightarrow> (\<exists>n'. snapshot_count t = Some n' \<and> n \<le> n'))"

text \<open>The invariant with the two guards fixed: every computation leaves them as it found them.\<close>

definition doc_inv where
  "doc_inv E s0 b c s \<longleftrightarrow> doc_ok E s \<and> doc_grows s0 s \<and> committing s = b \<and> compactionInProgress s = c"

lemmas doc_inv_defs = doc_inv_def doc_ok_def doc_grows_def snapshot_count_def

lemma trackTipInList_ok:
  assumes "distinct (map tip_cid ts)" "length ts \<le> cap"
  shows "distinct (map tip_cid (trackTipInList ts t (int cap)))" "length (trackTipInList ts t (int cap)) \<le> cap"
proof -
  have "distinct (map tip_cid (remove_first_cid (tip_cid t) ts @ [t]))"
    using remove_first_cid_filter [OF assms(1), of "tip_cid t"] assms(1) by auto
  then have "distinct (map tip_cid (evict cap (remove_first_cid (tip_cid t) ts @ [t])))"
    unfolding evict_latest latest_def drop_map [symmetric] by (rule distinct_drop)
  then show "distinct (map tip_cid (trackTipInList ts t (int cap)))"
    using assms(1) by (simp add: trackTipInList_def Let_def)
  show "length (trackTipInList ts t (int cap)) \<le> cap"
    using assms(2) by (auto simp: trackTipInList_def evict_latest latest_def Let_def)
qed

lemma distinct_fold_set_add: "distinct xs \<Longrightarrow> distinct (fold set_add ys xs)"
  by (induction ys arbitrary: xs) (auto simp: distinct_set_add)

lemma distinct_ancestors_walk:
  fixes n :: "'c change_node" and ks :: "'c child_list"
  shows "distinct (snd st) \<Longrightarrow> distinct (snd (ancestors_walk r n st))"
    and "distinct (snd st) \<Longrightarrow> distinct (snd (ancestors_walks ks st))"
  by (induction r n st and ks st rule: ancestors_walk_ancestors_walks.induct)
    (auto simp: distinct_set_add ancestors_walk.simps split: option.splits children.splits)

lemma distinct_collectReferencedAncestors:
  "distinct out \<Longrightarrow> distinct (collectReferencedAncestors r n out)"
  by (simp add: collectReferencedAncestors_def distinct_ancestors_walk del: ancestors_walk.simps)

section \<open>Every computation keeps the invariant\<close>

lemma inv_upd:
  assumes "doc_inv E s0 b c s"
  shows "doc_inv E s0 b c (s\<lparr>ticks := n\<rparr>)" "doc_inv E s0 b c (s\<lparr>blocks := bs\<rparr>)" "doc_inv E s0 b c (s\<lparr>published := p\<rparr>)"
    "doc_inv E s0 b c (s\<lparr>document := d\<rparr>)" "doc_inv E s0 b c (s\<lparr>lastSyncMessage := m\<rparr>)" "doc_inv E s0 b c (s\<lparr>keychain := kc\<rparr>)"
    "doc_inv E s0 b c (s\<lparr>readers := rs, drainsRequested := dr\<rparr>)" "doc_inv E s0 b c (s\<lparr>snapshotUnsupported := u\<rparr>)"
    "doc_inv E s0 b c (s\<lparr>remoteHandlers := rh, localHandlers := lh\<rparr>)"
    "doc_inv E s0 b c (s\<lparr>hashes := fold set_add hs (hashes s)\<rparr>)"
    "doc_inv E s0 b c (s\<lparr>referencedAncestors := fold set_add hs (referencedAncestors s)\<rparr>)"
    "doc_inv E s0 b c (s\<lparr>referencedAncestors := collectReferencedAncestors r tr (referencedAncestors s)\<rparr>)"
    "doc_inv E s0 b c (s\<lparr>recentTips := trackTipInList (recentTips s) tip (int MAX_RECENT_TIPS)\<rparr>)"
    "doc_inv E s0 b c (s\<lparr>cachedWriterKeys := Some (aclUsers E (writers s))\<rparr>)"
    "doc_inv E s0 b c (s\<lparr>inTransaction := False, pendingChangeFns := []\<rparr>)"
    "doc_inv E s0 b c (s\<lparr>inTransaction := True, pendingChangeFns := []\<rparr>)"
    "doc_inv E s0 b c (s\<lparr>documentChangeCount := documentChangeCount s + 1, changesSinceSnapshot := changesSinceSnapshot s + 1\<rparr>)"
    "doc_inv E s0 b c (end_writer_mutation ((begin_writer_mutation s)\<lparr>writers := ws\<rparr>))"
  using assms
  by (auto simp: doc_inv_defs distinct_fold_set_add distinct_collectReferencedAncestors trackTipInList_ok
      end_writer_mutation_def begin_writer_mutation_def invalidateWriterKeyCache_def)

lemma add_hash_fold: "add_hash h = eff_modify (\<lambda>s. s\<lparr>hashes := fold set_add [h] (hashes s)\<rparr>)"
  by (simp add: add_hash_def)

lemma keeps_get: "(\<And>s. I s \<Longrightarrow> I (snd (f s s))) \<Longrightarrow> keeps I (eff_bind eff_get f)"
  by (simp add: keeps_def eff_bind_def)

lemma inv_basic [keeps_intro]:
  "keeps (doc_inv E s0 b c) tick" "keeps (doc_inv E s0 b c) (add_hash h)" "keeps (doc_inv E s0 b c) (trackTip h k)"
  "keeps (doc_inv E s0 b c) count_document_change" "keeps (doc_inv E s0 b c) (mergeReaders E ch)"
  "keeps (doc_inv E s0 b c) (mergeWriters E ch)" "keeps (doc_inv E s0 b c) (mutate_writers f)"
  "keeps (doc_inv E s0 b c) (publish E bs)" "keeps (doc_inv E s0 b c) (gcPrunedBlocks E cids)"
  "keeps (doc_inv E s0 b c) (pruneChanges kc)" "keeps (doc_inv E s0 b c) (refreshLastSyncMessageFromSync E i tr)"
  "keeps (doc_inv E s0 b c) (merge_keychain E ch)" "keeps (doc_inv E s0 b c) (subscribe j n on_r on_l)"
  "keeps (doc_inv E s0 b c) (unsubscribe j)" "keeps (doc_inv E s0 b c) startChange"
  unfolding tick_def add_hash_fold trackTip_def count_document_change_def mergeReaders_def mergeWriters_def mutate_writers_def
    publish_def gcPrunedBlocks_def pruneChanges_def refreshLastSyncMessageFromSync_def merge_keychain_def subscribe_def
    unsubscribe_def startChange_def Let_def
  by (intro keeps_intro inv_upd keeps_modify; auto intro: inv_upd)+

lemma inv_seal [keeps_intro]: "keeps (doc_inv E s0 b c) (seal_with_current E content)"
  by (intro keeps_seal inv_upd)

lemma inv_putBlock [keeps_intro]: "keeps (doc_inv E s0 b c) (putBlock E ch)"
  unfolding putBlock_def by (intro keeps_intro inv_upd)

lemma inv_prune [keeps_intro]: "keeps (doc_inv E s0 b c) (prune_after_snapshot E boundary)"
  unfolding prune_after_snapshot_def by (intro keeps_intro)

lemma inv_new_snapshot:
  "doc_inv E s0 b c s \<Longrightarrow> sn_compactedCount node = documentChangeCount s
    \<Longrightarrow> doc_inv E s0 b c (s\<lparr>latestSnapshot := Some node, changesSinceSnapshot := 0\<rparr>)"
  by (auto simp: doc_inv_defs)

lemma inv_take_snapshot [keeps_intro]: "keeps (doc_inv E s0 b c) (take_snapshot E)"
proof -
  have tail: "doc_inv E s0 b c (snd (eff_bind (prune_after_snapshot E boundary) (\<lambda>_. eff_return x) u))" if "doc_inv E s0 b c u" for boundary x u
    using that by (intro keeps_snd [where I = "doc_inv E s0 b c"] keeps_intro)
  have pure: "snd ((if enableSigning E then eff_bind (eff_lift r) (\<lambda>payload. eff_lift (auth_sign E payload)) else eff_return []) s) = s" for r s
    by (simp add: eff_bind_def split: sum.splits)
  have [keeps_intro]: "keeps (doc_inv E s0 b c) (build_snapshot E get_state t)" for get_state t
    unfolding build_snapshot_def Let_def
    by (rule keeps_get, subst eff_bind_pure, rule pure) (simp add: tail inv_new_snapshot split: sum.splits)
  show ?thesis unfolding take_snapshot_def by (intro keeps_intro inv_upd)
qed

lemma inv_flags:
  "doc_inv E s0 b c s \<Longrightarrow> doc_inv E s0 b c' (s\<lparr>compactionInProgress := c'\<rparr>)"
  "doc_inv E s0 b c s \<Longrightarrow> doc_inv E s0 b' c (s\<lparr>committing := b'\<rparr>)"
  by (auto simp: doc_inv_defs)

lemma inv_maybeCompact [keeps_intro]: "keeps (doc_inv E s0 b c) (maybeCompact E)"
proof -
  have "doc_inv E s0 b False (snd (eff_finally (eff_bind (take_snapshot E) (\<lambda>_. eff_return ())) (\<lambda>s. s\<lparr>compactionInProgress := False\<rparr>)
        (s\<lparr>compactionInProgress := True\<rparr>)))" if "doc_inv E s0 b False s" for s
  proof -
    have "doc_inv E s0 b True (snd (eff_bind (take_snapshot E) (\<lambda>_. eff_return ()) (s\<lparr>compactionInProgress := True\<rparr>)))"
      by (rule keeps_snd) (intro keeps_intro inv_flags(1) [OF that])+
    then show ?thesis by (auto simp: eff_finally_def split: prod.splits intro: inv_flags)
  qed
  then show ?thesis unfolding maybeCompact_def by (cases c; intro keeps_get) (simp_all add: doc_inv_def [of E s0 b True])
qed

lemma inv_makeChange [keeps_intro]: "keeps (doc_inv E s0 b c) (makeChange E ch k)"
  unfolding makeChange_def announce_def Let_def by (intro keeps_intro inv_upd)

lemma inv_getWriterKeys [keeps_intro]: "keeps (doc_inv E s0 b c) (getWriterKeys E)"
  unfolding getWriterKeys_def by (rule keeps_get) (auto split: prod.splits nat.splits option.splits intro: inv_upd)

lemma inv_signatures [keeps_intro]:
  "keeps (doc_inv E s0 b c) (check_signature_of E raw sig)" "keeps (doc_inv E s0 b c) (verifyWriterSignature E raw sig)"
  "keeps (doc_inv E s0 b c) (verifySnapshotSignature E raw bsig)" "keeps (doc_inv E s0 b c) (snapshot_valid E incoming)"
  "keeps (doc_inv E s0 b c) (authenticate E m v)"
  unfolding check_signature_of_def verifyWriterSignature_def verifySnapshotSignature_def snapshot_valid_def authenticate_def
  by (intro keeps_intro)+

lemma inv_apply_sent [keeps_intro]: "keeps (doc_inv E s0 b c) (apply_sent E entries acc)"
  by (induction E entries acc rule: apply_sent.induct) (auto intro!: keeps_intro split: change_kind.splits)

lemma inv_sync_parts [keeps_intro]:
  "keeps (doc_inv E s0 b c) (apply_fetched E hk)" "keeps (doc_inv E s0 b c) (applyACLFromTree E tree)"
  unfolding apply_fetched_def applyACLFromTree_def case_prod_beta
  by (intro keeps_intro; cases "snd hk"; auto intro!: keeps_intro inv_upd)
    (intro keeps_intro)

lemma inv_commit_sent [keeps_intro]: "keeps (doc_inv E s0 b c) (commit_sent E doc applied)"
  unfolding commit_sent_def case_prod_beta
  by (intro keeps_intro) (use inv_upd(10) [OF inv_upd(4)] in simp)

lemma inv_syncDocumentChanges [keeps_intro]: "keeps (doc_inv E s0 b c) (syncDocumentChanges E i tree)"
  unfolding syncDocumentChanges_def finish_sync_def case_prod_beta Let_def by (intro keeps_intro inv_upd)

lemma inv_apply_snapshot:
  "doc_inv E s0 b c s \<Longrightarrow> newer_snapshot (latestSnapshot s) incoming \<Longrightarrow> doc_inv E s0 b c (snd (apply_snapshot E incoming s))"
  by (auto simp: doc_inv_defs apply_snapshot_def newer_snapshot_def distinct_set_add split: option.splits)

lemma snapshot_valid_latest: "unchanged latestSnapshot (snapshot_valid E incoming)"
  unfolding unchanged_def snapshot_valid_def verifySnapshotSignature_def getWriterKeys_def
  by (intro allI keeps_intro) (auto intro!: keeps_intro split: nat.splits)

lemma inv_receive_snapshot [keeps_intro]: "keeps (doc_inv E s0 b c) (receive_snapshot E incoming)"
  unfolding receive_snapshot_def
  by (rule keeps_get) (auto intro!: bind_unchanged [OF _ inv_signatures(4) snapshot_valid_latest] inv_apply_snapshot)

lemma inv_sync [keeps_intro]: "keeps (doc_inv E s0 b c) (sync E m v)"
  unfolding sync_def by (intro keeps_intro)

lemma inv_commit_pending [keeps_intro]: "keeps (doc_inv E s0 b c) (commit_pending E fns text_message)"
  unfolding commit_pending_def case_prod_beta by (intro keeps_intro inv_upd)

lemma inv_local [keeps_intro]:
  "keeps (doc_inv E s0 b c) (do_change E fn text_message)" "keeps (doc_inv E s0 b c) (addWriter E w)"
  "keeps (doc_inv E s0 b c) (addChange fn)"
  unfolding do_change_def addWriter_def addChange_def case_prod_beta
  by ((intro keeps_intro inv_upd; assumption?), (rule keeps_get, auto simp: doc_inv_defs)?)+

lemma inv_endChange [keeps_intro]: "keeps (doc_inv E s0 b c) (endChange E text_message)"
proof -
  have "doc_inv E s0 b c t" if inv: "doc_inv E s0 b c s" and run: "endChange E text_message s = (r, t)" for s r t
  proof (cases "inTransaction s \<and> \<not> committing s \<and> pendingChangeFns s \<noteq> []")
    case True
    have b: "\<not> b" using True inv by (simp add: doc_inv_def)
    obtain r' u where u: "commit_pending E (pendingChangeFns s) text_message (s\<lparr>committing := True\<rparr>) = (r', u)" by fastforce
    have "doc_inv E s0 True c u" by (rule keepsD [OF inv_commit_pending _ u]) (rule inv_flags(2) [OF inv])
    then have ok: "doc_inv E s0 b c (u\<lparr>committing := False\<rparr>)" using b inv_flags(2) by fastforce
    show ?thesis
    proof (cases r')
      case (Inl e)
      then have "endChange E text_message s = (Err e, (rollback s u)\<lparr>committing := False\<rparr>)"
        using True u by (simp add: endChange_def eff_finally_def eff_catch_def)
      moreover have "working (s\<lparr>committing := True\<rparr>) u"
        using commit_pending_Err u Inl working_refl unfolding keeps_on_throw_def by blast
      ultimately have "t = s\<lparr>committing := False, inTransaction := False, pendingChangeFns := [], blocks := blocks u, published := published u, ticks := ticks u\<rparr>"
        using run rollback_working by fastforce
      then show ?thesis using inv b by (simp add: doc_inv_defs)
    next
      case (Inr x)
      then show ?thesis using True u run ok by (simp add: endChange_def eff_finally_def eff_catch_def)
    qed
  next
    case False
    then show ?thesis using inv run inv_upd(15) [OF inv] by (auto simp: endChange_def split: if_splits)
  qed
  then show ?thesis unfolding keeps_def by (metis surjective_pairing)
qed

section \<open>Every reachable state\<close>

lemma inv_step: "doc_inv E s0 b c s \<Longrightarrow> doc_inv E s0 b c (doc_step E s op)"
  unfolding doc_step_def by (cases op) (auto intro!: keeps_snd [where I = "doc_inv E s0 b c"] keeps_intro)

interpretation doc: machine_invariant "doc_step E" "doc_inv E s0 b c" for E s0 b c
  by unfold_locales (rule inv_step)

lemma inv_new: "doc_inv E (new_doc E) False False (new_doc E)"
  by (simp add: doc_inv_defs new_doc_def)

definition reached :: "('doc, 'c, 'fn, 'acl, 'kc, 'pk, 'key) doc_env \<Rightarrow> ('c, 'pk, 'fn) doc_op list \<Rightarrow> ('doc, 'c, 'fn, 'acl, 'kc, 'pk) swarm_doc" where
  "reached E ops = foldl (doc_step E) (new_doc E) ops"

lemma inv_reached: "doc_inv E (new_doc E) False False (reached E ops)"
  unfolding reached_def by (rule doc.run_inv [OF inv_new])

text \<open>
  Claim C9.  Every state a document reaches from its creation by subscribing, changing, committing or failing transactions, adding writers,
  receiving sync messages and taking snapshots, whatever the providers do, has no duplicate known CID, no duplicate referenced
  ancestor, at most \<open>MAX_RECENT_TIPS\<close> distinct recent tips, a writer-key cache that agrees with the writer ACL, a snapshot count
  and a count of changes since the snapshot within the change count, no pending changes outside a transaction, and both re-entrancy guards released.
\<close>

theorem doc_invariant:
  "doc_ok E (reached E ops) \<and> \<not> committing (reached E ops) \<and> \<not> compactionInProgress (reached E ops)"
  using inv_reached [of E ops] by (simp add: doc_inv_def)


end
