(* ===== verification/DocSync.thy ===== *)
theory DocSync
  imports DocInvariant
begin

text \<open>
  Receiving: a forged message changes nothing, an accepted one delivers every payload it carries; stored blocks decrypt to what was stored,
  and a snapshot signature binds every signed field.
\<close>

section \<open>Forged messages\<close>

text \<open>The message carries a signature of some current writer.\<close>

definition signed_by_writer where
  "signed_by_writer E s m \<longleftrightarrow> (\<exists>sig raw pk. m_signature m = Some sig \<and> sig \<noteq> [] \<and> base64_decode E sig = Some raw
     \<and> pk \<in> set (getWriters E s) \<and> auth_verify E (serializeSyncMessage E (m\<lparr>m_signature := None\<rparr>)) pk raw)"

lemma getWriterKeys_ok:
  assumes "doc_ok E s"
  shows "\<exists>t. getWriterKeys E s = (Ok (getWriters E s), t) \<and> t = s\<lparr>cachedWriterKeys := cachedWriterKeys t\<rparr>"
  using assms by (auto simp: getWriterKeys_def doc_ok_def getWriters_def split: option.splits)

lemma check_signature_ok:
  assumes "doc_ok E s"
  shows "\<exists>t. check_signature_of E raw sig s = (Ok (\<exists>b pk. base64_decode E sig = Some b \<and> pk \<in> set (getWriters E s) \<and> auth_verify E raw pk b), t)
    \<and> t = s\<lparr>cachedWriterKeys := cachedWriterKeys t\<rparr>"
proof -
  obtain t where t: "getWriterKeys E s = (Ok (getWriters E s), t)" "t = s\<lparr>cachedWriterKeys := cachedWriterKeys t\<rparr>"
    using getWriterKeys_ok [OF assms] by blast
  show ?thesis using t by (auto simp: check_signature_of_def any_verifies_def list_ex_iff split: option.splits)
qed

text \<open>
  Claim C11.  With signing on, a sync message that is not signed by a current writer is refused: \<^verbatim>\<open>sync\<close> returns false and the document is
  unchanged but for the memoized list of writer keys, so no change, ACL entry, keychain change or snapshot of it is applied.
\<close>

theorem doc_forged_sync_refused:
  assumes "doc_ok E s" "enableSigning E" "\<not> signed_by_writer E s m" "sync E m True s = (r, t)"
  shows "r = Ok False \<and> t = s\<lparr>cachedWriterKeys := cachedWriterKeys t\<rparr>"
proof (cases "truthy (m_signature m)")
  case True
  then obtain sig where sig: "m_signature m = Some sig" "sig \<noteq> []" by (auto simp: truthy_def)
  then have "\<not> (\<exists>b pk. base64_decode E sig = Some b \<and> pk \<in> set (getWriters E s)
      \<and> auth_verify E (serializeSyncMessage E (m\<lparr>m_signature := None\<rparr>)) pk b)"
    using assms(3) by (auto simp: signed_by_writer_def)
  then obtain u where u: "authenticate E m True s = (Ok False, u)" "u = s\<lparr>cachedWriterKeys := cachedWriterKeys u\<rparr>"
    using check_signature_ok [OF assms(1), of "serializeSyncMessage E (m\<lparr>m_signature := None\<rparr>)" sig] True sig assms(2)
    by (auto simp: authenticate_def verifyWriterSignature_def)
  have "sync E m True s = (Ok False, u)" by (simp add: sync_def eff_bind_def u(1))
  then show ?thesis using u(2) assms(4) by simp
next
  case False
  then show ?thesis using assms(2,4) by (auto simp: sync_def authenticate_def)
qed

section \<open>Delivery\<close>

definition inline_entries :: "'c sync_entry list \<Rightarrow> (string \<times> change_kind) list" where
  "inline_entries es = map (\<lambda>(h, k, c). (h, k)) (filter (\<lambda>(h, k, c). c \<noteq> None) es)"

definition missing_entries :: "'c sync_entry list \<Rightarrow> (string \<times> change_kind) list" where
  "missing_entries es = map (\<lambda>(h, k, c). (h, k)) (filter (\<lambda>(h, k, c). c = None) es)"

definition document_payloads :: "'c sync_entry list \<Rightarrow> 'c list" where
  "document_payloads es = map (\<lambda>(h, k, c). the c) (filter (\<lambda>(h, k, c). k = Document_change \<and> c \<noteq> None) es)"

lemmas entry_defs = inline_entries_def missing_entries_def document_payloads_def

lemma no_payloads: "inline_entries es = [] \<Longrightarrow> document_payloads es = []"
  by (auto simp: entry_defs filter_empty_conv)

lemma apply_sent_result:
  "\<exists>t. apply_sent E es (doc, applied, missing) s
     = (Ok (foldl (remoteChange E) doc (document_payloads es), applied @ inline_entries es, missing @ missing_entries es), t)
     \<and> hashes t = hashes s \<and> document t = document s"
proof (induction es arbitrary: doc applied missing s)
  case (Cons e es)
  obtain h k c where e: "e = (h, k, c)" by (cases e)
  show ?case
  proof (cases c)
    case None
    then show ?thesis using Cons.IH[of doc applied "missing @ [(h, k)]" s] e by (simp add: entry_defs)
  next
    case (Some ch)
    show ?thesis
    proof (cases k)
      case Document_change
      then show ?thesis using Some e Cons.IH[of "remoteChange E doc ch" "applied @ [(h, k)]" missing "snd (count_document_change s)"]
        by (simp add: entry_defs count_document_change_def)
    next
      case Reader_change
      then show ?thesis using Some e Cons.IH[of doc "applied @ [(h, k)]" missing "snd (mergeReaders E ch s)"]
        by (simp add: entry_defs mergeReaders_def)
    next
      case Writer_change
      then show ?thesis using Some e Cons.IH[of doc "applied @ [(h, k)]" missing "snd (mergeWriters E ch s)"]
        by (simp add: entry_defs mergeWriters_def end_writer_mutation_def begin_writer_mutation_def invalidateWriterKeyCache_def)
    qed
  qed
qed (simp add: entry_defs)

lemma unchanged_document [keeps_intro]:
  "keeps (\<lambda>s. document s = d) (trackTip h k)" "keeps (\<lambda>s. document s = d) (maybeCompact E)"
  "keeps (\<lambda>s. document s = d) (refreshLastSyncMessageFromSync E i tree)"
  unfolding trackTip_def maybeCompact_def refreshLastSyncMessageFromSync_def take_snapshot_def build_snapshot_def prune_after_snapshot_def
    gcPrunedBlocks_def pruneChanges_def tick_def Let_def
  by (intro keeps_intro; simp)+

lemma commit_sent_effect:
  assumes "commit_sent E doc applied s = (r, t)"
  shows "set (map fst applied) \<subseteq> set (hashes t) \<and> document t = doc"
proof -
  let ?I = "\<lambda>t. set (map fst applied) \<subseteq> set (hashes t) \<and> document t = doc"
  let ?m = "eff_bind (eff_iter (\<lambda>(h, k). trackTip h k) (rev applied)) (\<lambda>_. fireRemoteUpdateHandlers E (map fst applied))"
  have run: "?m (s\<lparr>document := doc, hashes := fold set_add (map fst applied) (hashes s)\<rparr>) = (r, t)"
    using assms by (simp add: commit_sent_def)
  have "keeps ?I ?m"
    unfolding case_prod_beta trackTip_def by (intro keeps_intro; simp)
  from keepsD [OF this _ run] show ?thesis by simp
qed

lemma merge_delivers_payload:
  assumes "mergeRemoteSyncTree (Some r) n lr H = Ok es"
    and kids: "\<forall>c m m' ks ks'. (c, m) \<in> vis_node (is_known lr H) r n \<longrightarrow> (c, m') \<in> vis_node (is_known lr H) r n
           \<longrightarrow> children m = Children ks \<longrightarrow> children m' = Children ks' \<longrightarrow> ks = ks'"
    and "(c, m) \<in> vis_node (is_known lr H) r n" "change m \<noteq> None"
  shows "\<exists>k ch. (c, k, Some ch) \<in> set es"
proof -
  from assms(1) obtain B W where run: "merge_walk lr H (Some r) n ([], []) = Ok (B, W)" and es: "es = map snd B"
    by (auto simp: mergeRemoteSyncTree_def try_bind_Ok_iff)
  obtain e where e: "map_get B c = Some e" "snd (snd e) \<noteq> None"
    using merge_settles [OF run kids assms(3)] vis_node_unknown [OF assms(3)] assms(4) by (auto simp: settled_def)
  then have "e \<in> set es" "fst e = c" using merge_entries(3,4) [OF run, of c e] es by force+
  then show ?thesis using e(2) by (metis option.exhaust prod.collapse)
qed

lemma inv_finish_sync [keeps_intro]: "keeps (doc_inv E s0 b c) (finish_sync E i tree missing)"
  unfolding finish_sync_def Let_def by (intro keeps_intro)

lemma finish_sync_document:
  assumes "finish_sync E i tree [] s = (r, t)" "schedule E [] = []"
  shows "document t = document s"
proof -
  have "keeps (\<lambda>u. document u = document s) (eff_bind (refreshLastSyncMessageFromSync E i tree) (\<lambda>_. maybeCompact E))"
    by (intro keeps_intro)
  from keepsD [OF this refl] assms show ?thesis by (simp add: finish_sync_def)
qed

text \<open>The stages of a successful \<^verbatim>\<open>_syncDocumentChanges\<close>.\<close>

lemma syncDocumentChanges_Ok:
  assumes "syncDocumentChanges E i tree s = (Ok (), t)"
  obtains es s1 u where
    "mergeRemoteSyncTree i tree (case lastSyncMessage s of Some m \<Rightarrow> m_changeId m | None \<Rightarrow> None) (set (hashes s)) = Ok es"
    "apply_sent E es (document s, [], []) (s\<lparr>referencedAncestors := collectReferencedAncestors i tree (referencedAncestors s)\<rparr>)
       = (Ok (foldl (remoteChange E) (document s) (document_payloads es), inline_entries es, missing_entries es), s1)"
    "document s1 = document s"
    "(if inline_entries es \<noteq> [] then commit_sent E (foldl (remoteChange E) (document s) (document_payloads es)) (inline_entries es)
      else eff_return ()) s1 = (Ok (), u)"
    "finish_sync E i tree (missing_entries es) u = (Ok (), t)"
proof -
  let ?s = "s\<lparr>referencedAncestors := collectReferencedAncestors i tree (referencedAncestors s)\<rparr>"
  let ?lr = "case lastSyncMessage s of Some m \<Rightarrow> m_changeId m | None \<Rightarrow> None"
  obtain es where es: "mergeRemoteSyncTree i tree ?lr (set (hashes s)) = Ok es"
    using assms by (cases "mergeRemoteSyncTree i tree ?lr (set (hashes s))") (auto simp: syncDocumentChanges_def)
  obtain s1 where s1: "apply_sent E es (document s, [], []) ?s
      = (Ok (foldl (remoteChange E) (document s) (document_payloads es), inline_entries es, missing_entries es), s1)" "document s1 = document s"
    using apply_sent_result[of E es "document s" "[]" "[]" ?s] by auto
  show ?thesis using assms es s1 that [OF es s1]
    by (simp add: syncDocumentChanges_def eff_bind_def [of "apply_sent _ _ _"] eff_bind_Ok_iff Let_def) blast
qed


section \<open>Stored blocks\<close>

text \<open>
  What storing relies on in the keychain, the cipher and the serializer: IDs and nonces have their declared lengths, the keychain finds the
  current key under its ID, and decryption and deserialization undo encryption and serialization.
\<close>

definition block_providers :: "('doc, 'c, 'fn, 'acl, 'kc, 'pk, 'key) doc_env \<Rightarrow> 'kc \<Rightarrow> bool" where
  "block_providers E kc \<longleftrightarrow>
     (\<forall>i k. kcCurrent E kc = Ok (i, Some k) \<longrightarrow> length i = keyIDLength E \<and> kcGetKey E kc i = Some k)
     \<and> (\<forall>n b k nonce data. auth_encrypt E n b k = (Some nonce, data) \<longrightarrow> length nonce = nonceLength E \<and> auth_decrypt E data k nonce = Some b)
     \<and> (\<forall>ch. deserializeChanges E (serializeChanges E ch) = Ok ch)"

lemma seal_Ok:
  assumes "seal_with_current E content s = (Ok b, t)"
  shows "\<exists>i k nonce data. kcCurrent E (keychain s) = Ok (i, Some k) \<and> auth_encrypt E (ticks s) content k = (Some nonce, data)
    \<and> b = i @ nonce @ data \<and> t = s\<lparr>ticks := Suc (ticks s)\<rparr>"
proof -
  obtain i k where key: "kcCurrent E (keychain s) = Ok (i, Some k)"
    using assms by (auto simp: seal_with_current_def eff_bind_eq split: option.splits)
  obtain nonce data where "auth_encrypt E (ticks s) content k = (nonce, data)" by fastforce
  then show ?thesis using assms key
    by (cases nonce) (auto simp: seal_with_current_def tick_def eff_bind_def)
qed

text \<open>
  A change stored with \<^verbatim>\<open>_putBlock\<close> is read back by \<^verbatim>\<open>_getBlock\<close> under the returned CID: the key ID and nonce are cut off
  the block at the right places and the stored change is returned.
\<close>

theorem doc_put_get_block:
  assumes "block_providers E (keychain s)" "putBlock E ch s = (Ok cid, t)"
  shows "getBlock E t cid = Ok ch"
proof -
  obtain b u where seal: "seal_with_current E (serializeChanges E ch) s = (Ok b, u)" "cid = addBytes E b" "t = u\<lparr>blocks := (blocks u)(cid \<mapsto> b)\<rparr>"
    using assms(2) by (auto simp: putBlock_def eff_bind_Ok_iff)
  from seal_Ok [OF seal(1)] obtain i k nonce data where key: "kcCurrent E (keychain s) = Ok (i, Some k)"
    and enc: "auth_encrypt E (ticks s) (serializeChanges E ch) k = (Some nonce, data)"
    and t: "b = i @ nonce @ data" "keychain u = keychain s" by auto
  have "length i = keyIDLength E" "kcGetKey E (keychain s) i = Some k" "length nonce = nonceLength E"
    "auth_decrypt E data k nonce = Some (serializeChanges E ch)" "deserializeChanges E (serializeChanges E ch) = Ok ch"
    using assms(1) key enc unfolding block_providers_def by blast+
  then show ?thesis using t seal(3) by (simp add: getBlock_def decryptBlock_def)
qed

section \<open>Snapshot signatures\<close>

lemma be64_inj:
  assumes "m < 2 ^ 64" "n < 2 ^ 64" "be64 m = be64 n"
  shows "m = n"
proof -
  have eqs: "be32 (m div 2 ^ 32) = be32 (n div 2 ^ 32)" "be32 m = be32 n"
    using assms(3) by (simp_all add: be64_def append_eq_append_same_length)
  have "m mod 2 ^ 32 = n mod 2 ^ 32" using eqs(2) be32_read_be32 by metis
  moreover have "m div 2 ^ 32 = n div 2 ^ 32"
    using eqs(1) be32_eq_iff[of "m div 2 ^ 32" "n div 2 ^ 32"] assms(1,2) by (simp add: less_mult_imp_div_less)
  ultimately show ?thesis by (metis div_mult_mod_eq)
qed

text \<open>
  A snapshot signature binds all it covers: two snapshots for which \<^verbatim>\<open>_buildSnapshotSignPayload\<close> builds the same bytes have the
  same state bytes, boundary CID, timestamp and compacted count, so a signature cannot be moved to another snapshot.
\<close>

theorem doc_snapshot_payload_injective:
  assumes "buildSnapshotSignPayload st1 cid1 ts1 n1 = Ok p" "buildSnapshotSignPayload st2 cid2 ts2 n2 = Ok p"
  shows "st1 = st2 \<and> cid1 = cid2 \<and> ts1 = ts2 \<and> n1 = n2"
proof -
  have shape: "p = 1 # be64 (nat ts) @ be32 (nat n) @ lp_field (text_encode cid) @ lp_field st \<and> 0 \<le> ts \<and> nat ts < 2 ^ 64 \<and> 0 \<le> n \<and> nat n < 2 ^ 32
      \<and> length (text_encode cid) < 2 ^ 32 \<and> length st < 2 ^ 32" if "buildSnapshotSignPayload st cid ts n = Ok p" for st cid ts n
    using that by (auto simp: buildSnapshotSignPayload_def split: if_splits)
  note s1 = shape [OF assms(1)] and s2 = shape [OF assms(2)]
  have len: "length (be64 x) = length (be64 y)" for x y by (simp add: be64_def)
  have eqs: "be64 (nat ts1) = be64 (nat ts2)" "be32 (nat n1) = be32 (nat n2)"
    and rest: "lp_field (text_encode cid1) @ lp_field st1 = lp_field (text_encode cid2) @ lp_field st2"
    using s1 s2 by (simp_all add: append_eq_append_same_length len)
  have "ts1 = ts2" using be64_inj [OF _ _ eqs(1)] s1 s2 by (simp add: eq_nat_nat_iff)
  moreover have "n1 = n2" using eqs(2) s1 s2 by (simp add: be32_eq_iff eq_nat_nat_iff)
  moreover have cid: "text_encode cid1 = text_encode cid2" "lp_field st1 = lp_field st2"
    using lp_field_append_inj [OF _ _ rest] s1 s2 by auto
  moreover have "st1 = st2" using lp_field_append_inj[of st1 st2 "[]" "[]"] cid(2) s1 s2 by simp
  ultimately show ?thesis by (simp add: text_encode_inj)
qed

end
