(* ===== verification/DocHead.thy ===== *)
theory DocHead
  imports DocSync
begin

text \<open>A published change becomes the head of the served tree, and what refreshing the served tree can lose.\<close>

section \<open>The new head\<close>

definition served_head :: "string \<Rightarrow> string list \<Rightarrow> ('doc, 'c, 'fn, 'acl, 'kc, 'pk) swarm_doc \<Rightarrow> bool" where
  "served_head h refs s \<longleftrightarrow> h \<in> set (hashes s) \<and> referencedAncestors s = refs \<and> (\<exists>m. lastSyncMessage s = Some m \<and> m_changeId m = Some h)"

lemma served_head_upd:
  assumes "served_head h refs s"
  shows "served_head h refs (s\<lparr>ticks := n\<rparr>)" "served_head h refs (s\<lparr>blocks := b\<rparr>)" "served_head h refs (s\<lparr>published := p\<rparr>)"
    "served_head h refs (s\<lparr>latestSnapshot := sn, changesSinceSnapshot := n0\<rparr>)" "served_head h refs (s\<lparr>compactionInProgress := c\<rparr>)"
    "served_head h refs (s\<lparr>snapshotUnsupported := c\<rparr>)"
    "served_head h refs (s\<lparr>documentChangeCount := c1, changesSinceSnapshot := c2\<rparr>)"
  using assms by (simp_all add: served_head_def)

lemma served_head_prune [keeps_intro]: "keeps (served_head h refs) (pruneChanges n)"
  unfolding pruneChanges_def
  by (rule keeps_get) (auto simp: served_head_def split: option.splits prod.splits if_splits)

lemma served_head_compact [keeps_intro]: "keeps (served_head h refs) (maybeCompact E)"
  unfolding maybeCompact_def take_snapshot_def build_snapshot_def prune_after_snapshot_def gcPrunedBlocks_def tick_def Let_def
  by (intro keeps_intro served_head_upd; assumption?)

lemma served_head_publish [keeps_intro]:
  "keeps (served_head h refs) (seal_with_current E b)" "keeps (served_head h refs) (publish E b)"
  "keeps (served_head h refs) count_document_change"
  unfolding publish_def tick_def count_document_change_def
  by (intro keeps_seal keeps_intro served_head_upd; assumption?)+

lemma served_head_announce: "keeps (served_head h refs) (announce E m h' k)"
  unfolding announce_def by (intro keeps_intro)

lemma select_loop_not_new: "newCid \<notin> tip_cid ` set out \<Longrightarrow> newCid \<notin> tip_cid ` set (select_loop ts p newCid k out seen)"
  by (induction ts p newCid k out seen rule: select_loop.induct) auto

lemma add_cross_links_keys: "fst ` set (add_cross_links tips kids) = fst ` set kids \<union> tip_cid ` set tips"
  unfolding add_cross_links_def
proof (induction tips arbitrary: kids)
  case (Cons tip tips)
  let ?kids = "if map_has kids (tip_cid tip) then kids else map_set (tip_cid tip) (Change_node None (tip_kind tip) None No_children) kids"
  have "fst ` set (map_set k v m) = insert k (fst ` set m)" for k :: string and v m by (induction m) (auto simp: map_set_def)
  moreover have "k \<in> fst ` set kids" if "map_has kids k" for k
    using that map_of_eq_None_iff [of kids k] by (auto simp: map_has_iff map_get_def simp del: map_of_eq_None_iff)
  ultimately have "fst ` set ?kids = insert (tip_cid tip) (fst ` set kids)" by (cases "map_has kids (tip_cid tip)") (simp_all add: insert_absorb)
  then show ?case using Cons.IH [of ?kids] by simp
qed simp

lemma signAsWriter_state: "signAsWriter E m s = (r, t) \<Longrightarrow> t = s"
  by (auto simp: signAsWriter_def signAsWriterUnconditional_def eff_bind_def split: if_splits sum.splits)

lemma change_children_keys:
  assumes "m_changeId m = Some p" "p \<noteq> []" "m_changes m = Some tree"
  shows "p \<in> fst ` set (kid_list (change_children m tips h))" "h \<noteq> p \<Longrightarrow> h \<notin> fst ` set (kid_list (change_children m tips h))"
  using assms select_loop_not_new [of h "[]" "rev tips" "Some p" "int MAX_CROSS_LINKS" "[]"]
  by (auto simp: change_children_def kid_list_def add_cross_links_keys selectCrossLinks_def)

text \<open>
  A published change is the new head: it is known, it is the root of the tree the document serves, its predecessor leaves the frontier,
  and it is itself on the frontier unless its CID was already referenced.  Compaction after the change does not affect this.
\<close>

theorem doc_change_becomes_head:
  assumes m: "lastSyncMessage s = Some m" "m_changeId m = Some p" "p \<noteq> []" "m_changes m = Some tree"
    and run: "makeChange E ch k s = (Ok (), t)"
  shows "\<exists>h m'. lastSyncMessage t = Some m' \<and> m_changeId m' = Some h \<and> hasChange t h \<and> p \<notin> set (currentFrontier t)
    \<and> (if h = p \<or> h \<in> set (referencedAncestors s) then True else h \<in> set (currentFrontier t))"
proof -
  obtain h u where put: "putBlock E ch s = (Ok h, u)" using run by (auto simp: makeChange_def eff_bind_Ok_iff)
  have frame: "lastSyncMessage u = lastSyncMessage s" "referencedAncestors u = referencedAncestors s" "recentTips u = recentTips s"
    using put by (auto simp: putBlock_def eff_bind_Ok_iff dest!: seal_Ok)
  let ?node = "Change_node None k (Some ch) (change_children m (recentTips s) h)"
  let ?refs = "fold set_add (map fst (kid_list (children ?node))) (referencedAncestors s)"
  have "served_head h ?refs t"
  proof -
    let ?m = "m\<lparr>m_changeId := Some h, m_changes := Some ?node\<rparr>"
    let ?w = "u\<lparr>hashes := set_add h (hashes u), referencedAncestors := ?refs,
      recentTips := trackTipInList (recentTips s) \<lparr>tip_cid = h, tip_kind = k\<rparr> (int MAX_RECENT_TIPS)\<rparr>"
    obtain sig where "announce E (?m\<lparr>m_signature := Some sig\<rparr>) h k (?w\<lparr>lastSyncMessage := Some (?m\<lparr>m_signature := Some sig\<rparr>)\<rparr>) = (Ok (), t)"
      using run put frame m unfolding makeChange_def Let_def eff_bind_Ok_iff [of "putBlock E ch"]
      by (auto simp: add_hash_def trackTip_def createSyncMessage_def eff_bind_Ok_iff [of "signAsWriter _ _"] dest!: signAsWriter_state)
    from keepsD [OF served_head_announce _ this] show ?thesis by (simp add: served_head_def)
  qed
  then show ?thesis using change_children_keys [OF m(2-4)] by (auto simp: served_head_def hasChange_def currentFrontier_def)
qed

section \<open>Sample runs\<close>

definition sample_online :: sample_env where
  "sample_online = sample_env ''a'' defaultCompactionConfig (\<lambda>_. True)"

definition leaf :: "string \<Rightarrow> string change_node" where
  "leaf ch = Change_node None Document_change (Some ch) No_children"

definition serving :: "string \<Rightarrow> string change_node \<Rightarrow> sample_doc" where
  "serving h tree = (sample_doc sample_online)\<lparr>lastSyncMessage := Some ((empty_message ''/doc'')\<lparr>m_changeId := Some h, m_changes := Some tree\<rparr>)\<rparr>"

lemmas serving_run = doc_run sample_run sample_online_def serving_def leaf_def

lemma doc_ok_sample: "doc_ok E (sample_doc E)"
  by (simp add: doc_ok_def sample_doc_def new_doc_def snapshot_count_def)

theorem doc_forged_sync_refused_witness:
  "\<exists>t. sync sample_online ((empty_message ''/doc'')\<lparr>m_keychainChanges := Some ''k'', m_signature := Some ''b''\<rparr>) True (sample_doc sample_online)
     = (Ok False, t) \<and> keychain t = keychain (sample_doc sample_online)"
proof -
  let ?m = "(empty_message ''/doc'')\<lparr>m_keychainChanges := Some ''k'', m_signature := Some ''b''\<rparr>"
  have "\<not> signed_by_writer sample_online (sample_doc sample_online) ?m"
    using text_encode_inj[of "''b''" "''a''"]
    by (auto simp: signed_by_writer_def sample_online_def sample_run getWriters_def text_encode_def)
  moreover have "enableSigning sample_online" by (simp add: sample_online_def sample_env_def)
  moreover obtain r t where run: "sync sample_online ?m True (sample_doc sample_online) = (r, t)" by fastforce
  ultimately have "r = Ok False \<and> t = (sample_doc sample_online)\<lparr>cachedWriterKeys := cachedWriterKeys t\<rparr>"
    using doc_forged_sync_refused doc_ok_sample by blast
  then show ?thesis using run by (metis swarm_doc.select_convs(4) swarm_doc.surjective swarm_doc.update_convs(19))
qed

lemma text_decode_encode [simp]: "text_decode (text_encode ch) = ch"
proof -
  have "unat (of_char c :: byte) = of_char c" for c :: char
    by (metis char_of_nat of_char_mod_256 of_nat_of_char unat_of_nat_byte)
  then show ?thesis by (induction ch) (simp_all add: text_decode_def text_encode_def)
qed

lemma sample_block_providers: "block_providers sample_online kc"
  by (simp add: block_providers_def sample_online_def sample_env_def)

theorem doc_put_get_block_witness:
  "\<exists>cid t. putBlock sample_online ''x'' (sample_doc sample_online) = (Ok cid, t) \<and> getBlock sample_online t cid = Ok ''x''"
proof -
  obtain cid t where "putBlock sample_online ''x'' (sample_doc sample_online) = (Ok cid, t)"
    by (simp add: serving_run)
  with doc_put_get_block [OF sample_block_providers this] show ?thesis by blast
qed

theorem doc_snapshot_payload_injective_witness:
  "\<exists>p. buildSnapshotSignPayload [1] ''c'' 5 2 = Ok p \<and> (\<forall>st. if buildSnapshotSignPayload st ''c'' 5 2 = Ok p then st = [1] else True)"
proof -
  obtain p where p: "buildSnapshotSignPayload [1] ''c'' 5 2 = Ok p" by (simp add: buildSnapshotSignPayload_def text_encode_def)
  have "if buildSnapshotSignPayload st ''c'' 5 2 = Ok p then st = [1] else True" for st
    using doc_snapshot_payload_injective [OF _ p] by presburger
  then show ?thesis using p by blast
qed

theorem doc_change_becomes_head_witness:
  "\<exists>t. makeChange sample_online ''x'' Document_change (serving ''p'' (leaf ''y'')) = (Ok (), t) \<and> ''p'' \<notin> set (currentFrontier t)"
proof -
  obtain t where run: "makeChange sample_online ''x'' Document_change (serving ''p'' (leaf ''y'')) = (Ok (), t)"
    by (simp add: serving_run)
  have "\<exists>h m'. lastSyncMessage t = Some m' \<and> m_changeId m' = Some h \<and> hasChange t h \<and> ''p'' \<notin> set (currentFrontier t)
    \<and> (if h = ''p'' \<or> h \<in> set (referencedAncestors (serving ''p'' (leaf ''y''))) then True else h \<in> set (currentFrontier t))"
    by (rule doc_change_becomes_head [where m = "(empty_message ''/doc'')\<lparr>m_changeId := Some ''p'', m_changes := Some (leaf ''y'')\<rparr>" and tree = "leaf ''y''", OF _ _ _ _ run])
      (simp_all add: serving_def)
  then show ?thesis using run by blast
qed


section \<open>Refreshing the served tree\<close>

text \<open>
  A tree with two concurrent heads as \<^verbatim>\<open>_makeChange\<close> builds it: the predecessor \<^verbatim>\<open>Q\<close> inline and the other head \<^verbatim>\<open>R1\<close> as a cross-link stub.
  The receiver serves \<^verbatim>\<open>R1\<close> with its predecessor \<^verbatim>\<open>A\<close>.
\<close>

definition r1_tree :: "string change_node" where
  "r1_tree = Change_node None Document_change (Some ''r1'') (Children [(''A'', leaf ''a'')])"

definition r2_tree :: "string change_node" where
  "r2_tree = Change_node None Document_change (Some ''r2'') (Children
     [(''Q'', leaf ''q''), (''R1'', Change_node None Document_change None No_children)])"

text \<open>
  Refreshing the served tree can lose history.  After a successful sync of \<^verbatim>\<open>R2\<close>, which holds the previous root \<^verbatim>\<open>R1\<close> only as a stub, the document serves the
  tree of \<^verbatim>\<open>R2\<close>, in which \<^verbatim>\<open>A\<close> does not occur although the document knows it and served it before.
\<close>

theorem doc_refresh_loses_history:
  "\<exists>t m. syncDocumentChanges sample_online (Some ''R2'') r2_tree ((serving ''R1'' r1_tree)\<lparr>hashes := [''R1'', ''A'']\<rparr>) = (Ok (), t)
     \<and> lastSyncMessage t = Some m \<and> m_changes m = Some r2_tree \<and> ''A'' \<in> keys_below r1_tree \<and> ''A'' \<notin> keys_below r2_tree \<and> hasChange t ''A''"
  by (simp add: r1_tree_def r2_tree_def syncDocumentChanges_def mergeRemoteSyncTree_def commit_sent_def finish_sync_def
      refreshLastSyncMessageFromSync_def fireRemoteUpdateHandlers_def truthy_def map_set_def map_get_def set_add_def treeContainsCid_def
      keys_below_children hasChange_def collectReferencedAncestors_def try_bind_def serving_run)

end
