(* ===== verification/DocPrune.thy ===== *)
theory DocPrune
  imports DocCore ChangeDagCorrect DagJson
begin

text \<open>
  Pruning of the sync tree after a snapshot (\<^verbatim>\<open>_pruneChanges\<close>): no ACL entry is lost, every CID that disappears is
  reported, and only document CIDs are reported.
\<close>

section \<open>Collecting ACL leaves\<close>

definition keys_where :: "(change_kind \<Rightarrow> bool) \<Rightarrow> 'c child_list \<Rightarrow> string set" where
  "keys_where P ks = {c. \<exists>m. (c, m) \<in> occ_kids ks \<and> P (kind m)}"

lemma occ_kids_Nil [simp]: "occ_kids [] = {}"
  by (simp add: occ_kids_def)

lemma below_occ_kids: "below n c m \<longleftrightarrow> (c, m) \<in> occ_kids (kids_of n)"
proof (cases n)
  case (Change_node i k ch kids)
  then show ?thesis by (cases kids) (auto simp: occ_kids_def occ_node_def occurs_def kids_of_def)
qed

lemma occ_kids_Cons: "occ_kids ((h, n) # ks) = insert (h, n) (occ_kids (kids_of n)) \<union> occ_kids ks"
  by (auto simp: occ_kids_def [of "(h, n) # ks"] occ_kids_def [of ks] occ_node_def occurs_def below_occ_kids)

lemma keys_where_simps [simp]:
  "keys_where P [] = {}"
  "keys_where P ((h, n) # ks) = (if P (kind n) then {h} else {}) \<union> keys_where P (kids_of n) \<union> keys_where P ks"
  by (auto simp: keys_where_def occ_kids_Cons)

lemma keys_below_where: "keys_below n = keys_where (\<lambda>_. True) (kids_of n)"
  by (auto simp: keys_below_def keys_where_def below_occ_kids)

lemma keys_where_split: "keys_where (\<lambda>_. True) ks = keys_where is_acl ks \<union> keys_where (\<lambda>k. \<not> is_acl k) ks"
  by (auto simp: keys_where_def)

lemma set_map_set_keys: "fst ` set (map_set h v m) = insert h (fst ` set m)"
  by (induction m) (auto simp: map_set_def)

lemma set_map_set_values: "(c, n) \<in> set (map_set h v m) \<Longrightarrow> (c, n) = (h, v) \<or> (c, n) \<in> set m"
  by (induction m) (auto simp: map_set_def split: if_splits)

definition acl_leaves :: "'c child_list \<Rightarrow> bool" where
  "acl_leaves out \<longleftrightarrow> (\<forall>(c, n)\<in>set out. children n = No_children)"

definition collected :: "'c child_list \<Rightarrow> 'c child_list \<times> string list \<Rightarrow> 'c child_list \<times> string list \<Rightarrow> bool" where
  "collected ks st st' \<longleftrightarrow> fst ` set (fst st') = fst ` set (fst st) \<union> keys_where is_acl ks
     \<and> set (snd st') = set (snd st) \<union> keys_where (\<lambda>k. \<not> is_acl k) ks
     \<and> (acl_leaves (fst st) \<longrightarrow> acl_leaves (fst st'))"

lemma collect_one_spec:
  "fst ` set (fst (collect_one h n st)) = fst ` set (fst st) \<union> (if is_acl (kind n) then {h} else {})"
  "set (snd (collect_one h n st)) = set (snd st) \<union> (if is_acl (kind n) then {} else {h})"
  "acl_leaves (fst st) \<Longrightarrow> acl_leaves (fst (collect_one h n st))"
  by (auto simp: collect_one_def set_map_set_keys acl_leaves_def leaf_of_def dest!: set_map_set_values)

lemma collectACLNodes_spec: "collected ks st (collectACLNodes ks st)"
proof (induction ks st rule: collectACLNodes.induct)
  case (2 h n rest st)
  define st1 where "st1 = (case children n of Children ks \<Rightarrow> collectACLNodes ks (collect_one h n st) | _ \<Rightarrow> collect_one h n st)"
  have "collected (kids_of n) (collect_one h n st) st1"
    using 2(1) by (auto simp: st1_def kids_of_def collected_def split: children.splits)
  moreover have "collected rest st1 (collectACLNodes rest st1)" using 2(2) by (simp add: st1_def)
  ultimately show ?case using collect_one_spec[where h = h and n = n and st = st] by (auto simp: collected_def st1_def [symmetric])
qed (simp add: collected_def)

lemma collectACLNodes_fst: "fst st = fst st' \<Longrightarrow> fst (collectACLNodes ks st) = fst (collectACLNodes ks st')"
proof (induction ks st arbitrary: st' rule: collectACLNodes.induct)
  case (2 h n rest st)
  have one: "fst (collect_one h n st) = fst (collect_one h n st')" using 2(3) by (simp add: collect_one_def)
  show ?case using 2(2) 2(1)[OF _ one] one by (cases "children n") simp_all
qed simp

definition preserved :: "'c child_list \<Rightarrow> 'c children" where
  "preserved kids = (let out = fst (collectACLNodes kids ([], [])) in if out = [] then No_children else Children out)"

lemma preserved_eq:
  "collectACLNodes kids ([], pruned) = (out, pruned') \<Longrightarrow> (if out = [] then No_children else Children out) = preserved kids"
  using collectACLNodes_fst[of "([], pruned)" "([], [])" kids] by (simp add: preserved_def Let_def)

lemma preserved_keys: "keys_where (\<lambda>_. True) (kid_list (preserved kids)) = keys_where is_acl kids"
proof -
  obtain out p where c: "collectACLNodes kids ([], []) = (out, p)" by (metis surj_pair)
  then have out: "fst ` set out = keys_where is_acl kids" "\<forall>(c, n)\<in>set out. children n = No_children"
    using collectACLNodes_spec[of kids "([], [])"] by (auto simp: collected_def acl_leaves_def)
  have "keys_where (\<lambda>_. True) out = fst ` set out" using out(2) by (induction out) (force simp: kids_of_def)+
  then show ?thesis using out(1) c by (auto simp: preserved_def kid_list_def)
qed

section \<open>Positions in the tree\<close>

fun node_at :: "'c change_node \<Rightarrow> string list \<Rightarrow> 'c change_node option" where
  "node_at n [] = Some n"
| "node_at n (k # path) = (case map_of (kids_of n) k of Some m \<Rightarrow> node_at m path | None \<Rightarrow> None)"

lemma node_at_snoc: "node_at n path = Some m \<Longrightarrow> node_at n (path @ [k]) = map_of (kids_of m) k"
  by (induction path arbitrary: n) (auto split: option.splits)

lemma keys_unique_kid: "keys_unique n \<Longrightarrow> (k, m) \<in> set (kids_of n) \<Longrightarrow> keys_unique m"
  by (cases n rule: keys_unique.cases) (auto simp: kids_of_def all_unique_set)

lemma keys_unique_distinct: "keys_unique n \<Longrightarrow> distinct (map fst (kids_of n))"
  by (cases n rule: keys_unique.cases) (auto simp: kids_of_def)

lemma keys_unique_node_at: "keys_unique n \<Longrightarrow> node_at n path = Some m \<Longrightarrow> keys_unique m"
  by (induction path arbitrary: n) (auto split: option.splits dest: map_of_SomeD keys_unique_kid)

lemma below_node_at: "node_at n path = Some m \<Longrightarrow> occ_kids (kids_of m) \<subseteq> occ_kids (kids_of n)"
proof (induction path arbitrary: n)
  case (Cons k path)
  then obtain x where x: "map_of (kids_of n) k = Some x" "node_at x path = Some m" by (auto split: option.splits)
  then have "below n k x" by (simp add: map_of_SomeD below_kids)
  then have "occ_kids (kids_of x) \<subseteq> occ_kids (kids_of n)"
    using below_trans by (fastforce simp: below_occ_kids [symmetric])
  then show ?case using Cons.IH [OF x(2)] by blast
qed simp

text \<open>An edit of the pass: a document node whose children were replaced and whose document descendants are reported.\<close>

definition good_edit :: "'c change_node \<Rightarrow> string list \<Rightarrow> string list \<times> 'c children \<Rightarrow> bool" where
  "good_edit T pruned e \<longleftrightarrow> (\<exists>n kids. node_at T (fst e) = Some n \<and> children n = Children kids
     \<and> snd e = preserved kids \<and> keys_where (\<lambda>k. \<not> is_acl k) kids \<subseteq> set pruned)"

lemma prune_queue_spec:
  assumes "keys_unique T" "prune_queue keepCount q visited pruned edits = (pruned', edits')"
    "\<forall>(p, n)\<in>set q. node_at T p = Some n" "\<forall>e\<in>set edits. good_edit T pruned e"
    "set pruned \<subseteq> keys_where (\<lambda>k. \<not> is_acl k) (kids_of T)"
  shows "(\<forall>e\<in>set edits'. good_edit T pruned' e) \<and> set pruned' \<subseteq> keys_where (\<lambda>k. \<not> is_acl k) (kids_of T)"
  using assms(2-)
proof (induction keepCount q visited pruned edits rule: prune_queue.induct)
  case (2 keepCount path current queue visited pruned edits)
  have cur: "node_at T path = Some current" using 2(6) by simp
  show ?case
  proof (cases "children current")
    case (Children kids)
    show ?thesis
    proof (cases "\<not> is_acl (kind current) \<and> keepCount \<le> count_visit current visited")
      case True
      obtain out p1 where c: "collectACLNodes kids ([], pruned) = (out, p1)" by (metis surj_pair)
      have p1: "set p1 = set pruned \<union> keys_where (\<lambda>k. \<not> is_acl k) kids"
        using collectACLNodes_spec[of kids "([], pruned)"] c by (simp add: collected_def)
      have run: "prune_queue keepCount queue (count_visit current visited) p1 (edits @ [(path, preserved kids)]) = (pruned', edits')"
        using 2(5) Children True c preserved_eq [OF c] by simp
      have "\<forall>e\<in>set (edits @ [(path, preserved kids)]). good_edit T p1 e"
        using 2(7) cur Children p1 by (force simp: good_edit_def)
      moreover have "set p1 \<subseteq> keys_where (\<lambda>k. \<not> is_acl k) (kids_of T)"
        using 2(8) p1 below_node_at [OF cur] Children by (auto simp: keys_where_def kids_of_def)
      ultimately show ?thesis using 2(3)[OF Children True c[symmetric]] run 2(6) preserved_eq [OF c] by simp
    next
      case False
      have here: "node_at T (path @ [k]) = Some n" if "(k, n) \<in> set kids" for k n
        using that node_at_snoc [OF cur, of k] keys_unique_distinct [OF keys_unique_node_at [OF assms(1) cur]] Children
        by (simp add: kids_of_def)
      have "\<forall>(p, n)\<in>set (queue @ map (\<lambda>(k, n). (path @ [k], n)) kids). node_at T p = Some n"
        using 2(6) here by auto
      moreover have "prune_queue keepCount (queue @ map (\<lambda>(k, n). (path @ [k], n)) kids) (count_visit current visited) pruned edits = (pruned', edits')"
        using 2(5) Children False by simp
      ultimately show ?thesis using 2(4)[OF Children False _ _ 2(7) 2(8)] by blast
    qed
  qed (use 2 in auto)
qed simp

section \<open>The pruned tree\<close>

text \<open>\<open>kept T T' pruned\<close>: ACL keys of \<open>T\<close> are keys of \<open>T'\<close>, keys of \<open>T\<close> that are not are reported, and \<open>T'\<close> has no other keys.\<close>

definition kept :: "'c child_list \<Rightarrow> 'c child_list \<Rightarrow> string list \<Rightarrow> bool" where
  "kept ks ks' pruned \<longleftrightarrow> keys_where is_acl ks \<subseteq> keys_where (\<lambda>_. True) ks'
     \<and> keys_where (\<lambda>_. True) ks \<subseteq> keys_where (\<lambda>_. True) ks' \<union> set pruned
     \<and> keys_where (\<lambda>_. True) ks' \<subseteq> keys_where (\<lambda>_. True) ks"

lemma kept_refl: "kept ks ks pruned"
  by (auto simp: kept_def keys_where_split)

lemma rebuild_kept:
  assumes "keys_unique T"
  shows "node_at T path = Some n \<Longrightarrow> \<forall>e\<in>set edits. good_edit T pruned e
      \<Longrightarrow> kept (kids_of n) (kids_of (rebuild edits path n)) pruned \<and> kind (rebuild edits path n) = kind n"
    and "\<forall>(h, m)\<in>set kids. node_at T (path @ [h]) = Some m \<Longrightarrow> \<forall>e\<in>set edits. good_edit T pruned e
      \<Longrightarrow> kept kids (rebuild_list edits path kids) pruned"
proof (induction edits path n and edits path kids rule: rebuild_rebuild_list.induct)
  case (1 edits path i k c kids)
  let ?n = "Change_node i k c (Children kids)"
  show ?case
  proof (cases "map_of edits path")
    case None
    have "\<forall>(h, m)\<in>set kids. node_at T (path @ [h]) = Some m"
      using node_at_snoc [OF 1(2)] keys_unique_distinct [OF keys_unique_node_at [OF assms 1(2)]] by (auto simp: kids_of_def)
    then have "kept kids (rebuild_list edits path kids) pruned" using 1(1)[OF None] 1(3) by blast
    then show ?thesis using None by (simp add: kids_of_def)
  next
    case (Some ks)
    then have "good_edit T pruned (path, ks)" using 1(3) map_of_SomeD by fastforce
    then have ks: "ks = preserved kids" "keys_where (\<lambda>k. \<not> is_acl k) kids \<subseteq> set pruned" using 1(2) by (auto simp: good_edit_def)
    have "kids_of (Change_node i k c ks) = kid_list ks" by (simp add: kids_of_def kid_list_def)
    then have "kept kids (kids_of (Change_node i k c ks)) pruned"
      using ks preserved_keys[of kids] by (auto simp: kept_def keys_where_split [of kids])
    then show ?thesis using Some by (simp add: kids_of_def [of ?n])
  qed
next
  case (5 edits path h n kids)
  have "kept (kids_of n) (kids_of (rebuild edits (path @ [h]) n)) pruned \<and> kind (rebuild edits (path @ [h]) n) = kind n"
    using 5 by simp
  moreover have "kept kids (rebuild_list edits path kids) pruned" using 5 by simp
  ultimately show ?case by (auto simp: kept_def)
qed (simp_all add: kept_refl)

text \<open>
  Claim C14.  Pruning after a snapshot loses no membership entry: every reader or writer CID of the tree is still a key of the
  pruned tree, every CID that disappears is reported as pruned, every reported CID was a document change, and no new CID appears.
\<close>

theorem doc_prune_keeps_acl:
  assumes "keys_unique tree" "prune_tree keepCount tree = (pruned, tree')"
  shows "{c. \<exists>m. below tree c m \<and> is_acl (kind m)} \<subseteq> keys_below tree'
    \<and> keys_below tree - keys_below tree' \<subseteq> set pruned
    \<and> set pruned \<subseteq> {c. \<exists>m. below tree c m \<and> kind m = Document_change}
    \<and> keys_below tree' \<subseteq> keys_below tree"
proof -
  obtain edits where run: "prune_queue keepCount [([], tree)] 0 [] [] = (pruned, edits)" "tree' = rebuild edits [] tree"
    using assms(2) by (auto simp: prune_tree_def split: prod.splits)
  have edits: "\<forall>e\<in>set edits. good_edit tree pruned e" "set pruned \<subseteq> keys_where (\<lambda>k. \<not> is_acl k) (kids_of tree)"
    using prune_queue_spec [OF assms(1) run(1)] by auto
  have "kept (kids_of tree) (kids_of tree') pruned" using rebuild_kept(1) [OF assms(1) _ edits(1), of "[]" tree] run(2) by simp
  moreover have "(\<not> is_acl k) = (k = Document_change)" for k by (cases k) (auto simp: is_acl_def)
  ultimately show ?thesis using edits(2)
    by (auto simp: kept_def keys_below_where keys_where_def below_occ_kids)
qed


definition sample_tree :: "string change_node" where
  "sample_tree = Change_node None Document_change (Some ''top'') (Children
     [(''a'', Change_node None Document_change (Some ''x'') (Children
        [(''w'', Change_node None Writer_change (Some ''add'') (Children [(''b'', Change_node None Document_change (Some ''y'') No_children)]))]))])"

definition sample_pruned :: "string change_node" where
  "sample_pruned = Change_node None Document_change (Some ''top'') (Children [(''w'', Change_node None Writer_change (Some ''add'') No_children)])"

lemma sample_prune: "prune_tree 1 sample_tree = ([''a'', ''b''], sample_pruned)"
  by code_simp

theorem doc_prune_keeps_acl_witness:
  "{c. \<exists>m. below sample_tree c m \<and> is_acl (kind m)} \<subseteq> keys_below sample_pruned
   \<and> keys_below sample_tree - keys_below sample_pruned \<subseteq> {''a'', ''b''}
   \<and> {''a'', ''b''} \<subseteq> {c. \<exists>m. below sample_tree c m \<and> kind m = Document_change}"
proof -
  have "keys_unique sample_tree" by code_simp
  from doc_prune_keeps_acl [OF this sample_prune] show ?thesis by simp
qed

section \<open>Stubs of ACL entries\<close>

text \<open>
  The tree of three changes of one peer: the writer change \<^verbatim>\<open>w\<close>, then \<^verbatim>\<open>d1\<close>, then the root, which links back to \<open>w\<close> with a stub.
  Pruning keeps the CID \<open>w\<close> but with the stub in place of the entry, so the ACL change is no longer in the served tree.
\<close>

definition linked_tree :: "string change_node" where
  "linked_tree = Change_node None Document_change (Some ''d2'') (Children
     [(''d1'', Change_node None Document_change (Some ''d1'') (Children [(''w'', Change_node None Writer_change (Some ''add'') No_children)])),
      (''w'', Change_node None Writer_change None No_children)])"

theorem doc_prune_drops_acl_payload:
  "acl_changes linked_tree = [(Writer_change, ''add'')]
   \<and> prune_tree 1 linked_tree = ([''d1''], Change_node None Document_change (Some ''d2'') (Children [(''w'', Change_node None Writer_change None No_children)]))
   \<and> acl_changes (snd (prune_tree 1 linked_tree)) = []"
  by code_simp

end
