(* ===== verification/LruCache.thy ===== *)
theory LruCache
  imports Prelude
begin

text \<open>
  The cache of \<^verbatim>\<open>packages/collabswarm/src/lru-cache.ts\<close>: a bounded map whose iteration order is the order of use.  It refines
  a list of pairs, most recently used first, cut at the bound.
\<close>

section \<open>The class\<close>

record ('k, 'v) lru =
  lru_map :: "('k, 'v) jsmap"
  lru_max :: nat

definition new_lru :: "jsnum \<Rightarrow> unit + ('k, 'v) lru" where
  "new_lru maxSize = (if \<not> is_finite maxSize \<or> num_less maxSize 1 then Err ()
     else Ok \<lparr>lru_map = [], lru_max = nat (num_floor maxSize)\<rparr>)"

definition lru_get :: "'k \<Rightarrow> ('k, 'v) lru \<Rightarrow> 'v option \<times> ('k, 'v) lru" where
  "lru_get key c = (case map_get (lru_map c) key of
     Some v \<Rightarrow> (Some v, c\<lparr>lru_map := map_set key v (map_delete key (lru_map c))\<rparr>)
   | None \<Rightarrow> (None, c))"

definition lru_set :: "'k \<Rightarrow> 'v \<Rightarrow> ('k, 'v) lru \<Rightarrow> ('k, 'v) lru" where
  "lru_set key v c = (let m = lru_map c;
       m' = (if map_has m key then map_delete key m
             else if length m \<ge> lru_max c then map_delete (fst (hd m)) m else m)
     in c\<lparr>lru_map := map_set key v m'\<rparr>)"

definition lru_has :: "'k \<Rightarrow> ('k, 'v) lru \<Rightarrow> bool" where
  "lru_has key c = map_has (lru_map c) key"

definition lru_size :: "('k, 'v) lru \<Rightarrow> nat" where
  "lru_size c = length (lru_map c)"

definition lru_ok :: "('k, 'v) lru \<Rightarrow> bool" where
  "lru_ok c \<longleftrightarrow> map_ok (lru_map c) \<and> length (lru_map c) \<le> lru_max c \<and> 0 < lru_max c"

section \<open>Refinement of a recency list\<close>

text \<open>The specification: a list of pairs with the most recently used first.\<close>

definition recency_touch :: "'k \<Rightarrow> 'v \<Rightarrow> ('k \<times> 'v) list \<Rightarrow> ('k \<times> 'v) list" where
  "recency_touch k v l = (k, v) # filter (\<lambda>p. fst p \<noteq> k) l"

definition recency_get :: "'k \<Rightarrow> ('k \<times> 'v) list \<Rightarrow> 'v option \<times> ('k \<times> 'v) list" where
  "recency_get k l = (case map_of l k of Some v \<Rightarrow> (Some v, recency_touch k v l) | None \<Rightarrow> (None, l))"

definition recency_set :: "nat \<Rightarrow> 'k \<Rightarrow> 'v \<Rightarrow> ('k \<times> 'v) list \<Rightarrow> ('k \<times> 'v) list" where
  "recency_set cap k v l = take cap (recency_touch k v l)"

definition recency :: "('k, 'v) lru \<Rightarrow> ('k \<times> 'v) list" where
  "recency c = rev (lru_map c)"

lemma set_after_delete: "map_set k v (map_delete k m) = filter (\<lambda>p. fst p \<noteq> k) m @ [(k, v)]"
  using map_set_fresh[of k "filter (\<lambda>p. fst p \<noteq> k) m" v] by (auto simp: map_delete_filter)

lemma map_of_rev: "map_ok m \<Longrightarrow> map_of (rev m) k = map_of m k"
  using map_of_inject_set[of "rev m" m] by (simp add: map_ok_def rev_map [symmetric])

lemma filter_absent: "k \<notin> fst ` set m \<Longrightarrow> filter (\<lambda>p. fst p \<noteq> k) m = m"
  by (induction m) auto

lemma length_filter_key:
  assumes "map_ok m" "map_has m k"
  shows "Suc (length (filter (\<lambda>p. fst p \<noteq> k) m)) = length m"
  using assms unfolding map_ok_def map_has_def by (induction m) (auto simp: filter_absent)

lemma lru_get_refines:
  assumes "lru_ok c"
  shows "fst (lru_get k c) = fst (recency_get k (recency c)) \<and> recency (snd (lru_get k c)) = snd (recency_get k (recency c)) \<and> lru_ok (snd (lru_get k c))
    \<and> lru_max (snd (lru_get k c)) = lru_max c"
proof (cases "map_get (lru_map c) k")
  case None
  then show ?thesis using assms map_of_rev[of "lru_map c" k]
    by (simp add: lru_get_def recency_get_def recency_def lru_ok_def map_get_def)
next
  case (Some v)
  then have has: "map_has (lru_map c) k" by (simp add: map_has_iff)
  have "Suc (length (filter (\<lambda>p. fst p \<noteq> k) (lru_map c))) = length (lru_map c)"
    using length_filter_key [OF _ has] assms by (simp add: lru_ok_def)
  moreover have "map_ok (map_set k v (map_delete k (lru_map c)))" using assms by (simp add: lru_ok_def map_ok_set map_ok_delete)
  ultimately show ?thesis using Some assms map_of_rev[of "lru_map c" k]
    by (simp add: lru_get_def recency_get_def recency_def lru_ok_def map_get_def set_after_delete recency_touch_def rev_filter)
qed

lemma lru_set_refines:
  assumes "lru_ok c"
  shows "recency (lru_set k v c) = recency_set (lru_max c) k v (recency c) \<and> lru_ok (lru_set k v c) \<and> lru_max (lru_set k v c) = lru_max c"
proof -
  let ?m = "lru_map c" and ?f = "filter (\<lambda>p. fst p \<noteq> k) (lru_map c)"
  have ok: "map_ok ?m" "length ?m \<le> lru_max c" "0 < lru_max c" using assms by (simp_all add: lru_ok_def)
  show ?thesis
  proof (cases "map_has ?m k")
    case True
    have "Suc (length ?f) \<le> lru_max c" using length_filter_key [OF ok(1) True] ok(2) by simp
    then have "take (lru_max c) ((k, v) # rev ?f) = (k, v) # rev ?f" by simp
    then show ?thesis using True ok
      by (auto simp: lru_set_def Let_def recency_def recency_set_def recency_touch_def set_after_delete rev_filter [symmetric] lru_ok_def map_ok_def map_has_def
          distinct_map_filter)
  next
    case False
    then have f: "?f = ?m" "k \<notin> fst ` set ?m" by (auto simp: map_has_def intro!: filter_absent)
    show ?thesis
    proof (cases "lru_max c \<le> length ?m")
      case True
      then obtain p rest where m: "?m = p # rest" using ok(3) by (cases ?m) auto
      then have "map_delete (fst (hd ?m)) ?m = rest" using ok(1) by (auto simp: map_delete_filter map_ok_def filter_absent)
      moreover have "lru_max c = Suc (length rest)" using True ok(2) m by simp
      ultimately show ?thesis using False True ok m f
        by (auto simp: lru_set_def Let_def recency_def recency_set_def recency_touch_def map_set_fresh lru_ok_def map_ok_def map_has_def
            rev_filter [symmetric])
    next
      case False
      then show ?thesis using \<open>\<not> map_has ?m k\<close> ok f
        by (auto simp: lru_set_def Let_def recency_def recency_set_def recency_touch_def map_set_fresh lru_ok_def map_ok_def map_has_def rev_filter [symmetric])
    qed
  qed
qed

section \<open>Sequences of operations\<close>

datatype ('k, 'v) lru_op = Lru_get 'k | Lru_set 'k 'v

definition lru_step :: "('k, 'v) lru \<Rightarrow> ('k, 'v) lru_op \<Rightarrow> ('k, 'v) lru" where
  "lru_step c op = (case op of Lru_get k \<Rightarrow> snd (lru_get k c) | Lru_set k v \<Rightarrow> lru_set k v c)"

definition recency_step :: "nat \<Rightarrow> ('k \<times> 'v) list \<Rightarrow> ('k, 'v) lru_op \<Rightarrow> ('k \<times> 'v) list" where
  "recency_step cap l op = (case op of Lru_get k \<Rightarrow> snd (recency_get k l) | Lru_set k v \<Rightarrow> recency_set cap k v l)"

definition lru_inv :: "nat \<Rightarrow> ('k, 'v) lru \<Rightarrow> bool" where
  "lru_inv cap c \<longleftrightarrow> lru_ok c \<and> lru_max c = cap"

interpretation lru: functional_refinement lru_step "lru_inv cap" recency "recency_step cap" for cap
  by unfold_locales
    (auto simp: lru_inv_def lru_step_def recency_step_def lru_get_refines lru_set_refines split: lru_op.splits)

text \<open>
  The cache is a recency list cut at its bound.  After any sequence of lookups and stores on a new cache of size \<open>n\<close>, the entries
  in reverse insertion order are those of the list in which every lookup and store moves its key to the front and a store drops what
  lies past the floor of \<open>n\<close>; a lookup returns what the list holds and the size never exceeds the bound.
\<close>

theorem lru_refines_recency_list:
  assumes "new_lru n = Ok c"
  shows "recency (foldl lru_step c ops) = foldl (recency_step (nat (num_floor n))) [] ops
    \<and> fst (lru_get k (foldl lru_step c ops)) = fst (recency_get k (foldl (recency_step (nat (num_floor n))) [] ops))
    \<and> lru_size (foldl lru_step c ops) \<le> nat (num_floor n) \<and> 0 < nat (num_floor n)"
proof -
  let ?cap = "nat (num_floor n)"
  have inv: "lru_inv ?cap c" and empty: "recency c = []"
    using assms by (auto simp: new_lru_def lru_inv_def lru_ok_def recency_def map_ok_def jsnum_defs split: if_splits jsnum.splits)
  then have "lru_inv ?cap (foldl lru_step c ops)" and run: "recency (foldl lru_step c ops) = foldl (recency_step ?cap) [] ops"
    using lru.run_inv lru.run_abs by (metis, metis)
  then show ?thesis using lru_get_refines [of "foldl lru_step c ops" k] by (auto simp: lru_inv_def lru_ok_def lru_size_def)
qed

theorem lru_refines_recency_list_witness:
  "\<exists>c. new_lru (Fin 2) = Ok c
     \<and> recency (foldl lru_step c [Lru_set ''a'' 1, Lru_set ''b'' 2, Lru_get ''a'', Lru_set ''c'' (3 :: nat)]) = [(''c'', 3), (''a'', 1)]"
proof -
  obtain c :: "(string, nat) lru" where c: "new_lru (Fin 2) = Ok c" by (simp add: new_lru_def jsnum_defs)
  have "foldl (recency_step (nat (num_floor (Fin 2)))) [] [Lru_set ''a'' 1, Lru_set ''b'' 2, Lru_get ''a'', Lru_set ''c'' (3 :: nat)]
      = [(''c'', 3), (''a'', 1)]"
    by (simp add: recency_step_def recency_set_def recency_get_def recency_touch_def jsnum_defs)
  then show ?thesis using lru_refines_recency_list [OF c] c by metis
qed

end
