(* ===== verification/YjsProviders.thy ===== *)
theory YjsProviders
  imports LruCache DocCore
begin

text \<open>
  The ACL and the keychain of \<^verbatim>\<open>packages/collabswarm-yjs/src/collabswarm-yjs.ts\<close>, with their LRU caches of imported keys.  The shared
  Yjs documents, WebCrypto and its randomness are parameters; imports of several keys complete in an arbitrary order, which is a parameter too.
\<close>

section \<open>Hex cache keys\<close>

definition hex_value :: "char \<Rightarrow> nat option" where
  "hex_value c = (let n = of_char c :: nat in
     if 48 \<le> n \<and> n \<le> 57 then Some (n - 48)
     else if 97 \<le> n \<and> n \<le> 102 then Some (n - 87)
     else if 65 \<le> n \<and> n \<le> 70 then Some (n - 55) else None)"

fun parse_pairs :: "string \<Rightarrow> bytes option" where
  "parse_pairs [] = Some []"
| "parse_pairs [c] = None"
| "parse_pairs (h # l # cs) = (case (hex_value h, hex_value l, parse_pairs cs) of
     (Some a, Some b, Some bs) \<Rightarrow> Some (of_nat (16 * a + b) # bs) | _ \<Rightarrow> None)"

definition keyIdToCacheKey :: "bytes \<Rightarrow> string" where
  "keyIdToCacheKey keyIDBytes = hex_of_bytes keyIDBytes"

datatype key_error = Invalid_cache_key string | Import_failed string | Keychain_empty

definition cacheKeyToKeyId :: "string \<Rightarrow> key_error + bytes" where
  "cacheKeyToKeyId cacheKey = (if cacheKey = [] then Err (Invalid_cache_key cacheKey)
     else case parse_pairs cacheKey of Some bs \<Rightarrow> Ok bs | None \<Rightarrow> Err (Invalid_cache_key cacheKey))"

lemma hex_value_digit: "n < 16 \<Longrightarrow> hex_value (hex_digit n) = Some n"
  by (auto simp: hex_value_def hex_digit_def less_Suc_eq numeral_eq_Suc)

lemma parse_pairs_hex: "parse_pairs (hex_of_bytes bs) = Some bs"
proof (induction bs)
  case (Cons b bs)
  have "unat b div 16 < 16" "unat b mod 16 < 16" using unat_byte_less[of b] by (auto simp: div_less_iff_less_mult)
  then show ?case using Cons by (simp add: byte_hex_two hex_value_digit)
qed simp

text \<open>Reading back a cache key gives the key ID, the empty one excepted.\<close>

lemma cache_key_round_trip: "keyID \<noteq> [] \<Longrightarrow> cacheKeyToKeyId (keyIdToCacheKey keyID) = Ok keyID"
  using length_hex_of_bytes [of keyID] by (auto simp: cacheKeyToKeyId_def keyIdToCacheKey_def parse_pairs_hex)

section \<open>Importing through the cache\<close>

text \<open>
  \<^verbatim>\<open>Promise.all\<close> over the entries: first every entry is looked up in order, then the imports of the missing ones complete
  and store their results, in an order given by their positions.  The outcome is an error when some import fails.
\<close>

definition completed :: "nat list \<Rightarrow> 'a list \<Rightarrow> 'a list" where
  "completed order xs = map (\<lambda>i. xs ! i) (filter (\<lambda>i. i < length xs) order)"

fun look_all :: "('k \<times> 's) list \<Rightarrow> ('k, 'v) lru \<Rightarrow> 'v option list \<times> ('k, 'v) lru" where
  "look_all [] c = ([], c)"
| "look_all ((k, ser) # entries) c = (case lru_get k c of (r, c1) \<Rightarrow> case look_all entries c1 of (rs, c2) \<Rightarrow> (r # rs, c2))"

definition missed :: "('k \<times> 's) list \<Rightarrow> 'v option list \<Rightarrow> ('k \<times> 's) list" where
  "missed entries found = map fst (filter (\<lambda>(e, r). r = None) (zip entries found))"

definition store_import :: "('s \<Rightarrow> 'e + 'v) \<Rightarrow> 'k \<times> 's \<Rightarrow> ('k, 'v) lru \<Rightarrow> ('k, 'v) lru" where
  "store_import imp e c = (case imp (snd e) of Inr v \<Rightarrow> lru_set (fst e) v c | Inl _ \<Rightarrow> c)"

fun all_ok :: "('e + 'v) list \<Rightarrow> 'e + 'v list" where
  "all_ok [] = Ok []"
| "all_ok (r # rs) = try_bind r (\<lambda>v. try_bind (all_ok rs) (\<lambda>vs. Ok (v # vs)))"

definition import_all ::
  "('s \<Rightarrow> 'e + 'v) \<Rightarrow> nat list \<Rightarrow> ('k \<times> 's) list \<Rightarrow> ('k, 'v) lru \<Rightarrow> ('e + 'v list) \<times> ('k, 'v) lru" where
  "import_all imp order entries c = (case look_all entries c of (found, c1) \<Rightarrow>
     (all_ok (map2 (\<lambda>(k, ser) r. case r of Some v \<Rightarrow> Ok v | None \<Rightarrow> imp ser) entries found),
      fold (store_import imp) (completed order (missed entries found)) c1))"

section \<open>The ACL\<close>

record ('d, 'u) yjs_map =
  ym_keys :: "'d \<Rightarrow> string list" \<comment> \<open>\<^verbatim>\<open>getMap('users').keys()\<close>\<close>
  ym_set :: "string \<Rightarrow> 'd \<Rightarrow> 'd"
  ym_delete :: "string \<Rightarrow> 'd \<Rightarrow> 'd"
  ym_new :: 'd
  ym_diff :: "'d \<Rightarrow> 'd \<Rightarrow> 'u" \<comment> \<open>\<^verbatim>\<open>encodeStateAsUpdateV2(doc, stateVector(before))\<close>\<close>
  ym_full :: "'d \<Rightarrow> 'u"
  ym_apply :: "'u \<Rightarrow> 'd \<Rightarrow> 'd"

record 'key key_codec =
  serializeKey :: "'key \<Rightarrow> string"
  importKey :: "string \<Rightarrow> key_error + 'key"

record ('d, 'key) yjs_acl =
  acl_doc :: 'd
  acl_cache :: "(string, 'key) lru"

definition key_cache :: "('k, 'v) lru" where
  "key_cache = \<lparr>lru_map = [], lru_max = 1000\<rparr>"

definition new_acl :: "('d, 'u) yjs_map \<Rightarrow> ('d, 'key) yjs_acl" where
  "new_acl Y = \<lparr>acl_doc = ym_new Y, acl_cache = key_cache\<rparr>"

definition acl_add :: "('d, 'u) yjs_map \<Rightarrow> 'key key_codec \<Rightarrow> 'key \<Rightarrow> ('d, 'key) yjs_acl \<Rightarrow> 'u \<times> ('d, 'key) yjs_acl" where
  "acl_add Y K publicKey acl = (let d = ym_set Y (serializeKey K publicKey) (acl_doc acl)
     in (ym_diff Y d (acl_doc acl), acl\<lparr>acl_doc := d\<rparr>))"

definition acl_remove :: "('d, 'u) yjs_map \<Rightarrow> 'key key_codec \<Rightarrow> 'key \<Rightarrow> ('d, 'key) yjs_acl \<Rightarrow> 'u \<times> ('d, 'key) yjs_acl" where
  "acl_remove Y K publicKey acl = (let h = serializeKey K publicKey;
       d = (if h \<in> set (ym_keys Y (acl_doc acl)) then ym_delete Y h (acl_doc acl) else acl_doc acl)
     in (ym_diff Y d (acl_doc acl), acl\<lparr>acl_doc := d\<rparr>))"

definition acl_current :: "('d, 'u) yjs_map \<Rightarrow> ('d, 'key) yjs_acl \<Rightarrow> 'u" where
  "acl_current Y acl = ym_full Y (acl_doc acl)"

definition acl_merge :: "('d, 'u) yjs_map \<Rightarrow> 'u \<Rightarrow> ('d, 'key) yjs_acl \<Rightarrow> ('d, 'key) yjs_acl" where
  "acl_merge Y ch acl = acl\<lparr>acl_doc := ym_apply Y ch (acl_doc acl)\<rparr>"

definition acl_check :: "('d, 'u) yjs_map \<Rightarrow> 'key key_codec \<Rightarrow> 'key \<Rightarrow> ('d, 'key) yjs_acl \<Rightarrow> bool" where
  "acl_check Y K publicKey acl \<longleftrightarrow> serializeKey K publicKey \<in> set (ym_keys Y (acl_doc acl))"

definition acl_users :: "('d, 'u) yjs_map \<Rightarrow> 'key key_codec \<Rightarrow> nat list \<Rightarrow> ('d, 'key) yjs_acl
    \<Rightarrow> (key_error + 'key list) \<times> ('d, 'key) yjs_acl" where
  "acl_users Y K order acl = (case import_all (importKey K) order (map (\<lambda>s. (s, s)) (ym_keys Y (acl_doc acl))) (acl_cache acl) of
     (r, c) \<Rightarrow> (r, acl\<lparr>acl_cache := c\<rparr>))"

section \<open>The keychain\<close>

type_synonym key_entry = "string \<times> string"

record ('d, 'u) yjs_array =
  ya_get :: "'d \<Rightarrow> key_entry list"
  ya_push :: "key_entry \<Rightarrow> 'd \<Rightarrow> 'd"
  ya_new :: 'd
  ya_diff :: "'d \<Rightarrow> 'd \<Rightarrow> 'u"
  ya_full :: "'d \<Rightarrow> 'u"
  ya_apply :: "'u \<Rightarrow> 'd \<Rightarrow> 'd"

record ('d, 'key) yjs_keychain =
  kc_doc :: 'd
  kc_cache :: "(string, 'key) lru"

definition new_keychain :: "('d, 'u) yjs_array \<Rightarrow> ('d, 'key) yjs_keychain" where
  "new_keychain Y = \<lparr>kc_doc = ya_new Y, kc_cache = key_cache\<rparr>"

definition kc_addEpochKey :: "('d, 'u) yjs_array \<Rightarrow> 'key key_codec \<Rightarrow> bytes \<Rightarrow> 'key \<Rightarrow> ('d, 'key) yjs_keychain \<Rightarrow> 'u \<times> ('d, 'key) yjs_keychain" where
  "kc_addEpochKey Y K epochId key kc = (let h = hex_of_bytes epochId; d = ya_push Y (h, serializeKey K key) (kc_doc kc)
     in (ya_diff Y d (kc_doc kc), \<lparr>kc_doc = d, kc_cache = lru_set h key (kc_cache kc)\<rparr>))"

text \<open>\<^verbatim>\<open>add\<close> draws the key ID and the key; both are arguments.\<close>

definition kc_add :: "('d, 'u) yjs_array \<Rightarrow> 'key key_codec \<Rightarrow> bytes \<Rightarrow> 'key \<Rightarrow> ('d, 'key) yjs_keychain \<Rightarrow> (bytes \<times> 'key \<times> 'u) \<times> ('d, 'key) yjs_keychain" where
  "kc_add Y K keyIDBytes key kc = (let h = hex_of_bytes keyIDBytes; d = ya_push Y (h, serializeKey K key) (kc_doc kc)
     in ((keyIDBytes, key, ya_diff Y d (kc_doc kc)), \<lparr>kc_doc = d, kc_cache = lru_set h key (kc_cache kc)\<rparr>))"

definition kc_history :: "('d, 'u) yjs_array \<Rightarrow> ('d, 'key) yjs_keychain \<Rightarrow> 'u" where
  "kc_history Y kc = ya_full Y (kc_doc kc)"

definition kc_merge :: "('d, 'u) yjs_array \<Rightarrow> 'u \<Rightarrow> ('d, 'key) yjs_keychain \<Rightarrow> ('d, 'key) yjs_keychain" where
  "kc_merge Y ch kc = kc\<lparr>kc_doc := ya_apply Y ch (kc_doc kc)\<rparr>"

definition valid_id :: "key_entry \<Rightarrow> bool" where
  "valid_id e = (case cacheKeyToKeyId (fst e) of Inr _ \<Rightarrow> True | Inl _ \<Rightarrow> False)"

definition kc_keys :: "('d, 'u) yjs_array \<Rightarrow> 'key key_codec \<Rightarrow> nat list \<Rightarrow> ('d, 'key) yjs_keychain
    \<Rightarrow> (key_error + (bytes \<times> 'key) list) \<times> ('d, 'key) yjs_keychain" where
  "kc_keys Y K order kc = (let entries = ya_get Y (kc_doc kc); launched = takeWhile valid_id entries in
     case import_all (importKey K) order launched (kc_cache kc) of (r, c) \<Rightarrow>
       (if length launched < length entries then Err (Invalid_cache_key (fst (entries ! length launched)))
        else try_bind r (\<lambda>keys. try_bind (all_ok (map (cacheKeyToKeyId \<circ> fst) entries)) (\<lambda>ids. Ok (zip ids keys))),
        kc\<lparr>kc_cache := c\<rparr>))"

definition kc_current :: "('d, 'u) yjs_array \<Rightarrow> 'key key_codec \<Rightarrow> ('d, 'key) yjs_keychain \<Rightarrow> (key_error + (bytes \<times> 'key)) \<times> ('d, 'key) yjs_keychain" where
  "kc_current Y K kc = (case ya_get Y (kc_doc kc) of [] \<Rightarrow> (Err Keychain_empty, kc)
   | entries \<Rightarrow> (case last entries of (keyID, serialized) \<Rightarrow> (case cacheKeyToKeyId keyID of
       Inl e \<Rightarrow> (Err e, kc)
     | Inr keyIDBytes \<Rightarrow> (case lru_get keyID (kc_cache kc) of
         (Some key, c) \<Rightarrow> (Ok (keyIDBytes, key), kc\<lparr>kc_cache := c\<rparr>)
       | (None, c) \<Rightarrow> (case importKey K serialized of
           Inl e \<Rightarrow> (Err e, kc\<lparr>kc_cache := c\<rparr>)
         | Inr key \<Rightarrow> (Ok (keyIDBytes, key), kc\<lparr>kc_cache := lru_set keyID key c\<rparr>))))))"

text \<open>A fresh document that holds the given entries, encoded.\<close>

definition minimal_doc :: "('d, 'u) yjs_array \<Rightarrow> key_entry list \<Rightarrow> 'd" where
  "minimal_doc Y entries = foldl (\<lambda>d e. ya_push Y e d) (ya_new Y) entries"

definition kc_currentKeyChange :: "('d, 'u) yjs_array \<Rightarrow> ('d, 'key) yjs_keychain \<Rightarrow> key_error + 'u" where
  "kc_currentKeyChange Y kc = (case ya_get Y (kc_doc kc) of [] \<Rightarrow> Err Keychain_empty
   | entries \<Rightarrow> Ok (ya_full Y (minimal_doc Y [last entries])))"

fun find_index :: "string \<Rightarrow> key_entry list \<Rightarrow> nat option" where
  "find_index k [] = None"
| "find_index k (e # es) = (if fst e = k then Some 0 else map_option Suc (find_index k es))"

definition kc_historySince :: "('d, 'u) yjs_array \<Rightarrow> bytes \<Rightarrow> ('d, 'key) yjs_keychain \<Rightarrow> key_error + 'u" where
  "kc_historySince Y keyID kc = (let entries = ya_get Y (kc_doc kc) in
     if entries = [] then Err Keychain_empty
     else case find_index (keyIdToCacheKey keyID) entries of
       None \<Rightarrow> Ok (ya_full Y (kc_doc kc))
     | Some startIdx \<Rightarrow> Ok (ya_full Y (minimal_doc Y (drop startIdx entries))))"

definition kc_getKey :: "bytes \<Rightarrow> ('d, 'key) yjs_keychain \<Rightarrow> 'key option \<times> ('d, 'key) yjs_keychain" where
  "kc_getKey keyIDBytes kc = (case lru_get (keyIdToCacheKey keyIDBytes) (kc_cache kc) of (r, c) \<Rightarrow> (r, kc\<lparr>kc_cache := c\<rparr>))"

section \<open>What a document discloses of its keychain\<close>

definition keychainChangesForVisibility :: "('d, 'u) yjs_array \<Rightarrow> history_visibility \<Rightarrow> bytes option \<Rightarrow> ('d, 'key) yjs_keychain \<Rightarrow> key_error + 'u" where
  "keychainChangesForVisibility Y vis invitation kc = (case vis of
     Full_history \<Rightarrow> Ok (kc_history Y kc)
   | Since_invited \<Rightarrow> (case invitation of None \<Rightarrow> kc_currentKeyChange Y kc | Some epoch \<Rightarrow> kc_historySince Y epoch kc)
   | Current_only \<Rightarrow> kc_currentKeyChange Y kc)"

definition keychainChangesForWelcome :: "('d, 'u) yjs_array \<Rightarrow> history_visibility \<Rightarrow> ('d, 'key) yjs_keychain \<Rightarrow> key_error + 'u" where
  "keychainChangesForWelcome Y vis kc = (case vis of
     Full_history \<Rightarrow> Ok (kc_history Y kc)
   | Since_invited \<Rightarrow> kc_currentKeyChange Y kc
   | Current_only \<Rightarrow> kc_currentKeyChange Y kc)"

end
