(* ===== verification/YjsCorrect.thy ===== *)
theory YjsCorrect
  imports YjsProviders
begin

text \<open>
  Correctness of the Yjs ACL and keychain: the key caches are invisible, keys of the keychain are found after they were imported,
  and a document discloses exactly the keys its visibility allows.
\<close>

section \<open>The interface of a cache of imported keys\<close>

text \<open>
  What the providers rely on: a lookup tells what the cache holds and changes nothing else, a stored value is held at once,
  and everything held was held before or just stored.
\<close>

locale value_cache =
  fixes look :: "'k \<Rightarrow> 'c \<Rightarrow> 'v option \<times> 'c"
    and store :: "'k \<Rightarrow> 'v \<Rightarrow> 'c \<Rightarrow> 'c"
    and holds :: "'c \<Rightarrow> 'k \<Rightarrow> 'v option"
    and inv :: "'c \<Rightarrow> bool"
  assumes look_holds: "inv c \<Longrightarrow> fst (look k c) = holds c k"
    and holds_look: "inv c \<Longrightarrow> holds (snd (look k c)) k' = holds c k'"
    and holds_store: "inv c \<Longrightarrow> holds (store k v c) k = Some v"
    and store_sound: "inv c \<Longrightarrow> holds (store k v c) k' = Some w \<Longrightarrow> k' = k \<and> w = v \<or> holds c k' = Some w"
    and inv_look: "inv c \<Longrightarrow> inv (snd (look k c))"
    and inv_store: "inv c \<Longrightarrow> inv (store k v c)"
begin

definition coherent :: "('k \<Rightarrow> 'v \<Rightarrow> bool) \<Rightarrow> 'c \<Rightarrow> bool" where
  "coherent P c \<longleftrightarrow> inv c \<and> (\<forall>k v. holds c k = Some v \<longrightarrow> P k v)"

lemma coherent_look: "coherent P c \<Longrightarrow> coherent P (snd (look k c))"
  by (simp add: coherent_def holds_look inv_look)

lemma coherent_store: "coherent P c \<Longrightarrow> P k v \<Longrightarrow> coherent P (store k v c)"
  unfolding coherent_def using store_sound inv_store by blast

lemma coherent_hit: "coherent P c \<Longrightarrow> fst (look k c) = Some v \<Longrightarrow> P k v"
  by (simp add: coherent_def look_holds)

lemma look_after_store: "inv c \<Longrightarrow> fst (look k (store k v c)) = Some v"
  by (simp add: look_holds holds_store inv_store)

end

definition lru_holds :: "('k, 'v) lru \<Rightarrow> 'k \<Rightarrow> 'v option" where
  "lru_holds c k = map_get (lru_map c) k"

lemma lru_holds_recency: "lru_ok c \<Longrightarrow> lru_holds c k = map_of (recency c) k"
  by (simp add: lru_holds_def recency_def map_get_def map_of_rev lru_ok_def)

lemma map_of_touch: "map_of (recency_touch k v l) k' = (if k' = k then Some v else map_of l k')"
proof -
  have "map_of (filter (\<lambda>p. fst p \<noteq> k) l) k' = map_of l k'" if "k' \<noteq> k" using that by (induction l) auto
  then show ?thesis by (simp add: recency_touch_def)
qed

lemma map_of_take: "map_of (take n l) k = Some v \<Longrightarrow> map_of l k = Some v"
  by (induction l arbitrary: n) (auto simp: take_Cons' split: if_splits)

interpretation kcache: value_cache lru_get lru_set lru_holds lru_ok
proof unfold_locales
  fix c :: "('k, 'v) lru" and k k' v w
  assume ok: "lru_ok c"
  note get = lru_get_refines [OF ok, of k] and set = lru_set_refines [OF ok, of k v]
  show "fst (lru_get k c) = lru_holds c k" by (simp add: lru_get_def lru_holds_def split: option.splits)
  show "lru_holds (snd (lru_get k c)) k' = lru_holds c k'"
    using get ok by (auto simp: lru_holds_recency recency_get_def map_of_touch split: option.splits)
  have pos: "0 < lru_max c" using ok by (simp add: lru_ok_def)
  show "lru_holds (lru_set k v c) k = Some v"
    using set pos by (cases "lru_max c") (simp_all add: lru_holds_recency recency_set_def recency_touch_def)
  show "k' = k \<and> w = v \<or> lru_holds c k' = Some w" if "lru_holds (lru_set k v c) k' = Some w"
    using that set ok map_of_take[of "lru_max c" "recency_touch k v (recency c)" k' w]
    by (auto simp: lru_holds_recency recency_set_def map_of_touch split: if_splits)
  show "lru_ok (snd (lru_get k c))" "lru_ok (lru_set k v c)" using get set by auto
qed

section \<open>Importing\<close>

lemma look_all_spec:
  assumes "kcache.coherent P c" "look_all entries c = (found, c')"
  shows "kcache.coherent P c' \<and> length found = length entries \<and> lru_holds c' = lru_holds c
    \<and> found = map (lru_holds c \<circ> fst) entries"
  using assms
proof (induction entries arbitrary: c found c')
  case (Cons e es)
  obtain k ser where e: "e = (k, ser)" by (cases e)
  obtain r c1 where g: "lru_get k c = (r, c1)" by (cases "lru_get k c")
  obtain rs c2 where rs: "look_all es c1 = (rs, c2)" by (cases "look_all es c1")
  have ok: "lru_ok c" using Cons.prems(1) by (simp add: kcache.coherent_def)
  have r: "r = lru_holds c k" and c1: "kcache.coherent P c1" "lru_holds c1 = lru_holds c"
    using kcache.look_holds [OF ok, of k] kcache.coherent_look [OF Cons.prems(1), of k] kcache.holds_look [OF ok, of k] g by auto
  show ?case using Cons.IH [OF c1(1) rs] Cons.prems(2) e g rs r c1(2) by auto
qed simp

lemma set_completed: "set (completed order xs) \<subseteq> set xs"
  by (auto simp: completed_def)

lemma completed_all:
  assumes "{..<length xs} \<subseteq> set order"
  shows "set (completed order xs) = set xs"
proof -
  have "x \<in> set (completed order xs)" if "x \<in> set xs" for x
  proof -
    obtain i where i: "i < length xs" "xs ! i = x" using \<open>x \<in> set xs\<close> by (auto simp: in_set_conv_nth)
    then have "i \<in> set (filter (\<lambda>i. i < length xs) order)" using assms by auto
    then show ?thesis using i(2) by (force simp: completed_def)
  qed
  then show ?thesis by (intro equalityI set_completed subsetI)
qed

lemma coherent_imports:
  "kcache.coherent P c \<Longrightarrow> (\<And>k ser v. (k, ser) \<in> set es \<Longrightarrow> imp ser = Ok v \<Longrightarrow> P k v) \<Longrightarrow> kcache.coherent P (fold (store_import imp) es c)"
proof (induction es arbitrary: c)
  case (Cons e es)
  have "kcache.coherent P (store_import imp e c)"
    using Cons.prems by (cases e) (auto simp: store_import_def intro: kcache.coherent_store split: sum.splits)
  then have "kcache.coherent P (fold (store_import imp) es (store_import imp e c))" by (rule Cons.IH) (use Cons.prems(2) in auto)
  then show ?case by simp
qed simp

text \<open>With a coherent cache, importing gives what importing without a cache gives.\<close>

lemma import_all_exact:
  assumes coh: "kcache.coherent P c" and P: "\<And>k ser v. (k, ser) \<in> set entries \<Longrightarrow> P k v \<longleftrightarrow> imp ser = Ok v"
    and run: "import_all imp order entries c = (r, c')"
  shows "r = all_ok (map (imp \<circ> snd) entries) \<and> kcache.coherent P c'"
proof -
  obtain found c1 where l: "look_all entries c = (found, c1)" by (cases "look_all entries c")
  note spec = look_all_spec [OF coh l]
  have eq: "map2 (\<lambda>(k, ser) r. case r of Some v \<Rightarrow> Ok v | None \<Rightarrow> imp ser) entries found = map (imp \<circ> snd) entries"
  proof (rule nth_equalityI)
    fix i assume "i < length (map2 (\<lambda>(k, ser) r. case r of Some v \<Rightarrow> Ok v | None \<Rightarrow> imp ser) entries found)"
    then have i: "i < length entries" by simp
    obtain k ser where e: "entries ! i = (k, ser)" by (cases "entries ! i")
    then have "imp ser = Ok v" if "lru_holds c k = Some v" for v
      using coh that P[of k ser v] nth_mem [OF i] by (simp add: kcache.coherent_def)
    then show "map2 (\<lambda>(k, ser) r. case r of Some v \<Rightarrow> Ok v | None \<Rightarrow> imp ser) entries found ! i = map (imp \<circ> snd) entries ! i"
      using i e spec by (auto split: option.splits)
  qed (use spec in simp)
  have "set (completed order (missed entries found)) \<subseteq> set entries"
    using set_completed [of order "missed entries found"] by (auto simp: missed_def dest!: set_zip_leftD subsetD)
  then have "kcache.coherent P (fold (store_import imp) (completed order (missed entries found)) c1)"
    using spec P by (intro coherent_imports) blast+
  then show ?thesis using run l eq by (simp add: import_all_def)
qed

section \<open>The ACL over its operations\<close>

datatype ('key, 'u) acl_op = Acl_add 'key | Acl_remove 'key | Acl_merge 'u | Acl_users "nat list"

definition acl_step :: "('d, 'u) yjs_map \<Rightarrow> 'key key_codec \<Rightarrow> ('d, 'key) yjs_acl \<Rightarrow> ('key, 'u) acl_op \<Rightarrow> ('d, 'key) yjs_acl" where
  "acl_step Y K acl op = (case op of
     Acl_add pk \<Rightarrow> snd (acl_add Y K pk acl) | Acl_remove pk \<Rightarrow> snd (acl_remove Y K pk acl)
   | Acl_merge u \<Rightarrow> acl_merge Y u acl | Acl_users order \<Rightarrow> snd (acl_users Y K order acl))"

definition acl_coherent :: "'key key_codec \<Rightarrow> ('d, 'key) yjs_acl \<Rightarrow> bool" where
  "acl_coherent K acl \<longleftrightarrow> kcache.coherent (\<lambda>k v. importKey K k = Ok v) (acl_cache acl)"

lemma acl_users_exact:
  assumes "acl_coherent K acl"
  shows "fst (acl_users Y K order acl) = all_ok (map (importKey K) (ym_keys Y (acl_doc acl))) \<and> acl_coherent K (snd (acl_users Y K order acl))"
proof -
  let ?es = "map (\<lambda>s. (s, s)) (ym_keys Y (acl_doc acl))"
  obtain r c where run: "import_all (importKey K) order ?es (acl_cache acl) = (r, c)" by (meson surj_pair)
  have "r = all_ok (map (importKey K \<circ> snd) ?es) \<and> kcache.coherent (\<lambda>k v. importKey K k = Ok v) c"
    by (rule import_all_exact [OF _ _ run]) (use assms in \<open>auto simp: acl_coherent_def\<close>)
  then show ?thesis using run by (simp add: acl_users_def acl_coherent_def comp_def)
qed

interpretation acl: machine_invariant "acl_step Y K" "acl_coherent K" for Y :: "('d, 'u) yjs_map" and K :: "'key key_codec"
proof unfold_locales
  fix acl :: "('d, 'key) yjs_acl" and op :: "('key, 'u) acl_op"
  assume "acl_coherent K acl"
  then show "acl_coherent K (acl_step Y K acl op)"
    using acl_users_exact [of K acl Y]
    by (auto simp: acl_step_def acl_add_def acl_remove_def acl_merge_def acl_coherent_def Let_def split: acl_op.splits)
qed

text \<open>
  The key cache of the ACL is invisible: after any sequence of additions, removals, merges and listings, \<^verbatim>\<open>users\<close> returns exactly
  the imported keys of the shared map, in its order, or an import error if some import fails, whatever was cached or evicted and in whatever
  order the imports complete.
\<close>

theorem yjs_acl_users_exact:
  "fst (acl_users Y K order (foldl (acl_step Y K) (new_acl Y) ops))
     = all_ok (map (importKey K) (ym_keys Y (acl_doc (foldl (acl_step Y K) (new_acl Y) ops))))"
proof -
  have "acl_coherent K (new_acl Y)"
    by (simp add: acl_coherent_def new_acl_def kcache.coherent_def key_cache_def lru_ok_def lru_holds_def js_map)
  from acl.run_inv [OF this] acl_users_exact show ?thesis by blast
qed

section \<open>Recently used keys stay in the cache\<close>

definition front :: "nat \<Rightarrow> 'k set \<Rightarrow> ('k, 'v) lru \<Rightarrow> bool" where
  "front cap T c \<longleftrightarrow> lru_ok c \<and> lru_max c = cap \<and> (\<exists>xs ys. recency c = xs @ ys \<and> fst ` set xs = T)"

lemma front_holds: "front cap T c \<Longrightarrow> k \<in> T \<Longrightarrow> lru_holds c k \<noteq> None"
  by (auto simp: front_def lru_holds_recency map_of_eq_None_iff)

lemma recency_distinct: "lru_ok c \<Longrightarrow> distinct (map fst (recency c))"
  by (simp add: lru_ok_def map_ok_def recency_def rev_map [symmetric])

lemma front_touch:
  "l = xs @ ys \<Longrightarrow> fst ` set xs = T \<Longrightarrow> \<exists>xs' ys'. recency_touch k v l = xs' @ ys' \<and> fst ` set xs' = insert k T"
  by (intro exI[of _ "(k, v) # filter (\<lambda>p. fst p \<noteq> k) xs"] exI[of _ "filter (\<lambda>p. fst p \<noteq> k) ys"])
    (auto simp: recency_touch_def)

lemma front_get:
  assumes "front cap T c"
  shows "front cap (if lru_holds c k \<noteq> None then insert k T else T) (snd (lru_get k c))"
proof -
  have ok: "lru_ok c" using assms by (simp add: front_def)
  note get = lru_get_refines [OF ok, of k]
  obtain xs ys where l: "recency c = xs @ ys" "fst ` set xs = T" using assms by (auto simp: front_def)
  show ?thesis
  proof (cases "lru_holds c k")
    case None
    then show ?thesis using assms get ok by (simp add: front_def lru_holds_recency recency_get_def)
  next
    case (Some v)
    then have "recency (snd (lru_get k c)) = recency_touch k v (recency c)"
      using get ok by (simp add: lru_holds_recency recency_get_def)
    then show ?thesis using front_touch [OF l, of k v] Some get assms by (auto simp: front_def)
  qed
qed

lemma front_set:
  assumes "front cap T c" "finite T" "card (insert k T) \<le> cap"
  shows "front cap (insert k T) (lru_set k v c)"
proof -
  have ok: "lru_ok c" and cap: "lru_max c = cap" using assms by (simp_all add: front_def)
  note set = lru_set_refines [OF ok, of k v]
  obtain xs ys where l: "recency c = xs @ ys" "fst ` set xs = T" using assms by (auto simp: front_def)
  let ?xs = "(k, v) # filter (\<lambda>p. fst p \<noteq> k) xs"
  have keys: "fst ` set ?xs = insert k T" using l(2) by auto
  have "distinct (map fst ?xs)" using recency_distinct [OF ok] l(1) by (auto simp: distinct_map_filter)
  then have "length ?xs = card (insert k T)" using keys distinct_card [of "map fst ?xs"] by simp
  then have "take cap ?xs = ?xs" using assms(3) by (intro take_all) simp
  moreover have "recency_touch k v (recency c) = ?xs @ filter (\<lambda>p. fst p \<noteq> k) ys" using l(1) by (simp add: recency_touch_def)
  ultimately have "take cap (recency_touch k v (recency c)) = ?xs @ take (cap - length ?xs) (filter (\<lambda>p. fst p \<noteq> k) ys)"
    by (simp only: take_append)
  then have "recency (lru_set k v c) = ?xs @ take (cap - length ?xs) (filter (\<lambda>p. fst p \<noteq> k) ys)"
    using set cap by (simp add: recency_set_def)
  then show ?thesis unfolding front_def using set cap keys by blast
qed

lemma front_look_all:
  assumes "front cap T c" "look_all entries c = (found, c')"
  shows "front cap (T \<union> {k. k \<in> fst ` set entries \<and> lru_holds c k \<noteq> None}) c'"
  using assms
proof (induction entries arbitrary: T c found c')
  case (Cons e es)
  obtain k ser where e: "e = (k, ser)" by (cases e)
  obtain r c1 where g: "lru_get k c = (r, c1)" by (cases "lru_get k c")
  obtain rs where rs: "look_all es c1 = (rs, c')" using Cons.prems(2) e g by (auto split: prod.splits)
  have "lru_ok c" using Cons.prems(1) by (simp add: front_def)
  then have c1: "lru_holds c1 = lru_holds c" using kcache.holds_look [of c k] g by auto
  have "front cap (if lru_holds c k \<noteq> None then insert k T else T) c1" using front_get [OF Cons.prems(1), of k] g by simp
  from Cons.IH [OF this rs] show ?case unfolding c1
    by (rule back_subst [of "\<lambda>T. front cap T c'"]) (auto simp: e split: if_splits)
qed simp

lemma front_imports:
  assumes "front cap T c" "finite T" "card (T \<union> fst ` set es) \<le> cap" "\<And>e. e \<in> set es \<Longrightarrow> \<exists>v. imp (snd e) = Ok v"
  shows "front cap (T \<union> fst ` set es) (fold (store_import imp) es c)"
  using assms
proof (induction es arbitrary: T c)
  case (Cons e es)
  obtain v where v: "imp (snd e) = Ok v" using Cons.prems(4) [of e] by auto
  have "card (insert (fst e) T) \<le> cap"
    by (rule le_trans [OF card_mono Cons.prems(3)]) (use Cons.prems(2) in auto)
  from front_set [OF Cons.prems(1,2) this, of v] have "front cap (insert (fst e) T) (store_import imp e c)"
    by (simp add: store_import_def v)
  from Cons.IH [OF this] Cons.prems show ?case by simp
qed simp

text \<open>After importing at most as many distinct keys as the cache holds, every one of them is in the cache with its value.\<close>

lemma import_all_cached:
  assumes coh: "kcache.coherent P c" and P: "\<And>k ser v. (k, ser) \<in> set entries \<Longrightarrow> P k v \<longleftrightarrow> imp ser = Ok v"
    and run: "import_all imp order entries c = (r, c')" and fits: "card (fst ` set entries) \<le> lru_max c"
    and all: "{..<length entries} \<subseteq> set order" and good: "\<And>e. e \<in> set entries \<Longrightarrow> \<exists>v. imp (snd e) = Ok v"
    and e: "(k, ser) \<in> set entries" "imp ser = Ok v"
  shows "lru_holds c' k = Some v"
proof -
  obtain found c1 where l: "look_all entries c = (found, c1)" by (cases "look_all entries c")
  note spec = look_all_spec [OF coh l]
  let ?miss = "missed entries found" and ?hits = "{k. k \<in> fst ` set entries \<and> lru_holds c k \<noteq> None}"
  have "lru_ok c" using coh by (simp add: kcache.coherent_def)
  then have "front (lru_max c) {} c" by (simp add: front_def)
  from front_look_all [OF this l] have front1: "front (lru_max c) ?hits c1" by simp
  have miss: "set ?miss = {e \<in> set entries. lru_holds c (fst e) = None}"
    using spec by (auto simp: missed_def zip_map2 zip_same_conv_map image_iff)
  have "length ?miss \<le> length entries" using spec by (auto simp: missed_def intro: le_trans [OF length_filter_le])
  then have comp: "set (completed order ?miss) = set ?miss" using all by (intro completed_all) auto
  moreover have "?hits \<union> fst ` set ?miss = fst ` set entries" using miss by force
  ultimately have keys: "?hits \<union> fst ` set (completed order ?miss) = fst ` set entries" by simp
  have fin: "finite ?hits" by simp
  have card: "card (?hits \<union> fst ` set (completed order ?miss)) \<le> lru_max c" using fits by (simp only: keys)
  have imps: "\<exists>v. imp (snd e) = Ok v" if "e \<in> set (completed order ?miss)" for e
    using that miss good unfolding comp by auto
  from front_imports [where imp = imp, OF front1 fin card imps]
  have "front (lru_max c) (fst ` set entries) c'" unfolding keys using run l by (simp add: import_all_def)
  from front_holds [OF this, of k] e(1) obtain w where w: "lru_holds c' k = Some w" by force
  moreover have "kcache.coherent P c'" using import_all_exact [OF coh P run] by simp
  ultimately show ?thesis using P [OF e(1), of w] e(2) by (auto simp: kcache.coherent_def)
qed

section \<open>The keychain\<close>

text \<open>A keychain whose key IDs are distinct hex strings and whose cache holds keys of its entries only.\<close>

definition kc_coherent :: "('d, 'u) yjs_array \<Rightarrow> 'key key_codec \<Rightarrow> ('d, 'key) yjs_keychain \<Rightarrow> bool" where
  "kc_coherent Y K kc \<longleftrightarrow> (\<forall>e\<in>set (ya_get Y (kc_doc kc)). valid_id e) \<and> distinct (map fst (ya_get Y (kc_doc kc)))
     \<and> kcache.coherent (\<lambda>k v. \<forall>ser. (k, ser) \<in> set (ya_get Y (kc_doc kc)) \<longrightarrow> importKey K ser = Ok v) (kc_cache kc)"

lemma coherent_entry:
  assumes "kc_coherent Y K kc" "(k, ser) \<in> set (ya_get Y (kc_doc kc))"
  shows "(\<forall>ser'. (k, ser') \<in> set (ya_get Y (kc_doc kc)) \<longrightarrow> importKey K ser' = Ok v) \<longleftrightarrow> importKey K ser = Ok v"
  using assms by (auto simp: kc_coherent_def dest: eq_key_imp_eq_value)

text \<open>
  \<^verbatim>\<open>current\<close> returns the ID and key of the last entry, an error when there is none, and makes the key
  available to \<^verbatim>\<open>getKey\<close>.
\<close>

theorem yjs_current_is_last:
  assumes coh: "kc_coherent Y K kc" and last: "ya_get Y (kc_doc kc) = es @ [(hex_of_bytes i, ser)]" "i \<noteq> []" and imp: "importKey K ser = Ok key"
  shows "fst (kc_current Y K kc) = Ok (i, key) \<and> fst (kc_getKey i (snd (kc_current Y K kc))) = Some key"
proof -
  let ?k = "hex_of_bytes i"
  have e: "(?k, ser) \<in> set (ya_get Y (kc_doc kc))" using last(1) by simp
  have ok: "lru_ok (kc_cache kc)" using coh by (simp add: kc_coherent_def kcache.coherent_def)
  obtain r c where g: "lru_get ?k (kc_cache kc) = (r, c)" by (cases "lru_get ?k (kc_cache kc)")
  have r: "r = lru_holds (kc_cache kc) ?k" and c: "lru_ok c" "lru_holds c ?k = lru_holds (kc_cache kc) ?k"
    using kcache.look_holds [OF ok, of ?k] kcache.inv_look [OF ok, of ?k] kcache.holds_look [OF ok, of ?k ?k] g by auto
  have key: "v = key" if "r = Some v" for v
    using coherent_entry [OF coh e, of v] coh that r imp by (auto simp: kc_coherent_def kcache.coherent_def)
  have id: "cacheKeyToKeyId ?k = Ok i" using cache_key_round_trip [OF last(2)] by (simp add: keyIdToCacheKey_def)
  have cur: "kc_current Y K kc = (Ok (i, key), kc\<lparr>kc_cache := if r = None then lru_set ?k key c else c\<rparr>)"
  proof -
    obtain x xs where xs: "ya_get Y (kc_doc kc) = x # xs" "last (x # xs) = (?k, ser)" using last(1) by (cases es) auto
    show ?thesis using xs g id imp key by (cases r) (simp_all add: kc_current_def del: last.simps)
  qed
  have "lru_holds (if r = None then lru_set ?k key c else c) ?k = Some key"
    using kcache.holds_store [OF c(1)] c(2) r key by (cases r) auto
  moreover have "lru_ok (if r = None then lru_set ?k key c else c)" using c(1) kcache.inv_store by auto
  ultimately show ?thesis using cur by (simp add: kc_getKey_def keyIdToCacheKey_def kcache.look_holds case_prod_beta)
qed

text \<open>
  After \<^verbatim>\<open>keys\<close> has imported a keychain of at most 1000 keys, \<^verbatim>\<open>getKey\<close> finds every one of them: the bounded cache does
  not lose a key of the keychain, whatever it held before and in whatever order the imports complete.
\<close>

theorem yjs_keys_then_getKey:
  assumes coh: "kc_coherent Y K kc" and bound: "length (ya_get Y (kc_doc kc)) \<le> lru_max (kc_cache kc)"
    and all: "{..<length (ya_get Y (kc_doc kc))} \<subseteq> set order" and good: "\<forall>(k, ser)\<in>set (ya_get Y (kc_doc kc)). \<exists>v. importKey K ser = Ok v"
    and e: "(hex_of_bytes i, ser) \<in> set (ya_get Y (kc_doc kc))" "importKey K ser = Ok key"
  shows "fst (kc_getKey i (snd (kc_keys Y K order kc))) = Some key"
proof -
  let ?es = "ya_get Y (kc_doc kc)" and ?P = "\<lambda>k v. \<forall>ser. (k, ser) \<in> set (ya_get Y (kc_doc kc)) \<longrightarrow> importKey K ser = Ok v"
  have launched: "takeWhile valid_id ?es = ?es" using coh by (simp add: kc_coherent_def takeWhile_eq_all_conv)
  obtain r c where run: "import_all (importKey K) order ?es (kc_cache kc) = (r, c)" by (meson surj_pair)
  have cc: "kcache.coherent ?P (kc_cache kc)" using coh by (simp add: kc_coherent_def)
  have "card (fst ` set ?es) \<le> lru_max (kc_cache kc)" using card_length [of "map fst ?es"] bound by simp
  then have "lru_holds c (hex_of_bytes i) = Some key"
    using good by (intro import_all_cached [OF cc coherent_entry [OF coh] run _ all _ e]) auto
  moreover have "lru_ok c" using import_all_exact [OF cc coherent_entry [OF coh] run] by (simp add: kcache.coherent_def)
  moreover have "kc_cache (snd (kc_keys Y K order kc)) = c" using run by (simp add: kc_keys_def Let_def launched del: takeWhile_eq_all_conv)
  ultimately show ?thesis by (simp add: kc_getKey_def keyIdToCacheKey_def kcache.look_holds case_prod_beta)
qed

section \<open>Disclosure\<close>

text \<open>
  What the providers rely on in a Yjs array: a new document is empty, pushing appends, and applying the full encoding of a
  document to a new one reproduces its entries.
\<close>

definition yjs_array_laws :: "('d, 'u) yjs_array \<Rightarrow> bool" where
  "yjs_array_laws Y \<longleftrightarrow> ya_get Y (ya_new Y) = [] \<and> (\<forall>k ser d. ya_get Y (ya_push Y (k, ser) d) = ya_get Y d @ [(k, ser)])
     \<and> (\<forall>d. ya_get Y (ya_apply Y (ya_full Y d) (ya_new Y)) = ya_get Y d)"

text \<open>The entries a peer with an empty keychain obtains from a keychain change.\<close>

definition disclosed :: "('d, 'u) yjs_array \<Rightarrow> key_error + 'u \<Rightarrow> key_entry list" where
  "disclosed Y r = (case r of Inl _ \<Rightarrow> [] | Inr u \<Rightarrow> ya_get Y (ya_apply Y u (ya_new Y)))"

lemma minimal_doc_entries: "yjs_array_laws Y \<Longrightarrow> ya_get Y (minimal_doc Y es) = es"
  by (induction es rule: rev_induct) (auto simp: minimal_doc_def yjs_array_laws_def)

lemma find_index_drop: "find_index k es = Some n \<Longrightarrow> k \<in> fst ` set es \<and> drop n es = dropWhile (\<lambda>e. fst e \<noteq> k) es"
  by (induction es arbitrary: n) (auto split: if_splits)

lemma find_index_None: "find_index k es = None \<longleftrightarrow> k \<notin> fst ` set es"
  by (induction es) auto


section \<open>Sample keychains\<close>

text \<open>Arrays as entry lists with updates that append, and keys that are their own serialization.\<close>

definition list_array :: "(key_entry list, key_entry list) yjs_array" where
  "list_array = \<lparr>ya_get = (\<lambda>d. d), ya_push = (\<lambda>e d. d @ [e]), ya_new = [], ya_diff = (\<lambda>d before. drop (length before) d),
     ya_full = (\<lambda>d. d), ya_apply = (\<lambda>u d. d @ u)\<rparr>"

definition plain_codec :: "string key_codec" where
  "plain_codec = \<lparr>serializeKey = (\<lambda>k. k), importKey = Ok\<rparr>"

definition two_keys :: "(key_entry list, string) yjs_keychain" where
  "two_keys = kc_merge list_array [(hex_of_bytes [1], ''k1''), (hex_of_bytes [2], ''k2'')] (new_keychain list_array)"

lemma two_keys_eq: "two_keys = \<lparr>kc_doc = [(''01'', ''k1''), (''02'', ''k2'')], kc_cache = key_cache\<rparr>"
  by (simp add: two_keys_def kc_merge_def new_keychain_def list_array_def byte_hex_two hex_digit_def)

lemma two_keys_entries: "ya_get list_array (kc_doc two_keys) = [(''01'', ''k1''), (''02'', ''k2'')]"
  by (simp add: two_keys_eq list_array_def)

lemma two_keys_coherent: "kc_coherent list_array plain_codec two_keys"
proof -
  have "valid_id (''01'', ''k1'')" "valid_id (''02'', ''k2'')" by code_simp+
  then show ?thesis
    by (simp add: kc_coherent_def two_keys_entries) (simp add: kcache.coherent_def two_keys_eq key_cache_def lru_ok_def lru_holds_def js_map)
qed

theorem yjs_current_is_last_witness:
  "fst (kc_current list_array plain_codec two_keys) = Ok ([2], ''k2'')
   \<and> fst (kc_getKey [2] (snd (kc_current list_array plain_codec two_keys))) = Some ''k2''"
  by (rule yjs_current_is_last [OF two_keys_coherent, where es = "[(''01'', ''k1'')]" and ser = "''k2''"])
    (simp_all add: two_keys_entries byte_hex_two hex_digit_def plain_codec_def)

theorem yjs_keys_then_getKey_witness:
  "fst (kc_getKey [1] (snd (kc_keys list_array plain_codec [1, 0] two_keys))) = Some ''k1''"
  by (rule yjs_keys_then_getKey [OF two_keys_coherent, where ser = "''k1''"])
    (auto simp: two_keys_entries byte_hex_two hex_digit_def plain_codec_def two_keys_eq key_cache_def list_array_def)


text \<open>
  A key that arrives by \<^verbatim>\<open>merge\<close> is in the keychain but \<^verbatim>\<open>getKey\<close> does not find it until \<^verbatim>\<open>keys\<close> or \<^verbatim>\<open>current\<close> imports it.
\<close>

theorem yjs_merged_key_not_found:
  "(''02'', ''k2'') \<in> set (ya_get list_array (kc_doc two_keys)) \<and> fst (kc_getKey [2] two_keys) = None
   \<and> fst (kc_getKey [2] (snd (kc_current list_array plain_codec two_keys))) = Some ''k2''"
  by code_simp

end
