(* ===== verification/WriterCache.thy ===== *)
theory WriterCache
  imports Main
begin

text \<open>
  The writer-key cache of \<^verbatim>\<open>collabswarm-document.ts\<close> (\<^verbatim>\<open>_getWriterKeys\<close>, \<^verbatim>\<open>_invalidateWriterKeyCache\<close>,
  \<^verbatim>\<open>_runWriterMutation\<close>, \<^verbatim>\<open>_mergeWriters\<close>) under interleaving: any number of calls of \<^verbatim>\<open>_getWriterKeys\<close> and of ACL mutations run at the same
  time, switching at every \<^verbatim>\<open>await\<close>.  A mutation changes the ACL at some moment between its start and its end, and \<^verbatim>\<open>users()\<close> reads it at some moment
  before it resolves.
\<close>

section \<open>State and steps\<close>

datatype 'pk fetch =
    Loop_top                          \<comment> \<open>at the head of the loop\<close>
  | Fetching nat "'pk list option"    \<comment> \<open>\<^verbatim>\<open>versionAtStart\<close> and what \<^verbatim>\<open>users()\<close> has read\<close>
  | Returned "'pk list"

datatype mutation = Not_started | Running | Ended

record ('acl, 'pk) key_state =
  ks_acl :: 'acl
  ks_cached :: "'pk list option"
  ks_version :: nat
  ks_inFlight :: nat
  ks_fetch :: "nat \<Rightarrow> 'pk fetch"
  ks_mutation :: "nat \<Rightarrow> mutation"

definition invalidate :: "('acl, 'pk) key_state \<Rightarrow> ('acl, 'pk) key_state" where
  "invalidate s = s\<lparr>ks_cached := None, ks_version := Suc (ks_version s)\<rparr>"

definition put_fetch :: "nat \<Rightarrow> 'pk fetch \<Rightarrow> ('acl, 'pk) key_state \<Rightarrow> ('acl, 'pk) key_state" where
  "put_fetch p f s = s\<lparr>ks_fetch := (ks_fetch s)(p := f)\<rparr>"

definition put_mutation :: "nat \<Rightarrow> mutation \<Rightarrow> ('acl, 'pk) key_state \<Rightarrow> ('acl, 'pk) key_state" where
  "put_mutation p m s = s\<lparr>ks_mutation := (ks_mutation s)(p := m)\<rparr>"

inductive key_step :: "('acl \<Rightarrow> 'pk list) \<Rightarrow> ('acl, 'pk) key_state \<Rightarrow> ('acl, 'pk) key_state \<Rightarrow> bool" for users where
  hit: "ks_fetch s p = Loop_top \<Longrightarrow> ks_inFlight s = 0 \<Longrightarrow> ks_cached s = Some keys
    \<Longrightarrow> key_step users s (put_fetch p (Returned keys) s)"
| start_fetch: "ks_fetch s p = Loop_top \<Longrightarrow> \<not> (ks_inFlight s = 0 \<and> ks_cached s \<noteq> None)
    \<Longrightarrow> key_step users s (put_fetch p (Fetching (ks_version s) None) s)"
| read_acl: "ks_fetch s p = Fetching v None \<Longrightarrow> key_step users s (put_fetch p (Fetching v (Some (users (ks_acl s)))) s)"
| commit: "ks_fetch s p = Fetching v (Some keys) \<Longrightarrow> ks_version s = v \<Longrightarrow> ks_inFlight s = 0
    \<Longrightarrow> key_step users s (put_fetch p (Returned keys) (s\<lparr>ks_cached := Some keys\<rparr>))"
| retry: "ks_fetch s p = Fetching v (Some keys) \<Longrightarrow> ks_version s \<noteq> v \<Longrightarrow> key_step users s (put_fetch p Loop_top s)"
| return_uncached: "ks_fetch s p = Fetching v (Some keys) \<Longrightarrow> ks_version s = v \<Longrightarrow> ks_inFlight s \<noteq> 0
    \<Longrightarrow> key_step users s (put_fetch p (Returned keys) s)"
| begin_mutation: "ks_mutation s q = Not_started
    \<Longrightarrow> key_step users s (invalidate (put_mutation q Running (s\<lparr>ks_inFlight := Suc (ks_inFlight s)\<rparr>)))"
| mutate: "ks_mutation s q = Running \<Longrightarrow> key_step users s (s\<lparr>ks_acl := acl'\<rparr>)"
| end_mutation: "ks_mutation s q = Running
    \<Longrightarrow> key_step users s (invalidate (put_mutation q Ended (s\<lparr>ks_inFlight := ks_inFlight s - 1\<rparr>)))"

inductive_simps key_step_iff: "key_step users s s'"

definition start_state :: "'acl \<Rightarrow> ('acl, 'pk) key_state" where
  "start_state acl = \<lparr>ks_acl = acl, ks_cached = None, ks_version = 0, ks_inFlight = 0, ks_fetch = (\<lambda>_. Loop_top), ks_mutation = (\<lambda>_. Not_started)\<rparr>"

inductive key_reach :: "('acl \<Rightarrow> 'pk list) \<Rightarrow> ('acl, 'pk) key_state \<Rightarrow> ('acl, 'pk) key_state \<Rightarrow> bool" for users s0 where
  reach_start: "key_reach users s0 s0"
| reach_step: "key_reach users s0 s \<Longrightarrow> key_step users s s' \<Longrightarrow> key_reach users s0 s'"

section \<open>Invariant\<close>

definition running :: "('acl, 'pk) key_state \<Rightarrow> nat set" where
  "running s = {q. ks_mutation s q = Running}"

definition key_inv :: "('acl \<Rightarrow> 'pk list) \<Rightarrow> ('acl, 'pk) key_state \<Rightarrow> bool" where
  "key_inv users s \<longleftrightarrow> finite (running s) \<and> ks_inFlight s = card (running s)
     \<and> (\<forall>keys. ks_cached s = Some keys \<longrightarrow> ks_inFlight s = 0 \<and> keys = users (ks_acl s))
     \<and> (\<forall>p v r. ks_fetch s p = Fetching v r \<longrightarrow> v \<le> ks_version s
          \<and> (v = ks_version s \<longrightarrow> ks_inFlight s = 0 \<longrightarrow> (\<forall>keys. r = Some keys \<longrightarrow> keys = users (ks_acl s))))"

lemmas key_defs = key_inv_def running_def put_fetch_def put_mutation_def invalidate_def

text \<open>Both ends of a mutation clear the cache and outdate every fetch in progress.\<close>

lemma key_inv_invalidate:
  assumes "key_inv users s" "ks_fetch t = ks_fetch s" "ks_version t = ks_version s" "finite (running t)" "ks_inFlight t = card (running t)"
  shows "key_inv users (invalidate t)"
proof -
  have "v \<le> ks_version s" if "ks_fetch s p = Fetching v r" for p v r using assms(1) that by (auto simp: key_inv_def)
  then show ?thesis using assms(2-5) by (auto simp: key_inv_def running_def invalidate_def le_Suc_eq) (metis Suc_n_not_le_n)
qed

lemma key_inv_step: "key_step users s s' \<Longrightarrow> key_inv users s \<Longrightarrow> key_inv users s'"
proof (induction rule: key_step.induct)
  case (begin_mutation s q)
  let ?t = "put_mutation q Running (s\<lparr>ks_inFlight := Suc (ks_inFlight s)\<rparr>)"
  have "running ?t = insert q (running s)" "q \<notin> running s" using begin_mutation(1) by (auto simp: running_def put_mutation_def)
  then show ?case using begin_mutation(2) by (intro key_inv_invalidate [of users s]) (auto simp: key_inv_def put_mutation_def)
next
  case (mutate s q acl')
  then have "ks_inFlight s \<noteq> 0" by (auto simp: key_inv_def running_def card_eq_0_iff)
  then show ?case using mutate by (auto simp: key_defs)
next
  case (end_mutation s q)
  let ?t = "put_mutation q Ended (s\<lparr>ks_inFlight := ks_inFlight s - 1\<rparr>)"
  have "running ?t = running s - {q}" "q \<in> running s" using end_mutation(1) by (auto simp: running_def put_mutation_def)
  then show ?case using end_mutation(2) by (intro key_inv_invalidate [of users s]) (auto simp: key_inv_def put_mutation_def)
next
  case (commit s p v keys)
  let ?t = "put_fetch p (Returned keys) (s\<lparr>ks_cached := Some keys\<rparr>)"
  have keys: "keys = users (ks_acl s)" using commit unfolding key_inv_def by blast
  have "running ?t = running s" by (simp add: running_def put_fetch_def)
  moreover have "\<exists>p. ks_fetch s p = Fetching v r" if "ks_fetch ?t p' = Fetching v r" for p' v r
    using that by (auto simp: put_fetch_def split: if_splits)
  ultimately show ?case using commit(3,4) keys unfolding key_inv_def by (simp add: put_fetch_def)
qed (auto simp: key_defs)

lemma key_inv_reach: "key_reach users s0 s \<Longrightarrow> key_inv users s0 \<Longrightarrow> key_inv users s"
  by (induction rule: key_reach.induct) (auto intro: key_inv_step)

lemma key_inv_start: "key_inv users (start_state acl)"
  by (simp add: key_defs start_state_def)



end
