(* ===== verification/Welcome.thy ===== *)
theory Welcome
  imports DocSync
begin

text \<open>
  Receiving BeeKEM Welcomes: the validation gates of \<^verbatim>\<open>packages/collabswarm/src/beekem-welcome-handler.ts\<close>, and the receive path of
  \<^verbatim>\<open>collabswarm-document.ts\<close> with the buffer of Welcomes that arrive before the readers ACL is up to date.  The sealed box, its payload codec,
  the installed KEM key and the processing of the ratchet Welcome are fields of \<open>welcome_env\<close>.
\<close>

section \<open>Validation\<close>

datatype malformed_reason = Wrong_document | Missing_epoch_id | Missing_recipient | Missing_kem_key | Invalid_kem_key_length | Missing_sealed
datatype unauthorized_reason = Not_in_readers_acl | Missing_signature | Invalid_signature
datatype welcome_result = Accept | Drop_not_for_us | Drop_malformed malformed_reason | Drop_unauthorized unauthorized_reason

record 'pk welcome_env =
  serializePublicKey :: "'pk \<Rightarrow> string"
  kemPublicKeyRaw :: "bytes option" \<comment> \<open>raw public key of the pair installed with \<^verbatim>\<open>setKemKeyPair\<close>\<close>
  openSealed :: "bytes \<Rightarrow> bytes option" \<comment> \<open>\<^verbatim>\<open>eciesOpen\<close> with the installed private key\<close>
  decodeWelcomeSealedPayload :: "bytes \<Rightarrow> (bytes \<times> bytes option) option"
  processesWelcome :: "bytes \<Rightarrow> bool" \<comment> \<open>whether \<^verbatim>\<open>processWelcome\<close> succeeds\<close>

definition kem_key_length :: nat where
  "kem_key_length = 65"

definition absent :: "bytes option \<Rightarrow> bool" where
  "absent b \<longleftrightarrow> b = None \<or> b = Some []"

definition evaluateBeeKEMWelcome :: "('doc, 'c, 'fn, 'acl, 'kc, 'pk, 'key) doc_env \<Rightarrow> 'pk welcome_env \<Rightarrow> ('c, 'pk) sync_message
    \<Rightarrow> ('doc, 'c, 'fn, 'acl, 'kc, 'pk, welcome_result) doc_eff" where
  "evaluateBeeKEMWelcome E W m = eff_bind eff_get (\<lambda>s.
     if m_documentId m \<noteq> [] \<and> m_documentId m \<noteq> documentPath E then eff_return (Drop_malformed Wrong_document)
     else if absent (m_welcomeEpochId m) then eff_return (Drop_malformed Missing_epoch_id)
     else if \<not> truthy (m_welcomeRecipient m) then eff_return (Drop_malformed Missing_recipient)
     else if absent (m_welcomeRecipientKemPublicKey m) then eff_return (Drop_malformed Missing_kem_key)
     else if length (the (m_welcomeRecipientKemPublicKey m)) \<noteq> kem_key_length then eff_return (Drop_malformed Invalid_kem_key_length)
     else if absent (m_eciesSealed m) then eff_return (Drop_malformed Missing_sealed)
     else if m_welcomeRecipient m \<noteq> Some (serializePublicKey W (userPublicKey E)) then eff_return Drop_not_for_us
     else if \<not> aclCheck E (readers s) (userPublicKey E) then eff_return (Drop_unauthorized Not_in_readers_acl)
     else if \<not> truthy (m_signature m) then eff_return (Drop_unauthorized Missing_signature)
     else eff_bind (verifyWelcomeWriterSignature E (serializeSyncMessage E (m\<lparr>m_signature := None\<rparr>)) (the (m_signature m))) (\<lambda>ok.
       eff_return (if ok then Accept else Drop_unauthorized Invalid_signature)))"

section \<open>The pending buffer\<close>

definition PENDING_WELCOMES_MAX_ENTRIES :: nat where
  "PENDING_WELCOMES_MAX_ENTRIES = 16"

definition PENDING_WELCOMES_TTL_MS :: int where
  "PENDING_WELCOMES_TTL_MS = 5 * 60 * 1000"

definition now :: "('doc, 'c, 'fn, 'acl, 'kc, 'pk, 'key) doc_env \<Rightarrow> ('doc, 'c, 'fn, 'acl, 'kc, 'pk, int) doc_eff" where
  "now E = eff_bind tick (\<lambda>t. eff_return (dateNow E t))"

definition put_pending :: "string \<Rightarrow> ('c, 'pk) sync_message \<times> int \<Rightarrow> (string, ('c, 'pk) sync_message \<times> int) jsmap \<Rightarrow> (string, ('c, 'pk) sync_message \<times> int) jsmap" where
  "put_pending key entry pending = (let pending = map_delete key pending;
       pending = (if length pending \<ge> PENDING_WELCOMES_MAX_ENTRIES then map_delete (fst (hd pending)) pending else pending)
     in map_set key entry pending)"

definition bufferPendingWelcome :: "('doc, 'c, 'fn, 'acl, 'kc, 'pk, 'key) doc_env \<Rightarrow> ('c, 'pk) sync_message
    \<Rightarrow> ('doc, 'c, 'fn, 'acl, 'kc, 'pk, unit) doc_eff" where
  "bufferPendingWelcome E m = (if absent (m_welcomeEpochId m) then eff_return ()
     else eff_bind (now E) (\<lambda>t. eff_modify (\<lambda>s.
       s\<lparr>pendingWelcomes := put_pending (hex_of_bytes (the (m_welcomeEpochId m))) (m, t) (pendingWelcomes s)\<rparr>)))"

section \<open>Applying\<close>

fun index_of :: "bytes \<Rightarrow> (bytes \<times> 'key) list \<Rightarrow> nat option" where
  "index_of i [] = None"
| "index_of i (k # ks) = (if fst k = i then Some 0 else map_option Suc (index_of i ks))"

definition shouldAdvanceInvitationEpoch :: "('doc, 'c, 'fn, 'acl, 'kc, 'pk, 'key) doc_env \<Rightarrow> 'kc \<Rightarrow> bytes \<Rightarrow> bytes \<Rightarrow> bool" where
  "shouldAdvanceInvitationEpoch E kc existing incoming = (if existing = incoming then False
     else case kcKeys E kc of Inl _ \<Rightarrow> False
       | Inr allKeys \<Rightarrow> (case (index_of existing allKeys, index_of incoming allKeys) of
           (Some existingIdx, Some incomingIdx) \<Rightarrow> existingIdx < incomingIdx | _ \<Rightarrow> False))"

definition open_welcome :: "('doc, 'c, 'fn, 'acl, 'kc, 'pk, 'key) doc_env \<Rightarrow> 'pk welcome_env \<Rightarrow> bytes \<Rightarrow> ('c \<times> bytes option) option" where
  "open_welcome E W sealed = (case openSealed W sealed of None \<Rightarrow> None
   | Some plain \<Rightarrow> (case decodeWelcomeSealedPayload W plain of None \<Rightarrow> None
     | Some (changes, bootstrap) \<Rightarrow> (case deserializeChanges E changes of Inl _ \<Rightarrow> None | Inr ch \<Rightarrow> Some (ch, bootstrap))))"

text \<open>The end of the receive path: ratchet bootstrap and the invitation epoch.\<close>

definition install_welcome :: "('doc, 'c, 'fn, 'acl, 'kc, 'pk, 'key) doc_env \<Rightarrow> 'pk welcome_env \<Rightarrow> bytes \<Rightarrow> bytes option \<Rightarrow> 'kc
    \<Rightarrow> ('doc, 'c, 'fn, 'acl, 'kc, 'pk) swarm_doc \<Rightarrow> ('doc, 'c, 'fn, 'acl, 'kc, 'pk) swarm_doc" where
  "install_welcome E W epoch bootstrap kc s = s\<lparr>keychain := kc,
     ratchetWelcome := (case bootstrap of Some w \<Rightarrow> if processesWelcome W w then Some w else ratchetWelcome s | None \<Rightarrow> ratchetWelcome s),
     invitationEpoch := (case invitationEpoch s of None \<Rightarrow> Some epoch
       | Some e \<Rightarrow> if shouldAdvanceInvitationEpoch E kc e epoch then Some epoch else Some e)\<rparr>"

definition apply_accepted :: "('doc, 'c, 'fn, 'acl, 'kc, 'pk, 'key) doc_env \<Rightarrow> 'pk welcome_env \<Rightarrow> ('c, 'pk) sync_message
    \<Rightarrow> ('doc, 'c, 'fn, 'acl, 'kc, 'pk, bool) doc_eff" where
  "apply_accepted E W m = (case kemPublicKeyRaw W of None \<Rightarrow> eff_return False
   | Some localKem \<Rightarrow>
       if m_welcomeRecipientKemPublicKey m \<noteq> Some localKem then eff_return False
       else (case open_welcome E W (the (m_eciesSealed m)) of None \<Rightarrow> eff_return False
         | Some (ch, bootstrap) \<Rightarrow> eff_bind eff_get (\<lambda>s. case kcMerge E ch (keychain s) of
             Inl _ \<Rightarrow> eff_return False
           | Inr kc \<Rightarrow> eff_bind (eff_modify (install_welcome E W (the (m_welcomeEpochId m)) bootstrap kc)) (\<lambda>_. eff_return True))))"

definition evaluateAndApplyBeeKEMWelcome :: "('doc, 'c, 'fn, 'acl, 'kc, 'pk, 'key) doc_env \<Rightarrow> 'pk welcome_env \<Rightarrow> ('c, 'pk) sync_message \<Rightarrow> bool
    \<Rightarrow> ('doc, 'c, 'fn, 'acl, 'kc, 'pk, bool) doc_eff" where
  "evaluateAndApplyBeeKEMWelcome E W m fromBuffer = eff_bind (evaluateBeeKEMWelcome E W m) (\<lambda>decision. case decision of
     Accept \<Rightarrow> apply_accepted E W m
   | Drop_unauthorized Not_in_readers_acl \<Rightarrow>
       if \<not> fromBuffer \<and> \<not> absent (m_welcomeEpochId m) then eff_bind (bufferPendingWelcome E m) (\<lambda>_. eff_return False) else eff_return False
   | _ \<Rightarrow> eff_return False)"

definition handleBeeKEMWelcomeRequestData :: "('doc, 'c, 'fn, 'acl, 'kc, 'pk, 'key) doc_env \<Rightarrow> 'pk welcome_env \<Rightarrow> bytes
    \<Rightarrow> ('doc, 'c, 'fn, 'acl, 'kc, 'pk, unit) doc_eff" where
  "handleBeeKEMWelcomeRequestData E W payload = (case deserializeSyncMessage E payload of
     Inl _ \<Rightarrow> eff_return ()
   | Inr m \<Rightarrow> eff_catch (eff_bind (evaluateAndApplyBeeKEMWelcome E W m False) (\<lambda>_. eff_return ())) (\<lambda>_. eff_return ()))"

definition drop_pending :: "string \<Rightarrow> ('doc, 'c, 'fn, 'acl, 'kc, 'pk, unit) doc_eff" where
  "drop_pending key = eff_modify (\<lambda>s. s\<lparr>pendingWelcomes := map_delete key (pendingWelcomes s)\<rparr>)"

definition drain_entry :: "('doc, 'c, 'fn, 'acl, 'kc, 'pk, 'key) doc_env \<Rightarrow> 'pk welcome_env \<Rightarrow> int \<Rightarrow> string \<times> ('c, 'pk) sync_message \<times> int
    \<Rightarrow> ('doc, 'c, 'fn, 'acl, 'kc, 'pk, unit) doc_eff" where
  "drain_entry E W t = (\<lambda>(key, m, bufferedAt).
     if t - bufferedAt > PENDING_WELCOMES_TTL_MS then drop_pending key
     else eff_bind (evaluateAndApplyBeeKEMWelcome E W m True) (\<lambda>accepted. eff_when accepted (drop_pending key)))"

definition drainPendingWelcomes :: "('doc, 'c, 'fn, 'acl, 'kc, 'pk, 'key) doc_env \<Rightarrow> 'pk welcome_env \<Rightarrow> ('doc, 'c, 'fn, 'acl, 'kc, 'pk, unit) doc_eff" where
  "drainPendingWelcomes E W = eff_bind eff_get (\<lambda>s. if pendingWelcomes s = [] then eff_return ()
     else eff_bind (now E) (\<lambda>t. eff_iter (drain_entry E W t) (pendingWelcomes s)))"

end
