(* ===== verification/WelcomeCorrect.thy ===== *)
theory WelcomeCorrect
  imports Welcome
begin

text \<open>
  Welcomes take effect only when an authorized writer addressed them to this user, never move the invitation epoch backwards, and
  are replayed from a bounded buffer once the user is a reader.
\<close>

section \<open>Authority\<close>

lemma check_signature_doc_ok:
  assumes "doc_ok E s" "check_signature_of E raw sig s = (r, t)"
  shows "doc_ok E t"
proof -
  have "doc_inv E s (committing s) (compactionInProgress s) s" using assms(1) by (auto simp: doc_inv_def doc_grows_def)
  then have "doc_inv E s (committing s) (compactionInProgress s) t"
    using keepsD [OF inv_signatures(1) _ assms(2)] by blast
  then show ?thesis by (simp add: doc_inv_def)
qed

lemma doc_ok_install: "doc_ok E (install_welcome E W e b kc s) = doc_ok E s"
  by (simp add: install_welcome_def doc_ok_def snapshot_count_def)

definition unsigned_gates where
  "unsigned_gates E W m s \<longleftrightarrow> (m_documentId m = [] \<or> m_documentId m = documentPath E) \<and> \<not> absent (m_welcomeEpochId m) \<and> truthy (m_welcomeRecipient m)
     \<and> \<not> absent (m_welcomeRecipientKemPublicKey m) \<and> length (the (m_welcomeRecipientKemPublicKey m)) = kem_key_length
     \<and> \<not> absent (m_eciesSealed m) \<and> m_welcomeRecipient m = Some (serializePublicKey W (userPublicKey E))
     \<and> aclCheck E (readers s) (userPublicKey E) \<and> truthy (m_signature m)"

lemma evaluate_early:
  "\<not> unsigned_gates E W m s \<Longrightarrow> \<exists>d. evaluateBeeKEMWelcome E W m s = (Ok d, s) \<and> d \<noteq> Accept"
  unfolding unsigned_gates_def evaluateBeeKEMWelcome_def eff_bind_step(2) if_distrib [of "\<lambda>f. f s"] eff_run by (simp split: if_split) blast

text \<open>The two signature checks, on a message that carries a signature.\<close>

lemma check_signature_run:
  assumes ok: "doc_ok E s" and truthy: "truthy (m_signature m)"
  shows "\<exists>k. check_signature_of E (serializeSyncMessage E (m\<lparr>m_signature := None\<rparr>)) (the (m_signature m)) s
    = (Ok (signed_by_writer E s m), s\<lparr>cachedWriterKeys := k\<rparr>) \<and> doc_ok E (s\<lparr>cachedWriterKeys := k\<rparr>)"
proof -
  let ?raw = "serializeSyncMessage E (m\<lparr>m_signature := None\<rparr>)"
  obtain sig where sig: "m_signature m = Some sig" "sig \<noteq> []" using truthy by (auto simp: truthy_def)
  obtain v u where u: "check_signature_of E ?raw sig s = (Ok v, u)" "u = s\<lparr>cachedWriterKeys := cachedWriterKeys u\<rparr>"
    and v: "v \<longleftrightarrow> signed_by_writer E s m"
    using check_signature_ok [OF ok, of ?raw sig] sig unfolding signed_by_writer_def by simp blast
  have "check_signature_of E ?raw (the (m_signature m)) s = (Ok (signed_by_writer E s m), s\<lparr>cachedWriterKeys := cachedWriterKeys u\<rparr>)"
    using u(1) sig(1) unfolding v by (subst u(2) [symmetric]) simp
  moreover have "doc_ok E (s\<lparr>cachedWriterKeys := cachedWriterKeys u\<rparr>)"
    by (subst u(2) [symmetric]) (rule check_signature_doc_ok [OF ok u(1)])
  ultimately show ?thesis by blast
qed

lemma evaluate_late:
  assumes ok: "doc_ok E s" and gates: "unsigned_gates E W m s"
  shows "\<exists>k. evaluateBeeKEMWelcome E W m s = (Ok (if signed_by_writer E s m then Accept else Drop_unauthorized Invalid_signature), s\<lparr>cachedWriterKeys := k\<rparr>)
    \<and> doc_ok E (s\<lparr>cachedWriterKeys := k\<rparr>)"
proof -
  obtain k where k: "check_signature_of E (serializeSyncMessage E (m\<lparr>m_signature := None\<rparr>)) (the (m_signature m)) s
      = (Ok (signed_by_writer E s m), s\<lparr>cachedWriterKeys := k\<rparr>)" "doc_ok E (s\<lparr>cachedWriterKeys := k\<rparr>)"
    using check_signature_run [OF ok] gates unfolding unsigned_gates_def by blast
  have "evaluateBeeKEMWelcome E W m s = (Ok (if signed_by_writer E s m then Accept else Drop_unauthorized Invalid_signature), s\<lparr>cachedWriterKeys := k\<rparr>)"
    using gates k(1) unfolding unsigned_gates_def
    by (elim conjE disjE) (simp_all add: evaluateBeeKEMWelcome_def verifyWelcomeWriterSignature_def eff_bind_def [of "check_signature_of _ _ _"])
  then show ?thesis using k(2) by blast
qed

lemma evaluate_cases:
  assumes "doc_ok E s"
  obtains d k where "evaluateBeeKEMWelcome E W m s = (Ok d, s\<lparr>cachedWriterKeys := k\<rparr>)" "doc_ok E (s\<lparr>cachedWriterKeys := k\<rparr>)"
    "d = Accept \<longrightarrow> signed_by_writer E s m \<and> unsigned_gates E W m s"
proof (cases "unsigned_gates E W m s")
  case True
  then show thesis using evaluate_late [OF assms True] that by (auto split: if_splits)
next
  case False
  then obtain d where "evaluateBeeKEMWelcome E W m s = (Ok d, s)" "d \<noteq> Accept" using evaluate_early by blast
  then show thesis using that [of d "cachedWriterKeys s"] assms by simp
qed

text \<open>The part of the document that a Welcome is meant to change.\<close>

definition welcome_part where
  "welcome_part s = (keychain s, invitationEpoch s, ratchetWelcome s)"

lemma apply_accepted_cases:
  assumes "apply_accepted E W m s = (r, t)"
  shows "(r = Ok False \<and> t = s) \<or> (\<exists>ch bootstrap kc. r = Ok True \<and> m_welcomeRecipientKemPublicKey m = kemPublicKeyRaw W \<and> kemPublicKeyRaw W \<noteq> None
    \<and> open_welcome E W (the (m_eciesSealed m)) = Some (ch, bootstrap) \<and> kcMerge E ch (keychain s) = Ok kc
    \<and> t = install_welcome E W (the (m_welcomeEpochId m)) bootstrap kc s)"
  using assms unfolding apply_accepted_def by (auto split: option.splits sum.splits if_splits)

lemma bufferPendingWelcome_run:
  assumes "\<not> absent (m_welcomeEpochId m)"
  shows "bufferPendingWelcome E m s = (Ok (), s\<lparr>ticks := Suc (ticks s),
    pendingWelcomes := put_pending (hex_of_bytes (the (m_welcomeEpochId m))) (m, dateNow E (ticks s)) (pendingWelcomes s)\<rparr>)"
  using assms by (simp add: bufferPendingWelcome_def now_def tick_def eff_bind_def)

text \<open>The three ways a received Welcome can end: dropped, buffered, or accepted and installed.\<close>

lemma welcome_cases:
  assumes ok: "doc_ok E s" and run: "evaluateAndApplyBeeKEMWelcome E W m fromBuffer s = (r, t)"
  obtains (dropped) k where "r = Ok False" "t = s\<lparr>cachedWriterKeys := k\<rparr>" "doc_ok E t"
  | (buffered) k where "\<not> fromBuffer" "r = Ok False" "\<not> absent (m_welcomeEpochId m)"
      "t = s\<lparr>cachedWriterKeys := k, ticks := Suc (ticks s),
        pendingWelcomes := put_pending (hex_of_bytes (the (m_welcomeEpochId m))) (m, dateNow E (ticks s)) (pendingWelcomes s)\<rparr>" "doc_ok E t"
  | (accepted) k ch bootstrap kc where "r = Ok True" "signed_by_writer E s m" "aclCheck E (readers s) (userPublicKey E)"
      "m_welcomeRecipient m = Some (serializePublicKey W (userPublicKey E))" "m_welcomeRecipientKemPublicKey m = kemPublicKeyRaw W"
      "open_welcome E W (the (m_eciesSealed m)) = Some (ch, bootstrap)" "kcMerge E ch (keychain s) = Ok kc"
      "t = install_welcome E W (the (m_welcomeEpochId m)) bootstrap kc (s\<lparr>cachedWriterKeys := k\<rparr>)" "doc_ok E t"
proof -
  obtain d k where eval: "evaluateBeeKEMWelcome E W m s = (Ok d, s\<lparr>cachedWriterKeys := k\<rparr>)" "doc_ok E (s\<lparr>cachedWriterKeys := k\<rparr>)"
    and acc: "d = Accept \<longrightarrow> signed_by_writer E s m \<and> unsigned_gates E W m s"
    by (rule evaluate_cases [OF ok])
  let ?u = "s\<lparr>cachedWriterKeys := k\<rparr>"
  have rest: "(case d of Accept \<Rightarrow> apply_accepted E W m
     | Drop_unauthorized Not_in_readers_acl \<Rightarrow>
         if \<not> fromBuffer \<and> \<not> absent (m_welcomeEpochId m) then eff_bind (bufferPendingWelcome E m) (\<lambda>_. eff_return False) else eff_return False
     | _ \<Rightarrow> eff_return False) ?u = (r, t)"
    using run eval(1) by (simp add: evaluateAndApplyBeeKEMWelcome_def eff_bind_def [of "evaluateBeeKEMWelcome _ _ _"])
  consider "d = Accept" | "d = Drop_unauthorized Not_in_readers_acl" "\<not> fromBuffer" "\<not> absent (m_welcomeEpochId m)"
    | "r = Ok False" "t = ?u"
    using rest by (auto split: welcome_result.splits unauthorized_reason.splits if_splits)
  then show thesis
  proof cases
    case 1
    then have "apply_accepted E W m ?u = (r, t)" using rest by simp
    from apply_accepted_cases [OF this] consider "r = Ok False" "t = ?u" | ch bootstrap kc where "r = Ok True" "m_welcomeRecipientKemPublicKey m = kemPublicKeyRaw W"
      "open_welcome E W (the (m_eciesSealed m)) = Some (ch, bootstrap)" "kcMerge E ch (keychain s) = Ok kc"
      "t = install_welcome E W (the (m_welcomeEpochId m)) bootstrap kc ?u" by auto
    then show thesis
    proof cases
      case 1
      then show thesis using dropped eval(2) by blast
    next
      case 2
      have "doc_ok E t" unfolding 2(5) doc_ok_install by (rule eval(2))
      then show thesis using 2 accepted acc \<open>d = Accept\<close> unfolding unsigned_gates_def by blast
    qed
  next
    case 2
    then have t: "r = Ok False" "t = s\<lparr>cachedWriterKeys := k, ticks := Suc (ticks s),
        pendingWelcomes := put_pending (hex_of_bytes (the (m_welcomeEpochId m))) (m, dateNow E (ticks s)) (pendingWelcomes s)\<rparr>"
      using rest bufferPendingWelcome_run [OF 2(3), of E ?u] by (simp_all add: eff_bind_def)
    have "doc_ok E t" using eval(2) unfolding t(2) by (simp add: doc_ok_def snapshot_count_def)
    then show thesis using buffered t 2 by blast
  next
    case 3
    then show thesis using dropped [of k] eval(2) by simp
  qed
qed

text \<open>
  Claim C17.  A Welcome changes the keychain, the invitation epoch or the ratchet only if a current writer signed it, it names this user and the installed
  KEM key as recipient, and this user is a reader; otherwise it is ignored or buffered.
\<close>

theorem welcome_needs_writer:
  assumes "doc_ok E s" "evaluateAndApplyBeeKEMWelcome E W m fromBuffer s = (r, t)" "welcome_part t \<noteq> welcome_part s"
  shows "r = Ok True \<and> signed_by_writer E s m \<and> aclCheck E (readers s) (userPublicKey E)
    \<and> m_welcomeRecipient m = Some (serializePublicKey W (userPublicKey E)) \<and> m_welcomeRecipientKemPublicKey m = kemPublicKeyRaw W"
  using welcome_cases [OF assms(1,2)] assms(3) by (cases) (auto simp: welcome_part_def)

section \<open>The invitation epoch\<close>

lemma index_of_Some:
  "index_of i ks = Some n \<Longrightarrow> n < length ks \<and> fst (ks ! n) = i \<and> (\<forall>l < n. fst (ks ! l) \<noteq> i)"
  by (induction ks arbitrary: n) (auto split: if_splits nat.splits simp: nth_Cons)

text \<open>
  Claim C18.  A Welcome never moves the invitation epoch of a document backwards: once set it is only replaced by an epoch that comes later in the
  merged keychain, so a replayed or delayed Welcome cannot widen the history a member discloses under \<^verbatim>\<open>since-invited\<close>.
\<close>

theorem welcome_epoch_monotone:
  assumes "doc_ok E s" "evaluateAndApplyBeeKEMWelcome E W m fromBuffer s = (r, t)" "invitationEpoch s = Some e"
  shows "\<exists>e'. invitationEpoch t = Some e' \<and> (e' = e \<or> (\<exists>ks i j. kcKeys E (keychain t) = Ok ks \<and> i < j \<and> j < length ks
    \<and> fst (ks ! i) = e \<and> fst (ks ! j) = e' \<and> (\<forall>l < j. fst (ks ! l) \<noteq> e')))"
  using assms(1,2)
proof (cases rule: welcome_cases)
  case (accepted k ch bootstrap kc)
  let ?e = "the (m_welcomeEpochId m)"
  have t: "keychain t = kc" "invitationEpoch t = Some (if shouldAdvanceInvitationEpoch E kc e ?e then ?e else e)"
    using accepted(8) assms(3) by (simp_all add: install_welcome_def)
  show ?thesis
  proof (cases "shouldAdvanceInvitationEpoch E kc e ?e")
    case True
    then obtain ks i j where "kcKeys E kc = Ok ks" "index_of e ks = Some i" "index_of ?e ks = Some j" "i < j"
      by (auto simp: shouldAdvanceInvitationEpoch_def split: if_splits sum.splits option.splits)
    then show ?thesis using t True index_of_Some [of e ks i] index_of_Some [of ?e ks j] by fastforce
  qed (simp add: t)
qed (use assms(3) in simp_all)

section \<open>The pending buffer\<close>

definition pending_ok :: "('doc, 'c, 'fn, 'acl, 'kc, 'pk) swarm_doc \<Rightarrow> bool" where
  "pending_ok s \<longleftrightarrow> map_ok (pendingWelcomes s) \<and> length (pendingWelcomes s) \<le> PENDING_WELCOMES_MAX_ENTRIES
     \<and> (\<forall>(key, m, t) \<in> set (pendingWelcomes s). \<exists>epoch. m_welcomeEpochId m = Some epoch \<and> key = hex_of_bytes epoch)"

lemma map_delete_subset: "set (map_delete k m) \<subseteq> set m"
  by (auto simp: map_delete_filter)

lemma length_map_delete: "length (map_delete k m) \<le> length m"
  by (simp add: map_delete_filter)

lemma put_pending_keys:
  "set (put_pending key entry pending) \<subseteq> insert (key, entry) (set pending)"
proof -
  have absent: "key \<notin> fst ` set (map_delete k (map_delete key pending))" "key \<notin> fst ` set (map_delete key pending)" for k
    by (auto simp: map_delete_filter)
  show ?thesis unfolding put_pending_def Let_def
    by (auto simp: map_set_fresh absent dest: subsetD [OF map_delete_subset])
qed

lemma length_map_delete_hd: "pending \<noteq> [] \<Longrightarrow> length (map_delete (fst (hd pending)) pending) < length pending"
  by (cases pending) (auto simp: map_delete_filter le_imp_less_Suc)

lemma put_pending_length:
  assumes "length pending \<le> PENDING_WELCOMES_MAX_ENTRIES"
  shows "length (put_pending key entry pending) \<le> PENDING_WELCOMES_MAX_ENTRIES"
proof -
  let ?p = "map_delete key pending"
  have le: "length ?p \<le> length pending" by (rule length_map_delete)
  have "length (map_delete (fst (hd ?p)) ?p) < length ?p" if "length ?p \<ge> PENDING_WELCOMES_MAX_ENTRIES"
    using that by (intro length_map_delete_hd) (auto simp: PENDING_WELCOMES_MAX_ENTRIES_def)
  then show ?thesis using assms le unfolding put_pending_def Let_def by (auto simp: length_map_set)
qed

lemma put_pending_map_ok: "map_ok pending \<Longrightarrow> map_ok (put_pending key entry pending)"
  by (auto simp: put_pending_def Let_def js_map)

lemma drop_pending_ok: "pending_ok s \<Longrightarrow> pending_ok (s\<lparr>pendingWelcomes := map_delete key (pendingWelcomes s)\<rparr>)"
  by (auto simp: pending_ok_def js_map dest: subsetD [OF map_delete_subset] intro: le_trans [OF length_map_delete])

lemma welcome_pending_ok:
  assumes "doc_ok E s" "evaluateAndApplyBeeKEMWelcome E W m fromBuffer s = (r, t)" "pending_ok s"
  shows "pending_ok t"
  using assms(1,2)
proof (cases rule: welcome_cases)
  case (buffered k)
  let ?new = "put_pending (hex_of_bytes (the (m_welcomeEpochId m))) (m, dateNow E (ticks s)) (pendingWelcomes s)"
  obtain epoch where e: "m_welcomeEpochId m = Some epoch" using buffered(3) by (auto simp: absent_def)
  have "\<exists>epoch. m_welcomeEpochId m' = Some epoch \<and> key = hex_of_bytes epoch" if "(key, m', t') \<in> set ?new" for key m' t'
    using subsetD [OF put_pending_keys that] e assms(3) by (auto simp: pending_ok_def)
  then show ?thesis using assms(3) unfolding buffered(4) pending_ok_def
    by (auto simp: put_pending_length put_pending_map_ok)
qed (use assms(3) in \<open>simp_all add: pending_ok_def install_welcome_def\<close>)

text \<open>The document invariant together with that of the buffer.\<close>

definition welcome_ok where
  "welcome_ok E s \<longleftrightarrow> doc_ok E s \<and> pending_ok s"

lemma welcome_ok_step:
  assumes "welcome_ok E s" "evaluateAndApplyBeeKEMWelcome E W m fromBuffer s = (r, t)"
  shows "welcome_ok E t \<and> (\<exists>b. r = Ok b)"
proof -
  note ok = assms(1) [unfolded welcome_ok_def]
  have "doc_ok E t \<and> (\<exists>b. r = Ok b)" using welcome_cases [OF conjunct1 [OF ok] assms(2)] by cases auto
  then show ?thesis using welcome_pending_ok [OF _ assms(2)] ok by (simp add: welcome_ok_def)
qed

lemma keeps_evaluateAndApply [keeps_intro]: "keeps (welcome_ok E) (evaluateAndApplyBeeKEMWelcome E W m fromBuffer)"
  unfolding keeps_def using welcome_ok_step by (metis surjective_pairing)

lemma keeps_drop_pending [keeps_intro]: "keeps (welcome_ok E) (drop_pending key)"
  unfolding drop_pending_def
  by (rule keeps_modify) (auto simp: welcome_ok_def drop_pending_ok doc_ok_def snapshot_count_def)

lemma keeps_tick_welcome [keeps_intro]: "keeps (welcome_ok E) (now F)"
  unfolding now_def tick_def
  by (intro keeps_intro) (auto simp: welcome_ok_def pending_ok_def doc_ok_def snapshot_count_def)

lemma fst_unit_Ok:
  fixes m :: "('s, 'e, unit) eff"
  shows "never_throws m \<Longrightarrow> fst (m s) = Ok ()"
  unfolding never_throws_def by (metis fst_conv old.unit.exhaust)

text \<open>
  Claim C19.  Whatever peers send, the receive path and the replay of buffered Welcomes keep the invariants of the document, hold at most
  16 pending Welcomes, at most one per epoch, each under the hexadecimal form of its epoch ID; and neither of them throws.
\<close>

theorem welcome_buffer_bounded:
  assumes "welcome_ok E s"
  shows "welcome_ok E (snd (handleBeeKEMWelcomeRequestData E W payload s)) \<and> welcome_ok E (snd (drainPendingWelcomes E W s))
    \<and> fst (handleBeeKEMWelcomeRequestData E W payload s) = Ok () \<and> length (pendingWelcomes s) \<le> 16"
proof -
  have "keeps (welcome_ok E) (handleBeeKEMWelcomeRequestData E W payload)"
    unfolding handleBeeKEMWelcomeRequestData_def by (intro keeps_intro)
  moreover have "keeps (welcome_ok E) (drainPendingWelcomes E W)"
    unfolding drainPendingWelcomes_def drain_entry_def by (intro keeps_intro)
  moreover have "never_throws (handleBeeKEMWelcomeRequestData E W payload)"
    unfolding handleBeeKEMWelcomeRequestData_def by (intro nothrow_intro)
  then have "fst (handleBeeKEMWelcomeRequestData E W payload s) = Ok ()"
    by (rule fst_unit_Ok)
  moreover have "length (pendingWelcomes s) \<le> 16"
    using assms by (simp add: welcome_ok_def pending_ok_def PENDING_WELCOMES_MAX_ENTRIES_def)
  ultimately show ?thesis using assms by (simp add: keeps_def)
qed

section \<open>Replay\<close>

lemma evaluate_not_reader:
  assumes "unsigned_gates E W m (s\<lparr>readers := acl\<rparr>)" "\<not> aclCheck E (readers s) (userPublicKey E)"
  shows "evaluateBeeKEMWelcome E W m s = (Ok (Drop_unauthorized Not_in_readers_acl), s)"
  using assms unfolding unsigned_gates_def by (elim conjE disjE) (simp_all add: evaluateBeeKEMWelcome_def)

lemma welcome_buffered:
  assumes "evaluateBeeKEMWelcome E W m s = (Ok (Drop_unauthorized Not_in_readers_acl), s)" "\<not> absent (m_welcomeEpochId m)"
    "deserializeSyncMessage E payload = Ok m"
  shows "handleBeeKEMWelcomeRequestData E W payload s = (Ok (), s\<lparr>ticks := Suc (ticks s),
    pendingWelcomes := put_pending (hex_of_bytes (the (m_welcomeEpochId m))) (m, dateNow E (ticks s)) (pendingWelcomes s)\<rparr>)"
  using assms bufferPendingWelcome_run [OF assms(2), of E s]
  by (simp add: handleBeeKEMWelcomeRequestData_def evaluateAndApplyBeeKEMWelcome_def eff_bind_def eff_catch_def)

lemma welcome_applied:
  assumes "doc_ok E s" "unsigned_gates E W m s" "signed_by_writer E s m" "m_welcomeRecipientKemPublicKey m = kemPublicKeyRaw W"
    "open_welcome E W (the (m_eciesSealed m)) = Some (ch, bootstrap)" "kcMerge E ch (keychain s) = Ok kc"
  shows "\<exists>k. evaluateAndApplyBeeKEMWelcome E W m fromBuffer s
    = (Ok True, install_welcome E W (the (m_welcomeEpochId m)) bootstrap kc (s\<lparr>cachedWriterKeys := k\<rparr>))"
proof -
  obtain k where "evaluateBeeKEMWelcome E W m s = (Ok Accept, s\<lparr>cachedWriterKeys := k\<rparr>)"
    using evaluate_late [OF assms(1,2)] assms(3) by auto
  moreover obtain key where "kemPublicKeyRaw W = Some key"
    using assms(2,4) by (auto simp: unsigned_gates_def absent_def)
  ultimately have "evaluateAndApplyBeeKEMWelcome E W m fromBuffer s
    = (Ok True, install_welcome E W (the (m_welcomeEpochId m)) bootstrap kc (s\<lparr>cachedWriterKeys := k\<rparr>))"
    using assms(4-6) by (simp add: evaluateAndApplyBeeKEMWelcome_def apply_accepted_def eff_bind_def)
  then show ?thesis ..
qed

text \<open>
  A Welcome that overtakes the ACL change admitting its recipient is not lost: received while this user is not yet a reader it is buffered, and
  the drain after the merge of that ACL change, within the five minutes the buffer keeps it, merges its keys and empties the buffer.
\<close>

theorem welcome_replayed_after_acl:
  assumes ok: "doc_ok E s" and early: "\<not> aclCheck E (readers s) (userPublicKey E)" "pendingWelcomes s = []"
    and wire: "deserializeSyncMessage E payload = Ok m"
    and gates: "unsigned_gates E W m (s\<lparr>readers := aclMerge E ch (readers s)\<rparr>)" "signed_by_writer E s m" "m_welcomeRecipientKemPublicKey m = kemPublicKeyRaw W"
    and payload: "open_welcome E W (the (m_eciesSealed m)) = Some (keys, bootstrap)" "kcMerge E keys (keychain s) = Ok kc"
    and time: "dateNow E (Suc (ticks s)) - dateNow E (ticks s) \<le> PENDING_WELCOMES_TTL_MS"
    and run: "handleBeeKEMWelcomeRequestData E W payload s = (Ok (), s1)" "mergeReaders E ch s1 = (Ok (), s2)" "drainPendingWelcomes E W s2 = (r, s3)"
  shows "keychain s1 = keychain s \<and> drainsRequested s2 = Suc (drainsRequested s) \<and> r = Ok () \<and> keychain s3 = kc \<and> pendingWelcomes s3 = []"
proof -
  let ?key = "hex_of_bytes (the (m_welcomeEpochId m))"
  have epoch: "\<not> absent (m_welcomeEpochId m)" using gates(1) by (simp add: unsigned_gates_def)
  note buffer = welcome_buffered [OF evaluate_not_reader [OF gates(1) early(1)] epoch wire]
  have s1: "s1 = s\<lparr>ticks := Suc (ticks s), pendingWelcomes := [(?key, m, dateNow E (ticks s))]\<rparr>"
    using run(1) buffer early(2) by (simp add: put_pending_def map_delete_def map_set_def PENDING_WELCOMES_MAX_ENTRIES_def)
  have s2: "s2 = s1\<lparr>readers := aclMerge E ch (readers s), drainsRequested := Suc (drainsRequested s)\<rparr>"
    using run(2) s1 by (simp add: mergeReaders_def)
  let ?s2 = "s2\<lparr>ticks := Suc (ticks s2)\<rparr>"
  have "doc_ok E ?s2" using ok unfolding s2 s1 by (simp add: doc_ok_def snapshot_count_def)
  moreover have "unsigned_gates E W m ?s2 = unsigned_gates E W m (s\<lparr>readers := aclMerge E ch (readers s)\<rparr>)"
    unfolding s2 s1 unsigned_gates_def by simp
  then have "unsigned_gates E W m ?s2" using gates(1) by blast
  moreover have "signed_by_writer E ?s2 m" using gates(2) unfolding s2 s1 by (simp add: signed_by_writer_def getWriters_def)
  moreover have "kcMerge E keys (keychain ?s2) = Ok kc" using payload(2) unfolding s2 s1 by simp
  ultimately obtain k where app: "evaluateAndApplyBeeKEMWelcome E W m True ?s2
      = (Ok True, install_welcome E W (the (m_welcomeEpochId m)) bootstrap kc (?s2\<lparr>cachedWriterKeys := k\<rparr>))"
    using welcome_applied [OF _ _ _ gates(3) payload(1)] by blast
  have pend: "pendingWelcomes s2 = [(?key, m, dateNow E (ticks s))]" "ticks s2 = Suc (ticks s)" by (simp_all add: s2 s1)
  have fresh: "\<not> dateNow E (Suc (ticks s)) - dateNow E (ticks s) > PENDING_WELCOMES_TTL_MS" using time by simp
  have "drainPendingWelcomes E W s2 = (Ok (), (install_welcome E W (the (m_welcomeEpochId m)) bootstrap kc (?s2\<lparr>cachedWriterKeys := k\<rparr>))\<lparr>pendingWelcomes := []\<rparr>)"
    using app pend fresh
    by (simp add: drainPendingWelcomes_def drain_entry_def drop_pending_def eff_when_def now_def tick_def eff_bind_def install_welcome_def map_delete_def)
  with run(3) have "r = Ok ()" "s3 = (install_welcome E W (the (m_welcomeEpochId m)) bootstrap kc (?s2\<lparr>cachedWriterKeys := k\<rparr>))\<lparr>pendingWelcomes := []\<rparr>"
    by simp_all
  moreover have "keychain s1 = keychain s" "drainsRequested s2 = Suc (drainsRequested s)" by (simp_all add: s2 s1)
  ultimately show ?thesis by (simp add: install_welcome_def)
qed

text \<open>
  Buffering comes before the signature check: an unsigned Welcome that names this user and an epoch replaces a genuine one buffered for that epoch.
\<close>

theorem welcome_forgery_displaces_genuine:
  assumes "unsigned_gates E W (forged\<lparr>m_signature := Some ''x''\<rparr>) (s\<lparr>readers := acl\<rparr>)" "\<not> aclCheck E (readers s) (userPublicKey E)"
    "deserializeSyncMessage E payload = Ok forged" "handleBeeKEMWelcomeRequestData E W payload s = (Ok (), t)"
  shows "map_get (pendingWelcomes t) (hex_of_bytes (the (m_welcomeEpochId forged))) = Some (forged, dateNow E (ticks s))"
proof -
  have "evaluateBeeKEMWelcome E W forged s = (Ok (Drop_unauthorized Not_in_readers_acl), s)" "\<not> absent (m_welcomeEpochId forged)"
    using assms(1,2) unfolding unsigned_gates_def by (elim conjE disjE; simp add: evaluateBeeKEMWelcome_def)+
  from welcome_buffered [OF this assms(3)] show ?thesis using assms(4) by (auto simp: put_pending_def Let_def js_map)
qed

section \<open>Examples\<close>

text \<open>The user \<^verbatim>\<open>b\<close> receives a Welcome that the writer \<^verbatim>\<open>a\<close> signed; \<^verbatim>\<open>b\<close> is a reader in the document \<open>sample_reader\<close> only.\<close>

definition sample_welcome :: "(string, string) sync_message" where
  "sample_welcome = (empty_message ''/doc'')\<lparr>m_welcomeEpochId := Some [7], m_welcomeRecipient := Some ''b'',
     m_welcomeRecipientKemPublicKey := Some (replicate 65 0), m_eciesSealed := Some [1], m_signature := Some ''a''\<rparr>"

definition sample_welcome_env :: "string welcome_env" where
  "sample_welcome_env = \<lparr>serializePublicKey = (\<lambda>k. k), kemPublicKeyRaw = Some (replicate 65 0), openSealed = Some,
     decodeWelcomeSealedPayload = (\<lambda>b. Some (b, None)), processesWelcome = (\<lambda>_. True)\<rparr>"

definition sample_recipient :: sample_env where
  "sample_recipient = (sample_env ''b'' defaultCompactionConfig (\<lambda>_. True))\<lparr>deserializeSyncMessage := (\<lambda>_. Ok sample_welcome)\<rparr>"

definition sample_reader :: sample_doc where
  "sample_reader = (sample_doc sample_recipient)\<lparr>readers := [''b'']\<rparr>"

lemmas sample_welcome_run = sample_welcome_def sample_welcome_env_def sample_recipient_def sample_reader_def sample_run

lemma sample_welcome_facts:
  "doc_ok sample_recipient (sample_doc sample_recipient)" "doc_ok sample_recipient sample_reader"
  "unsigned_gates sample_recipient sample_welcome_env sample_welcome sample_reader"
  "signed_by_writer sample_recipient sample_reader sample_welcome" "signed_by_writer sample_recipient (sample_doc sample_recipient) sample_welcome"
  by (simp_all add: doc_ok_def snapshot_count_def sample_welcome_run unsigned_gates_def absent_def truthy_def kem_key_length_def
      signed_by_writer_def getWriters_def text_encode_def)

lemma sample_welcome_applied:
  "\<exists>k. evaluateAndApplyBeeKEMWelcome sample_recipient sample_welcome_env sample_welcome False sample_reader
    = (Ok True, install_welcome sample_recipient sample_welcome_env [7] None () (sample_reader\<lparr>cachedWriterKeys := k\<rparr>))"
  using welcome_applied [OF sample_welcome_facts(2,3,4), where ch = "text_decode [1]" and bootstrap = None and kc = "()"]
  by (simp add: open_welcome_def sample_welcome_run)

theorem welcome_needs_writer_witness:
  "\<exists>t. evaluateAndApplyBeeKEMWelcome sample_recipient sample_welcome_env sample_welcome False sample_reader = (Ok True, t)
    \<and> invitationEpoch t = Some [7] \<and> signed_by_writer sample_recipient sample_reader sample_welcome"
proof -
  obtain t where t: "evaluateAndApplyBeeKEMWelcome sample_recipient sample_welcome_env sample_welcome False sample_reader = (Ok True, t)"
    "invitationEpoch t = Some [7]" "invitationEpoch sample_reader = None"
    using sample_welcome_applied by (auto simp: install_welcome_def sample_welcome_run)
  then have "welcome_part t \<noteq> welcome_part sample_reader" by (simp add: welcome_part_def)
  from welcome_needs_writer [OF sample_welcome_facts(2) t(1) this] show ?thesis using t by blast
qed

theorem welcome_epoch_monotone_witness:
  "\<exists>t. snd (evaluateAndApplyBeeKEMWelcome sample_recipient sample_welcome_env sample_welcome False (sample_reader\<lparr>invitationEpoch := Some [7]\<rparr>)) = t
    \<and> invitationEpoch t = Some [7]"
proof -
  let ?s = "sample_reader\<lparr>invitationEpoch := Some [7]\<rparr>"
  obtain r t where run: "evaluateAndApplyBeeKEMWelcome sample_recipient sample_welcome_env sample_welcome False ?s = (r, t)" by fastforce
  have "doc_ok sample_recipient ?s" using sample_welcome_facts(2) by (simp add: doc_ok_def snapshot_count_def)
  from welcome_epoch_monotone [OF this run, of "[7]"] have "invitationEpoch t = Some [7]"
    by (auto simp: sample_welcome_run)
  then show ?thesis using run by simp
qed

theorem welcome_buffer_bounded_witness:
  "length (pendingWelcomes (sample_doc sample_recipient)) \<le> 16
    \<and> welcome_ok sample_recipient (snd (drainPendingWelcomes sample_recipient sample_welcome_env (sample_doc sample_recipient)))"
proof -
  have "welcome_ok sample_recipient (sample_doc sample_recipient)"
    using sample_welcome_facts(1) by (simp add: welcome_ok_def pending_ok_def sample_welcome_run js_map)
  from welcome_buffer_bounded [OF this] show ?thesis by blast
qed

theorem welcome_replayed_after_acl_witness:
  "\<exists>s1 s2 s3. handleBeeKEMWelcomeRequestData sample_recipient sample_welcome_env [] (sample_doc sample_recipient) = (Ok (), s1)
    \<and> mergeReaders sample_recipient ''b'' s1 = (Ok (), s2) \<and> drainPendingWelcomes sample_recipient sample_welcome_env s2 = (Ok (), s3)
    \<and> length (pendingWelcomes s1) = 1 \<and> pendingWelcomes s3 = []"
proof -
  let ?s = "sample_doc sample_recipient"
  have early: "\<not> aclCheck sample_recipient (readers ?s) (userPublicKey sample_recipient)" "pendingWelcomes ?s = []"
    by (simp_all add: sample_welcome_run)
  have wire: "deserializeSyncMessage sample_recipient [] = Ok sample_welcome" by (simp add: sample_recipient_def)
  have gates: "unsigned_gates sample_recipient sample_welcome_env sample_welcome (?s\<lparr>readers := aclMerge sample_recipient ''b'' (readers ?s)\<rparr>)"
    by (simp add: sample_welcome_run unsigned_gates_def absent_def truthy_def kem_key_length_def set_add_def)
  have kem: "m_welcomeRecipientKemPublicKey sample_welcome = kemPublicKeyRaw sample_welcome_env" by (simp add: sample_welcome_run)
  have payload: "open_welcome sample_recipient sample_welcome_env (the (m_eciesSealed sample_welcome)) = Some (text_decode [1], None)"
    "kcMerge sample_recipient (text_decode [1]) (keychain ?s) = Ok ()" by (simp_all add: open_welcome_def sample_welcome_run)
  have time: "dateNow sample_recipient (Suc (ticks ?s)) - dateNow sample_recipient (ticks ?s) \<le> PENDING_WELCOMES_TTL_MS"
    by (simp add: PENDING_WELCOMES_TTL_MS_def sample_welcome_run)
  have epoch: "\<not> absent (m_welcomeEpochId sample_welcome)" by (simp add: sample_welcome_def absent_def empty_message_def)
  obtain s1 where s1: "handleBeeKEMWelcomeRequestData sample_recipient sample_welcome_env [] ?s = (Ok (), s1)" "length (pendingWelcomes s1) = 1"
    using welcome_buffered [OF evaluate_not_reader [OF gates early(1)] epoch wire] early(2)
    by (simp add: put_pending_def map_delete_def map_set_def PENDING_WELCOMES_MAX_ENTRIES_def)
  obtain s2 where s2: "mergeReaders sample_recipient ''b'' s1 = (Ok (), s2)" by (simp add: mergeReaders_def)
  obtain r s3 where s3: "drainPendingWelcomes sample_recipient sample_welcome_env s2 = (r, s3)" by fastforce
  from welcome_replayed_after_acl [OF sample_welcome_facts(1) early wire gates sample_welcome_facts(5) kem payload time s1(1) s2 s3]
  show ?thesis using s1 s2 s3 by blast
qed

end
