(* ===== verification/DocLoad.thy ===== *)
theory DocLoad
  imports DocSync LoadOrchestrator
begin

text \<open>
  Loading a document from peers (\<^verbatim>\<open>collabswarm-document.ts\<close>): the three request handlers that serve a load, a snapshot load and a tip
  advertisement, the probe of one peer, the load from one peer with the binding to the hash the quorum agreed on, and \<^verbatim>\<open>load\<close>.  A peer is its
  multiaddress string.  The network is the record \<open>load_env\<close>: what a peer answers to a request on a protocol, and whether it answers a probe in time.
  A probe reads the document; that it may fill the memoized list of writer keys is left out, since the list equals the one it would be computed to.
\<close>

section \<open>Requests and the network\<close>

record load_request =
  lr_documentId :: string
  lr_signature :: string

datatype load_protocol = DocumentLoadV3 | SnapshotLoadV3 | TipAdvertiseV1

record load_env =
  sha256 :: "bytes \<Rightarrow> bytes"
  serializeLoadRequest :: "load_request \<Rightarrow> bytes"
  connectedPeers :: "string list"
  randomIndex :: "nat \<Rightarrow> nat" \<comment> \<open>the supply of \<^verbatim>\<open>Math.random\<close>, reduced below the bound where it is used\<close>
  answer :: "string \<Rightarrow> load_protocol \<Rightarrow> bytes \<Rightarrow> bytes option" \<comment> \<open>no answer when the dial or the stream fails\<close>
  inTime :: "string \<Rightarrow> bool" \<comment> \<open>whether the probe of a peer ends before the timeout\<close>
  quorumConfig :: orchestrator_config

text \<open>\<^verbatim>\<open>shuffleArray\<close>: Fisher and Yates, from the last index down.\<close>

fun shuffle_down :: "(nat \<Rightarrow> nat) \<Rightarrow> nat \<Rightarrow> 'a list \<Rightarrow> 'a list" where
  "shuffle_down rnd 0 xs = xs"
| "shuffle_down rnd (Suc i) xs = shuffle_down rnd i
     (let j = rnd (Suc i) mod (i + 2) in xs[Suc i := xs ! j, j := xs ! Suc i])"

definition shuffleArray :: "(nat \<Rightarrow> nat) \<Rightarrow> 'a list \<Rightarrow> 'a list" where
  "shuffleArray rnd xs = shuffle_down rnd (length xs - 1) xs"

definition shuffledPeers :: "load_env \<Rightarrow> string list" where
  "shuffledPeers L = (if connectedPeers L = [] then [] else shuffleArray (randomIndex L) (connectedPeers L))"

text \<open>All matches of \<^verbatim>\<open>/\/p2p\/([^/]+)/g\<close> in a multiaddress; the peer id is the last one.\<close>

function p2p_matches :: "string \<Rightarrow> string list" where
  "p2p_matches s = (case s of [] \<Rightarrow> [] | c # rest \<Rightarrow>
     (let peerId = takeWhile (\<lambda>c. c \<noteq> CHR ''/'') (drop 5 s) in
      if take 5 s = ''/p2p/'' \<and> peerId \<noteq> [] then peerId # p2p_matches (drop (5 + length peerId) s) else p2p_matches rest))"
  by pat_completeness auto
termination
  by (relation "measure length") (auto simp: Let_def)

declare p2p_matches.simps [simp del]

definition peerIdOf :: "string \<Rightarrow> string" where
  "peerIdOf addr = (if p2p_matches addr = [] then addr else last (p2p_matches addr))"

section \<open>Serving\<close>

text \<open>A signature that does not decode makes the handler throw, which it answers like an unauthorized request, with nothing.\<close>

definition request_authorized :: "('doc, 'c, 'fn, 'acl, 'kc, 'pk, 'key) doc_env \<Rightarrow> ('doc, 'c, 'fn, 'acl, 'kc, 'pk) swarm_doc \<Rightarrow> load_request \<Rightarrow> bool" where
  "request_authorized E s req =
     (if \<not> enableSigning E then True
      else if lr_signature req = [] then False
      else (case base64_decode E (lr_signature req) of None \<Rightarrow> False
        | Some sig \<Rightarrow> any_verifies E (aclUsers E (readers s) @ aclUsers E (writers s)) (text_encode (lr_documentId req)) sig))"

definition keychain_for_visibility :: "('doc, 'c, 'fn, 'acl, 'kc, 'pk, 'key) doc_env \<Rightarrow> ('doc, 'c, 'fn, 'acl, 'kc, 'pk) swarm_doc \<Rightarrow> doc_error + 'c" where
  "keychain_for_visibility E s = (case historyVisibility s of
     Full_history \<Rightarrow> Ok (kcHistory E (keychain s))
   | Since_invited \<Rightarrow> (case invitationEpoch s of None \<Rightarrow> kcCurrentKeyChange E (keychain s)
       | Some epoch \<Rightarrow> (case kcHistorySince E of Some f \<Rightarrow> f (keychain s) epoch | None \<Rightarrow> Ok (kcHistory E (keychain s))))
   | Current_only \<Rightarrow> kcCurrentKeyChange E (keychain s))"

text \<open>Sign and encrypt a response.\<close>

definition respond :: "('doc, 'c, 'fn, 'acl, 'kc, 'pk, 'key) doc_env \<Rightarrow> ('c, 'pk) sync_message \<Rightarrow> ('doc, 'c, 'fn, 'acl, 'kc, 'pk, bytes) doc_eff" where
  "respond E m = eff_bind (signAsWriter E m) (\<lambda>signature. seal_with_current E (serializeSyncMessage E (m\<lparr>m_signature := Some signature\<rparr>)))"

definition load_message :: "('doc, 'c, 'fn, 'acl, 'kc, 'pk, 'key) doc_env \<Rightarrow> ('doc, 'c, 'fn, 'acl, 'kc, 'pk) swarm_doc \<Rightarrow> 'c \<Rightarrow> ('c, 'pk) sync_message" where
  "load_message E s keys = (let m = createSyncMessage E s in
     m\<lparr>m_keychainChanges := Some keys, m_snapshot := (case latestSnapshot s of Some sn \<Rightarrow> Some sn | None \<Rightarrow> m_snapshot m),
       m_tips := Some (servedFrontier s)\<rparr>)"

definition handleLoadRequestData :: "('doc, 'c, 'fn, 'acl, 'kc, 'pk, 'key) doc_env \<Rightarrow> load_request \<Rightarrow> ('doc, 'c, 'fn, 'acl, 'kc, 'pk, bytes) doc_eff" where
  "handleLoadRequestData E req = eff_catch (eff_bind eff_get (\<lambda>s.
     if lr_documentId req \<noteq> doc_env.documentPath E then eff_return []
     else if \<not> request_authorized E s req then eff_return []
     else eff_bind (eff_lift (keychain_for_visibility E s)) (\<lambda>keys. respond E (load_message E s keys)))) (\<lambda>_. eff_return [])"

definition handleSnapshotLoadRequestData :: "('doc, 'c, 'fn, 'acl, 'kc, 'pk, 'key) doc_env \<Rightarrow> load_request \<Rightarrow> ('doc, 'c, 'fn, 'acl, 'kc, 'pk, bytes) doc_eff" where
  "handleSnapshotLoadRequestData E req = eff_catch (eff_bind eff_get (\<lambda>s.
     if lr_documentId req \<noteq> doc_env.documentPath E then eff_return []
     else if \<not> request_authorized E s req then eff_return []
     else if latestSnapshot s = None then eff_return []
     else eff_bind (eff_lift (keychain_for_visibility E s)) (\<lambda>keys. respond E (load_message E s keys)))) (\<lambda>_. eff_return [])"

definition handleTipAdvertiseRequestData :: "('doc, 'c, 'fn, 'acl, 'kc, 'pk, 'key) doc_env \<Rightarrow> (bytes \<Rightarrow> bytes) \<Rightarrow> load_request
    \<Rightarrow> ('doc, 'c, 'fn, 'acl, 'kc, 'pk, bytes) doc_eff" where
  "handleTipAdvertiseRequestData E sha req = eff_catch (eff_bind eff_get (\<lambda>s.
     if lr_documentId req \<noteq> doc_env.documentPath E then eff_return []
     else if \<not> request_authorized E s req then eff_return []
     else respond E ((empty_message (doc_env.documentPath E))\<lparr>m_tipsHash := Some (tipsHash sha (servedFrontier s))\<rparr>))) (\<lambda>_. eff_return [])"

text \<open>
  The shared handlers of \<^verbatim>\<open>collabswarm.ts\<close> for the three protocols: a document that is not registered is answered with nothing, and with the
  one-byte disclaimer on the advertisement protocol.
\<close>

definition serve_request :: "('doc, 'c, 'fn, 'acl, 'kc, 'pk, 'key) doc_env \<Rightarrow> (bytes \<Rightarrow> bytes) \<Rightarrow> bool \<Rightarrow> load_protocol \<Rightarrow> load_request
    \<Rightarrow> ('doc, 'c, 'fn, 'acl, 'kc, 'pk, bytes) doc_eff" where
  "serve_request E sha registered p req =
     (if \<not> registered then eff_return (if p = TipAdvertiseV1 then [0xFF] else [])
      else (case p of DocumentLoadV3 \<Rightarrow> handleLoadRequestData E req | SnapshotLoadV3 \<Rightarrow> handleSnapshotLoadRequestData E req
        | TipAdvertiseV1 \<Rightarrow> handleTipAdvertiseRequestData E sha req))"

section \<open>Reading a response\<close>

text \<open>
  The header of a response and its decryption; \<open>Ok None\<close> is a response that is skipped.  The two readers share it: the load throws where decryption
  or deserialization fails, the probe counts both as no vote.
\<close>

definition open_response :: "('doc, 'c, 'fn, 'acl, 'kc, 'pk, 'key) doc_env \<Rightarrow> 'kc \<Rightarrow> bytes \<Rightarrow> doc_error + ('c, 'pk) sync_message option" where
  "open_response E kc assembled =
     (if assembled = [] then Ok None
      else if length assembled \<le> keyIDLength E + nonceLength E then Ok None
      else (case kcGetKey E kc (take (keyIDLength E) assembled) of None \<Rightarrow> Ok None
        | Some key \<Rightarrow> (case auth_decrypt E (drop (keyIDLength E + nonceLength E) assembled) key
              (take (nonceLength E) (drop (keyIDLength E) assembled)) of
            None \<Rightarrow> Err (Undecryptable (doc_env.documentPath E))
          | Some rawContent \<Rightarrow> (case deserializeSyncMessage E rawContent of Inl e \<Rightarrow> Err e
              | Inr m \<Rightarrow> if m_documentId m \<noteq> doc_env.documentPath E then Ok None else Ok (Some m)))))"

text \<open>The writer signature of a response, which cannot be checked while no writer is known.\<close>

definition response_signed :: "('doc, 'c, 'fn, 'acl, 'kc, 'pk, 'key) doc_env \<Rightarrow> 'pk list \<Rightarrow> ('c, 'pk) sync_message \<Rightarrow> bool" where
  "response_signed E keys m =
     (if keys = [] then True
      else if \<not> truthy (m_signature m) then False
      else (case base64_decode E (the (m_signature m)) of None \<Rightarrow> False
        | Some sig \<Rightarrow> any_verifies E keys (serializeSyncMessage E (m\<lparr>m_signature := None\<rparr>)) sig))"

definition check_response :: "('doc, 'c, 'fn, 'acl, 'kc, 'pk, 'key) doc_env \<Rightarrow> ('c, 'pk) sync_message \<Rightarrow> ('doc, 'c, 'fn, 'acl, 'kc, 'pk, bool) doc_eff" where
  "check_response E m = (if enableSigning E then eff_bind (getWriterKeys E) (\<lambda>keys. eff_return (response_signed E keys m)) else eff_return True)"

section \<open>Loading from one peer\<close>

definition message_frontier :: "('c, 'pk) sync_message \<Rightarrow> string list" where
  "message_frontier m = computeServedFrontier (m_changeId m) (m_changes m) (map_option sn_lastChangeNodeCID (m_snapshot m))"

text \<open>The binding of the served payload, and of the tips the responder attests, to the agreed hash.\<close>

definition bind_check :: "(bytes \<Rightarrow> bytes) \<Rightarrow> string \<Rightarrow> ('c, 'pk) sync_message \<Rightarrow> doc_error + unit" where
  "bind_check sha expectedTipsHashHex m = (let servedHex = tipsHashToHex (tipsHash sha (message_frontier m)) in
     if \<not> constantTimeHexEquals expectedTipsHashHex servedHex then Err (Bind_check_failed servedHex)
     else (case m_tips m of None \<Rightarrow> Err (Bind_check_failed ''(missing tips)'')
       | Some tips \<Rightarrow> let advertisedHex = tipsHashToHex (tipsHash sha tips) in
           if \<not> constantTimeHexEquals servedHex advertisedHex then Err (Bind_check_failed advertisedHex) else Ok ()))"

text \<open>The message that is applied: inline changes are stripped, and the snapshot is dropped while no writer is known.\<close>

definition bound_message :: "('doc, 'c, 'fn, 'acl, 'kc, 'pk, 'key) doc_env \<Rightarrow> ('doc, 'c, 'fn, 'acl, 'kc, 'pk) swarm_doc \<Rightarrow> ('c, 'pk) sync_message \<Rightarrow> ('c, 'pk) sync_message" where
  "bound_message E s m = m\<lparr>m_changes := stripInlineChanges (m_changes m),
     m_snapshot := (if aclUsers E (writers s) = [] then None else m_snapshot m)\<rparr>"

definition prefetchable :: "('doc, 'c, 'fn, 'acl, 'kc, 'pk, 'key) doc_env \<Rightarrow> ('doc, 'c, 'fn, 'acl, 'kc, 'pk) swarm_doc \<Rightarrow> string \<Rightarrow> bool" where
  "prefetchable E s cid \<longleftrightarrow> parseCID E cid \<and> (blocks s cid \<noteq> None \<or> fetchRemote E cid \<noteq> None)"

definition expected_cids :: "('c, 'pk) sync_message \<Rightarrow> string list" where
  "expected_cids m = collectAllCidsInTree (m_changeId m) (m_changes m)"

definition sync_bound :: "('doc, 'c, 'fn, 'acl, 'kc, 'pk, 'key) doc_env \<Rightarrow> (bytes \<Rightarrow> bytes) \<Rightarrow> string \<Rightarrow> ('c, 'pk) sync_message
    \<Rightarrow> ('doc, 'c, 'fn, 'acl, 'kc, 'pk, bool) doc_eff" where
  "sync_bound E sha expectedTipsHashHex m = eff_bind (eff_lift (bind_check sha expectedTipsHashHex m)) (\<lambda>_. eff_bind eff_get (\<lambda>s.
     let m' = bound_message E s m; missing = filter (\<lambda>cid. \<not> prefetchable E s cid) (expected_cids m) in
     if m_changes m' = None \<and> m_snapshot m' = None then eff_throw (Bind_check_failed ''(snapshot-only first-load)'')
     else if missing \<noteq> [] then eff_throw (Bind_check_failed ''(prefetch-missing-blocks)'')
     else eff_bind (sync E m' False) (\<lambda>ok. if \<not> ok then eff_return False
       else eff_bind eff_get (\<lambda>t. if filter (\<lambda>cid. cid \<notin> set (hashes t)) (expected_cids m) \<noteq> []
         then eff_throw (Bind_check_failed ''(missing-blocks)'') else eff_return True))))"

definition sendLoadRequestAndSync :: "('doc, 'c, 'fn, 'acl, 'kc, 'pk, 'key) doc_env \<Rightarrow> (bytes \<Rightarrow> bytes) \<Rightarrow> string option \<Rightarrow> bytes
    \<Rightarrow> ('doc, 'c, 'fn, 'acl, 'kc, 'pk, bool) doc_eff" where
  "sendLoadRequestAndSync E sha expectedTipsHashHex assembled = eff_bind eff_get (\<lambda>s.
     eff_bind (eff_lift (open_response E (keychain s) assembled)) (\<lambda>opened. case opened of None \<Rightarrow> eff_return False
     | Some m \<Rightarrow> eff_bind (check_response E m) (\<lambda>ok. if \<not> ok then eff_return False
       else (case expectedTipsHashHex of None \<Rightarrow> sync E m False | Some expected \<Rightarrow> sync_bound E sha expected m))))"

section \<open>Probing a peer\<close>

definition MAX_TIP_ADVERTISE_RESPONSE_SIZE :: nat where
  "MAX_TIP_ADVERTISE_RESPONSE_SIZE = 6 * 1024"

definition probe_answer :: "('doc, 'c, 'fn, 'acl, 'kc, 'pk, 'key) doc_env \<Rightarrow> ('doc, 'c, 'fn, 'acl, 'kc, 'pk) swarm_doc \<Rightarrow> bytes \<Rightarrow> vote" where
  "probe_answer E s assembled =
     (if length assembled > MAX_TIP_ADVERTISE_RESPONSE_SIZE then NoVote
      else if assembled = [] then NoVote
      else if assembled = [0xFF] then UnknownDoc
      else (case open_response E (keychain s) assembled of Inr (Some m) \<Rightarrow>
          if enableSigning E \<and> (case getWriterKeys E s of (Inr keys, _) \<Rightarrow> \<not> response_signed E keys m | _ \<Rightarrow> True) then NoVote
          else (case m_tipsHash m of None \<Rightarrow> NoVote
            | Some h \<Rightarrow> if length h \<noteq> TIPS_HASH_LENGTH then NoVote else TipHash h)
        | _ \<Rightarrow> NoVote))"

definition probeTipAdvertise :: "('doc, 'c, 'fn, 'acl, 'kc, 'pk, 'key) doc_env \<Rightarrow> load_env \<Rightarrow> ('doc, 'c, 'fn, 'acl, 'kc, 'pk) swarm_doc \<Rightarrow> bytes \<Rightarrow> string \<Rightarrow> vote" where
  "probeTipAdvertise E L s request peer = (case answer L peer TipAdvertiseV1 request of None \<Rightarrow> NoVote | Some assembled \<Rightarrow> probe_answer E s assembled)"

definition raceTipAdvertiseProbe :: "('doc, 'c, 'fn, 'acl, 'kc, 'pk, 'key) doc_env \<Rightarrow> load_env \<Rightarrow> ('doc, 'c, 'fn, 'acl, 'kc, 'pk) swarm_doc \<Rightarrow> bytes \<Rightarrow> string \<Rightarrow> vote" where
  "raceTipAdvertiseProbe E L s request peer = (if inTime L peer then probeTipAdvertise E L s request peer else NoVote)"

section \<open>Loading\<close>

datatype load_failure =
    Request_failed doc_error \<comment> \<open>the request could not be signed\<close>
  | Quorum_threw string
  | Quorum_refused quorum_error "(string, string) jsmap" \<comment> \<open>with \<^verbatim>\<open>agreeingPeerBindFailures\<close>\<close>

type_synonym ('doc, 'c, 'fn, 'acl, 'kc, 'pk, 'a) load_eff = "(('doc, 'c, 'fn, 'acl, 'kc, 'pk) swarm_doc, load_failure, 'a) eff"

text \<open>What a request to one peer on one protocol comes to; a failure other than a failed binding is passed over.\<close>

datatype load_outcome = Loaded | Not_loaded | Bind_failed string

definition outcome_of :: "doc_error + bool \<Rightarrow> load_outcome" where
  "outcome_of r = (case r of Inr True \<Rightarrow> Loaded | Inr False \<Rightarrow> Not_loaded | Inl (Bind_check_failed h) \<Rightarrow> Bind_failed h | Inl _ \<Rightarrow> Not_loaded)"

definition try_protocol :: "('doc, 'c, 'fn, 'acl, 'kc, 'pk, 'key) doc_env \<Rightarrow> load_env \<Rightarrow> bytes \<Rightarrow> string option \<Rightarrow> string \<Rightarrow> load_protocol
    \<Rightarrow> ('doc, 'c, 'fn, 'acl, 'kc, 'pk, load_outcome) load_eff" where
  "try_protocol E L request winning peer p s = (case answer L peer p request of None \<Rightarrow> (Ok Not_loaded, s)
   | Some assembled \<Rightarrow> (case sendLoadRequestAndSync E (sha256 L) winning assembled s of (r, t) \<Rightarrow> (Ok (outcome_of r), t)))"

text \<open>Snapshot first when compaction is on; a peer whose snapshot failed the binding is not asked again.\<close>

definition try_peer :: "('doc, 'c, 'fn, 'acl, 'kc, 'pk, 'key) doc_env \<Rightarrow> load_env \<Rightarrow> bytes \<Rightarrow> string option \<Rightarrow> string
    \<Rightarrow> ('doc, 'c, 'fn, 'acl, 'kc, 'pk, load_outcome) load_eff" where
  "try_peer E L request winning peer =
     eff_bind (if cc_enabled (compactionConfig E) then try_protocol E L request winning peer SnapshotLoadV3 else eff_return Not_loaded) (\<lambda>out.
     case out of Not_loaded \<Rightarrow> try_protocol E L request winning peer DocumentLoadV3 | _ \<Rightarrow> eff_return out)"

fun load_loop :: "('doc, 'c, 'fn, 'acl, 'kc, 'pk, 'key) doc_env \<Rightarrow> load_env \<Rightarrow> bytes \<Rightarrow> string option \<Rightarrow> string list \<Rightarrow> (string, string) jsmap
    \<Rightarrow> ('doc, 'c, 'fn, 'acl, 'kc, 'pk, bool \<times> (string, string) jsmap) load_eff" where
  "load_loop E L request winning [] failures = eff_return (False, failures)"
| "load_loop E L request winning (peer # peers) failures = eff_bind (try_peer E L request winning peer) (\<lambda>out. case out of
     Loaded \<Rightarrow> eff_return (True, failures)
   | Not_loaded \<Rightarrow> load_loop E L request winning peers failures
   | Bind_failed h \<Rightarrow> load_loop E L request winning peers (map_set (peerIdOf peer) h failures))"

fun findIndex :: "('a \<Rightarrow> bool) \<Rightarrow> 'a list \<Rightarrow> nat option" where
  "findIndex f [] = None"
| "findIndex f (x # xs) = (if f x then Some 0 else map_option Suc (findIndex f xs))"

definition move_preferred :: "string option \<Rightarrow> string list \<Rightarrow> string list" where
  "move_preferred preferredPeer peers = (case preferredPeer of None \<Rightarrow> peers
   | Some preferredId \<Rightarrow> if preferredId = [] then peers
       else (case findIndex (\<lambda>p. p2p_matches p \<noteq> [] \<and> last (p2p_matches p) = preferredId) peers of
         None \<Rightarrow> peers | Some i \<Rightarrow> if i > 0 then peers ! i # take i peers @ drop (Suc i) peers else peers))"

definition exhausted :: "('doc, 'c, 'fn, 'acl, 'kc, 'pk, 'key) doc_env \<Rightarrow> string option \<Rightarrow> nat \<Rightarrow> (string, string) jsmap \<Rightarrow> load_failure + bool" where
  "exhausted E winning cohortSize failures = (case winning of None \<Rightarrow> Ok False
   | Some hex \<Rightarrow> Err (Quorum_refused (quorum_failure (doc_env.documentPath E)
       (if cohortSize > 0 \<and> length failures = cohortSize then Bind_check_failed_all_agreeing_peers else Agreeing_peers_unreachable)
       0 0 [(hex, 0)]) failures))"

text \<open>The defaults that \<^verbatim>\<open>load\<close> gives to the configuration.\<close>

definition load_quorum_config :: "orchestrator_config \<Rightarrow> orchestrator_config" where
  "load_quorum_config c = \<lparr>enabled = Some (case enabled c of None \<Rightarrow> True | Some b \<Rightarrow> b), cfg_k = Some (case cfg_k c of None \<Rightarrow> Fin 3 | Some k \<Rightarrow> k),
     cfg_q = cfg_q c, timeoutMs = Some (case timeoutMs c of None \<Rightarrow> Fin 5000 | Some t \<Rightarrow> t),
     allowSinglePeer = Some (case allowSinglePeer c of None \<Rightarrow> False | Some b \<Rightarrow> b)\<rparr>"

definition sign_request :: "('doc, 'c, 'fn, 'acl, 'kc, 'pk, 'key) doc_env \<Rightarrow> doc_error + load_request" where
  "sign_request E = (if enableSigning E
     then (case auth_sign E (text_encode (doc_env.documentPath E)) of Inl e \<Rightarrow> Err e
       | Inr sig \<Rightarrow> Ok \<lparr>lr_documentId = doc_env.documentPath E, lr_signature = base64_encode E sig\<rparr>)
     else Ok \<lparr>lr_documentId = doc_env.documentPath E, lr_signature = []\<rparr>)"

definition load_from :: "('doc, 'c, 'fn, 'acl, 'kc, 'pk, 'key) doc_env \<Rightarrow> load_env \<Rightarrow> bytes \<Rightarrow> string option \<Rightarrow> string list
    \<Rightarrow> ('doc, 'c, 'fn, 'acl, 'kc, 'pk, bool) load_eff" where
  "load_from E L request winning orderedPeers = eff_bind (load_loop E L request winning orderedPeers []) (\<lambda>(loaded, failures).
     if loaded then eff_return True else eff_lift (exhausted E winning (length orderedPeers) failures))"

definition quorum_round :: "('doc, 'c, 'fn, 'acl, 'kc, 'pk, 'key) doc_env \<Rightarrow> load_env \<Rightarrow> ('doc, 'c, 'fn, 'acl, 'kc, 'pk) swarm_doc \<Rightarrow> bytes \<Rightarrow> string list
    \<Rightarrow> (string + quorum_error) + string orchestrator_result" where
  "quorum_round E L s request quorumPeers = runLoadQuorum quorumPeers peerIdOf (\<lambda>peer. Ok (raceTipAdvertiseProbe E L s request peer))
     (doc_env.documentPath E) (load_quorum_config (quorumConfig L))"

definition load :: "('doc, 'c, 'fn, 'acl, 'kc, 'pk, 'key) doc_env \<Rightarrow> load_env \<Rightarrow> string option \<Rightarrow> ('doc, 'c, 'fn, 'acl, 'kc, 'pk, bool) load_eff" where
  "load E L preferredPeer = (let shuffled = shuffledPeers L; orderedPeers = move_preferred preferredPeer shuffled in
     if shuffled = [] then eff_return False
     else eff_bind eff_get (\<lambda>s. case sign_request E of Inl e \<Rightarrow> eff_throw (Request_failed e)
     | Inr req \<Rightarrow>
       (let request = serializeLoadRequest L req; quorumPeers = dedupePeersByPeerId orderedPeers peerIdOf in
        case quorum_round E L s request quorumPeers of
          Inl (Inl msg) \<Rightarrow> eff_throw (Quorum_threw msg)
        | Inl (Inr e) \<Rightarrow> eff_throw (Quorum_refused e [])
        | Inr Skipped \<Rightarrow> if (case enabled (quorumConfig L) of None \<Rightarrow> True | Some b \<Rightarrow> b) \<and> quorumPeers = [] then eff_return False
            else load_from E L request None orderedPeers
        | Inr NewDoc \<Rightarrow> eff_return False
        | Inr (Narrowed narrowedPeers winningHashHex) \<Rightarrow> load_from E L request (Some winningHashHex) narrowedPeers)))"

end
