(* ===== verification/DocStored.thy ===== *)
theory DocStored
  imports DocHead
begin

text \<open>
  The sync message a document keeps for serving is always a message of that document without a snapshot of its own: the snapshot of a load response
  is the latest one of the document.
\<close>

definition stored_ok :: "('doc, 'c, 'fn, 'acl, 'kc, 'pk, 'key) doc_env \<Rightarrow> ('doc, 'c, 'fn, 'acl, 'kc, 'pk) swarm_doc \<Rightarrow> bool" where
  "stored_ok E s \<longleftrightarrow> (\<forall>m. lastSyncMessage s = Some m \<longrightarrow> m_documentId m = documentPath E \<and> m_snapshot m = None)"

lemma stored_create: "stored_ok E s \<Longrightarrow> m_documentId (createSyncMessage E s) = documentPath E \<and> m_snapshot (createSyncMessage E s) = None"
  by (auto simp: stored_ok_def createSyncMessage_def empty_message_def split: option.splits)

lemma stored_writer_mutation [simp]: "lastSyncMessage (end_writer_mutation ((begin_writer_mutation s)\<lparr>writers := ws\<rparr>)) = lastSyncMessage s"
  by (simp add: end_writer_mutation_def begin_writer_mutation_def invalidateWriterKeyCache_def)

lemma stored_basic [keeps_intro]:
  "keeps (stored_ok E) tick" "keeps (stored_ok E) (add_hash h)" "keeps (stored_ok E) (trackTip h k)"
  "keeps (stored_ok E) count_document_change" "keeps (stored_ok E) (mergeReaders E ch)"
  "keeps (stored_ok E) (mergeWriters E ch)" "keeps (stored_ok E) (mutate_writers f)"
  "keeps (stored_ok E) (publish E bs)" "keeps (stored_ok E) (gcPrunedBlocks E cids)"
  "keeps (stored_ok E) (merge_keychain E ch)" "keeps (stored_ok E) (subscribe j n on_r on_l)"
  "keeps (stored_ok E) (unsubscribe j)" "keeps (stored_ok E) startChange" "keeps (stored_ok E) (addChange fn)"
  "keeps (stored_ok E) (seal_with_current E content)" "keeps (stored_ok E) (putBlock E ch)"
  "keeps (stored_ok E) (apply_snapshot E incoming)"
  unfolding tick_def add_hash_fold trackTip_def count_document_change_def mergeReaders_def mergeWriters_def mutate_writers_def
    publish_def gcPrunedBlocks_def merge_keychain_def subscribe_def putBlock_def apply_snapshot_def
    unsubscribe_def startChange_def addChange_def Let_def seal_with_current_def
  by (intro keeps_intro; simp add: stored_ok_def)+

lemma stored_refresh [keeps_intro]: "keeps (stored_ok E) (refreshLastSyncMessageFromSync E i tr)"
  unfolding refreshLastSyncMessageFromSync_def Let_def
  by (intro keeps_modify) (use stored_create in \<open>auto simp: stored_ok_def\<close>)

lemma stored_prune [keeps_intro]: "keeps (stored_ok E) (pruneChanges n)"
  unfolding pruneChanges_def
  by (rule keeps_get) (auto simp: stored_ok_def split: option.splits prod.splits if_splits)

lemma stored_compact [keeps_intro]: "keeps (stored_ok E) (take_snapshot E)" "keeps (stored_ok E) (maybeCompact E)"
proof -
  show snap: "keeps (stored_ok E) (take_snapshot E)"
    unfolding take_snapshot_def build_snapshot_def prune_after_snapshot_def Let_def
    by (intro keeps_intro; simp add: stored_ok_def)
  show "keeps (stored_ok E) (maybeCompact E)"
    unfolding maybeCompact_def by (intro keeps_intro snap; simp add: stored_ok_def)
qed

lemma keeps_get_with: "(\<And>s. I s \<Longrightarrow> keeps I (f s)) \<Longrightarrow> keeps I (eff_bind eff_get f)"
  by (simp add: keeps_def eff_bind_def)

lemma stored_makeChange [keeps_intro]: "keeps (stored_ok E) (makeChange E ch k)"
proof -
  have publish: "keeps (stored_ok E) (eff_bind (signAsWriter E m) (\<lambda>signature.
      eff_bind (eff_modify (\<lambda>s. s\<lparr>lastSyncMessage := Some (m\<lparr>m_signature := Some signature\<rparr>)\<rparr>)) (\<lambda>_. announce E (m\<lparr>m_signature := Some signature\<rparr>) h k)))"
    if "m_documentId m = documentPath E" "m_snapshot m = None" for m h
    unfolding announce_def by (intro keeps_intro; simp add: stored_ok_def that)
  show ?thesis unfolding makeChange_def Let_def
    by (rule keeps_bind [OF stored_basic(16)], rule keeps_bind [OF stored_basic(2)], rule keeps_get_with,
        rule keeps_bind [OF keeps_modify], simp add: stored_ok_def, rule keeps_bind [OF stored_basic(3)], rule publish)
      (simp_all add: stored_create)
qed

lemma stored_signatures [keeps_intro]:
  "keeps (stored_ok E) (getWriterKeys E)" "keeps (stored_ok E) (check_signature_of E raw sig)"
  "keeps (stored_ok E) (snapshot_valid E incoming)" "keeps (stored_ok E) (authenticate E m v)"
  unfolding check_signature_of_def verifyWriterSignature_def verifySnapshotSignature_def snapshot_valid_def authenticate_def getWriterKeys_def
  by (auto simp: stored_ok_def intro!: keeps_intro keeps_get split: nat.splits option.splits)

lemma stored_sync_parts [keeps_intro]:
  "keeps (stored_ok E) (apply_sent E entries acc)" "keeps (stored_ok E) (apply_fetched E hk)" "keeps (stored_ok E) (applyACLFromTree E tree)"
  "keeps (stored_ok E) (commit_sent E doc applied)" "keeps (stored_ok E) (receive_snapshot E incoming)"
proof -
  show "keeps (stored_ok E) (apply_sent E entries acc)"
    by (induction E entries acc rule: apply_sent.induct) (auto intro!: keeps_intro split: change_kind.splits)
  show "keeps (stored_ok E) (apply_fetched E hk)"
    unfolding apply_fetched_def case_prod_beta by (intro keeps_intro; cases "snd hk") (auto simp: stored_ok_def intro!: keeps_intro)
  show "keeps (stored_ok E) (applyACLFromTree E tree)" unfolding applyACLFromTree_def case_prod_beta by (intro keeps_intro)
  show "keeps (stored_ok E) (commit_sent E doc applied)" unfolding commit_sent_def case_prod_beta by (intro keeps_intro; simp add: stored_ok_def)
  show "keeps (stored_ok E) (receive_snapshot E incoming)" unfolding receive_snapshot_def by (intro keeps_intro)
qed

lemma stored_sync [keeps_intro]: "keeps (stored_ok E) (sync E m v)"
  unfolding sync_def syncDocumentChanges_def finish_sync_def case_prod_beta Let_def by (intro keeps_intro; simp add: stored_ok_def)

lemma stored_local [keeps_intro]:
  "keeps (stored_ok E) (do_change E fn text_message)" "keeps (stored_ok E) (addWriter E w)" "keeps (stored_ok E) (commit_pending E fns text_message)"
  unfolding do_change_def addWriter_def commit_pending_def case_prod_beta by (intro keeps_intro; simp add: stored_ok_def)+

lemma stored_endChange [keeps_intro]: "keeps (stored_ok E) (endChange E text_message)"
  unfolding endChange_def by (intro keeps_get_with keeps_intro; simp add: rollback_def stored_ok_def)

lemma stored_step: "stored_ok E s \<Longrightarrow> stored_ok E (doc_step E s op)"
  unfolding doc_step_def by (cases op) (auto intro!: keeps_snd [where I = "stored_ok E"] keeps_intro)

interpretation stored: machine_invariant "doc_step E" "stored_ok E" for E
  by unfold_locales (rule stored_step)

lemma stored_reached: "stored_ok E (reached E ops)"
  unfolding reached_def by (rule stored.run_inv) (simp add: stored_ok_def new_doc_def)

end
