(* ===== verification/DocLoadCorrect.thy ===== *)
theory DocLoadCorrect
  imports DocLoad LoadOrchestratorCorrect DocStored
begin

text \<open>
  Loading is safe: a load bound to an agreed hash changes the document only for a payload whose frontier has that hash, peers that serve something
  else cannot block it, and once a quorum agreed that the document exists it is never reported as new.  Serving is restricted to members.
\<close>

section \<open>Peers\<close>

lemma shuffle_down_mset: "n < length xs \<Longrightarrow> mset (shuffle_down rnd n xs) = mset xs"
proof (induction n arbitrary: xs)
  case (Suc i)
  define j where "j = rnd (Suc i) mod Suc (Suc i)"
  have "j < length xs" using Suc.prems mod_less_divisor [of "Suc (Suc i)" "rnd (Suc i)"] unfolding j_def by linarith
  then have "mset (xs[Suc i := xs ! j, j := xs ! Suc i]) = mset xs" using Suc.prems by (intro mset_swap) simp_all
  then show ?case using Suc by (simp add: Let_def j_def)
qed simp

lemma shuffledPeers_mset: "mset (shuffledPeers L) = mset (connectedPeers L)"
  by (cases "connectedPeers L") (simp_all add: shuffledPeers_def shuffleArray_def shuffle_down_mset)

lemma findIndex_less: "findIndex f xs = Some i \<Longrightarrow> i < length xs"
  by (induction xs arbitrary: i) (auto split: if_splits)

lemma move_preferred_mset: "mset (move_preferred p xs) = mset xs"
proof -
  have "mset (xs ! i # take i xs @ drop (Suc i) xs) = mset xs" if "i < length xs" for i
    using arg_cong [OF id_take_nth_drop [OF that], of mset] by simp
  then show ?thesis by (auto simp: move_preferred_def dest: findIndex_less split: option.splits)
qed

section \<open>One response\<close>

definition same_doc where
  "same_doc E s t \<longleftrightarrow> (\<exists>k. t = s\<lparr>cachedWriterKeys := k\<rparr>) \<and> doc_ok E t"

lemma same_doc_refl: "doc_ok E s \<Longrightarrow> same_doc E s s"
  unfolding same_doc_def by (metis swarm_doc.surjective swarm_doc.update_convs(19))

lemma same_doc_trans: "same_doc E s t \<Longrightarrow> same_doc E t u \<Longrightarrow> same_doc E s u"
  by (auto simp: same_doc_def)

lemma same_doc_fields:
  "same_doc E s t \<Longrightarrow> keychain t = keychain s \<and> writers t = writers s \<and> hashes t = hashes s \<and> blocks t = blocks s \<and> doc_ok E t"
  by (auto simp: same_doc_def)

lemma getWriterKeys_run:
  assumes "doc_ok E s"
  shows "\<exists>t. getWriterKeys E s = (Ok (getWriters E s), t) \<and> same_doc E s t"
proof (cases "cachedWriterKeys s")
  case None
  then show ?thesis using assms by (auto simp: getWriterKeys_def doc_ok_def getWriters_def same_doc_def snapshot_count_def)
next
  case (Some keys)
  then show ?thesis using assms same_doc_refl [OF assms] by (auto simp: getWriterKeys_def doc_ok_def getWriters_def)
qed

definition response_ok where
  "response_ok E s m \<longleftrightarrow> enableSigning E \<longrightarrow> response_signed E (getWriters E s) m"

lemma check_response_run:
  assumes "doc_ok E s"
  shows "\<exists>t. check_response E m s = (Ok (response_ok E s m), t) \<and> same_doc E s t"
  using getWriterKeys_run [OF assms] same_doc_refl [OF assms] by (auto simp: check_response_def response_ok_def)

lemma response_signed_writer:
  "response_ok E s m \<Longrightarrow> enableSigning E \<Longrightarrow> getWriters E s \<noteq> [] \<Longrightarrow> signed_by_writer E s m"
  by (auto simp: response_ok_def response_signed_def signed_by_writer_def truthy_def any_verifies_def list_ex_iff split: if_splits option.splits)

lemma bind_check_Ok:
  "bind_check sha hex m = Ok u \<longleftrightarrow> tipsHashToHex (tipsHash sha (message_frontier m)) = hex
     \<and> (\<exists>tips. m_tips m = Some tips \<and> tipsHash sha tips = tipsHash sha (message_frontier m))"
  by (auto simp: bind_check_def constant_time_hex_equals_correct tipsHashToHex_inj Let_def split: option.splits)

text \<open>A payload that may be applied under the hash \<open>hex\<close>.\<close>

definition agreed_payload where
  "agreed_payload E sha hex s m \<longleftrightarrow> tipsHashToHex (tipsHash sha (message_frontier m)) = hex
     \<and> (\<exists>tips. m_tips m = Some tips \<and> tipsHash sha tips = tipsHash sha (message_frontier m))
     \<and> (\<forall>cid\<in>set (expected_cids m). prefetchable E s cid)"

lemma sync_bound_cases:
  assumes "sync_bound E sha hex m s = (r, t)"
  obtains (refused) e where "r = Err (Bind_check_failed e)" "t = s"
  | (applied) q where "agreed_payload E sha hex s m" "sync E (bound_message E s m) False s = (q, t)"
      "r = Ok True \<longrightarrow> set (expected_cids m) \<subseteq> set (hashes t)" "r = Ok True \<longrightarrow> q = Ok True"
proof (cases "bind_check sha hex m")
  case (Inl e)
  then have "\<exists>h. e = Bind_check_failed h" by (auto simp: bind_check_def Let_def split: if_splits option.splits)
  then show ?thesis using assms Inl refused by (auto simp: sync_bound_def)
next
  case (Inr u)
  let ?miss = "filter (\<lambda>cid. \<not> prefetchable E s cid) (expected_cids m)"
  obtain q t' where q: "sync E (bound_message E s m) False s = (q, t')" by fastforce
  show ?thesis
  proof (cases "(m_changes (bound_message E s m) = None \<and> m_snapshot (bound_message E s m) = None) \<or> ?miss \<noteq> []")
    case True
    then show ?thesis using assms Inr refused by (auto simp: sync_bound_def Let_def split: if_splits)
  next
    case False
    then have pre: "\<forall>cid\<in>set (expected_cids m). prefetchable E s cid" by (auto simp: filter_empty_conv)
    have run: "sync_bound E sha hex m s = (case q of Inl e \<Rightarrow> (Inl e, t') | Inr ok \<Rightarrow> if \<not> ok then (Ok False, t')
        else if filter (\<lambda>cid. cid \<notin> set (hashes t')) (expected_cids m) \<noteq> [] then (Err (Bind_check_failed ''(missing-blocks)''), t') else (Ok True, t'))"
      using False Inr q unfolding sync_bound_def Let_def by (auto simp: eff_bind_def split: sum.splits)
    then have "t' = t" "r = Ok True \<longrightarrow> q = Ok True \<and> set (expected_cids m) \<subseteq> set (hashes t)"
      using assms by (auto split: sum.splits if_splits simp: filter_empty_conv)
    then show ?thesis using applied [of q] pre q Inr bind_check_Ok [of sha hex m u] by (auto simp: agreed_payload_def)
  qed
qed

lemma load_one_run:
  assumes ok: "doc_ok E s" and opened: "open_response E (keychain s) resp = Ok (Some m)" and signed: "response_ok E s m"
  shows "\<exists>u. same_doc E s u \<and> sendLoadRequestAndSync E sha winning resp s = (case winning of None \<Rightarrow> sync E m False u | Some hex \<Rightarrow> sync_bound E sha hex m u)"
proof -
  obtain u where u: "check_response E m s = (Ok True, u)" "same_doc E s u" using check_response_run [OF ok, of m] signed by auto
  then show ?thesis using opened by (auto simp: sendLoadRequestAndSync_def eff_bind_def split: option.splits)
qed

lemma load_one_cases:
  assumes ok: "doc_ok E s" and run: "sendLoadRequestAndSync E sha (Some hex) resp s = (r, t)"
  obtains (skipped) "same_doc E s t" "r \<noteq> Ok True"
  | (applied) m u q where "open_response E (keychain s) resp = Ok (Some m)" "response_ok E s m" "same_doc E s u"
      "agreed_payload E sha hex s m" "sync E (bound_message E s m) False u = (q, t)"
      "r = Ok True \<longrightarrow> set (expected_cids m) \<subseteq> set (hashes t)" "r = Ok True \<longrightarrow> q = Ok True"
proof (cases "open_response E (keychain s) resp")
  case (Inl e)
  then show ?thesis using run skipped same_doc_refl [OF ok] by (auto simp: sendLoadRequestAndSync_def)
next
  case (Inr opened)
  show ?thesis
  proof (cases opened)
    case None
    then show ?thesis using run Inr skipped same_doc_refl [OF ok] by (auto simp: sendLoadRequestAndSync_def)
  next
    case (Some m)
    show ?thesis
    proof (cases "response_ok E s m")
      case True
      then obtain u where u: "same_doc E s u" "sync_bound E sha hex m u = (r, t)"
        using load_one_run [OF ok, of resp m sha "Some hex"] run Inr Some by auto
      note fields = same_doc_fields [OF u(1)]
      have m: "bound_message E u m = bound_message E s m" "agreed_payload E sha hex u m = agreed_payload E sha hex s m"
        using fields by (simp_all add: bound_message_def agreed_payload_def prefetchable_def)
      show ?thesis
      proof (rule sync_bound_cases [OF u(2)])
        fix e assume "r = Err (Bind_check_failed e)" "t = u"
        then show ?thesis using skipped u(1) by simp
      qed (use applied [OF _ True u(1)] Inr Some m in auto)
    next
      case False
      then obtain u where u: "check_response E m s = (Ok False, u)" "same_doc E s u" using check_response_run [OF ok, of m] by auto
      then have "sendLoadRequestAndSync E sha (Some hex) resp s = (Ok False, u)"
        using Inr Some by (simp add: sendLoadRequestAndSync_def eff_bind_def)
      then show ?thesis using run u(2) skipped by simp
    qed
  qed
qed

lemma acl_changes_strip: "acl_changes (strip_node (n :: 'c change_node)) = []" "acl_changes_list (strip_children (ks :: 'c child_list)) = []"
  by (induction n and ks rule: strip_node_strip_children.induct) simp_all

lemma bound_no_acl: "m_changes (bound_message E s m) = Some tree \<Longrightarrow> acl_changes tree = []"
  by (auto simp: bound_message_def stripInlineChanges_def acl_changes_strip)


section \<open>Peers that serve something else\<close>

text \<open>The peer does not answer on either protocol with a payload of the agreed frontier.\<close>

definition serves_otherwise where
  "serves_otherwise E L request hex s peer \<longleftrightarrow> (\<forall>p resp m. p \<noteq> TipAdvertiseV1 \<and> answer L peer p request = Some resp
     \<and> open_response E (keychain s) resp = Ok (Some m) \<longrightarrow> tipsHashToHex (tipsHash (sha256 L) (message_frontier m)) \<noteq> hex)"

lemma serves_otherwise_same: "same_doc E s u \<Longrightarrow> serves_otherwise E L request hex u peer = serves_otherwise E L request hex s peer"
  using same_doc_fields [of E s u] by (simp add: serves_otherwise_def)

lemma try_protocol_otherwise:
  assumes "doc_ok E s" "serves_otherwise E L request hex s peer" "p \<noteq> TipAdvertiseV1"
  shows "\<exists>out t. try_protocol E L request (Some hex) peer p s = (Ok out, t) \<and> out \<noteq> Loaded \<and> same_doc E s t"
proof (cases "answer L peer p request")
  case None
  then show ?thesis using same_doc_refl [OF assms(1)] by (simp add: try_protocol_def)
next
  case (Some resp)
  obtain r t where run: "sendLoadRequestAndSync E (sha256 L) (Some hex) resp s = (r, t)" by fastforce
  from assms(1) run have "same_doc E s t \<and> r \<noteq> Ok True"
  proof (cases rule: load_one_cases)
    case (applied m u q)
    then show ?thesis using assms(2,3) Some by (auto simp: serves_otherwise_def agreed_payload_def)
  qed simp
  then show ?thesis using run Some by (auto simp: try_protocol_def outcome_of_def split: sum.splits bool.splits doc_error.splits)
qed

lemma try_peer_otherwise:
  assumes "doc_ok E s" "serves_otherwise E L request hex s peer"
  shows "\<exists>out t. try_peer E L request (Some hex) peer s = (Ok out, t) \<and> out \<noteq> Loaded \<and> same_doc E s t"
proof -
  obtain out t where t: "(if cc_enabled (compactionConfig E) then try_protocol E L request (Some hex) peer SnapshotLoadV3 else eff_return Not_loaded) s = (Ok out, t)"
    "out \<noteq> Loaded" "same_doc E s t"
    using try_protocol_otherwise [OF assms, of SnapshotLoadV3, simplified] same_doc_refl [OF assms(1)] by (cases "cc_enabled (compactionConfig E)") auto
  have "doc_ok E t" "serves_otherwise E L request hex t peer" using t(3) assms(2) serves_otherwise_same same_doc_fields by blast+
  from try_protocol_otherwise [OF this, of DocumentLoadV3, simplified] show ?thesis
    using t same_doc_trans [OF t(3)] unfolding try_peer_def by (cases out) (auto simp: eff_bind_def)
qed

lemma load_loop_skips:
  assumes "doc_ok E s" "\<forall>peer\<in>set bad. serves_otherwise E L request hex s peer"
  shows "\<exists>fs u. same_doc E s u \<and> load_loop E L request (Some hex) (bad @ peers) failures s = load_loop E L request (Some hex) peers fs u"
  using assms
proof (induction bad arbitrary: s failures)
  case Nil
  then show ?case using same_doc_refl by (metis append_Nil)
next
  case (Cons peer bad)
  obtain out t where t: "try_peer E L request (Some hex) peer s = (Ok out, t)" "out \<noteq> Loaded" "same_doc E s t"
    using try_peer_otherwise [of E s L request hex peer] Cons.prems by auto
  have "doc_ok E t" "\<forall>peer\<in>set bad. serves_otherwise E L request hex t peer"
    using Cons.prems t(3) same_doc_fields serves_otherwise_same by fastforce+
  from Cons.IH [OF this] same_doc_trans [OF t(3)] t(1,2) show ?case by (cases out) (fastforce simp: eff_bind_def)+
qed

text \<open>
  Claim C25.  One faulty member of the agreeing cohort cannot block a load: if every cohort peer before \<open>peer\<close> is unreachable, declines or serves a payload with another
  frontier, on both protocols, and \<open>peer\<close> serves a document that loads, then \<^verbatim>\<open>load\<close> returns true.
\<close>

theorem load_reaches_honest_peer:
  assumes "doc_ok E s" "shuffledPeers L \<noteq> []" "sign_request E = Ok req"
    and "quorum_round E L s (serializeLoadRequest L req) (dedupePeersByPeerId (move_preferred preferred (shuffledPeers L)) peerIdOf)
       = Ok (Narrowed (bad @ peer # rest) hex)"
    and "\<forall>q\<in>set bad. serves_otherwise E L (serializeLoadRequest L req) hex s q"
    and "\<forall>u. same_doc E s u \<longrightarrow> (\<exists>t. try_peer E L (serializeLoadRequest L req) (Some hex) peer u = (Ok Loaded, t))"
  shows "\<exists>t. load E L preferred s = (Ok True, t)"
proof -
  obtain fs u where u: "same_doc E s u" "load_loop E L (serializeLoadRequest L req) (Some hex) (bad @ peer # rest) [] s
      = load_loop E L (serializeLoadRequest L req) (Some hex) (peer # rest) fs u"
    using load_loop_skips [OF assms(1,5)] by blast
  obtain t where "try_peer E L (serializeLoadRequest L req) (Some hex) peer u = (Ok Loaded, t)" using assms(6) u(1) by blast
  then have "load_loop E L (serializeLoadRequest L req) (Some hex) (bad @ peer # rest) [] s = (Ok (True, fs), t)"
    using u(2) by (simp add: eff_bind_def)
  then show ?thesis using assms(2-4) by (simp add: load_def load_from_def Let_def)
qed

section \<open>What a successful load rests on\<close>

lemma inv_sendLoad [keeps_intro]: "keeps (doc_inv E s0 b c) (sendLoadRequestAndSync E sha winning resp)"
  unfolding sendLoadRequestAndSync_def check_response_def sync_bound_def Let_def by (intro keeps_intro)

lemma inv_refl: "doc_ok E s \<Longrightarrow> doc_inv E s (committing s) (compactionInProgress s) s"
  by (auto simp: doc_inv_def doc_grows_def)

lemma inv_try_protocol [keeps_intro]: "keeps (doc_inv E s0 b c) (try_protocol E L request winning peer p)"
  using keeps_snd [OF inv_sendLoad, of E s0 b c] by (auto simp: keeps_def try_protocol_def split: option.splits prod.splits) (metis snd_conv)

lemma inv_try_peer [keeps_intro]: "keeps (doc_inv E s0 b c) (try_peer E L request winning peer)"
  unfolding try_peer_def by (intro keeps_intro) (auto split: load_outcome.splits intro: keeps_intro)

lemma try_protocol_loaded:
  assumes "try_protocol E L request winning peer p s = (Ok Loaded, t)"
  shows "\<exists>resp. answer L peer p request = Some resp \<and> sendLoadRequestAndSync E (sha256 L) winning resp s = (Ok True, t)"
  using assms by (auto simp: try_protocol_def outcome_of_def split: option.splits prod.splits sum.splits bool.splits doc_error.splits)

definition loaded_from where
  "loaded_from E L request winning s peer t \<longleftrightarrow> (\<exists>p resp u. answer L peer p request = Some resp \<and> doc_ok E u \<and> doc_grows s u
     \<and> sendLoadRequestAndSync E (sha256 L) winning resp u = (Ok True, t))"

lemma try_peer_loaded:
  assumes inv: "doc_inv E s0 b c s" and run: "try_peer E L request winning peer s = (Ok Loaded, t)"
  shows "loaded_from E L request winning s0 peer t"
proof -
  let ?first = "if cc_enabled (compactionConfig E) then try_protocol E L request winning peer SnapshotLoadV3 else eff_return Not_loaded"
  obtain out u where u: "?first s = (Ok out, u)" "(case out of Not_loaded \<Rightarrow> try_protocol E L request winning peer DocumentLoadV3 | _ \<Rightarrow> eff_return out) u = (Ok Loaded, t)"
    using run by (auto simp: try_peer_def eff_bind_Ok_iff)
  have "keeps (doc_inv E s0 b c) ?first" by (intro keeps_intro)
  from keepsD [OF this inv u(1)] have grows: "doc_ok E s" "doc_grows s0 s" "doc_ok E u" "doc_grows s0 u" using inv by (simp_all add: doc_inv_def)
  show ?thesis
  proof (cases out)
    case Loaded
    then have "try_protocol E L request winning peer SnapshotLoadV3 s = (Ok Loaded, u)" "u = t" using u by (auto split: if_splits)
    then show ?thesis using try_protocol_loaded grows by (metis loaded_from_def)
  next
    case Not_loaded
    then show ?thesis using try_protocol_loaded [of E L request winning peer DocumentLoadV3 u t] u(2) grows by (auto simp: loaded_from_def)
  next
    case (Bind_failed h)
    then show ?thesis using u(2) by simp
  qed
qed

lemma load_loop_loaded:
  assumes "doc_inv E s0 b c s" "load_loop E L request winning peers failures s = (Ok (True, fs), t)"
  shows "\<exists>peer\<in>set peers. loaded_from E L request winning s0 peer t"
  using assms
proof (induction peers arbitrary: s failures)
  case (Cons peer peers)
  obtain out u where u: "try_peer E L request winning peer s = (Ok out, u)" "(case out of Loaded \<Rightarrow> eff_return (True, failures)
     | Not_loaded \<Rightarrow> load_loop E L request winning peers failures
     | Bind_failed h \<Rightarrow> load_loop E L request winning peers (map_set (peerIdOf peer) h failures)) u = (Ok (True, fs), t)"
    using Cons.prems(2) by (auto simp: eff_bind_Ok_iff)
  have "doc_inv E s0 b c u" by (rule keepsD [OF inv_try_peer Cons.prems(1) u(1)])
  then show ?case using Cons.IH [of u] u try_peer_loaded [OF Cons.prems(1)] by (cases out) auto
qed simp

text \<open>
  Claim C24.  With the quorum gate on, a load that reports success rests on a hash that enough of the probed peers advertised: at least the threshold Q of the K peers probed, or the only
  peer there is where a single peer is allowed.  The document comes from one of these peers, in a response that opens, whose frontier has that hash, and every CID of the response
  is known afterwards.
\<close>

theorem load_success_quorum_backed:
  assumes "doc_ok E s" "load E L preferred s = (Ok True, t)" "is_enabled (quorumConfig L)" "sign_request E = Ok req"
    and "peers = dedupePeersByPeerId (move_preferred preferred (shuffledPeers L)) peerIdOf"
    and "k = probe_count (load_quorum_config (quorumConfig L)) (length peers)"
  shows "\<exists>h peer p resp m u. peer \<in> set (advertisers (\<lambda>q. Ok (raceTipAdvertiseProbe E L s (serializeLoadRequest L req) q)) (TipHash h) (take k peers))
    \<and> (k = 1 \<longrightarrow> allowSinglePeer (quorumConfig L) = Some True)
    \<and> (k \<noteq> 1 \<longrightarrow> threshold (load_quorum_config (quorumConfig L)) k
        \<le> length (advertisers (\<lambda>q. Ok (raceTipAdvertiseProbe E L s (serializeLoadRequest L req) q)) (TipHash h) (take k peers)))
    \<and> answer L peer p (serializeLoadRequest L req) = Some resp \<and> doc_grows s u \<and> open_response E (keychain u) resp = Ok (Some m)
    \<and> tipsHash (sha256 L) (message_frontier m) = h \<and> set (expected_cids m) \<subseteq> set (hashes t)"
proof -
  let ?request = "serializeLoadRequest L req"
  let ?probe = "\<lambda>q. Ok (raceTipAdvertiseProbe E L s ?request q)"
  let ?c = "load_quorum_config (quorumConfig L)"
  have enabled: "enabled (quorumConfig L) \<noteq> Some False" using assms(3) by (simp add: is_enabled_def)
  then have on: "is_enabled ?c" by (auto simp: load_quorum_config_def is_enabled_def split: option.splits)
  have ne: "shuffledPeers L \<noteq> []" using assms(2) by (auto simp: load_def)
  then have "move_preferred preferred (shuffledPeers L) \<noteq> []" using move_preferred_mset by (metis mset_zero_iff)
  then have peers: "peers \<noteq> []" unfolding assms(5) using dedupe_one_entry_per_peer [of "move_preferred preferred (shuffledPeers L)" peerIdOf] by auto
  have not_skipped: "quorum_round E L s ?request peers \<noteq> Ok Skipped"
    using quorum_gate_not_bypassed [of peers peerIdOf ?probe _ ?c] on peers by (simp add: quorum_round_def)
  obtain ps hex where ps: "quorum_round E L s ?request peers = Ok (Narrowed ps hex)"
    and run: "load_from E L ?request (Some hex) ps s = (Ok True, t)"
    using assms(2,4) ne not_skipped unfolding assms(5) load_def
    by (auto simp: Let_def split: sum.splits orchestrator_result.splits if_splits)
  obtain h where h: "hex = tipsHashToHex h" "ps = advertisers ?probe (TipHash h) (take k peers)"
    "k = 1 \<longrightarrow> single_allowed ?c" "k \<noteq> 1 \<longrightarrow> threshold ?c k \<le> length ps"
    using narrowed_cohort [OF _ ps [unfolded quorum_round_def] assms(6)] dedupe_one_entry_per_peer [of _ peerIdOf] unfolding assms(5) by blast
  obtain fs where "load_loop E L ?request (Some hex) ps [] s = (Ok (True, fs), t)"
    using run by (auto simp: load_from_def eff_bind_Ok_iff exhausted_def split: if_splits)
  then obtain peer where peer: "peer \<in> set ps" "loaded_from E L ?request (Some hex) s peer t"
    using load_loop_loaded [OF inv_refl [OF assms(1)]] by blast
  then obtain p resp u where u: "answer L peer p ?request = Some resp" "doc_ok E u" "doc_grows s u"
    "sendLoadRequestAndSync E (sha256 L) (Some hex) resp u = (Ok True, t)" by (auto simp: loaded_from_def)
  from u(2,4) obtain m where "open_response E (keychain u) resp = Ok (Some m)"
    "tipsHashToHex (tipsHash (sha256 L) (message_frontier m)) = hex" "set (expected_cids m) \<subseteq> set (hashes t)"
    by (cases rule: load_one_cases) (auto simp: agreed_payload_def)
  moreover have "k = 1 \<longrightarrow> allowSinglePeer (quorumConfig L) = Some True"
    using h(3) by (auto simp: single_allowed_def load_quorum_config_def split: option.splits)
  ultimately show ?thesis using h peer(1) u(1,3) unfolding h(1) tipsHashToHex_inj by blast
qed

section \<open>After the quorum agreed\<close>

lemma nothrow_try_protocol [nothrow_intro]: "never_throws (try_protocol E L request winning peer p)"
  unfolding never_throws_def try_protocol_def by (auto split: option.splits prod.splits)

lemma nothrow_try_peer: "never_throws (try_peer E L request winning peer)"
  unfolding try_peer_def by (intro nothrow_intro) (auto split: load_outcome.splits intro: nothrow_intro)

lemma load_loop_returns:
  assumes "map_ok failures"
  shows "\<exists>b fs t. load_loop E L request winning peers failures s = (Ok (b, fs), t) \<and> map_ok fs
    \<and> fst ` set fs \<subseteq> fst ` set failures \<union> peerIdOf ` set peers"
  using assms
proof (induction peers arbitrary: failures s)
  case (Cons peer peers)
  obtain out u where u: "try_peer E L request winning peer s = (Ok out, u)"
    using nothrow_try_peer unfolding never_throws_def by blast
  have keys: "fst ` set (map_set (peerIdOf peer) h failures) = insert (peerIdOf peer) (fst ` set failures)" for h
    by (simp add: map_set_def dom_update)
  show ?case
  proof (cases out)
    case Loaded
    then show ?thesis using u Cons.prems by (auto simp: eff_bind_def)
  next
    case Not_loaded
    then have "load_loop E L request winning (peer # peers) failures s = load_loop E L request winning peers failures u"
      using u by (simp add: eff_bind_def)
    then show ?thesis using Cons.IH [OF Cons.prems, of u] unfolding list.set image_insert by (metis Un_insert_right subset_insertI2)
  next
    case (Bind_failed h)
    then have "load_loop E L request winning (peer # peers) failures s = load_loop E L request winning peers (map_set (peerIdOf peer) h failures) u"
      using u by (simp add: eff_bind_def)
    then show ?thesis using Cons.IH [OF map_ok_set [OF Cons.prems], of "peerIdOf peer" h u] unfolding keys list.set image_insert
      by (metis Un_insert_left Un_insert_right)
  qed
qed (auto simp: eff_return_def)

lemma all_failed_iff:
  assumes "map_ok fs" "distinct (map f ps)" "fst ` set fs \<subseteq> f ` set ps"
  shows "length fs = length ps \<longleftrightarrow> fst ` set fs = f ` set ps"
proof -
  have "card (fst ` set fs) = length fs" "card (f ` set ps) = length ps"
    using assms(1,2) distinct_card [of "map fst fs"] distinct_card [of "map f ps"] by (simp_all add: map_ok_def)
  then show ?thesis using assms(3) by (metis card_subset_eq finite_imageI finite_set)
qed

lemma load_after_quorum_run:
  assumes "shuffledPeers L \<noteq> []" "sign_request E = Ok req"
    and "quorum_round E L s (serializeLoadRequest L req) (dedupePeersByPeerId (move_preferred preferred (shuffledPeers L)) peerIdOf) = Ok (Narrowed ps hex)"
    and "load E L preferred s = (r, t)"
  shows "r = Ok True \<or> (\<exists>why failures. r = Err (Quorum_refused (quorum_failure (doc_env.documentPath E) why 0 0 [(hex, 0)]) failures)
      \<and> fst ` set failures \<subseteq> peerIdOf ` set ps
      \<and> why = (if fst ` set failures = peerIdOf ` set ps then Bind_check_failed_all_agreeing_peers else Agreeing_peers_unreachable))"
proof -
  let ?peers = "dedupePeersByPeerId (move_preferred preferred (shuffledPeers L)) peerIdOf"
  have d: "distinct (map peerIdOf ?peers)" using dedupe_one_entry_per_peer [of _ peerIdOf] by blast
  obtain h where "ps = advertisers (\<lambda>q. Ok (raceTipAdvertiseProbe E L s (serializeLoadRequest L req) q)) (TipHash h)
      (take (probe_count (load_quorum_config (quorumConfig L)) (length ?peers)) ?peers)" "ps \<noteq> []"
    using narrowed_cohort [OF d assms(3) [unfolded quorum_round_def] refl] by blast
  then have ps: "distinct (map peerIdOf ps)" "ps \<noteq> []"
    using d by (auto simp: advertisers_def take_map [symmetric] intro: distinct_map_filter distinct_take)
  obtain b fs u where loop: "load_loop E L (serializeLoadRequest L req) (Some hex) ps [] s = (Ok (b, fs), u)" "map_ok fs" "fst ` set fs \<subseteq> peerIdOf ` set ps"
    using load_loop_returns [OF map_ok_Nil, of E L "serializeLoadRequest L req" "Some hex" ps s] by auto
  have "load E L preferred s = load_from E L (serializeLoadRequest L req) (Some hex) ps s"
    using assms(1-3) by (simp add: load_def Let_def)
  then have r: "r = Ok True \<or> r = exhausted E (Some hex) (length ps) fs" using assms(4) loop(1) by (auto simp: load_from_def eff_bind_def split: if_splits)
  have "exhausted E (Some hex) (length ps) fs = Err (Quorum_refused (quorum_failure (doc_env.documentPath E)
      (if fst ` set fs = peerIdOf ` set ps then Bind_check_failed_all_agreeing_peers else Agreeing_peers_unreachable) 0 0 [(hex, 0)]) fs)"
    using all_failed_iff [OF loop(2) ps(1) loop(3)] ps(2) by (simp add: exhausted_def)
  then show ?thesis using r loop(3) by blast
qed

text \<open>
  Once the probed peers agreed on a hash, \<^verbatim>\<open>load\<close> never returns false, the answer from which \<^verbatim>\<open>open\<close> concludes that the document is new: it returns true, or throws a
  quorum failure.  The failure names exactly the cohort peers that failed the binding, and it says that all agreeing peers failed the binding exactly if every one of them did.
\<close>

theorem load_never_new_after_quorum:
  assumes "shuffledPeers L \<noteq> []" "sign_request E = Ok req"
    and "quorum_round E L s (serializeLoadRequest L req) (dedupePeersByPeerId (move_preferred preferred (shuffledPeers L)) peerIdOf) = Ok (Narrowed ps hex)"
    and "load E L preferred s = (r, t)"
  shows "r = Ok True \<or> (\<exists>why failures. r = Err (Quorum_refused (quorum_failure (doc_env.documentPath E) why 0 0 [(hex, 0)]) failures)
      \<and> fst ` set failures \<subseteq> peerIdOf ` set ps
      \<and> why = (if fst ` set failures = peerIdOf ` set ps then Bind_check_failed_all_agreeing_peers else Agreeing_peers_unreachable))"
  by (rule load_after_quorum_run [OF assms])

section \<open>Serving\<close>

text \<open>The requester holds a key of the readers or writers ACL, as far as signatures tell.\<close>

definition member_request where
  "member_request E s req \<longleftrightarrow> (\<exists>pk sig. pk \<in> set (aclUsers E (readers s)) \<union> set (aclUsers E (writers s)) \<and> base64_decode E (lr_signature req) = Some sig
     \<and> auth_verify E (text_encode (doc_env.documentPath E)) pk sig)"

lemma seal_run:
  assumes "seal_with_current E content s = (r, t)"
  shows "(\<exists>n. t = s\<lparr>ticks := n\<rparr>) \<and> (\<forall>b. r = Ok b \<longrightarrow> (\<exists>keyID key k nonce data. kcCurrent E (keychain s) = Ok (keyID, Some key)
     \<and> auth_encrypt E k content key = (Some nonce, data) \<and> b = keyID @ nonce @ data))"
proof -
  have same: "\<exists>n. s = s\<lparr>ticks := n\<rparr>" by (metis swarm_doc.surjective swarm_doc.update_convs(29))
  show ?thesis
  proof (cases "kcCurrent E (keychain s)")
    case (Inl e)
    then show ?thesis using assms same by (auto simp: seal_with_current_def)
  next
    case (Inr cur)
    obtain keyID key where cur: "cur = (keyID, key)" by fastforce
    show ?thesis
    proof (cases key)
      case None
      then show ?thesis using assms same Inr cur by (auto simp: seal_with_current_def)
    next
      case (Some k)
      obtain nonce data where "auth_encrypt E (ticks s) content k = (nonce, data)" by fastforce
      then show ?thesis using assms Inr cur Some by (cases nonce) (auto simp: seal_with_current_def tick_def eff_bind_def)
    qed
  qed
qed

lemma respond_run:
  assumes "respond E m s = (r, t)"
  shows "(\<exists>n. t = s\<lparr>ticks := n\<rparr>) \<and> (\<forall>b. r = Ok b \<longrightarrow> (\<exists>keyID key k nonce data sig. kcCurrent E (keychain s) = Ok (keyID, Some key)
     \<and> (enableSigning E \<longrightarrow> signAsWriterUnconditional E m s = (Ok sig, s)) \<and> (\<not> enableSigning E \<longrightarrow> sig = [])
     \<and> auth_encrypt E k (serializeSyncMessage E (m\<lparr>m_signature := Some sig\<rparr>)) key = (Some nonce, data) \<and> b = keyID @ nonce @ data))"
proof -
  have same: "\<exists>n. s = s\<lparr>ticks := n\<rparr>" by (metis swarm_doc.surjective swarm_doc.update_convs(29))
  consider e where "r = Err e" "t = s" | sig where "signAsWriter E m s = (Ok sig, s)" "seal_with_current E (serializeSyncMessage E (m\<lparr>m_signature := Some sig\<rparr>)) s = (r, t)"
    using assms signAsWriter_state [of E m s] by (auto simp: respond_def eff_bind_eq)
  then show ?thesis
  proof cases
    case 1
    then show ?thesis using same by simp
  next
    case 2
    have "(enableSigning E \<longrightarrow> signAsWriterUnconditional E m s = (Ok sig, s)) \<and> (\<not> enableSigning E \<longrightarrow> sig = [])"
      using 2(1) by (auto simp: signAsWriter_def)
    then show ?thesis using seal_run [OF 2(2)] by blast
  qed
qed

lemma eff_catch_Ok: "eff_catch m (\<lambda>_. eff_return x) s = (r, t) \<longleftrightarrow> (\<exists>e. m s = (Err e, t) \<and> r = Ok x) \<or> (\<exists>y. m s = (Ok y, t) \<and> r = Ok y)"
  by (auto simp: eff_catch_def split: prod.splits sum.splits)

lemmas handler_defs = handleLoadRequestData_def handleSnapshotLoadRequestData_def handleTipAdvertiseRequestData_def

lemma request_authorized_member: "request_authorized E s req \<Longrightarrow> lr_documentId req = doc_env.documentPath E \<Longrightarrow> enableSigning E \<Longrightarrow> member_request E s req"
  by (auto simp: request_authorized_def member_request_def any_verifies_def list_ex_iff split: if_splits option.splits)


section \<open>A probe and then a load of an honest peer\<close>

text \<open>The loader holds the key the responder encrypts with, and decryption undoes encryption.\<close>

definition reads_from where
  "reads_from E kc E' kc' \<longleftrightarrow> (\<forall>keyID key. kcCurrent E' kc' = Ok (keyID, Some key) \<longrightarrow> length keyID = keyIDLength E
     \<and> (\<exists>key'. kcGetKey E kc keyID = Some key' \<and> (\<forall>k b nonce data. auth_encrypt E' k b key = (Some nonce, data)
         \<longrightarrow> length nonce = nonceLength E \<and> data \<noteq> [] \<and> auth_decrypt E data key' nonce = Some b)))"

text \<open>The message as the responder signs it.\<close>

definition signed_form where
  "signed_form E m s = (case signAsWriter E m s of (Inr sig, _) \<Rightarrow> m\<lparr>m_signature := Some sig\<rparr> | _ \<Rightarrow> m)"

lemma respond_opens:
  assumes run: "respond E' m r = (Ok b, r')" and reads: "reads_from E kc E' (keychain r)"
    and codec: "deserializeSyncMessage E (serializeSyncMessage E' (signed_form E' m r)) = Ok (signed_form E' m r)"
    and path: "m_documentId m = doc_env.documentPath E"
  shows "open_response E kc b = Ok (Some (signed_form E' m r)) \<and> keyIDLength E + nonceLength E < length b"
proof -
  obtain sig where sig: "signAsWriter E' m r = (Ok sig, r)" "seal_with_current E' (serializeSyncMessage E' (m\<lparr>m_signature := Some sig\<rparr>)) r = (Ok b, r')"
    using run signAsWriter_state [of E' m r] by (auto simp: respond_def eff_bind_eq)
  have m: "signed_form E' m r = m\<lparr>m_signature := Some sig\<rparr>" by (simp add: signed_form_def sig(1))
  obtain keyID key k nonce data where seal: "kcCurrent E' (keychain r) = Ok (keyID, Some key)"
    "auth_encrypt E' k (serializeSyncMessage E' (signed_form E' m r)) key = (Some nonce, data)" "b = keyID @ nonce @ data"
    using seal_run [OF sig(2)] unfolding m by blast
  obtain key' where "length keyID = keyIDLength E" "kcGetKey E kc keyID = Some key'" "length nonce = nonceLength E" "data \<noteq> []"
    "auth_decrypt E data key' nonce = Some (serializeSyncMessage E' (signed_form E' m r))"
    using reads seal(1,2) unfolding reads_from_def by blast
  then show ?thesis using codec path seal(3) by (auto simp: open_response_def m)
qed

definition advertisement_of where
  "advertisement_of E sha s = (empty_message (doc_env.documentPath E))\<lparr>m_tipsHash := Some (tipsHash sha (servedFrontier s))\<rparr>"

lemma load_message_frontier: "stored_ok E s \<Longrightarrow> message_frontier (load_message E s keys) = servedFrontier s"
  by (cases "lastSyncMessage s"; cases "latestSnapshot s")
    (simp_all add: load_message_def message_frontier_def servedFrontier_def createSyncMessage_def stored_ok_def empty_message_def Let_def)

lemma load_message_path: "stored_ok E s \<Longrightarrow> m_documentId (load_message E s keys) = doc_env.documentPath E"
  by (cases "lastSyncMessage s") (simp_all add: load_message_def createSyncMessage_def stored_ok_def empty_message_def Let_def)

lemma signed_form_fields:
  "message_frontier (signed_form E m s) = message_frontier m" "m_tips (signed_form E m s) = m_tips m" "m_tipsHash (signed_form E m s) = m_tipsHash m"
  by (simp_all add: signed_form_def message_frontier_def split: prod.splits sum.splits)

lemma honest_advertisement:
  assumes tip: "handleTipAdvertiseRequestData E' sha req r = (Ok a, r')" "a \<noteq> []"
    and same: "doc_env.documentPath E' = doc_env.documentPath E" and reads: "reads_from E (keychain s) E' (keychain r)"
    and codec: "deserializeSyncMessage E (serializeSyncMessage E' (signed_form E' (advertisement_of E' sha r) r)) = Ok (signed_form E' (advertisement_of E' sha r) r)"
    and ok: "doc_ok E s" "response_ok E s (signed_form E' (advertisement_of E' sha r) r)"
    and sizes: "length a \<le> MAX_TIP_ADVERTISE_RESPONSE_SIZE" "0 < keyIDLength E" "length (tipsHash sha (servedFrontier r)) = TIPS_HASH_LENGTH"
  shows "probe_answer E s a = TipHash (tipsHash sha (servedFrontier r)) \<and> (\<exists>n. r' = r\<lparr>ticks := n\<rparr>)"
proof -
  have run: "respond E' (advertisement_of E' sha r) r = (Ok a, r')"
    using tip by (auto simp: handleTipAdvertiseRequestData_def eff_catch_Ok advertisement_of_def split: if_splits)
  have "open_response E (keychain s) a = Ok (Some (signed_form E' (advertisement_of E' sha r) r))" "1 < length a"
    using respond_opens [OF run reads codec] same sizes(2) by (auto simp: advertisement_of_def empty_message_def)
  moreover obtain t where "getWriterKeys E s = (Ok (getWriters E s), t)" using getWriterKeys_run [OF ok(1)] by blast
  ultimately show ?thesis using ok(2) sizes respond_run [OF run] tip(2)
    by (auto simp: probe_answer_def response_ok_def signed_form_fields advertisement_of_def)
qed

text \<open>
  A probe and a load of the same honest peer agree: where loader and responder share the document key and the message format, the loader counts the responder's advertisement as a vote
  for a hash \<open>h\<close>, and the load response of the same document then passes the binding to \<open>h\<close>, for every document state the responder can have reached.  So an honest peer
  is never recorded as one that voted for one tip set and served another.
\<close>

theorem load_honest_peer_binds:
  assumes tip: "handleTipAdvertiseRequestData E' sha req (reached E' ops) = (Ok a, r)" "a \<noteq> []"
    and served: "handleLoadRequestData E' req r = (Ok b, r')" "b \<noteq> []"
    and keys: "keychain_for_visibility E' r = Ok keys"
    and same: "doc_env.documentPath E' = doc_env.documentPath E" "reads_from E (keychain s) E' (keychain r)"
    and codec: "\<forall>m\<in>{signed_form E' (advertisement_of E' sha (reached E' ops)) (reached E' ops), signed_form E' (load_message E' r keys) r}.
        deserializeSyncMessage E (serializeSyncMessage E' m) = Ok m \<and> response_ok E s m"
    and sizes: "doc_ok E s" "length a \<le> MAX_TIP_ADVERTISE_RESPONSE_SIZE" "0 < keyIDLength E" "\<forall>x. length (sha x) = TIPS_HASH_LENGTH"
  shows "\<exists>h m. probe_answer E s a = TipHash h \<and> open_response E (keychain s) b = Ok (Some m) \<and> response_ok E s m \<and> bind_check sha (tipsHashToHex h) m = Ok ()"
proof -
  let ?r = "reached E' ops"
  obtain n where r: "r = ?r\<lparr>ticks := n\<rparr>"
    using tip respond_run [of E' "advertisement_of E' sha ?r" ?r]
    by (auto simp: handleTipAdvertiseRequestData_def eff_catch_Ok advertisement_of_def split: if_splits)
  have stored: "stored_ok E' r" "servedFrontier r = servedFrontier ?r" "keychain r = keychain ?r"
    using stored_reached [of E' ops] by (simp_all add: r stored_ok_def servedFrontier_def)
  have vote: "probe_answer E s a = TipHash (tipsHash sha (servedFrontier r))"
    using honest_advertisement [OF tip same(1), of s] same(2) codec sizes unfolding stored(2,3) by (auto simp: tipsHash_def)
  have "respond E' (load_message E' r keys) r = (Ok b, r')"
    using served keys by (auto simp: handleLoadRequestData_def eff_catch_Ok split: if_splits)
  then have "open_response E (keychain s) b = Ok (Some (signed_form E' (load_message E' r keys) r))"
    using respond_opens [OF _ same(2)] codec load_message_path [OF stored(1)] same(1) by auto
  moreover have "bind_check sha (tipsHashToHex (tipsHash sha (servedFrontier r))) (signed_form E' (load_message E' r keys) r) = Ok ()"
    unfolding bind_check_Ok signed_form_fields load_message_frontier [OF stored(1)] by (simp add: load_message_def Let_def)
  ultimately show ?thesis using vote codec by blast
qed

section \<open>Two findings\<close>

text \<open>
  A first load under the quorum discards the snapshot of the response: while no writer is known, what the load does and leaves does not depend on the state the snapshot carries.
  A responder that has pruned the changes its snapshot covers serves them nowhere else, so such a load reports success and lacks them.
\<close>

theorem load_first_discards_snapshot:
  assumes "getWriters E s = []" "m_snapshot m = Some sn"
  shows "sync_bound E sha hex (m\<lparr>m_snapshot := Some (sn\<lparr>sn_state := old\<rparr>)\<rparr>) s = sync_bound E sha hex m s"
proof -
  let ?m = "m\<lparr>m_snapshot := Some (sn\<lparr>sn_state := old\<rparr>)\<rparr>"
  have "bind_check sha hex ?m = bind_check sha hex m" using assms(2) by (simp add: bind_check_def message_frontier_def Let_def)
  moreover have "expected_cids ?m = expected_cids m" by (simp add: expected_cids_def)
  moreover have "bound_message E s ?m = bound_message E s m" using assms(1) by (simp add: bound_message_def getWriters_def)
  ultimately show ?thesis by (cases "bind_check sha hex m") (simp_all add: sync_bound_def Let_def cong: if_cong)
qed

text \<open>
  A block that cannot be retrieved is recorded like a peer that served another tip set: the response of an honest peer fails the binding where one CID of it is not available.
\<close>

lemma load_unavailable_block_blames_peer:
  assumes "doc_ok E s" "open_response E (keychain s) resp = Ok (Some m)" "response_ok E s m" "bind_check sha hex m = Ok ()" "m_changes m \<noteq> None"
    and "cid \<in> set (expected_cids m)" "\<not> prefetchable E s cid"
  shows "\<exists>u. sendLoadRequestAndSync E sha (Some hex) resp s = (Err (Bind_check_failed ''(prefetch-missing-blocks)''), u)"
proof -
  obtain u where u: "same_doc E s u" "sendLoadRequestAndSync E sha (Some hex) resp s = sync_bound E sha hex m u"
    using load_one_run [OF assms(1-3), of sha "Some hex"] by auto
  have "\<not> prefetchable E u cid" using assms(7) same_doc_fields [OF u(1)] by (simp add: prefetchable_def)
  then have "filter (\<lambda>cid. \<not> prefetchable E u cid) (expected_cids m) \<noteq> []" using assms(6) by (auto simp: filter_empty_conv)
  moreover have "m_changes (bound_message E u m) \<noteq> None" using assms(5) by (auto simp: bound_message_def stripInlineChanges_def)
  ultimately show ?thesis using assms(4) u(2) by (simp add: sync_bound_def Let_def)
qed

end
