(* ===== verification/DocLoadSample.thy ===== *)
theory DocLoadSample
  imports DocLoadCorrect
begin

text \<open>A swarm of two peers that serve a document with one change, and a loader that has no state yet; the witnesses of the load properties.\<close>

definition pad :: "bytes \<Rightarrow> bytes" where
  "pad b = take 32 (b @ replicate 32 0)"

lemma length_pad [simp]: "length (pad b) = 32"
  by (simp add: pad_def)

definition sample_advert :: "(string, string) sync_message" where
  "sample_advert = (empty_message ''/doc'')\<lparr>m_tipsHash := Some (tipsHash pad [''R'']), m_signature := Some []\<rparr>"

definition sample_served :: "(string, string) sync_message" where
  "sample_served = (empty_message ''/doc'')\<lparr>m_changeId := Some ''R'', m_changes := Some (leaf ''x''), m_keychainChanges := Some ''current'',
     m_tips := Some [''R''], m_signature := Some []\<rparr>"

definition sample_loader :: sample_env where
  "sample_loader = (sample_env ''a'' defaultCompactionConfig (\<lambda>_. True))\<lparr>enableSigning := False,
     auth_encrypt := (\<lambda>t b k. (Some [of_nat t], b @ [9])), auth_decrypt := (\<lambda>d k n. Some (butlast d)), \<comment> \<open>a tag of one byte\<close>
     serializeSyncMessage := (\<lambda>m. if m_tipsHash m \<noteq> None then [1] else [2]),
     deserializeSyncMessage := (\<lambda>b. if b = [1] then Ok sample_advert else Ok sample_served),
     fetchRemote := (\<lambda>c. if c = ''R'' then Some ([7, 0] @ text_encode ''x'' @ [9]) else None)\<rparr>"

definition sample_net :: load_env where
  "sample_net = \<lparr>sha256 = pad, serializeLoadRequest = (\<lambda>r. text_encode (lr_documentId r)), connectedPeers = [''/p2p/a'', ''/p2p/b''], randomIndex = id,
     answer = (\<lambda>peer p req. if p = TipAdvertiseV1 then Some [7, 0, 1, 9] else if peer = ''/p2p/a'' then Some [7, 0] else Some [7, 0, 2, 9]),
     inTime = (\<lambda>_. True), quorumConfig = \<lparr>enabled = None, cfg_k = None, cfg_q = None, timeoutMs = None, allowSinglePeer = None\<rparr>\<rparr>"

lemmas load_sample_defs = sample_loader_def sample_env_def sample_net_def sample_advert_def sample_served_def empty_message_def

lemma doc_ok_new: "doc_ok E (new_doc E)"
  by (simp add: doc_ok_def new_doc_def snapshot_count_def)

lemma sample_frontier: "message_frontier sample_served = [''R'']"
  by (simp add: message_frontier_def sample_served_def empty_message_def computeServedFrontier_def leaf_def set_add_def)

lemma sample_cids: "expected_cids sample_served = [''R'']"
  by (simp add: expected_cids_def collectAllCidsInTree_def sample_served_def empty_message_def leaf_def set_add_def)

lemma unsigned: "\<not> enableSigning sample_loader"
  by (simp add: sample_loader_def sample_env_def)

lemma loader_fields:
  "doc_env.documentPath sample_loader = ''/doc''" "kcCurrent sample_loader kc = Ok ([7], Some ())" "kcCurrentKeyChange sample_loader kc = Ok ''current''"
  "auth_encrypt sample_loader k b key = (Some [of_nat k], b @ [9])" "serializeSyncMessage sample_loader m = (if m_tipsHash m \<noteq> None then [1] else [2])"
  by (simp_all add: sample_loader_def sample_env_def)

lemma sample_open: "open_response sample_loader kc [7, 0, 2, 9] = Ok (Some sample_served)" "open_response sample_loader kc [7, 0, 1, 9] = Ok (Some sample_advert)"
  by (simp_all add: open_response_def load_sample_defs)

lemma sample_bound: "bind_check pad (tipsHashToHex (tipsHash pad [''R''])) sample_served = Ok ()"
  by (simp add: bind_check_Ok sample_frontier) (simp add: sample_served_def)

abbreviation fresh_doc :: "string list option \<Rightarrow> sample_doc" where
  "fresh_doc k \<equiv> (new_doc sample_loader)\<lparr>cachedWriterKeys := k\<rparr>"

lemma fresh_doc_None: "fresh_doc None = new_doc sample_loader"
  by (simp add: new_doc_def)

lemma decode_x: "text_decode [120] = ''x''"
  by code_simp

lemma sample_sync:
  "\<exists>t. sync sample_loader (bound_message sample_loader (fresh_doc k) sample_served) False (fresh_doc k) = (Ok True, t) \<and> hashes t = [''R''] \<and> document t = [''x'']"
  by (simp add: sync_def authenticate_def bound_message_def load_sample_defs stripInlineChanges_def leaf_def merge_keychain_def applyACLFromTree_def
      syncDocumentChanges_def mergeRemoteSyncTree_def finish_sync_def apply_fetched_def getBlock_def decryptBlock_def new_doc_def eff_bind_def eff_catch_def
      add_hash_def count_document_change_def trackTip_def fireRemoteUpdateHandlers_def fire_handlers_def refreshLastSyncMessageFromSync_def maybeCompact_def
      defaultCompactionConfig_def eff_when_def map_get_def map_set_def set_add_def truthy_def createSyncMessage_def Let_def text_encode_def decode_x)

lemma sample_load_one:
  "\<exists>t. sendLoadRequestAndSync sample_loader pad (Some (tipsHashToHex (tipsHash pad [''R'']))) [7, 0, 2, 9] (fresh_doc k) = (Ok True, t)"
proof -
  obtain t where t: "sync sample_loader (bound_message sample_loader (fresh_doc k) sample_served) False (fresh_doc k) = (Ok True, t)" "hashes t = [''R'']"
    using sample_sync by blast
  have "check_response sample_loader sample_served (fresh_doc k) = (Ok True, fresh_doc k)"
    by (simp add: check_response_def unsigned)
  moreover have "m_changes (bound_message sample_loader (fresh_doc k) sample_served) \<noteq> None"
    by (simp add: bound_message_def sample_served_def stripInlineChanges_def)
  moreover have "prefetchable sample_loader (fresh_doc k) ''R''" by (simp add: prefetchable_def sample_loader_def sample_env_def)
  ultimately show ?thesis
    using t by (simp add: sendLoadRequestAndSync_def sync_bound_def sample_open sample_bound sample_cids Let_def eff_bind_def)
qed


section \<open>The quorum\<close>

abbreviation sample_request :: bytes where
  "sample_request \<equiv> text_encode ''/doc''"

abbreviation sample_hash :: string where
  "sample_hash \<equiv> tipsHashToHex (tipsHash pad [''R''])"

lemma sample_peers: "peerIdOf ''/p2p/a'' = ''a''" "peerIdOf ''/p2p/b'' = ''b''"
  by code_simp+

lemma sample_order: "shuffledPeers sample_net = [''/p2p/a'', ''/p2p/b'']"
  by (simp add: shuffledPeers_def shuffleArray_def sample_net_def Let_def)

lemma sample_quorum_peers: "dedupePeersByPeerId (move_preferred None (shuffledPeers sample_net)) peerIdOf = [''/p2p/a'', ''/p2p/b'']"
  by (simp add: sample_order move_preferred_def dedupePeersByPeerId_def sample_peers set_add_def)

lemma sample_signed: "sign_request sample_loader = Ok \<lparr>lr_documentId = ''/doc'', lr_signature = []\<rparr>"
  "serializeLoadRequest sample_net \<lparr>lr_documentId = ''/doc'', lr_signature = []\<rparr> = sample_request"
  by (simp_all add: sign_request_def sample_loader_def sample_env_def sample_net_def)

lemma sample_vote: "raceTipAdvertiseProbe sample_loader sample_net (new_doc sample_loader) sample_request peer = TipHash (tipsHash pad [''R''])"
proof -
  have "probe_answer sample_loader (new_doc sample_loader) [7, 0, 1, 9] = TipHash (tipsHash pad [''R''])"
    by (simp add: probe_answer_def sample_open MAX_TIP_ADVERTISE_RESPONSE_SIZE_def)
      (simp add: sample_loader_def sample_env_def sample_advert_def tipsHash_def TIPS_HASH_LENGTH_def)
  then show ?thesis by (simp add: raceTipAdvertiseProbe_def probeTipAdvertise_def sample_net_def)
qed

lemma sample_config: "load_quorum_config (quorumConfig sample_net)
    = \<lparr>enabled = Some True, cfg_k = Some (Fin 3), cfg_q = None, timeoutMs = Some (Fin 5000), allowSinglePeer = Some False\<rparr>"
  by (simp add: load_quorum_config_def sample_net_def)

lemma sample_config_facts:
  "is_enabled (load_quorum_config (quorumConfig sample_net))" "valid_cfg (load_quorum_config (quorumConfig sample_net))"
  "probe_count (load_quorum_config (quorumConfig sample_net)) (Suc (Suc 0)) = 2" "threshold (load_quorum_config (quorumConfig sample_net)) 2 = 2"
  by (simp_all add: sample_config is_enabled_def valid_cfg_def validateLoadQuorumConfig_def checkPositiveInt_def
      checkBoundedPositiveInt_def jsnum_defs probe_count_def threshold_def effectiveK_def effectiveQ_def defaultQuorumQ_def LOAD_QUORUM_TIMEOUT_MS_MAX_def)

lemma sample_hash_fresh: "sample_hash \<noteq> ''unknown-doc''" "tipsHashToHex (tipsHash pad []) \<noteq> sample_hash"
  by code_simp+

lemma sample_agreed: "quorum_round sample_loader sample_net (new_doc sample_loader) sample_request [''/p2p/a'', ''/p2p/b''] = Ok (Narrowed [''/p2p/a'', ''/p2p/b''] sample_hash)"
  by (simp add: quorum_round_def run_unfold sample_config_facts probe_round_def contained_probe_def sample_vote sample_peers Let_def
      decideLoadQuorum_def tally_key_def jsnum_defs q_num_def narrow_to_agreeing_def eligible_buckets_def map_get_def map_set_def UNKNOWN_DOC_TALLY_KEY_def sample_hash_fresh)

lemma sample_round:
  "quorum_round sample_loader sample_net (new_doc sample_loader) (serializeLoadRequest sample_net \<lparr>lr_documentId = ''/doc'', lr_signature = []\<rparr>)
     (dedupePeersByPeerId (move_preferred None (shuffledPeers sample_net)) peerIdOf) = Ok (Narrowed ([''/p2p/a''] @ ''/p2p/b'' # []) sample_hash)"
  using sample_agreed by (simp add: sample_quorum_peers sample_signed)

lemma sample_loads: "\<exists>t. try_peer sample_loader sample_net sample_request (Some sample_hash) ''/p2p/b'' (fresh_doc k) = (Ok Loaded, t)"
proof -
  obtain t where "sendLoadRequestAndSync sample_loader pad (Some sample_hash) [7, 0, 2, 9] (fresh_doc k) = (Ok True, t)" using sample_load_one by blast
  moreover have "\<not> cc_enabled (compactionConfig sample_loader)" by (simp add: sample_loader_def sample_env_def defaultCompactionConfig_def)
  ultimately show ?thesis by (simp add: try_peer_def try_protocol_def sample_net_def eff_bind_def outcome_of_def)
qed

lemma sample_declines: "serves_otherwise sample_loader sample_net request hex s ''/p2p/a''"
  by (auto simp: serves_otherwise_def sample_net_def open_response_def sample_loader_def sample_env_def)

theorem load_reaches_honest_peer_witness: "\<exists>t. load sample_loader sample_net None (new_doc sample_loader) = (Ok True, t)"
  by (rule load_reaches_honest_peer [OF doc_ok_new _ sample_signed(1) sample_round])
    (auto simp: sample_order sample_declines sample_signed(2) same_doc_def sample_loads)

lemma sample_load: "\<exists>t. load sample_loader sample_net None (new_doc sample_loader) = (Ok True, t)"
proof -
  obtain t where "try_peer sample_loader sample_net sample_request (Some sample_hash) ''/p2p/b'' (new_doc sample_loader) = (Ok Loaded, t)"
    using sample_loads [of None] unfolding fresh_doc_None by blast
  moreover have "try_peer sample_loader sample_net sample_request (Some sample_hash) ''/p2p/a'' (new_doc sample_loader) = (Ok Not_loaded, new_doc sample_loader)"
    by (simp add: try_peer_def try_protocol_def sample_net_def sendLoadRequestAndSync_def open_response_def sample_loader_def sample_env_def
        defaultCompactionConfig_def outcome_of_def eff_bind_def)
  ultimately show ?thesis using sample_round
    by (simp add: load_def load_from_def sample_order sample_signed Let_def eff_bind_def)
qed

theorem load_success_quorum_backed_witness:
  "\<exists>h t. load sample_loader sample_net None (new_doc sample_loader) = (Ok True, t) \<and> 2 \<le> length (advertisers (\<lambda>q. Ok (raceTipAdvertiseProbe sample_loader sample_net
     (new_doc sample_loader) sample_request q)) (TipHash h) [''/p2p/a'', ''/p2p/b''])"
proof -
  obtain t where t: "load sample_loader sample_net None (new_doc sample_loader) = (Ok True, t)" using sample_load by blast
  have "is_enabled (quorumConfig sample_net)" by (simp add: sample_net_def is_enabled_def)
  from load_success_quorum_backed [OF doc_ok_new t this sample_signed(1) refl refl] t show ?thesis
    unfolding sample_quorum_peers sample_signed(2) by (simp add: sample_config_facts) blast
qed

theorem load_never_new_after_quorum_witness: "fst (load sample_loader sample_net None (new_doc sample_loader)) \<noteq> Ok False"
proof -
  obtain r t where "load sample_loader sample_net None (new_doc sample_loader) = (r, t)" by fastforce
  with load_never_new_after_quorum [OF _ sample_signed(1) sample_round this] show ?thesis by (auto simp: sample_order)
qed

section \<open>Serving\<close>

definition sample_history :: "(string, string, string) doc_op list" where
  "sample_history = [Op_sync ((empty_message ''/doc'')\<lparr>m_changeId := Some ''R'', m_changes := Some (leaf ''x'')\<rparr>) False]"

definition sample_responder :: sample_doc where
  "sample_responder = reached sample_loader sample_history"

abbreviation sample_asks :: load_request where
  "sample_asks \<equiv> \<lparr>lr_documentId = ''/doc'', lr_signature = []\<rparr>"

lemma sample_responder_fields:
  "lastSyncMessage sample_responder = Some ((empty_message ''/doc'')\<lparr>m_changeId := Some ''R'', m_changes := Some (leaf ''x'')\<rparr>)"
  "latestSnapshot sample_responder = None" "ticks sample_responder = 0" "historyVisibility sample_responder = Current_only"
  by (simp_all add: sample_responder_def sample_history_def reached_def doc_step_def sync_def authenticate_def load_sample_defs leaf_def applyACLFromTree_def
      syncDocumentChanges_def mergeRemoteSyncTree_def finish_sync_def new_doc_def eff_bind_def
      add_hash_def count_document_change_def trackTip_def fireRemoteUpdateHandlers_def fire_handlers_def refreshLastSyncMessageFromSync_def maybeCompact_def commit_sent_def
      defaultCompactionConfig_def eff_when_def map_get_def map_set_def set_add_def truthy_def createSyncMessage_def is_acl_def Let_def)

lemma sample_served_frontier: "servedFrontier sample_responder = [''R'']" "servedFrontier (sample_responder\<lparr>ticks := n\<rparr>) = [''R'']"
  by (simp_all add: servedFrontier_def sample_responder_fields empty_message_def computeServedFrontier_def leaf_def set_add_def)

lemma sample_advertises:
  "handleTipAdvertiseRequestData sample_loader pad sample_asks sample_responder = (Ok [7, 0, 1, 9], sample_responder\<lparr>ticks := 1\<rparr>)"
  by (simp add: handleTipAdvertiseRequestData_def eff_catch_def eff_bind_def request_authorized_def unsigned respond_def signAsWriter_def seal_with_current_def
      tick_def sample_responder_fields sample_served_frontier loader_fields)

lemma sample_serves:
  "handleLoadRequestData sample_loader sample_asks (sample_responder\<lparr>ticks := 1\<rparr>) = (Ok [7, 1, 2, 9], sample_responder\<lparr>ticks := 2\<rparr>)"
  by (simp add: handleLoadRequestData_def eff_catch_def eff_bind_def request_authorized_def unsigned respond_def signAsWriter_def seal_with_current_def
      tick_def sample_responder_fields keychain_for_visibility_def load_message_def createSyncMessage_def Let_def loader_fields empty_message_def)


lemma sample_signed_forms:
  "signed_form sample_loader (advertisement_of sample_loader pad sample_responder) sample_responder = sample_advert"
  "signed_form sample_loader (load_message sample_loader (sample_responder\<lparr>ticks := 1\<rparr>) ''current'') (sample_responder\<lparr>ticks := 1\<rparr>) = sample_served"
  by (simp_all add: signed_form_def signAsWriter_def unsigned advertisement_of_def sample_served_frontier load_message_def createSyncMessage_def
      sample_responder_fields Let_def loader_fields sample_advert_def sample_served_def empty_message_def)

theorem load_honest_peer_binds_witness:
  "\<exists>h m. probe_answer sample_loader (new_doc sample_loader) [7, 0, 1, 9] = TipHash h \<and> open_response sample_loader () [7, 1, 2, 9] = Ok (Some m)
     \<and> bind_check pad (tipsHashToHex h) m = Ok ()"
proof -
  have keys: "keychain_for_visibility sample_loader (sample_responder\<lparr>ticks := 1\<rparr>) = Ok ''current''"
    by (simp add: keychain_for_visibility_def sample_responder_fields sample_loader_def sample_env_def)
  have reads: "reads_from sample_loader kc sample_loader kc'" for kc kc'
    by (auto simp: reads_from_def sample_loader_def sample_env_def)
  have codec: "deserializeSyncMessage sample_loader (serializeSyncMessage sample_loader sample_advert) = Ok sample_advert"
    "deserializeSyncMessage sample_loader (serializeSyncMessage sample_loader sample_served) = Ok sample_served"
    "response_ok sample_loader (new_doc sample_loader) m" for m
    using unsigned by (simp_all add: loader_fields response_ok_def) (simp_all add: sample_loader_def sample_env_def sample_advert_def sample_served_def empty_message_def)
  have sizes: "Suc (Suc (Suc (Suc 0))) \<le> MAX_TIP_ADVERTISE_RESPONSE_SIZE" "0 < keyIDLength sample_loader" "TIPS_HASH_LENGTH = 32"
    by (simp_all add: MAX_TIP_ADVERTISE_RESPONSE_SIZE_def TIPS_HASH_LENGTH_def sample_loader_def sample_env_def)
  show ?thesis
    using codec doc_ok_new [of sample_loader] sizes load_honest_peer_binds [OF sample_advertises [unfolded sample_responder_def] _ sample_serves [unfolded sample_responder_def] _ keys [unfolded sample_responder_def] refl reads,
        of "new_doc sample_loader"] sample_signed_forms [unfolded sample_responder_def] by auto
qed

text \<open>The response of a responder that has compacted the change \<^verbatim>\<open>old\<close> into a snapshot and pruned it from the tree.\<close>

definition sample_compacted :: "string \<Rightarrow> (string, string) sync_message" where
  "sample_compacted old = sample_served\<lparr>m_snapshot := Some \<lparr>sn_state = old, sn_lastChangeNodeCID = ''R'', sn_compactedCount = 2, sn_signature = [],
     sn_publicKey = Some ''a'', sn_timestamp = 5\<rparr>\<rparr>"

theorem load_first_discards_snapshot_witness:
  "\<exists>t. sync_bound sample_loader pad sample_hash (sample_compacted ''old'') (new_doc sample_loader) = (Ok True, t) \<and> document t = [''x'']"
proof -
  have bound: "bound_message sample_loader (new_doc sample_loader) (sample_compacted []) = bound_message sample_loader (new_doc sample_loader) sample_served"
    by (simp add: bound_message_def sample_compacted_def new_doc_def sample_loader_def sample_env_def sample_served_def empty_message_def)
  obtain t where t: "sync sample_loader (bound_message sample_loader (new_doc sample_loader) sample_served) False (new_doc sample_loader) = (Ok True, t)"
    "hashes t = [''R'']" "document t = [''x'']"
    using sample_sync [of None] unfolding fresh_doc_None by blast
  have "message_frontier (sample_compacted []) = [''R'']"
    by (simp add: message_frontier_def sample_compacted_def sample_served_def empty_message_def computeServedFrontier_def leaf_def set_add_def)
  then have "bind_check pad sample_hash (sample_compacted []) = Ok ()" by (simp add: bind_check_Ok) (simp add: sample_compacted_def sample_served_def)
  moreover have "expected_cids (sample_compacted []) = [''R'']" using sample_cids by (simp add: expected_cids_def sample_compacted_def)
  moreover have "prefetchable sample_loader (new_doc sample_loader) ''R''" by (simp add: prefetchable_def sample_loader_def sample_env_def)
  moreover have "m_changes (bound_message sample_loader (new_doc sample_loader) sample_served) \<noteq> None"
    by (simp add: bound_message_def sample_served_def stripInlineChanges_def)
  ultimately have "sync_bound sample_loader pad sample_hash (sample_compacted []) (new_doc sample_loader) = (Ok True, t)"
    using t by (simp add: sync_bound_def bound Let_def eff_bind_def)
  moreover have "sync_bound sample_loader pad sample_hash (sample_compacted ''old'') (new_doc sample_loader) = sync_bound sample_loader pad sample_hash (sample_compacted []) (new_doc sample_loader)"
    using load_first_discards_snapshot [of sample_loader "new_doc sample_loader" "sample_compacted []" _ pad sample_hash "''old''"]
    by (simp add: sample_compacted_def getWriters_def new_doc_def sample_loader_def sample_env_def)
  ultimately show ?thesis using t(3) by simp
qed

end
