(* ===== verification/Membership.thy ===== *)
theory Membership
  imports Welcome BeeKemCorrect
begin

text \<open>
  Membership of a document (\<^verbatim>\<open>collabswarm-document.ts\<close>): opening and founding, admission and revocation of readers over the BeeKEM ratchet tree,
  revocation of writers, and the receive paths of the two key-rotation protocols.  The state adds to \<open>swarm_doc\<close> the ratchet tree of \<open>BeeKem\<close>, the
  caches of registered readers and the messages sent to connected peers.  A computation of the tree arithmetic that does not end
  is the error \<open>Diverged\<close>.
\<close>

section \<open>State and environment\<close>

datatype member_error =
    Doc_error doc_error | Beekem_error beekem_error | Diverged
  | No_serializer | No_kem_key_pair | Bad_kem_key_length | No_tree_for_joined_writer | Founder_tree_refused | Tree_not_initialized
  | Leaf_not_in_tree | No_leaf_recorded | Bad_root_secret_length | Bad_document_path
  | Path_not_allowed | Already_registered | Kem_not_ecdh | Kem_wrong_curve | Kem_no_derive_bits | Kem_not_exportable

record ('c, 'kc, 'pk, 'key, 'sk, 'kpk) member_env =
  webCrypto :: "('sk, 'kpk) webcrypto"
  publicKeyText :: "('pk \<Rightarrow> string) option" \<comment> \<open>the optional \<^verbatim>\<open>serializePublicKey\<close> of the auth provider\<close>
  kcAdd :: "nat \<Rightarrow> 'kc \<Rightarrow> doc_error + ('kc \<times> bytes \<times> 'key \<times> 'c)"
  kcAddEpochKey :: "bytes \<Rightarrow> 'key \<Rightarrow> 'kc \<Rightarrow> doc_error + 'kc"
  hkdfKey :: "bytes \<Rightarrow> 'key" \<comment> \<open>HKDF of \<^verbatim>\<open>deriveDocumentKeyFromRootSecret\<close>\<close>
  hkdfEpochId :: "bytes \<Rightarrow> bytes"
  encodeSealedPayload :: "bytes \<Rightarrow> beekem_welcome option \<Rightarrow> bytes"
  pathUpdateToWire :: "path_update \<Rightarrow> bytes"
  pathUpdateFromWire :: "bytes \<Rightarrow> path_update option"
  connections :: "string list"
  reachable :: "string \<Rightarrow> bool"
  registers :: bool \<comment> \<open>whether the swarm accepts the registration of the document\<close>
  pathAllowed :: "doc_error + bool" \<comment> \<open>\<^verbatim>\<open>validateDocumentPath\<close>, true when it is not configured\<close>
  topicValidators :: bool \<comment> \<open>\<^verbatim>\<open>enableTopicValidators\<close> where the pubsub service has them\<close>

datatype protocol = BeekemWelcomeV1 | BeekemPathUpdateV1 | DocumentKeyUpdateV2

record ('doc, 'c, 'fn, 'acl, 'kc, 'pk, 'sk, 'kpk) member_doc =
  core :: "('doc, 'c, 'fn, 'acl, 'kc, 'pk) swarm_doc"
  ratchet :: "('sk, 'kpk) beekem option" \<comment> \<open>\<^verbatim>\<open>_beekem\<close>, set exactly when \<^verbatim>\<open>_beekemInitialized\<close>\<close>
  drawn :: nat \<comment> \<open>position in the supply of randomness of WebCrypto\<close>
  kemKeyPair :: "('sk \<times> 'kpk) option"
  readerLeafIndices :: "(string, int) jsmap"
  readerKemPublicKeys :: "(string, bytes) jsmap"
  beekemWelcomeByLeaf :: "(int, beekem_welcome) jsmap"
  sent :: "(protocol \<times> string \<times> bytes) list"
  pubsubHandler :: bool
  subscribed :: bool
  registered :: bool
  validator :: bool

type_synonym ('doc, 'c, 'fn, 'acl, 'kc, 'pk, 'sk, 'kpk, 'a) member_eff =
  "(('doc, 'c, 'fn, 'acl, 'kc, 'pk, 'sk, 'kpk) member_doc, member_error, 'a) eff"

text \<open>A document method and an operation of the ratchet tree as parts of a membership operation.\<close>

definition in_doc :: "('doc, 'c, 'fn, 'acl, 'kc, 'pk, 'a) doc_eff \<Rightarrow> ('doc, 'c, 'fn, 'acl, 'kc, 'pk, 'sk, 'kpk, 'a) member_eff" where
  "in_doc m s = (case m (core s) of (Inl e, d) \<Rightarrow> (Err (Doc_error e), s\<lparr>core := d\<rparr>) | (Inr x, d) \<Rightarrow> (Ok x, s\<lparr>core := d\<rparr>))"

definition in_ratchet :: "('sk, 'kpk, 'a) bk \<Rightarrow> ('doc, 'c, 'fn, 'acl, 'kc, 'pk, 'sk, 'kpk, 'a) member_eff" where
  "in_ratchet m s = (case ratchet s of None \<Rightarrow> (Err Tree_not_initialized, s)
   | Some b \<Rightarrow> (case m (b, drawn s) of None \<Rightarrow> (Err Diverged, s)
     | Some (Inl e, b', r') \<Rightarrow> (Err (Beekem_error e), s\<lparr>ratchet := Some b', drawn := r'\<rparr>)
     | Some (Inr x, b', r') \<Rightarrow> (Ok x, s\<lparr>ratchet := Some b', drawn := r'\<rparr>)))"

section \<open>KEM key pair\<close>

text \<open>What \<^verbatim>\<open>validateAndExportKemKeyPair\<close> reads of a \<^verbatim>\<open>CryptoKeyPair\<close>.\<close>

record key_description =
  publicAlgorithm :: string
  privateAlgorithm :: string
  publicCurve :: string
  privateCurve :: string
  privateUsages :: "string list"
  publicRaw :: "bytes option" \<comment> \<open>the raw export, if the key is extractable\<close>

definition validateAndExportKemKeyPair :: "key_description \<Rightarrow> member_error + bytes" where
  "validateAndExportKemKeyPair k =
     (if publicAlgorithm k \<noteq> ''ECDH'' \<or> privateAlgorithm k \<noteq> ''ECDH'' then Err Kem_not_ecdh
      else if publicCurve k \<noteq> ''P-256'' \<or> privateCurve k \<noteq> ''P-256'' then Err Kem_wrong_curve
      else if ''deriveBits'' \<notin> set (privateUsages k) then Err Kem_no_derive_bits
      else (case publicRaw k of None \<Rightarrow> Err Kem_not_exportable | Some raw \<Rightarrow> Ok raw))"

definition setKemKeyPair :: "(('sk \<times> 'kpk) \<times> key_description) option \<Rightarrow> ('doc, 'c, 'fn, 'acl, 'kc, 'pk, 'sk, 'kpk, unit) member_eff" where
  "setKemKeyPair keyPair = (case keyPair of None \<Rightarrow> eff_modify (\<lambda>s. s\<lparr>kemKeyPair := None\<rparr>)
   | Some (pair, description) \<Rightarrow> eff_bind (eff_lift (validateAndExportKemKeyPair description)) (\<lambda>_. eff_modify (\<lambda>s. s\<lparr>kemKeyPair := Some pair\<rparr>)))"

section \<open>Sending to connected peers\<close>

definition MAX_DOCUMENT_PATH_LENGTH :: nat where
  "MAX_DOCUMENT_PATH_LENGTH = 4096"

definition path_prefixed :: "('doc, 'c, 'fn, 'acl, 'kc, 'pk, 'key) doc_env \<Rightarrow> bytes \<Rightarrow> member_error + bytes" where
  "path_prefixed E body = (let pathBytes = text_encode (documentPath E) in
     if pathBytes = [] \<or> length pathBytes > MAX_DOCUMENT_PATH_LENGTH then Err Bad_document_path
     else Ok (be32 (length pathBytes) @ pathBytes @ body))"

definition fan_out :: "('c, 'kc, 'pk, 'key, 'sk, 'kpk) member_env \<Rightarrow> protocol \<Rightarrow> bytes \<Rightarrow> ('doc, 'c, 'fn, 'acl, 'kc, 'pk, 'sk, 'kpk, unit) member_eff" where
  "fan_out M p payload = eff_modify (\<lambda>s. s\<lparr>sent := sent s @ map (\<lambda>peer. (p, peer, payload)) (filter (reachable M) (connections M))\<rparr>)"

definition require_serializer :: "('c, 'kc, 'pk, 'key, 'sk, 'kpk) member_env \<Rightarrow> ('doc, 'c, 'fn, 'acl, 'kc, 'pk, 'sk, 'kpk, 'pk \<Rightarrow> string) member_eff" where
  "require_serializer M = (case publicKeyText M of None \<Rightarrow> eff_throw No_serializer | Some f \<Rightarrow> eff_return f)"

definition deriveDocumentKeyFromRootSecret :: "('c, 'kc, 'pk, 'key, 'sk, 'kpk) member_env \<Rightarrow> bytes \<Rightarrow> member_error + 'key" where
  "deriveDocumentKeyFromRootSecret M rootSecret = (if length rootSecret \<noteq> 32 then Err Bad_root_secret_length else Ok (hkdfKey M rootSecret))"

definition deriveEpochIdFromRootSecret :: "('c, 'kc, 'pk, 'key, 'sk, 'kpk) member_env \<Rightarrow> bytes \<Rightarrow> member_error + bytes" where
  "deriveEpochIdFromRootSecret M rootSecret = (if length rootSecret \<noteq> 32 then Err Bad_root_secret_length else Ok (hkdfEpochId M rootSecret))"

definition welcome_keychain :: "('doc, 'c, 'fn, 'acl, 'kc, 'pk, 'key) doc_env \<Rightarrow> ('doc, 'c, 'fn, 'acl, 'kc, 'pk) swarm_doc \<Rightarrow> doc_error + 'c" where
  "welcome_keychain E s = (if historyVisibility s = Full_history then Ok (kcHistory E (keychain s)) else kcCurrentKeyChange E (keychain s))"

definition sendBeeKEMWelcome :: "('doc, 'c, 'fn, 'acl, 'kc, 'pk, 'key) doc_env \<Rightarrow> ('c, 'kc, 'pk, 'key, 'sk, 'kpk) member_env
    \<Rightarrow> 'pk \<Rightarrow> bytes \<Rightarrow> beekem_welcome option \<Rightarrow> ('doc, 'c, 'fn, 'acl, 'kc, 'pk, 'sk, 'kpk, unit) member_eff" where
  "sendBeeKEMWelcome E M reader kemPub welcome =
     (if length kemPub \<noteq> ECIES_P256_PUBLIC_KEY_LENGTH then eff_throw Bad_kem_key_length
      else eff_bind eff_get (\<lambda>s.
      eff_bind (in_doc (eff_lift (kcCurrent E (keychain (core s))))) (\<lambda>(currentKeyID, _).
      eff_bind (require_serializer M) (\<lambda>ser.
      eff_bind (in_doc (eff_lift (welcome_keychain E (core s)))) (\<lambda>keys.
      case importRaw (webCrypto M) kemPub of None \<Rightarrow> eff_throw (Beekem_error Key_import_rejected)
      | Some recipientKemKey \<Rightarrow>
        (case eciesSeal (webCrypto M) (drawn s) (encodeSealedPayload M (serializeChanges E keys) welcome) recipientKemKey of (box, r') \<Rightarrow>
         eff_bind (eff_modify (\<lambda>s. s\<lparr>drawn := r'\<rparr>)) (\<lambda>_.
         let m = (empty_message (documentPath E))\<lparr>m_welcomeEpochId := Some currentKeyID, m_welcomeRecipient := Some (ser reader),
               m_welcomeRecipientKemPublicKey := Some kemPub, m_eciesSealed := Some box\<rparr> in
         eff_bind (in_doc (signAsWriterUnconditional E m)) (\<lambda>signature.
         eff_bind (eff_lift (path_prefixed E (serializeSyncMessage E (m\<lparr>m_signature := Some signature\<rparr>)))) (\<lambda>payload.
         fan_out M BeekemWelcomeV1 payload)))))))))"

section \<open>Admitting readers\<close>

definition initializeBeeKEMAsFounder :: "('doc, 'c, 'fn, 'acl, 'kc, 'pk, 'sk, 'kpk, unit) member_eff" where
  "initializeBeeKEMAsFounder = eff_bind eff_get (\<lambda>s. if ratchet s \<noteq> None then eff_return ()
     else (case kemKeyPair s of None \<Rightarrow> eff_throw No_kem_key_pair
       | Some (sk, pk) \<Rightarrow> eff_bind (eff_modify (\<lambda>s. s\<lparr>ratchet := Some \<lparr>nodes = [], numLeaves = 0, myLeafIndex = 0\<rparr>\<rparr>)) (\<lambda>_.
           in_ratchet (initialize sk pk))))"

definition registerBeeKEMReader :: "('c, 'kc, 'pk, 'key, 'sk, 'kpk) member_env \<Rightarrow> 'pk \<Rightarrow> bytes
    \<Rightarrow> ('doc, 'c, 'fn, 'acl, 'kc, 'pk, 'sk, 'kpk, beekem_welcome option) member_eff" where
  "registerBeeKEMReader M reader kemPub =
     (if length kemPub \<noteq> ECIES_P256_PUBLIC_KEY_LENGTH then eff_throw Bad_kem_key_length
      else eff_bind (require_serializer M) (\<lambda>ser.
      eff_bind (eff_modify (\<lambda>s. s\<lparr>readerKemPublicKeys := map_set (ser reader) kemPub (readerKemPublicKeys s)\<rparr>)) (\<lambda>_.
      eff_bind eff_get (\<lambda>s.
      case map_get (readerLeafIndices s) (ser reader) of
        Some existingLeaf \<Rightarrow> eff_return (map_get (beekemWelcomeByLeaf s) existingLeaf)
      | None \<Rightarrow>
          eff_bind (if ratchet s \<noteq> None then eff_return ()
                    else if length (hashes (core s)) > 1 then eff_throw Founder_tree_refused
                    else initializeBeeKEMAsFounder) (\<lambda>_.
          case importRaw (webCrypto M) kemPub of None \<Rightarrow> eff_throw (Beekem_error Key_import_rejected)
          | Some memberPublicKey \<Rightarrow> eff_bind (in_ratchet (addMember (webCrypto M) memberPublicKey)) (\<lambda>(_, welcome, _).
              eff_bind (eff_modify (\<lambda>s. s\<lparr>readerLeafIndices := map_set (ser reader) (leafIndex welcome) (readerLeafIndices s),
                beekemWelcomeByLeaf := map_set (leafIndex welcome) welcome (beekemWelcomeByLeaf s)\<rparr>)) (\<lambda>_.
              eff_return (Some welcome))))))))"

definition add_to_readers :: "('doc, 'c, 'fn, 'acl, 'kc, 'pk, 'key) doc_env \<Rightarrow> 'pk \<Rightarrow> ('doc, 'c, 'fn, 'acl, 'kc, 'pk, unit) doc_eff" where
  "add_to_readers E reader = eff_bind eff_get (\<lambda>s. case aclAdd E reader (readers s) of (acl, ch) \<Rightarrow>
     eff_bind (eff_modify (\<lambda>s. s\<lparr>readers := acl\<rparr>)) (\<lambda>_. makeChange E ch Reader_change))"

definition addReader :: "('doc, 'c, 'fn, 'acl, 'kc, 'pk, 'key) doc_env \<Rightarrow> ('c, 'kc, 'pk, 'key, 'sk, 'kpk) member_env
    \<Rightarrow> 'pk \<Rightarrow> bytes option \<Rightarrow> ('doc, 'c, 'fn, 'acl, 'kc, 'pk, 'sk, 'kpk, unit) member_eff" where
  "addReader E M reader readerKemPublicKey = eff_bind (in_doc (ensureCurrentUserCanWrite E)) (\<lambda>_. eff_bind eff_get (\<lambda>s.
     if ratchet s = None \<and> kemKeyPair s = None then eff_throw No_kem_key_pair
     else if readerKemPublicKey \<noteq> None \<and> length (the readerKemPublicKey) \<noteq> ECIES_P256_PUBLIC_KEY_LENGTH then eff_throw Bad_kem_key_length
     else if ratchet s = None \<and> hashes (core s) \<noteq> [] then eff_throw No_tree_for_joined_writer
     else eff_bind (if aclCheck E (readers (core s)) reader then eff_return () else in_doc (add_to_readers E reader)) (\<lambda>_.
       case readerKemPublicKey of None \<Rightarrow> eff_return ()
       | Some kemPub \<Rightarrow> eff_bind (registerBeeKEMReader M reader kemPub) (\<lambda>welcome.
           eff_catch (sendBeeKEMWelcome E M reader kemPub welcome) (\<lambda>_. eff_return ())))))"

section \<open>Revoking readers\<close>

definition lookup_leaf :: "('c, 'kc, 'pk, 'key, 'sk, 'kpk) member_env \<Rightarrow> string \<Rightarrow> ('sk, 'kpk) beekem \<Rightarrow> ('doc, 'c, 'fn, 'acl, 'kc, 'pk, 'sk, 'kpk, int) member_eff" where
  "lookup_leaf M who b = eff_bind eff_get (\<lambda>s. case map_get (readerLeafIndices s) who of
     Some leaf \<Rightarrow> eff_return leaf
   | None \<Rightarrow> (case map_get (readerKemPublicKeys s) who of None \<Rightarrow> eff_throw No_leaf_recorded
     | Some kemPub \<Rightarrow> (case findLeafByPublicKey (webCrypto M) b (Inr kemPub) of None \<Rightarrow> eff_throw Leaf_not_in_tree
       | Some leaf \<Rightarrow> eff_bind (eff_modify (\<lambda>s. s\<lparr>readerLeafIndices := map_set who leaf (readerLeafIndices s)\<rparr>)) (\<lambda>_. eff_return leaf))))"

definition distributeBeeKEMPathUpdate :: "('doc, 'c, 'fn, 'acl, 'kc, 'pk, 'key) doc_env \<Rightarrow> ('c, 'kc, 'pk, 'key, 'sk, 'kpk) member_env
    \<Rightarrow> path_update \<Rightarrow> bytes \<Rightarrow> ('doc, 'c, 'fn, 'acl, 'kc, 'pk, 'sk, 'kpk, unit) member_eff" where
  "distributeBeeKEMPathUpdate E M pathUpdate epochId =
     (let m = (empty_message (documentPath E))\<lparr>m_pathUpdate := Some (pathUpdateToWire M pathUpdate), m_pathUpdateEpochId := Some epochId\<rparr> in
      eff_bind (in_doc (signAsWriterUnconditional E m)) (\<lambda>signature.
      eff_bind (eff_lift (path_prefixed E (serializeSyncMessage E (m\<lparr>m_signature := Some signature\<rparr>)))) (\<lambda>payload.
      fan_out M BeekemPathUpdateV1 payload)))"

definition remove_from_readers :: "('doc, 'c, 'fn, 'acl, 'kc, 'pk, 'key) doc_env \<Rightarrow> 'pk \<Rightarrow> ('doc, 'c, 'fn, 'acl, 'kc, 'pk, unit) doc_eff" where
  "remove_from_readers E reader = eff_bind eff_get (\<lambda>s. case aclRemove E reader (readers s) of (acl, ch) \<Rightarrow>
     eff_bind (eff_modify (\<lambda>s. s\<lparr>readers := acl\<rparr>)) (\<lambda>_. makeChange E ch Reader_change))"

definition forget_reader :: "string \<Rightarrow> int \<Rightarrow> ('doc, 'c, 'fn, 'acl, 'kc, 'pk, 'sk, 'kpk, unit) member_eff" where
  "forget_reader who leaf = eff_modify (\<lambda>s. s\<lparr>readerLeafIndices := map_delete who (readerLeafIndices s),
     readerKemPublicKeys := map_delete who (readerKemPublicKeys s), beekemWelcomeByLeaf := map_delete leaf (beekemWelcomeByLeaf s)\<rparr>)"

definition install_epoch_key :: "('c, 'kc, 'pk, 'key, 'sk, 'kpk) member_env \<Rightarrow> bytes \<Rightarrow> 'key \<Rightarrow> ('doc, 'c, 'fn, 'acl, 'kc, 'pk, unit) doc_eff" where
  "install_epoch_key M epochId key = eff_bind eff_get (\<lambda>s. eff_bind (eff_lift (kcAddEpochKey M epochId key (keychain s)))
     (\<lambda>kc. eff_modify (\<lambda>s. s\<lparr>keychain := kc\<rparr>)))"

definition removeReader :: "('doc, 'c, 'fn, 'acl, 'kc, 'pk, 'key) doc_env \<Rightarrow> ('c, 'kc, 'pk, 'key, 'sk, 'kpk) member_env
    \<Rightarrow> 'pk \<Rightarrow> ('doc, 'c, 'fn, 'acl, 'kc, 'pk, 'sk, 'kpk, unit) member_eff" where
  "removeReader E M reader = eff_bind (in_doc (ensureCurrentUserCanWrite E)) (\<lambda>_. eff_bind eff_get (\<lambda>s.
     if \<not> aclCheck E (readers (core s)) reader then eff_return ()
     else eff_bind (require_serializer M) (\<lambda>ser.
       case ratchet s of None \<Rightarrow> eff_throw Tree_not_initialized
       | Some b \<Rightarrow> eff_bind (lookup_leaf M (ser reader) b) (\<lambda>leaf.
           eff_bind (in_ratchet (removeMember (webCrypto M) leaf)) (\<lambda>(pathUpdate, rootSecret).
           eff_bind (eff_lift (deriveDocumentKeyFromRootSecret M rootSecret)) (\<lambda>newKey.
           eff_bind (eff_lift (deriveEpochIdFromRootSecret M rootSecret)) (\<lambda>epochId.
           eff_bind (eff_catch (in_doc (remove_from_readers E reader)) (\<lambda>_. eff_return ())) (\<lambda>_.
           eff_bind (forget_reader (ser reader) leaf) (\<lambda>_.
           eff_bind (eff_catch (distributeBeeKEMPathUpdate E M pathUpdate epochId) (\<lambda>_. eff_return ())) (\<lambda>_.
           in_doc (install_epoch_key M epochId newKey)))))))))))"

text \<open>The receive path of a path update; every failure is logged and dropped.\<close>

definition verify_path_update :: "('doc, 'c, 'fn, 'acl, 'kc, 'pk, 'key) doc_env \<Rightarrow> ('c, 'kc, 'pk, 'key, 'sk, 'kpk) member_env
    \<Rightarrow> bytes \<Rightarrow> ('doc, 'c, 'fn, 'acl, 'kc, 'pk, (path_update \<times> bytes) option) doc_eff" where
  "verify_path_update E M payload = (case deserializeSyncMessage E payload of Inl _ \<Rightarrow> eff_return None
   | Inr m \<Rightarrow>
       if m_documentId m \<noteq> [] \<and> m_documentId m \<noteq> documentPath E then eff_return None
       else if \<not> truthy (m_signature m) then eff_return None
       else eff_bind (verifyWelcomeWriterSignature E (serializeSyncMessage E (m\<lparr>m_signature := None\<rparr>)) (the (m_signature m))) (\<lambda>ok.
         if \<not> ok then eff_return None
         else (case (m_pathUpdate m, m_pathUpdateEpochId m) of
             (Some wire, Some epochId) \<Rightarrow> eff_return (map_option (\<lambda>u. (u, epochId)) (pathUpdateFromWire M wire))
           | _ \<Rightarrow> eff_return None)))"

definition apply_path_update :: "('c, 'kc, 'pk, 'key, 'sk, 'kpk) member_env \<Rightarrow> path_update \<Rightarrow> bytes \<Rightarrow> ('doc, 'c, 'fn, 'acl, 'kc, 'pk, 'sk, 'kpk, unit) member_eff" where
  "apply_path_update M pathUpdate senderEpochId = eff_bind (in_ratchet (processPathUpdate (webCrypto M) pathUpdate)) (\<lambda>rootSecret.
     eff_bind (eff_lift (deriveEpochIdFromRootSecret M rootSecret)) (\<lambda>localEpochId.
     if localEpochId \<noteq> senderEpochId then eff_return ()
     else eff_bind (eff_lift (deriveDocumentKeyFromRootSecret M rootSecret)) (\<lambda>newKey. in_doc (install_epoch_key M localEpochId newKey))))"

definition handleBeeKEMPathUpdateRequestData :: "('doc, 'c, 'fn, 'acl, 'kc, 'pk, 'key) doc_env \<Rightarrow> ('c, 'kc, 'pk, 'key, 'sk, 'kpk) member_env
    \<Rightarrow> bytes \<Rightarrow> ('doc, 'c, 'fn, 'acl, 'kc, 'pk, 'sk, 'kpk, unit) member_eff" where
  "handleBeeKEMPathUpdateRequestData E M payload = eff_bind (in_doc (verify_path_update E M payload)) (\<lambda>verified.
     case verified of None \<Rightarrow> eff_return ()
     | Some (pathUpdate, senderEpochId) \<Rightarrow> eff_catch (apply_path_update M pathUpdate senderEpochId)
         (\<lambda>e. if e = Diverged then eff_throw Diverged else eff_return ()))"

section \<open>Revoking writers\<close>

definition distributeKeyUpdate :: "('doc, 'c, 'fn, 'acl, 'kc, 'pk, 'key) doc_env \<Rightarrow> ('c, 'kc, 'pk, 'key, 'sk, 'kpk) member_env
    \<Rightarrow> 'c \<Rightarrow> bytes \<times> 'key \<Rightarrow> ('doc, 'c, 'fn, 'acl, 'kc, 'pk, 'sk, 'kpk, unit) member_eff" where
  "distributeKeyUpdate E M keychainChanges previousKey =
     (let m = (empty_message (documentPath E))\<lparr>m_keychainChanges := Some keychainChanges\<rparr> in
      eff_bind (in_doc (signAsWriter E m)) (\<lambda>signature.
      eff_bind (in_doc tick) (\<lambda>t.
      case auth_encrypt E t (serializeSyncMessage E (m\<lparr>m_signature := Some signature\<rparr>)) (snd previousKey) of
        (None, _) \<Rightarrow> eff_throw (Doc_error No_nonce)
      | (Some nonce, data) \<Rightarrow> eff_bind (eff_lift (path_prefixed E (fst previousKey @ nonce @ data))) (\<lambda>payload.
          fan_out M DocumentKeyUpdateV2 payload))))"

definition add_key :: "('c, 'kc, 'pk, 'key, 'sk, 'kpk) member_env \<Rightarrow> ('doc, 'c, 'fn, 'acl, 'kc, 'pk, 'c) doc_eff" where
  "add_key M = eff_bind tick (\<lambda>t. eff_bind eff_get (\<lambda>s. eff_bind (eff_lift (kcAdd M t (keychain s))) (\<lambda>(kc, _, _, ch).
     eff_bind (eff_modify (\<lambda>s. s\<lparr>keychain := kc\<rparr>)) (\<lambda>_. eff_return ch))))"

definition removeWriter :: "('doc, 'c, 'fn, 'acl, 'kc, 'pk, 'key) doc_env \<Rightarrow> ('c, 'kc, 'pk, 'key, 'sk, 'kpk) member_env
    \<Rightarrow> 'pk \<Rightarrow> ('doc, 'c, 'fn, 'acl, 'kc, 'pk, 'sk, 'kpk, unit) member_eff" where
  "removeWriter E M writer = eff_bind (in_doc (ensureCurrentUserCanWrite E)) (\<lambda>_. eff_bind eff_get (\<lambda>s.
     if \<not> aclCheck E (writers (core s)) writer then eff_return ()
     else eff_bind (in_doc (eff_bind (mutate_writers (aclRemove E writer)) (\<lambda>ch. makeChange E ch Writer_change))) (\<lambda>_.
       eff_bind eff_get (\<lambda>s.
       eff_bind (in_doc (eff_lift (kcCurrent E (keychain (core s))))) (\<lambda>(previousID, previousKey).
       eff_bind (in_doc (add_key M)) (\<lambda>ch.
       case previousKey of None \<Rightarrow> eff_throw (Doc_error Empty_keychain)
       | Some k \<Rightarrow> distributeKeyUpdate E M ch (previousID, k)))))))"

definition handleKeyUpdateRequestData :: "('doc, 'c, 'fn, 'acl, 'kc, 'pk, 'key) doc_env \<Rightarrow> bytes \<Rightarrow> ('doc, 'c, 'fn, 'acl, 'kc, 'pk, unit) doc_eff" where
  "handleKeyUpdateRequestData E payload = eff_bind eff_get (\<lambda>s.
     case decryptBlock E (keychain s) (take (keyIDLength E) payload) (take (nonceLength E) (drop (keyIDLength E) payload))
        (drop (keyIDLength E + nonceLength E) payload) of
       None \<Rightarrow> eff_return ()
     | Some rawContent \<Rightarrow> (case deserializeSyncMessage E rawContent of Inl _ \<Rightarrow> eff_return ()
       | Inr m \<Rightarrow>
           if m_documentId m \<noteq> [] \<and> m_documentId m \<noteq> documentPath E then eff_return ()
           else eff_bind (authenticate E m True) (\<lambda>ok.
             if \<not> ok then eff_return ()
             else (case m_keychainChanges m of None \<Rightarrow> eff_return ()
               | Some ch \<Rightarrow> eff_catch (merge_keychain E ch) (\<lambda>_. eff_return ())))))"

section \<open>Opening and closing\<close>

definition close_doc :: "('doc, 'c, 'fn, 'acl, 'kc, 'pk, 'sk, 'kpk, unit) member_eff" where
  "close_doc = eff_modify (\<lambda>s. if pubsubHandler s then s\<lparr>subscribed := False, validator := False, registered := False\<rparr> else s\<lparr>registered := False\<rparr>)"

text \<open>The founding of a new document: the current user becomes its writer, a key is drawn, and the ACL change is published.\<close>

definition found_document :: "('doc, 'c, 'fn, 'acl, 'kc, 'pk, 'key) doc_env \<Rightarrow> ('c, 'kc, 'pk, 'key, 'sk, 'kpk) member_env
    \<Rightarrow> ('doc, 'c, 'fn, 'acl, 'kc, 'pk, unit) doc_eff" where
  "found_document E M = eff_bind (mutate_writers (aclAdd E (userPublicKey E))) (\<lambda>ch.
     eff_bind (add_key M) (\<lambda>_. makeChange E ch Writer_change))"

definition open_doc :: "('doc, 'c, 'fn, 'acl, 'kc, 'pk, 'key) doc_env \<Rightarrow> ('c, 'kc, 'pk, 'key, 'sk, 'kpk) member_env
    \<Rightarrow> ('doc, 'c, 'fn, 'acl, 'kc, 'pk, bool) doc_eff \<Rightarrow> ('doc, 'c, 'fn, 'acl, 'kc, 'pk, 'sk, 'kpk, bool) member_eff" where
  "open_doc E M load = eff_bind (in_doc load) (\<lambda>loadedFromPeer. eff_bind eff_get (\<lambda>s.
     let isExisting = (loadedFromPeer \<or> hashes (core s) \<noteq> []) in
     eff_bind (if isExisting then eff_return ()
               else eff_bind (in_doc (eff_lift (pathAllowed M))) (\<lambda>allowed. if allowed then eff_return () else eff_throw Path_not_allowed)) (\<lambda>_.
     eff_bind (eff_modify (\<lambda>s. s\<lparr>pubsubHandler := True\<rparr>)) (\<lambda>_.
     eff_catch
       (eff_bind (if registers M then eff_modify (\<lambda>s. s\<lparr>registered := True\<rparr>) else eff_throw Already_registered) (\<lambda>_.
        eff_bind (eff_modify (\<lambda>s. s\<lparr>subscribed := True, validator := topicValidators M \<and> enableSigning E\<rparr>)) (\<lambda>_.
        eff_bind (if isExisting then eff_return () else in_doc (found_document E M)) (\<lambda>_. eff_return isExisting))))
       (\<lambda>err. eff_bind close_doc (\<lambda>_. eff_throw err))))))"

text \<open>The gossipsub topic validator, and the handler of a pubsub message; it returns true when it asks for a reload.\<close>

datatype validator_result = Accept_message | Reject_message | Ignore_message

definition topic_validator :: "('doc, 'c, 'fn, 'acl, 'kc, 'pk, 'key) doc_env \<Rightarrow> bytes \<Rightarrow> ('doc, 'c, 'fn, 'acl, 'kc, 'pk, validator_result) doc_eff" where
  "topic_validator E data = eff_bind eff_get (\<lambda>s.
     case decryptBlock E (keychain s) (take (keyIDLength E) data) (take (nonceLength E) (drop (keyIDLength E) data)) (drop (keyIDLength E + nonceLength E) data) of
       None \<Rightarrow> eff_return Ignore_message
     | Some rawContent \<Rightarrow> (case deserializeSyncMessage E rawContent of Inl _ \<Rightarrow> eff_return Ignore_message
       | Inr m \<Rightarrow> if \<not> truthy (m_signature m) then eff_return Reject_message
           else eff_bind (verifyWriterSignature E (serializeSyncMessage E (m\<lparr>m_signature := None\<rparr>)) (the (m_signature m))) (\<lambda>ok.
             eff_return (if ok then Accept_message else Reject_message))))"

definition pubsub_message :: "('doc, 'c, 'fn, 'acl, 'kc, 'pk, 'key) doc_env \<Rightarrow> bytes \<Rightarrow> ('doc, 'c, 'fn, 'acl, 'kc, 'pk, bool) doc_eff" where
  "pubsub_message E data = eff_bind eff_get (\<lambda>s.
     case decryptBlock E (keychain s) (take (keyIDLength E) data) (take (nonceLength E) (drop (keyIDLength E) data)) (drop (keyIDLength E + nonceLength E) data) of
       None \<Rightarrow> eff_return True
     | Some rawContent \<Rightarrow> eff_bind (eff_lift (deserializeSyncMessage E rawContent)) (\<lambda>m. eff_bind (sync E m True) (\<lambda>_. eff_return False)))"

end
