(* ===== verification/MembershipCorrect.thy ===== *)
theory MembershipCorrect
  imports Membership WelcomeCorrect
begin

text \<open>
  Membership: a revocation always rotates the document key once the ratchet has advanced, a rotation message reaches the members that can open it and takes effect
  only with a writer's signature, the topic validator agrees with the document, and the founder of a document cannot admit a reader.
\<close>

section \<open>Running document methods and ratchet operations\<close>

lemma in_doc_Ok: "m (core s) = (Ok x, d) \<Longrightarrow> in_doc m s = (Ok x, s\<lparr>core := d\<rparr>)"
  by (simp add: in_doc_def)

lemma in_doc_Err: "m (core s) = (Err e, d) \<Longrightarrow> in_doc m s = (Err (Doc_error e), s\<lparr>core := d\<rparr>)"
  by (simp add: in_doc_def)

lemma in_doc_lift [simp]: "in_doc (eff_lift r) s = (map_sum Doc_error id r, s)"
  by (cases r) (simp_all add: in_doc_def)

lemma in_doc_frame: "in_doc m s = (r, t) \<Longrightarrow> t = s\<lparr>core := core t\<rparr> \<and> ratchet t = ratchet s \<and> kemKeyPair t = kemKeyPair s"
  by (auto simp: in_doc_def split: prod.splits sum.splits)

lemma in_doc_caught: "eff_catch (in_doc m) (\<lambda>_. eff_return ()) s = (Ok (), s\<lparr>core := snd (m (core s))\<rparr>)"
  by (cases "m (core s)") (auto simp: eff_catch_def in_doc_def split: sum.splits)

lemma in_ratchet_Ok: "ratchet s = Some b \<Longrightarrow> m (b, drawn s) = Some (Ok x, (b', r')) \<Longrightarrow> in_ratchet m s = (Ok x, s\<lparr>ratchet := Some b', drawn := r'\<rparr>)"
  by (simp add: in_ratchet_def)

lemma can_write: "ensureCurrentUserCanWrite E d = (if aclCheck E (writers d) (userPublicKey E) then (Ok (), d) else (Err Not_a_writer, d))"
  by (simp add: ensureCurrentUserCanWrite_def)

text \<open>What publishing a change leaves alone.\<close>

definition authority where
  "authority s = (keychain s, readers s, writers s)"

lemma authority_upd [simp]:
  "authority (s\<lparr>ticks := n\<rparr>) = authority s" "authority (s\<lparr>blocks := b\<rparr>) = authority s" "authority (s\<lparr>published := p\<rparr>) = authority s"
  "authority (s\<lparr>latestSnapshot := sn, changesSinceSnapshot := n0\<rparr>) = authority s" "authority (s\<lparr>compactionInProgress := c\<rparr>) = authority s"
  "authority (s\<lparr>snapshotUnsupported := c\<rparr>) = authority s" "authority (s\<lparr>lastSyncMessage := m\<rparr>) = authority s"
  "authority (s\<lparr>documentChangeCount := c1, changesSinceSnapshot := c2\<rparr>) = authority s" "authority (s\<lparr>recentTips := rt\<rparr>) = authority s"
  "authority (s\<lparr>hashes := hs\<rparr>) = authority s" "authority (s\<lparr>referencedAncestors := rs\<rparr>) = authority s" "authority (s\<lparr>cachedWriterKeys := k\<rparr>) = authority s"
  by (simp_all add: authority_def)

lemma authority_compact [keeps_intro]: "keeps (\<lambda>s. authority s = a) (maybeCompact E)"
  unfolding maybeCompact_def take_snapshot_def build_snapshot_def prune_after_snapshot_def pruneChanges_def gcPrunedBlocks_def tick_def Let_def
  by (intro keeps_intro; simp)

lemma authority_makeChange: "keeps (\<lambda>s. authority s = a) (makeChange E ch k)"
  unfolding makeChange_def announce_def putBlock_def add_hash_def trackTip_def publish_def count_document_change_def tick_def Let_def
  by (intro keeps_intro keeps_seal; simp)

lemma makeChange_authority: "makeChange E ch k s = (r, t) \<Longrightarrow> authority t = authority s"
  by (rule keepsD [OF authority_makeChange refl])

lemma makeChange_known:
  assumes "makeChange E ch k s = (Ok (), t)"
  shows "hashes t \<noteq> []"
proof -
  have keep: "keeps (\<lambda>s. hashes s \<noteq> []) (maybeCompact E)" for E :: "('a, 'b, 'c, 'd, 'e, 'f, 'g) doc_env"
    unfolding maybeCompact_def take_snapshot_def build_snapshot_def prune_after_snapshot_def pruneChanges_def gcPrunedBlocks_def tick_def Let_def
    by (intro keeps_intro; simp)
  obtain h u where put: "putBlock E ch s = (Ok h, u)" using assms by (auto simp: makeChange_def eff_bind_Ok_iff)
  let ?rest = "eff_bind eff_get (\<lambda>s.
     let m = createSyncMessage E s;
         node = Change_node None k (Some ch) (change_children m (recentTips s) h);
         m' = m\<lparr>m_changeId := Some h, m_changes := Some node\<rparr>
     in eff_bind (eff_modify (\<lambda>s. s\<lparr>referencedAncestors := fold set_add (map fst (kid_list (children node))) (referencedAncestors s)\<rparr>)) (\<lambda>_.
        eff_bind (trackTip h k) (\<lambda>_.
        eff_bind (signAsWriter E m') (\<lambda>signature.
        let m'' = m'\<lparr>m_signature := Some signature\<rparr> in
        eff_bind (eff_modify (\<lambda>s. s\<lparr>lastSyncMessage := Some m''\<rparr>)) (\<lambda>_.
        announce E m'' h k)))))"
  have "?rest (u\<lparr>hashes := set_add h (hashes u)\<rparr>) = (Ok (), t)"
    using assms put unfolding makeChange_def add_hash_def by (simp add: eff_bind_def [of "putBlock E ch"])
  moreover have "keeps (\<lambda>s. hashes s \<noteq> []) ?rest"
    unfolding announce_def trackTip_def publish_def count_document_change_def tick_def Let_def
    by (intro keeps_intro keeps_seal keep; simp)
  moreover have "hashes (u\<lparr>hashes := set_add h (hashes u)\<rparr>) \<noteq> []" by (auto simp: set_add_def)
  ultimately show ?thesis using keepsD [where I = "\<lambda>s. hashes s \<noteq> []"] by fast
qed

section \<open>The founder\<close>

text \<open>
  Founding a document publishes the founder's own ACL change, and \<^verbatim>\<open>addReader\<close> takes any known change without a ratchet tree as the mark of a
  joined writer: after a new document was opened, every \<^verbatim>\<open>addReader\<close> of its founder throws and changes nothing, so the founder cannot admit a reader.
\<close>

theorem member_founder_cannot_admit:
  assumes "ratchet s = None" "kemKeyPair s \<noteq> None" "open_doc E M load s = (Ok False, t)" "kemPub = None \<or> length (the kemPub) = ECIES_P256_PUBLIC_KEY_LENGTH"
    "aclCheck E (writers (core t)) (userPublicKey E)"
  shows "addReader E M reader kemPub t = (Err No_tree_for_joined_writer, t)"
proof -
  obtain u where load: "in_doc load s = (Ok False, u)" "hashes (core u) = []"
    and found: "in_doc (found_document E M) (u\<lparr>pubsubHandler := True, registered := True, subscribed := True, validator := topicValidators M \<and> enableSigning E\<rparr>) = (Ok (), t)"
    using assms(3) unfolding open_doc_def Let_def
    by (auto simp: eff_bind_eq eff_catch_def split: if_splits prod.splits sum.splits)
  have "ratchet t = None" "kemKeyPair t \<noteq> None"
    using in_doc_frame [OF load(1)] in_doc_frame [OF found] assms(1,2) by auto
  moreover obtain d ch where "makeChange E ch Writer_change d = (Ok (), core t)"
    using found by (auto simp: found_document_def in_doc_def eff_bind_Ok_iff split: prod.splits sum.splits)
  then have "hashes (core t) \<noteq> []" by (rule makeChange_known)
  ultimately show ?thesis using assms(4,5)
    by (auto simp: addReader_def can_write in_doc_def eff_bind_def)
qed

section \<open>Revoking a reader\<close>

text \<open>The leaf that \<^verbatim>\<open>removeReader\<close> finds for a reader: the cached one, else the one in the tree with the recorded KEM key.\<close>

definition leaf_of_reader where
  "leaf_of_reader M who b s = (case map_get (readerLeafIndices s) who of Some leaf \<Rightarrow> Some leaf
   | None \<Rightarrow> Option.bind (map_get (readerKemPublicKeys s) who) (\<lambda>kemPub. findLeafByPublicKey (webCrypto M) b (Inr kemPub)))"

lemma lookup_leaf_run:
  "leaf_of_reader M who b s = Some leaf \<Longrightarrow> \<exists>ls. lookup_leaf M who b s = (Ok leaf, s\<lparr>readerLeafIndices := ls\<rparr>)"
  unfolding leaf_of_reader_def lookup_leaf_def
  by (cases "map_get (readerLeafIndices s) who") (auto simp: bind_eq_Some_conv split: option.splits intro: exI [of _ "readerLeafIndices s"])

lemma lookup_leaf_none:
  "leaf_of_reader M who b s = None \<Longrightarrow> \<exists>e \<in> {No_leaf_recorded, Leaf_not_in_tree}. lookup_leaf M who b s = (Err e, s)"
  unfolding leaf_of_reader_def lookup_leaf_def by (auto split: option.splits)

lemma remove_from_readers_effect:
  "keychain (snd (remove_from_readers E reader s)) = keychain s \<and> readers (snd (remove_from_readers E reader s)) = fst (aclRemove E reader (readers s))"
proof -
  obtain acl ch where acl: "aclRemove E reader (readers s) = (acl, ch)" by fastforce
  obtain r t where run: "makeChange E ch Reader_change (s\<lparr>readers := acl\<rparr>) = (r, t)" by fastforce
  have "remove_from_readers E reader s = (r, t)" using acl run by (simp add: remove_from_readers_def)
  then show ?thesis using makeChange_authority [OF run] acl by (simp add: authority_def)
qed

definition path_update_message where
  "path_update_message E M u epochId = (empty_message (documentPath E))\<lparr>m_pathUpdate := Some (pathUpdateToWire M u), m_pathUpdateEpochId := Some epochId\<rparr>"

text \<open>What \<^verbatim>\<open>_distributeBeeKEMPathUpdate\<close> sends: nothing, or the signed update to every reachable peer.\<close>

definition update_broadcast where
  "update_broadcast E M u epochId msgs \<longleftrightarrow> msgs = [] \<or> (\<exists>sig payload.
     auth_sign E (serializeSyncMessage E (path_update_message E M u epochId)) = Ok sig
     \<and> path_prefixed E (serializeSyncMessage E ((path_update_message E M u epochId)\<lparr>m_signature := Some (base64_encode E sig)\<rparr>)) = Ok payload
     \<and> msgs = map (\<lambda>peer. (BeekemPathUpdateV1, peer, payload)) (filter (reachable M) (connections M)))"

lemma path_update_unsigned [simp]: "(path_update_message E M u epochId)\<lparr>m_signature := None\<rparr> = path_update_message E M u epochId"
  by (simp add: path_update_message_def empty_message_def)

lemma distribute_caught:
  "\<exists>msgs. eff_catch (distributeBeeKEMPathUpdate E M u epochId) (\<lambda>_. eff_return ()) s = (Ok (), s\<lparr>sent := sent s @ msgs\<rparr>)
     \<and> update_broadcast E M u epochId msgs"
proof -
  let ?m = "path_update_message E M u epochId"
  have sign: "in_doc (signAsWriterUnconditional E ?m) s
      = (case auth_sign E (serializeSyncMessage E ?m) of Inl e \<Rightarrow> (Err (Doc_error e), s) | Inr b \<Rightarrow> (Ok (base64_encode E b), s))"
    by (simp add: in_doc_def signAsWriterUnconditional_def eff_bind_def split: sum.splits)
  have none: "\<exists>msgs. s = s\<lparr>sent := sent s @ msgs\<rparr> \<and> update_broadcast E M u epochId msgs"
    by (rule exI [of _ "[]"]) (simp add: update_broadcast_def)
  show ?thesis
  proof (cases "auth_sign E (serializeSyncMessage E ?m)")
    case (Inl e)
    then have "eff_catch (distributeBeeKEMPathUpdate E M u epochId) (\<lambda>_. eff_return ()) s = (Ok (), s)"
      using sign by (simp add: distributeBeeKEMPathUpdate_def path_update_message_def [symmetric] Let_def eff_catch_def eff_bind_def)
    then show ?thesis using none by simp
  next
    case (Inr b)
    then have sig: "distributeBeeKEMPathUpdate E M u epochId s = eff_bind (eff_lift (path_prefixed E (serializeSyncMessage E (?m\<lparr>m_signature := Some (base64_encode E b)\<rparr>))))
        (\<lambda>payload. fan_out M BeekemPathUpdateV1 payload) s"
      using sign by (simp add: distributeBeeKEMPathUpdate_def path_update_message_def [symmetric] Let_def eff_bind_def [of "in_doc _"])
    show ?thesis
    proof (cases "path_prefixed E (serializeSyncMessage E (?m\<lparr>m_signature := Some (base64_encode E b)\<rparr>))")
      case (Inl e)
      then have "eff_catch (distributeBeeKEMPathUpdate E M u epochId) (\<lambda>_. eff_return ()) s = (Ok (), s)"
        using sig by (simp add: eff_catch_def eff_bind_def)
      then show ?thesis using none by simp
    next
      case (Inr payload)
      then show ?thesis using sig \<open>auth_sign E (serializeSyncMessage E ?m) = Inr b\<close>
        by (auto simp: eff_catch_def eff_bind_def fan_out_def update_broadcast_def)
    qed
  qed
qed

lemma removeReader_rotates:
  assumes "aclCheck E (writers (core s)) (userPublicKey E)" "aclCheck E (readers (core s)) reader" "publicKeyText M = Some ser"
    and "ratchet s = Some b" "leaf_of_reader M (ser reader) b s = Some leaf"
    and "removeMember (webCrypto M) leaf (b, drawn s) = Some (Ok (u, secret), (b', r'))" "length secret = 32"
    and "kcAddEpochKey M (hkdfEpochId M secret) (hkdfKey M secret) (keychain (core s)) = Ok kc"
  shows "\<exists>t msgs. removeReader E M reader s = (Ok (), t) \<and> keychain (core t) = kc \<and> ratchet t = Some b'
    \<and> readers (core t) = fst (aclRemove E reader (readers (core s))) \<and> sent t = sent s @ msgs \<and> update_broadcast E M u (hkdfEpochId M secret) msgs
    \<and> map_get (readerLeafIndices t) (ser reader) = None \<and> map_get (readerKemPublicKeys t) (ser reader) = None \<and> map_get (beekemWelcomeByLeaf t) leaf = None"
proof -
  obtain ls where look: "lookup_leaf M (ser reader) b s = (Ok leaf, s\<lparr>readerLeafIndices := ls\<rparr>)" using lookup_leaf_run [OF assms(5)] by blast
  let ?s1 = "s\<lparr>readerLeafIndices := ls\<rparr>"
  let ?s2 = "?s1\<lparr>ratchet := Some b', drawn := r'\<rparr>"
  have rot: "in_ratchet (removeMember (webCrypto M) leaf) ?s1 = (Ok (u, secret), ?s2)" using assms(4,6) by (simp add: in_ratchet_def)
  let ?s3 = "?s2\<lparr>core := snd (remove_from_readers E reader (core s))\<rparr>"
  let ?s4 = "?s3\<lparr>readerLeafIndices := map_delete (ser reader) ls, readerKemPublicKeys := map_delete (ser reader) (readerKemPublicKeys s),
    beekemWelcomeByLeaf := map_delete leaf (beekemWelcomeByLeaf s)\<rparr>"
  obtain msgs where msgs: "eff_catch (distributeBeeKEMPathUpdate E M u (hkdfEpochId M secret)) (\<lambda>_. eff_return ()) ?s4 = (Ok (), ?s4\<lparr>sent := sent ?s4 @ msgs\<rparr>)"
    "update_broadcast E M u (hkdfEpochId M secret) msgs" using distribute_caught by blast
  let ?s5 = "?s4\<lparr>sent := sent ?s4 @ msgs\<rparr>"
  have inst: "in_doc (install_epoch_key M (hkdfEpochId M secret) (hkdfKey M secret)) ?s5 = (Ok (), ?s5\<lparr>core := (core ?s5)\<lparr>keychain := kc\<rparr>\<rparr>)"
    using assms(8) remove_from_readers_effect [of E reader "core s"] by (simp add: in_doc_def install_epoch_key_def eff_bind_def)
  have "removeReader E M reader s = (Ok (), ?s5\<lparr>core := (core ?s5)\<lparr>keychain := kc\<rparr>\<rparr>)"
    using assms(1-4,7) look rot in_doc_caught [of "remove_from_readers E reader" ?s2] msgs(1) inst
    by (simp add: removeReader_def can_write in_doc_Ok require_serializer_def eff_bind_def deriveDocumentKeyFromRootSecret_def
        deriveEpochIdFromRootSecret_def forget_reader_def)
  then show ?thesis using msgs(2) remove_from_readers_effect [of E reader "core s"] by (auto simp: js_map)
qed


text \<open>
  A revocation that cannot find the reader's leaf, or has no ratchet tree or no serializer for the reader's identity, throws and changes nothing.
\<close>

theorem member_revocation_refused:
  assumes "aclCheck E (readers (core s)) reader"
    "\<not> aclCheck E (writers (core s)) (userPublicKey E) \<or> publicKeyText M = None \<or> ratchet s = None
      \<or> leaf_of_reader M (the (publicKeyText M) reader) (the (ratchet s)) s = None"
  shows "\<exists>e. removeReader E M reader s = (Err e, s)"
  using assms lookup_leaf_none [of M "the (publicKeyText M) reader" "the (ratchet s)" s] unfolding removeReader_def
  by (auto simp: can_write in_doc_def require_serializer_def eff_bind_def split: option.splits)

section \<open>Receiving a path update\<close>

text \<open>The update and the epoch that a signed message for this document carries.\<close>

definition accepted_update where
  "accepted_update E M d payload = (case deserializeSyncMessage E payload of Inl _ \<Rightarrow> None
   | Inr m \<Rightarrow> if (m_documentId m = [] \<or> m_documentId m = documentPath E) \<and> signed_by_writer E d m
       then (case (m_pathUpdate m, m_pathUpdateEpochId m) of (Some wire, Some e) \<Rightarrow> map_option (\<lambda>u. (u, e)) (pathUpdateFromWire M wire) | _ \<Rightarrow> None) else None)"

lemma signed_truthy: "signed_by_writer E d m \<Longrightarrow> truthy (m_signature m)"
  by (auto simp: signed_by_writer_def truthy_def)

lemma verify_path_update_run:
  assumes ok: "doc_ok E d"
  shows "\<exists>k. verify_path_update E M payload d = (Ok (accepted_update E M d payload), d\<lparr>cachedWriterKeys := k\<rparr>) \<and> doc_ok E (d\<lparr>cachedWriterKeys := k\<rparr>)"
proof -
  have early: ?thesis if "verify_path_update E M payload d = (Ok None, d)" "accepted_update E M d payload = None"
    using that ok by (intro exI [of _ "cachedWriterKeys d"]) simp
  show ?thesis
  proof (cases "deserializeSyncMessage E payload")
    case (Inl e)
    then show ?thesis by (intro early) (simp_all add: verify_path_update_def accepted_update_def)
  next
    case (Inr m)
    show ?thesis
    proof (cases "(m_documentId m = [] \<or> m_documentId m = documentPath E) \<and> truthy (m_signature m)")
      case True
      from check_signature_run [OF ok, of m] obtain k where
        k: "check_signature_of E (serializeSyncMessage E (m\<lparr>m_signature := None\<rparr>)) (the (m_signature m)) d = (Ok (signed_by_writer E d m), d\<lparr>cachedWriterKeys := k\<rparr>)"
        "doc_ok E (d\<lparr>cachedWriterKeys := k\<rparr>)" using True by blast
      have "verify_path_update E M payload d = (Ok (accepted_update E M d payload), d\<lparr>cachedWriterKeys := k\<rparr>)"
        using True Inr k(1)
        by (auto simp: verify_path_update_def accepted_update_def verifyWelcomeWriterSignature_def eff_bind_def split: option.splits)
      then show ?thesis using k(2) by blast
    next
      case False
      then have "\<not> ((m_documentId m = [] \<or> m_documentId m = documentPath E) \<and> signed_by_writer E d m)" using signed_truthy by blast
      then show ?thesis using False Inr by (intro early) (auto simp: verify_path_update_def accepted_update_def)
    qed
  qed
qed

lemma install_epoch_key_run:
  "install_epoch_key M e k d = (case kcAddEpochKey M e k (keychain d) of Inl err \<Rightarrow> (Err err, d) | Inr kc \<Rightarrow> (Ok (), d\<lparr>keychain := kc\<rparr>))"
  by (simp add: install_epoch_key_def eff_bind_def split: sum.splits)

lemma apply_path_update_cases:
  assumes "apply_path_update M u e s = (r, t)"
  shows "keychain (core t) = keychain (core s) \<or> (\<exists>b b' r' secret. ratchet s = Some b \<and> processPathUpdate (webCrypto M) u (b, drawn s) = Some (Ok secret, (b', r'))
    \<and> e = hkdfEpochId M secret \<and> kcAddEpochKey M e (hkdfKey M secret) (keychain (core s)) = Ok (keychain (core t)))"
  using assms unfolding apply_path_update_def
  by (auto simp: eff_bind_def in_ratchet_def deriveEpochIdFromRootSecret_def deriveDocumentKeyFromRootSecret_def in_doc_def install_epoch_key_run
      split: option.splits prod.splits sum.splits if_splits)

text \<open>
  Claim C22.  A path update changes the ratchet or the keychain only if a current writer signed it for this document; and a key enters the keychain only if
  it is derived from the root secret this member computes itself and the sender's epoch ID is the one derived from that secret.
\<close>

theorem member_path_update_needs_writer:
  assumes "doc_ok E (core s)" "handleBeeKEMPathUpdateRequestData E M payload s = (r, t)"
    "ratchet t \<noteq> ratchet s \<or> keychain (core t) \<noteq> keychain (core s)"
  shows "\<exists>m u e. deserializeSyncMessage E payload = Ok m \<and> signed_by_writer E (core s) m \<and> m_pathUpdateEpochId m = Some e \<and> accepted_update E M (core s) payload = Some (u, e)
    \<and> (if keychain (core t) = keychain (core s) then True else \<exists>b b' r' secret. ratchet s = Some b
        \<and> processPathUpdate (webCrypto M) u (b, drawn s) = Some (Ok secret, (b', r')) \<and> e = hkdfEpochId M secret
        \<and> kcAddEpochKey M e (hkdfKey M secret) (keychain (core s)) = Ok (keychain (core t)))"
proof -
  obtain k where k: "verify_path_update E M payload (core s) = (Ok (accepted_update E M (core s) payload), (core s)\<lparr>cachedWriterKeys := k\<rparr>)"
    using verify_path_update_run [OF assms(1)] by blast
  let ?s = "s\<lparr>core := (core s)\<lparr>cachedWriterKeys := k\<rparr>\<rparr>"
  have ver: "in_doc (verify_path_update E M payload) s = (Ok (accepted_update E M (core s) payload), ?s)" using k by (simp add: in_doc_def)
  show ?thesis
  proof (cases "accepted_update E M (core s) payload")
    case None
    then have "t = ?s" using assms(2) ver by (simp add: handleBeeKEMPathUpdateRequestData_def eff_bind_def)
    then show ?thesis using assms(3) by simp
  next
    case (Some p)
    obtain u e where p: "p = (u, e)" by fastforce
    obtain m where m: "deserializeSyncMessage E payload = Ok m" "signed_by_writer E (core s) m" "m_pathUpdateEpochId m = Some e"
      using Some by (auto simp: accepted_update_def p split: sum.splits if_splits option.splits)
    obtain q t' where app: "apply_path_update M u e ?s = (q, t')" by fastforce
    then have "keychain (core t) = keychain (core t')" using assms(2) ver Some
      by (auto simp: handleBeeKEMPathUpdateRequestData_def eff_bind_def eff_catch_def p split: sum.splits if_splits)
    then show ?thesis using apply_path_update_cases [OF app] m Some p by auto
  qed
qed

lemma path_update_delivers:
  assumes "doc_ok E (core s)" "deserializeSyncMessage E body = Ok m" "signed_by_writer E (core s) m"
    and "m = (path_update_message E M u (hkdfEpochId M secret))\<lparr>m_signature := Some sig\<rparr>" "pathUpdateFromWire M (pathUpdateToWire M u) = Some u"
    and "ratchet s = Some b" "processPathUpdate (webCrypto M) u (b, drawn s) = Some (Ok secret, (b', r'))" "length secret = 32"
    and "kcAddEpochKey M (hkdfEpochId M secret) (hkdfKey M secret) (keychain (core s)) = Ok kc"
  shows "\<exists>t. handleBeeKEMPathUpdateRequestData E M body s = (Ok (), t) \<and> keychain (core t) = kc \<and> ratchet t = Some b'"
proof -
  obtain k where k: "verify_path_update E M body (core s) = (Ok (accepted_update E M (core s) body), (core s)\<lparr>cachedWriterKeys := k\<rparr>)"
    using verify_path_update_run [OF assms(1)] by blast
  have acc: "accepted_update E M (core s) body = Some (u, hkdfEpochId M secret)"
    using assms(2,3,5) by (simp add: accepted_update_def assms(4) path_update_message_def empty_message_def)
  show ?thesis using k acc assms(6-9)
    by (simp add: handleBeeKEMPathUpdateRequestData_def apply_path_update_def eff_bind_def eff_catch_def in_ratchet_def
        deriveEpochIdFromRootSecret_def deriveDocumentKeyFromRootSecret_def in_doc_def install_epoch_key_run)
qed

text \<open>
  A revocation reaches the remaining members: a member whose ratchet derives the same root secret from the path update, and who knows the revoking
  writer, installs from the broadcast message exactly the key and epoch ID that the revoker installs.
\<close>

theorem member_revocation_delivers:
  assumes "doc_ok E (core s)" "deserializeSyncMessage E body = Ok m" "signed_by_writer E (core s) m"
    and "m = (path_update_message E M u (hkdfEpochId M secret))\<lparr>m_signature := Some sig\<rparr>" "pathUpdateFromWire M (pathUpdateToWire M u) = Some u"
    and "ratchet s = Some b" "processPathUpdate (webCrypto M) u (b, drawn s) = Some (Ok secret, (b', r'))" "length secret = 32"
    and "kcAddEpochKey M (hkdfEpochId M secret) (hkdfKey M secret) (keychain (core s)) = Ok kc"
  shows "\<exists>t. handleBeeKEMPathUpdateRequestData E M body s = (Ok (), t) \<and> keychain (core t) = kc \<and> ratchet t = Some b'"
  by (rule path_update_delivers [OF assms])

section \<open>What the removed reader can open\<close>


section \<open>Revoking a writer\<close>

definition key_update_message where
  "key_update_message E ch = (empty_message (documentPath E))\<lparr>m_keychainChanges := Some ch\<rparr>"

text \<open>What members of one document share: the path, the lengths, and a cipher and a serializer that undo each other.\<close>

definition shared_wire where
  "shared_wire E E' \<longleftrightarrow> documentPath E' = documentPath E
     \<and> (\<forall>n b k nonce data. auth_encrypt E n b k = (Some nonce, data) \<longrightarrow> length nonce = nonceLength E' \<and> auth_decrypt E' data k nonce = Some b)
     \<and> (\<forall>ch sig. deserializeSyncMessage E' (serializeSyncMessage E ((key_update_message E ch)\<lparr>m_signature := Some sig\<rparr>))
          = Ok ((key_update_message E ch)\<lparr>m_signature := Some sig\<rparr>))"

lemma key_update_opened:
  assumes "shared_wire E E'" "doc_ok E' d" "length keyID = keyIDLength E'" "kcGetKey E' (keychain d) keyID = Some k"
    and "auth_encrypt E n (serializeSyncMessage E m) k = (Some nonce, data)" "m = (key_update_message E ch)\<lparr>m_signature := Some sig\<rparr>"
    and "enableSigning E' \<longrightarrow> signed_by_writer E' d m" "kcMerge E' ch (keychain d) = Ok kc"
  shows "\<exists>c. handleKeyUpdateRequestData E' (keyID @ nonce @ data) d = (Ok (), d\<lparr>cachedWriterKeys := c, keychain := kc\<rparr>)"
proof -
  have wire: "length nonce = nonceLength E'" "auth_decrypt E' data k nonce = Some (serializeSyncMessage E m)"
    "deserializeSyncMessage E' (serializeSyncMessage E m) = Ok m" "documentPath E' = documentPath E"
    using assms(1,5,6) unfolding shared_wire_def by auto
  have auth: "\<exists>c. authenticate E' m True d = (Ok True, d\<lparr>cachedWriterKeys := c\<rparr>)"
  proof (cases "enableSigning E'")
    case True
    then have signed: "signed_by_writer E' d m" using assms(7) by blast
    obtain c where "check_signature_of E' (serializeSyncMessage E' (m\<lparr>m_signature := None\<rparr>)) (the (m_signature m)) d = (Ok True, d\<lparr>cachedWriterKeys := c\<rparr>)"
      using check_signature_run [OF assms(2) signed_truthy [OF signed]] signed by auto
    then show ?thesis using True signed_truthy [OF signed] by (auto simp: authenticate_def verifyWriterSignature_def)
  next
    case False
    then show ?thesis by (intro exI [of _ "cachedWriterKeys d"]) (simp add: authenticate_def)
  qed
  then obtain c where c: "authenticate E' m True d = (Ok True, d\<lparr>cachedWriterKeys := c\<rparr>)" ..
  have msg: "m_documentId m = documentPath E'" "m_keychainChanges m = Some ch"
    by (simp_all add: assms(6) key_update_message_def empty_message_def wire(4))
  show ?thesis using assms(3,4,8) wire(1-3) c msg
    by (auto simp: handleKeyUpdateRequestData_def decryptBlock_def merge_keychain_def eff_bind_def eff_catch_def)
qed

text \<open>The receiver takes the sender for a writer: it does not check signatures, or those of the sender verify under a key of its writers ACL.\<close>

definition accepts_signer where
  "accepts_signer E E' d \<longleftrightarrow> \<not> enableSigning E' \<or> enableSigning E \<and> (\<forall>m raw. auth_sign E (serializeSyncMessage E (m\<lparr>m_signature := None\<rparr>)) = Ok raw
     \<longrightarrow> signed_by_writer E' d (m\<lparr>m_signature := Some (base64_encode E raw)\<rparr>))"

text \<open>What a successful \<^verbatim>\<open>removeWriter\<close> sends: the change of the keychain, signed, sealed with the key the document had before.\<close>

lemma removeWriter_sends:
  assumes "removeWriter E M writer s = (Ok (), t)" "aclCheck E (writers (core s)) writer"
  shows "\<exists>keyID k n x y ch sig n' nonce data payload. kcCurrent E (keychain (core s)) = Ok (keyID, Some k)
    \<and> kcAdd M n (keychain (core s)) = Ok (keychain (core t), x, y, ch)
    \<and> (enableSigning E \<longrightarrow> (\<exists>raw. auth_sign E (serializeSyncMessage E (key_update_message E ch)) = Ok raw \<and> sig = base64_encode E raw))
    \<and> auth_encrypt E n' (serializeSyncMessage E ((key_update_message E ch)\<lparr>m_signature := Some sig\<rparr>)) k = (Some nonce, data)
    \<and> path_prefixed E (keyID @ nonce @ data) = Ok payload
    \<and> sent t = sent s @ map (\<lambda>peer. (DocumentKeyUpdateV2, peer, payload)) (filter (reachable M) (connections M))"
proof -
  obtain d where change: "eff_bind (mutate_writers (aclRemove E writer)) (\<lambda>ch. makeChange E ch Writer_change) (core s) = (Ok (), d)"
    and rest: "eff_bind (in_doc (eff_lift (kcCurrent E (keychain d)))) (\<lambda>(previousID, previousKey).
       eff_bind (in_doc (add_key M)) (\<lambda>ch.
       case previousKey of None \<Rightarrow> eff_throw (Doc_error Empty_keychain)
       | Some k \<Rightarrow> distributeKeyUpdate E M ch (previousID, k))) (s\<lparr>core := d\<rparr>) = (Ok (), t)"
    using assms by (auto simp: removeWriter_def can_write in_doc_def eff_bind_def split: if_splits prod.splits sum.splits)
  have kc: "keychain d = keychain (core s)"
  proof -
    obtain acl ch where "aclRemove E writer (writers (core s)) = (acl, ch)" by fastforce
    then show ?thesis using change makeChange_authority [of E ch Writer_change "end_writer_mutation ((begin_writer_mutation (core s))\<lparr>writers := acl\<rparr>)" "Ok ()" d]
      by (simp add: mutate_writers_def eff_bind_def authority_def end_writer_mutation_def begin_writer_mutation_def invalidateWriterKeyCache_def)
  qed
  obtain keyID k kc' x y ch where key: "kcCurrent E (keychain d) = Ok (keyID, Some k)" "kcAdd M (ticks d) (keychain d) = Ok (kc', x, y, ch)"
    and dist: "distributeKeyUpdate E M ch (keyID, k) (s\<lparr>core := d\<lparr>ticks := Suc (ticks d), keychain := kc'\<rparr>\<rparr>) = (Ok (), t)"
    using rest by (auto simp: eff_bind_def in_doc_def add_key_def tick_def split: sum.splits option.splits prod.splits)
  let ?m = "key_update_message E ch"
  have unsigned: "?m\<lparr>m_signature := None\<rparr> = ?m" by (simp add: key_update_message_def empty_message_def)
  obtain sig n' nonce data payload where sig: "enableSigning E \<longrightarrow> (\<exists>raw. auth_sign E (serializeSyncMessage E ?m) = Ok raw \<and> sig = base64_encode E raw)"
    and enc: "auth_encrypt E n' (serializeSyncMessage E (?m\<lparr>m_signature := Some sig\<rparr>)) k = (Some nonce, data)" "path_prefixed E (keyID @ nonce @ data) = Ok payload"
    and t: "core t = d\<lparr>ticks := Suc (Suc (ticks d)), keychain := kc'\<rparr>" "sent t = sent s @ map (\<lambda>peer. (DocumentKeyUpdateV2, peer, payload)) (filter (reachable M) (connections M))"
    using dist unfolding distributeKeyUpdate_def key_update_message_def [symmetric] Let_def signAsWriter_def signAsWriterUnconditional_def unsigned
    by (cases "enableSigning E"; auto simp: eff_bind_def in_doc_def tick_def fan_out_def split: sum.splits option.splits prod.splits)
  have "kcAdd M (ticks d) (keychain (core s)) = Ok (keychain (core t), x, y, ch)" "kcCurrent E (keychain (core s)) = Ok (keyID, Some k)"
    using key kc by (simp_all add: t(1))
  then show ?thesis using sig enc t(2) by blast
qed

text \<open>
  After \<^verbatim>\<open>removeWriter\<close> every member that holds the key the document had before, and accepts the sender's signature, merges the new key from the
  message it is sent.  Nothing else is asked of the receiver: the removed writer holds that key too, and so obtains the new one.
\<close>

theorem member_key_update_reaches_holders:
  assumes "removeWriter E M writer s = (Ok (), t)" "aclCheck E (writers (core s)) writer" "(p, peer, payload) \<in> set (drop (length (sent s)) (sent t))"
    and "shared_wire E E'" "doc_ok E' d" "accepts_signer E E' d" "\<forall>ch. \<exists>kc. kcMerge E' ch (keychain d) = Ok kc"
    and "\<forall>keyID k. kcCurrent E (keychain (core s)) = Ok (keyID, Some k) \<longrightarrow> length keyID = keyIDLength E' \<and> kcGetKey E' (keychain d) keyID = Some k"
  shows "\<exists>body n x y ch kc. path_prefixed E body = Ok payload \<and> kcAdd M n (keychain (core s)) = Ok (keychain (core t), x, y, ch)
    \<and> kcMerge E' ch (keychain d) = Ok kc \<and> keychain (snd (handleKeyUpdateRequestData E' body d)) = kc"
proof -
  from removeWriter_sends [OF assms(1,2)] obtain keyID k n x y ch sig n' nonce data payload' where key: "kcCurrent E (keychain (core s)) = Ok (keyID, Some k)"
    and add: "kcAdd M n (keychain (core s)) = Ok (keychain (core t), x, y, ch)"
    and sig: "enableSigning E \<longrightarrow> (\<exists>raw. auth_sign E (serializeSyncMessage E (key_update_message E ch)) = Ok raw \<and> sig = base64_encode E raw)"
    and enc: "auth_encrypt E n' (serializeSyncMessage E ((key_update_message E ch)\<lparr>m_signature := Some sig\<rparr>)) k = (Some nonce, data)"
    and pay: "path_prefixed E (keyID @ nonce @ data) = Ok payload'"
    and sent: "sent t = sent s @ map (\<lambda>peer. (DocumentKeyUpdateV2, peer, payload')) (filter (reachable M) (connections M))" by blast
  have "payload = payload'" using assms(3) sent by auto
  have unsigned: "(key_update_message E ch)\<lparr>m_signature := None\<rparr> = key_update_message E ch" by (simp add: key_update_message_def empty_message_def)
  have signed: "enableSigning E' \<longrightarrow> signed_by_writer E' d ((key_update_message E ch)\<lparr>m_signature := Some sig\<rparr>)"
    using assms(6) sig unfolding accepts_signer_def by (metis unsigned)
  obtain kc where kc: "kcMerge E' ch (keychain d) = Ok kc" using assms(7) by blast
  have held: "length keyID = keyIDLength E'" "kcGetKey E' (keychain d) keyID = Some k" using assms(8) key by blast+
  from key_update_opened [OF assms(4,5) held enc refl signed kc]
  obtain c where "handleKeyUpdateRequestData E' (keyID @ nonce @ data) d = (Ok (), d\<lparr>cachedWriterKeys := c, keychain := kc\<rparr>)" by blast
  then have "keychain (snd (handleKeyUpdateRequestData E' (keyID @ nonce @ data) d)) = kc" by simp
  then show ?thesis using pay add kc \<open>payload = payload'\<close> by blast
qed

section \<open>The topic validator\<close>

definition opened where
  "opened E d data = (case decryptBlock E (keychain d) (take (keyIDLength E) data) (take (nonceLength E) (drop (keyIDLength E) data)) (drop (keyIDLength E + nonceLength E) data) of
     None \<Rightarrow> None | Some raw \<Rightarrow> (case deserializeSyncMessage E raw of Inl _ \<Rightarrow> None | Inr m \<Rightarrow> Some m))"

text \<open>
  The topic validator and the document agree: with signing on, the validator accepts exactly the messages that open to a sync message of a current
  writer, which are the ones \<^verbatim>\<open>sync\<close> authenticates; it ignores exactly what does not open, and rejects the rest.
\<close>

theorem member_validator_agrees:
  assumes "doc_ok E d" "enableSigning E"
  shows "\<exists>v k. topic_validator E data d = (Ok v, d\<lparr>cachedWriterKeys := k\<rparr>) \<and> (v = Ignore_message \<longleftrightarrow> opened E d data = None)
    \<and> (v = Accept_message \<longleftrightarrow> (\<exists>m. opened E d data = Some m \<and> signed_by_writer E d m))
    \<and> (v = Accept_message \<longleftrightarrow> (\<exists>m. opened E d data = Some m \<and> fst (authenticate E m True d) = Ok True))"
proof (cases "opened E d data")
  case None
  then have "topic_validator E data d = (Ok Ignore_message, d)"
    by (auto simp: topic_validator_def opened_def split: option.splits sum.splits)
  then show ?thesis using None by (intro exI [of _ Ignore_message] exI [of _ "cachedWriterKeys d"]) simp
next
  case (Some m)
  let ?raw = "serializeSyncMessage E (m\<lparr>m_signature := None\<rparr>)"
  have step: "topic_validator E data d = (if \<not> truthy (m_signature m) then eff_return Reject_message
      else eff_bind (verifyWriterSignature E ?raw (the (m_signature m))) (\<lambda>ok. eff_return (if ok then Accept_message else Reject_message))) d"
    using Some by (auto simp: topic_validator_def opened_def split: option.splits sum.splits)
  show ?thesis
  proof (cases "truthy (m_signature m)")
    case True
    obtain k where k: "check_signature_of E ?raw (the (m_signature m)) d = (Ok (signed_by_writer E d m), d\<lparr>cachedWriterKeys := k\<rparr>)"
      using check_signature_run [OF assms(1) True] by blast
    then have "topic_validator E data d = (Ok (if signed_by_writer E d m then Accept_message else Reject_message), d\<lparr>cachedWriterKeys := k\<rparr>)"
      "fst (authenticate E m True d) = Ok (signed_by_writer E d m)"
      using step True assms(2) by (simp_all add: verifyWriterSignature_def authenticate_def eff_bind_def)
    then show ?thesis using Some by (intro exI [of _ "if signed_by_writer E d m then Accept_message else Reject_message"] exI [of _ k]) simp
  next
    case False
    then have "\<not> signed_by_writer E d m" using signed_truthy by blast
    then show ?thesis using step False Some assms(2)
      by (intro exI [of _ Reject_message] exI [of _ "cachedWriterKeys d"]) (simp add: authenticate_def)
  qed
qed

end
