(* ===== verification/MembershipSample.thy ===== *)
theory MembershipSample
  imports MembershipCorrect DocHead
begin

text \<open>
  The membership properties on concrete documents: the user \<^verbatim>\<open>a\<close> is the only writer, keys are strings and signatures name the signer; the ratchet trees are those of
  the ratchet examples with a hash of 32 bytes.
\<close>

section \<open>A text codec for key updates\<close>

fun enc_text :: "string \<Rightarrow> bytes" where
  "enc_text [] = [0]"
| "enc_text (c # cs) = 1 # of_char c # enc_text cs"

fun dec_text :: "bytes \<Rightarrow> string \<times> bytes" where
  "dec_text (x # y # r) = (if x = 1 then (case dec_text r of (s, r') \<Rightarrow> (char_of (unat y) # s, r')) else ([], y # r))"
| "dec_text r = ([], [])"

lemma char_of_byte: "char_of (unat (of_char c :: byte)) = c"
proof -
  have "unat (of_nat (of_char c) :: byte) = of_char c" by (simp add: unat_of_nat del: of_nat_of_char)
  then have "char_of (unat (of_nat (of_char c) :: byte)) = c" by (simp del: of_nat_of_char)
  then show ?thesis by (simp only: of_nat_of_char)
qed

lemma dec_enc_text: "dec_text (enc_text s @ r) = (s, r)"
proof (induction s)
  case Nil
  then show ?case by (cases r) auto
next
  case (Cons c s)
  then show ?case by (simp add: char_of_byte)
qed

section \<open>Environments and documents\<close>

definition sample_kem :: "(byte, byte) webcrypto" where
  "sample_kem = toy_crypto\<lparr>generateKey := (\<lambda>r. (200, 200)), sha256 := (\<lambda>b. take 32 (b @ replicate 32 0))\<rparr>"

definition sample_member_env :: "(string, unit, string, unit, byte, byte) member_env" where
  "sample_member_env = \<lparr>webCrypto = sample_kem, publicKeyText = Some (\<lambda>k. k), kcAdd = (\<lambda>n kc. Ok ((), [7], (), ''key'')),
     kcAddEpochKey = (\<lambda>e k kc. Ok ()), hkdfKey = (\<lambda>b. ()), hkdfEpochId = (\<lambda>b. b), encodeSealedPayload = (\<lambda>b w. b),
     pathUpdateToWire = (\<lambda>u. []), pathUpdateFromWire = (\<lambda>b. None), connections = [''p''], reachable = (\<lambda>_. True), registers = True,
     pathAllowed = Ok True, topicValidators = True\<rparr>"

definition sample_founder_doc :: "sample_env \<Rightarrow> (string list, string, string, string list, unit, string, byte, byte) member_doc" where
  "sample_founder_doc E = \<lparr>core = new_doc E, ratchet = None, drawn = 0, kemKeyPair = Some (1, 1), readerLeafIndices = [], readerKemPublicKeys = [],
     beekemWelcomeByLeaf = [], sent = [], pubsubHandler = False, subscribed = False, registered = False, validator = False\<rparr>"

lemmas sample_member_run = sample_member_env_def sample_founder_doc_def sample_kem_def

theorem member_founder_cannot_admit_witness:
  "\<exists>t. open_doc sample_online sample_member_env (eff_return False) (sample_founder_doc sample_online) = (Ok False, t)
    \<and> addReader sample_online sample_member_env ''b'' None t = (Err No_tree_for_joined_writer, t)"
proof -
  let ?s = "sample_founder_doc sample_online"
  obtain t where t: "open_doc sample_online sample_member_env (eff_return False) ?s = (Ok False, t)" "writers (core t) = [''a'']"
    by (simp add: open_doc_def found_document_def add_key_def in_doc_def mutate_writers_def doc_run sample_run sample_online_def sample_member_run
        end_writer_mutation_def begin_writer_mutation_def invalidateWriterKeyCache_def set_add_def)
  have "addReader sample_online sample_member_env ''b'' None t = (Err No_tree_for_joined_writer, t)"
    by (rule member_founder_cannot_admit [OF _ _ t(1)]) (simp_all add: sample_member_run t(2) sample_online_def sample_env_def)
  then show ?thesis using t by blast
qed

text \<open>The group of three leaves, with \<^verbatim>\<open>b\<close> at leaf 4.\<close>

definition sample_group :: "(string list, string, string, string list, unit, string, byte, byte) member_doc" where
  "sample_group = (sample_founder_doc sample_online)\<lparr>core := (sample_doc sample_online)\<lparr>readers := [''b'']\<rparr>, ratchet := Some (toy_member 3 0),
     readerLeafIndices := [(''b'', 4)]\<rparr>"

lemma sample_remove: "\<exists>u secret b' r'. removeMember sample_kem 4 (toy_member 3 0, 0) = Some (Ok (u, secret), (b', r')) \<and> length secret = 32"
  by (simp add: removeMember_def refresh_own_leaf_def toy_member_def set_node_def bk bk_run tree_3 js_map map_get_Cons
      resolve_present resolve_blank_leaf bk_return_def sample_kem_def)

lemma sample_group_facts:
  "aclCheck sample_online (writers (core sample_group)) (userPublicKey sample_online)" "aclCheck sample_online (readers (core sample_group)) ''b''"
  "publicKeyText sample_member_env = Some (\<lambda>k. k)" "ratchet sample_group = Some (toy_member 3 0)"
  "leaf_of_reader sample_member_env ((\<lambda>k. k) ''b'') (toy_member 3 0) sample_group = Some 4" "drawn sample_group = 0" "webCrypto sample_member_env = sample_kem"
  by (simp_all add: sample_group_def sample_member_env_def sample_founder_doc_def sample_online_def sample_run leaf_of_reader_def map_get_def)

lemma sample_revocation:
  "\<exists>t. removeReader sample_online sample_member_env ''b'' sample_group = (Ok (), t)"
proof -
  obtain u secret b' r' where rot: "removeMember sample_kem 4 (toy_member 3 0, 0) = Some (Ok (u, secret), (b', r'))" "length secret = 32"
    using sample_remove by blast
  have "kcAddEpochKey sample_member_env (hkdfEpochId sample_member_env secret) (hkdfKey sample_member_env secret) (keychain (core sample_group)) = Ok ()"
    by (simp add: sample_member_env_def)
  from removeReader_rotates [OF sample_group_facts(1-5) _ rot(2) this, unfolded sample_group_facts(6,7), OF rot(1)] show ?thesis by blast
qed


theorem member_revocation_refused_witness:
  "\<exists>e. removeReader sample_online sample_member_env ''b'' (sample_group\<lparr>ratchet := None\<rparr>) = (Err e, sample_group\<lparr>ratchet := None\<rparr>)"
  by (rule member_revocation_refused) (use sample_group_facts(2) in simp_all)


section \<open>A path update at a member\<close>

text \<open>The member at leaf 2 of a group of two receives the update that leaf 0 made; both ratchets derive the same root secret.\<close>

lemma sample_kem_ok: "webcrypto_ok sample_kem (=)"
  using toy_crypto_ok by (auto simp: webcrypto_ok_def sample_kem_def toy_crypto_def)

lemma sample_update: "\<exists>u secret b'. processPathUpdate sample_kem u (toy_member 2 2, 0) = Some (Ok secret, (b', 0)) \<and> length secret = 32 \<and> pub b' 1 \<noteq> None"
proof -
  obtain u secret a' r' where up: "update sample_kem (toy_member 2 0, 0) = Some (Ok (u, secret), (a', r'))" "length secret = 32" "pub a' 1 \<noteq> None"
    by (simp add: update_def refresh_own_leaf_def toy_member_def set_node_def bk bk_run tree_2 js_map map_get_Cons resolve_present bk_return_def sample_kem_def pub_def)
  have "\<exists>b'. processPathUpdate sample_kem u (toy_member 2 2, 0) = Some (Ok secret, (b', 0))
    \<and> pub b' (myLeafIndex (toy_member 2 0)) = pub a' (myLeafIndex (toy_member 2 0)) \<and> pub b' 1 = pub a' 1"
    by (rule beekem_pair_update_agrees [OF sample_kem_ok _ _ _ _ _ _ _ up(1), where nd = "toy_leaf 2 2 (Some 2)" and sk = 2 and pk = 2])
      (simp_all add: toy_member_def map_get_Cons pub_def)
  then show ?thesis using up(2,3) by metis
qed

definition sample_update_env :: "path_update \<Rightarrow> (string, unit, string, unit, byte, byte) member_env" where
  "sample_update_env u = sample_member_env\<lparr>pathUpdateFromWire := (\<lambda>_. Some u)\<rparr>"

definition sample_update_message :: "path_update \<Rightarrow> bytes \<Rightarrow> (string, string) sync_message" where
  "sample_update_message u secret = (path_update_message sample_online (sample_update_env u) u (hkdfEpochId (sample_update_env u) secret))\<lparr>m_signature := Some ''a''\<rparr>"

definition sample_update_online :: "path_update \<Rightarrow> bytes \<Rightarrow> sample_env" where
  "sample_update_online u secret = sample_online\<lparr>deserializeSyncMessage := (\<lambda>_. Ok (sample_update_message u secret))\<rparr>"

definition sample_receiver :: "(string list, string, string, string list, unit, string, byte, byte) member_doc" where
  "sample_receiver = (sample_founder_doc sample_online)\<lparr>core := sample_doc sample_online, ratchet := Some (toy_member 2 2)\<rparr>"

lemma sample_receiver_facts:
  "doc_ok (sample_update_online u secret) (core sample_receiver)"
  "signed_by_writer (sample_update_online u secret) (core sample_receiver) (sample_update_message u secret)"
  "deserializeSyncMessage (sample_update_online u secret) [] = Ok (sample_update_message u secret)"
  "sample_update_message u secret = (path_update_message (sample_update_online u secret) (sample_update_env u) u (hkdfEpochId (sample_update_env u) secret))\<lparr>m_signature := Some ''a''\<rparr>"
  "pathUpdateFromWire (sample_update_env u) (pathUpdateToWire (sample_update_env u) u) = Some u"
  "ratchet sample_receiver = Some (toy_member 2 2)" "drawn sample_receiver = 0" "webCrypto (sample_update_env u) = sample_kem"
  "kcAddEpochKey (sample_update_env u) e k (keychain (core sample_receiver)) = Ok ()"
  by (simp_all add: sample_update_online_def sample_receiver_def sample_update_message_def sample_update_env_def sample_member_env_def sample_founder_doc_def
      sample_online_def sample_run doc_ok_def snapshot_count_def signed_by_writer_def getWriters_def text_encode_def path_update_message_def)

lemma sample_path_update:
  "\<exists>u secret t. processPathUpdate sample_kem u (toy_member 2 2, 0) = Some (Ok secret, (the (ratchet t), 0)) \<and> length secret = 32
    \<and> handleBeeKEMPathUpdateRequestData (sample_update_online u secret) (sample_update_env u) [] sample_receiver = (Ok (), t)
    \<and> ratchet t \<noteq> None \<and> ratchet t \<noteq> ratchet sample_receiver"
proof -
  obtain u secret b' where up: "processPathUpdate sample_kem u (toy_member 2 2, 0) = Some (Ok secret, (b', 0))" "length secret = 32" "pub b' 1 \<noteq> None"
    using sample_update by blast
  have "\<exists>t. handleBeeKEMPathUpdateRequestData (sample_update_online u secret) (sample_update_env u) [] sample_receiver = (Ok (), t)
      \<and> keychain (core t) = () \<and> ratchet t = Some b'"
    by (rule path_update_delivers [OF sample_receiver_facts(1,3,2,4-6) _ up(2) sample_receiver_facts(9), unfolded sample_receiver_facts(7,8), OF up(1)])
  then obtain t where t: "handleBeeKEMPathUpdateRequestData (sample_update_online u secret) (sample_update_env u) [] sample_receiver = (Ok (), t)" "ratchet t = Some b'"
    by blast
  have "Some b' \<noteq> ratchet sample_receiver"
    using up(3) by (auto simp: sample_receiver_facts(6) pub_def toy_member_def map_get_Cons js_map)
  then show ?thesis using up t by (intro exI [of _ u] exI [of _ secret] exI [of _ t]) simp
qed

theorem member_revocation_delivers_witness:
  "\<exists>u secret t. handleBeeKEMPathUpdateRequestData (sample_update_online u secret) (sample_update_env u) [] sample_receiver = (Ok (), t) \<and> ratchet t \<noteq> None"
proof -
  obtain u secret b' where up: "processPathUpdate sample_kem u (toy_member 2 2, 0) = Some (Ok secret, (b', 0))" "length secret = 32"
    using sample_update by blast
  from member_revocation_delivers [OF sample_receiver_facts(1,3,2,4-6) _ up(2) sample_receiver_facts(9), unfolded sample_receiver_facts(7,8), OF up(1)]
  show ?thesis by (metis option.discI)
qed

theorem member_path_update_needs_writer_witness:
  "\<exists>u secret m. deserializeSyncMessage (sample_update_online u secret) [] = Ok m \<and> signed_by_writer (sample_update_online u secret) (core sample_receiver) m"
proof -
  obtain u secret t where t: "handleBeeKEMPathUpdateRequestData (sample_update_online u secret) (sample_update_env u) [] sample_receiver = (Ok (), t)"
    "ratchet t \<noteq> ratchet sample_receiver" using sample_path_update by blast
  from member_path_update_needs_writer [OF sample_receiver_facts(1) t(1)] t(2) show ?thesis by blast
qed

section \<open>A key update\<close>

text \<open>The writer \<^verbatim>\<open>a\<close> removes the writer \<^verbatim>\<open>w\<close>, whose own document \<open>sample_removed\<close> still knows \<^verbatim>\<open>a\<close>.\<close>

definition wire_text :: "(string, string) sync_message \<Rightarrow> bytes" where
  "wire_text m = enc_text (case m_keychainChanges m of Some c \<Rightarrow> c | None \<Rightarrow> []) @ enc_text (case m_signature m of Some c \<Rightarrow> c | None \<Rightarrow> [])"

definition read_wire :: "bytes \<Rightarrow> (string, string) sync_message" where
  "read_wire b = (case dec_text b of (ch, r) \<Rightarrow> (empty_message ''/doc'')\<lparr>m_keychainChanges := Some ch, m_signature := Some (fst (dec_text r))\<rparr>)"

lemma read_wire_text: "read_wire (wire_text ((empty_message ''/doc'')\<lparr>m_keychainChanges := Some ch, m_signature := Some sig\<rparr>))
    = (empty_message ''/doc'')\<lparr>m_keychainChanges := Some ch, m_signature := Some sig\<rparr>"
  using dec_enc_text [of sig "[]"] by (simp add: wire_text_def read_wire_def dec_enc_text)

definition sample_speaking :: "string \<Rightarrow> sample_env" where
  "sample_speaking user = (sample_env user defaultCompactionConfig (\<lambda>_. True))\<lparr>serializeSyncMessage := wire_text, deserializeSyncMessage := (\<lambda>b. Ok (read_wire b))\<rparr>"

definition sample_writers :: "(string list, string, string, string list, unit, string, byte, byte) member_doc" where
  "sample_writers = (sample_founder_doc sample_online)\<lparr>core := (sample_doc sample_online)\<lparr>writers := [''a'', ''w'']\<rparr>\<rparr>"

definition sample_removed :: sample_doc where
  "sample_removed = (sample_doc sample_online)\<lparr>writers := [''a'', ''w'']\<rparr>"

lemma byte_of_char: "of_char (char_of (unat b)) = (b :: byte)"
proof -
  have "unat b < 256" using unsigned_less [of b] by simp
  then have "(of_nat (of_char (char_of (unat b))) :: byte) = b" by (simp del: of_nat_of_char)
  then show ?thesis by (simp only: of_nat_of_char)
qed

lemma text_encode_decode: "text_encode (text_decode b) = b"
  by (induction b) (simp_all add: text_encode_def text_decode_def byte_of_char)

lemma text_nonempty: "text_encode s = [] \<longleftrightarrow> s = []" "text_decode b = [] \<longleftrightarrow> b = []"
  by (simp_all add: text_encode_def text_decode_def)

lemma sample_speaking_facts:
  "shared_wire (sample_speaking ''a'') (sample_speaking ''w'')" "doc_ok (sample_speaking ''w'') sample_removed"
  "accepts_signer (sample_speaking ''a'') (sample_speaking ''w'') sample_removed"
proof -
  show "shared_wire (sample_speaking ''a'') (sample_speaking ''w'')"
    by (auto simp: shared_wire_def sample_speaking_def sample_env_def key_update_message_def read_wire_text)
  show "doc_ok (sample_speaking ''w'') sample_removed"
    by (simp add: doc_ok_def snapshot_count_def sample_removed_def sample_run)
  show "accepts_signer (sample_speaking ''a'') (sample_speaking ''w'') sample_removed"
    by (auto simp: accepts_signer_def signed_by_writer_def sample_speaking_def sample_env_def sample_removed_def getWriters_def text_encode_decode text_nonempty)
qed

theorem member_key_update_reaches_holders_witness:
  "\<exists>t payload body. removeWriter (sample_speaking ''a'') sample_member_env ''w'' sample_writers = (Ok (), t) \<and> (DocumentKeyUpdateV2, ''p'', payload) \<in> set (sent t)
    \<and> path_prefixed (sample_speaking ''a'') body = Ok payload"
proof -
  obtain t payload where t: "removeWriter (sample_speaking ''a'') sample_member_env ''w'' sample_writers = (Ok (), t)" "sent t = [(DocumentKeyUpdateV2, ''p'', payload)]"
    by (simp add: removeWriter_def distributeKeyUpdate_def add_key_def fan_out_def path_prefixed_def MAX_DOCUMENT_PATH_LENGTH_def in_doc_def mutate_writers_def
        doc_run sample_run sample_online_def sample_member_run sample_speaking_def sample_writers_def text_encode_def
        end_writer_mutation_def begin_writer_mutation_def invalidateWriterKeyCache_def)
  have acl: "aclCheck (sample_speaking ''a'') (writers (core sample_writers)) ''w''" "sent sample_writers = []"
    by (simp_all add: sample_speaking_def sample_env_def sample_writers_def sample_founder_doc_def)
  have held: "\<forall>ch. \<exists>kc. kcMerge (sample_speaking ''w'') ch (keychain sample_removed) = Ok kc"
    "\<forall>keyID k. kcCurrent (sample_speaking ''a'') (keychain (core sample_writers)) = Ok (keyID, Some k) \<longrightarrow> length keyID = keyIDLength (sample_speaking ''w'')
      \<and> kcGetKey (sample_speaking ''w'') (keychain sample_removed) keyID = Some k"
    by (auto simp: sample_speaking_def sample_env_def)
  have "(DocumentKeyUpdateV2, ''p'', payload) \<in> set (drop (length (sent sample_writers)) (sent t))" using t(2) acl(2) by simp
  from member_key_update_reaches_holders [OF t(1) acl(1) this sample_speaking_facts held] show ?thesis using t by auto
qed

theorem member_validator_agrees_witness:
  "\<exists>v k. topic_validator (sample_speaking ''w'') [] sample_removed = (Ok v, sample_removed\<lparr>cachedWriterKeys := k\<rparr>) \<and> v = Ignore_message"
proof -
  have "enableSigning (sample_speaking ''w'')" "opened (sample_speaking ''w'') sample_removed [] = None"
    by (simp_all add: sample_speaking_def sample_env_def opened_def decryptBlock_def)
  with member_validator_agrees [OF sample_speaking_facts(2), of "[]"] show ?thesis by blast
qed

end
