(* ===== verification/OpenLoad.thy ===== *)
theory OpenLoad
  imports DocLoadSample MembershipSample
begin

text \<open>Opening a document over \<^verbatim>\<open>load\<close>: the composition of \<open>Membership\<close> and \<open>DocLoad\<close>.\<close>

definition load_for_open :: "('doc, 'c, 'fn, 'acl, 'kc, 'pk, 'key) doc_env \<Rightarrow> load_env \<Rightarrow> ('doc, 'c, 'fn, 'acl, 'kc, 'pk, bool) doc_eff" where
  "load_for_open E L s = (case load E L None s of
     (Inl (Request_failed e), t) \<Rightarrow> (Err e, t)
   | (Inl (Quorum_threw msg), t) \<Rightarrow> (Err (Provider_threw msg), t)
   | (Inl (Quorum_refused _ _), t) \<Rightarrow> (Err (Provider_threw ''LoadQuorumFailedError''), t)
   | (Inr b, t) \<Rightarrow> (Ok b, t))"

definition open_from_peers where
  "open_from_peers E M L = open_doc E M (load_for_open E L)"

lemma open_existing: "open_doc E M f s = (Ok False, t) \<Longrightarrow> \<exists>d. f (core s) = (Ok False, d)"
  by (auto simp: open_doc_def in_doc_def eff_bind_eq eff_catch_def Let_def split: prod.splits sum.splits if_splits)

lemma open_load_throws: "f (core s) = (Err e, d) \<Longrightarrow> open_doc E M f s = (Err (Doc_error e), s\<lparr>core := d\<rparr>)"
  by (simp add: open_doc_def in_doc_def eff_bind_def)



end
