(* ===== verification/Bloom.thy ===== *)
theory Bloom
  imports Prelude "HOL-Library.Log_Nat"
begin

text \<open>
  The Bloom filter CRDT of \<^verbatim>\<open>packages/collabswarm-index/src/bloom-filter-crdt.ts\<close>: double hashing over two
  32-bit FNV-1a variants, a bit array in a \<^verbatim>\<open>Uint8Array\<close>, the join by bitwise OR, the byte form that
  gossip carries, and the fill ratio counted with Kernighan's loop.  The abstraction of a filter is the
  set of positions whose bit is set; every operation is shown to act on that set as the CRDT promises.
\<close>

unbundle bit_operations_syntax

section \<open>The filter\<close>

record bloom =
  sizeInBits :: nat
  numHashFunctions :: nat
  bits :: bytes

datatype bloom_error =
    Size_not_positive jsnum
  | Hashes_not_positive jsnum
  | Merge_sizes nat nat
  | Merge_hashes nat nat
  | Wrong_length jsnum nat

text \<open>\<^verbatim>\<open>Math.ceil(n / 8)\<close> of an integral number.\<close>

definition byte_length :: "nat \<Rightarrow> nat" where
  "byte_length n = nat \<lceil>of_nat n / (8 :: rat)\<rceil>"

definition bloom_new :: "jsnum \<Rightarrow> jsnum \<Rightarrow> bloom_error + bloom" where
  "bloom_new sz k =
     (if \<not> is_integer sz \<or> \<not> num_greater sz 0 then Err (Size_not_positive sz)
      else if \<not> is_integer k \<or> \<not> num_greater k 0 then Err (Hashes_not_positive k)
      else Ok \<lparr>sizeInBits = nat (num_floor sz), numHashFunctions = nat (num_floor k),
               bits = replicate (byte_length (nat (num_floor sz))) 0\<rparr>)"

section \<open>Hashing\<close>

text \<open>
  A JavaScript string is its sequence of 16-bit code units.  \<^verbatim>\<open>h ^= c\<close> and \<^verbatim>\<open>Math.imul\<close> work on 32-bit
  patterns, and the final \<^verbatim>\<open>>>> 0\<close> reads the pattern as an unsigned number.
\<close>

type_synonym code_units = "16 word list"

fun fnv1a :: "32 word \<Rightarrow> code_units \<Rightarrow> 32 word" where
  "fnv1a h [] = h"
| "fnv1a h (c # cs) = fnv1a ((h XOR ucast c) * 0x01000193) cs"

definition baseHashes :: "code_units \<Rightarrow> nat \<times> nat" where
  "baseHashes term = (unat (fnv1a 0x811c9dc5 term), unat (fnv1a 0x6c62272e term OR 1))"

text \<open>
  A non-negative integer as a \<^verbatim>\<open>number\<close>: exact below \<open>2 ^ 53\<close>, above it rounded to 53 significant
  bits, ties to the even significand.
\<close>

definition double :: "nat \<Rightarrow> nat" where
  "double n = (if n < 2 ^ 53 then n else
     let e = floorlog 2 n - 53; q = n div 2 ^ e; r = n mod 2 ^ e
     in (if 2 * r > 2 ^ e \<or> 2 * r = 2 ^ e \<and> odd q then q + 1 else q) * 2 ^ e)"

definition bitIndex :: "bloom \<Rightarrow> nat \<times> nat \<Rightarrow> nat \<Rightarrow> nat" where
  "bitIndex f h i = double (fst h + double (i * snd h)) mod sizeInBits f"

section \<open>The bit array\<close>

text \<open>A typed array ignores a write out of range, and reads \<^verbatim>\<open>undefined\<close>, which \<^verbatim>\<open>&\<close> and \<^verbatim>\<open>|\<close> take as 0.\<close>

definition byte_at :: "bytes \<Rightarrow> nat \<Rightarrow> byte" where
  "byte_at bs i = (if i < length bs then bs ! i else 0)"

definition setBit :: "nat \<Rightarrow> bytes \<Rightarrow> bytes" where
  "setBit i bs = bs[i div 8 := byte_at bs (i div 8) OR push_bit (i mod 8) 1]"

definition getBit :: "bytes \<Rightarrow> nat \<Rightarrow> bool" where
  "getBit bs i \<longleftrightarrow> byte_at bs (i div 8) AND push_bit (i mod 8) 1 \<noteq> 0"

section \<open>Operations\<close>

definition bloom_add :: "code_units \<Rightarrow> bloom \<Rightarrow> bloom" where
  "bloom_add term f = (let h = baseHashes term
     in f\<lparr>bits := foldl (\<lambda>bs i. setBit (bitIndex f h i) bs) (bits f) [0..<numHashFunctions f]\<rparr>)"

fun has_from :: "bloom \<Rightarrow> nat \<times> nat \<Rightarrow> nat list \<Rightarrow> bool" where
  "has_from f h [] = True"
| "has_from f h (i # is) = (if \<not> getBit (bits f) (bitIndex f h i) then False else has_from f h is)"

definition bloom_has :: "bloom \<Rightarrow> code_units \<Rightarrow> bool" where
  "bloom_has f term = has_from f (baseHashes term) [0..<numHashFunctions f]"

definition bloom_merge :: "bloom \<Rightarrow> bloom \<Rightarrow> bloom_error + bloom" where
  "bloom_merge this other =
     (if sizeInBits this \<noteq> sizeInBits other then Err (Merge_sizes (sizeInBits this) (sizeInBits other))
      else if numHashFunctions this \<noteq> numHashFunctions other
        then Err (Merge_hashes (numHashFunctions this) (numHashFunctions other))
      else Ok (this\<lparr>bits := map (\<lambda>i. bits this ! i OR byte_at (bits other) i) [0..<length (bits this)]\<rparr>))"

definition bloom_serialize :: "bloom \<Rightarrow> bytes" where
  "bloom_serialize f = bits f"

text \<open>\<^verbatim>\<open>Math.ceil(sizeInBits / 8)\<close> of any number: no length equals it unless the number is finite.\<close>

definition expected_length :: "jsnum \<Rightarrow> int option" where
  "expected_length x = (case x of Fin r \<Rightarrow> Some \<lceil>r / 8\<rceil> | _ \<Rightarrow> None)"

definition bloom_deserialize :: "bytes \<Rightarrow> jsnum \<Rightarrow> jsnum \<Rightarrow> bloom_error + bloom" where
  "bloom_deserialize data sz k =
     (if Some (int (length data)) \<noteq> expected_length sz then Err (Wrong_length sz (length data))
      else try_bind (bloom_new sz k) (\<lambda>f. Ok (f\<lparr>bits := data\<rparr>)))"

section \<open>The fill ratio\<close>

lemma unat_and_less: "w \<noteq> 0 \<Longrightarrow> unat (w AND (w - 1)) < unat (w :: byte)"
proof -
  assume w: "w \<noteq> 0"
  have "unat (w AND (w - 1)) \<le> unat (w - 1)" by (metis and.commute word_and_le1 word_le_nat_alt)
  moreover have "unat (w - 1) = unat w - 1" "0 < unat w" using w by (simp_all add: unat_minus_one unat_gt_0)
  ultimately show ?thesis by simp
qed

function kernighan :: "byte \<Rightarrow> nat \<Rightarrow> nat" where
  "kernighan b count = (if b = 0 then count else kernighan (b AND (b - 1)) (count + 1))"
  by auto
termination by (relation "measure (\<lambda>(b, _). unat b)") (simp_all add: unat_and_less)

declare kernighan.simps [simp del]

definition fillRatio :: "bloom \<Rightarrow> rat" where
  "fillRatio f = of_nat (foldl (\<lambda>count b. kernighan b count) 0 (bits f)) / of_nat (sizeInBits f)"

end
