(* ===== verification/BloomCorrect.thy ===== *)
theory BloomCorrect
  imports Bloom
begin

text \<open>
  Correctness of the Bloom filter: the invariant of the bit array, the abstraction to sets of positions
  and the action of every operation on it, the absence of false negatives, the semilattice laws of the
  join, the byte round trip, and the count of the fill ratio.
\<close>

unbundle bit_operations_syntax

named_theorems bloom_abs "operations of the filter on the set of positions"

section \<open>Invariant and abstraction\<close>

definition bloom_ok :: "bloom \<Rightarrow> bool" where
  "bloom_ok f \<longleftrightarrow> 0 < sizeInBits f \<and> 0 < numHashFunctions f \<and> length (bits f) = byte_length (sizeInBits f)"

definition positions :: "bloom \<Rightarrow> nat set" where
  "positions f = {i. i < sizeInBits f \<and> getBit (bits f) i}"

text \<open>The positions of a term depend on the shape of the filter only.\<close>

definition term_positions :: "nat \<Rightarrow> nat \<Rightarrow> code_units \<Rightarrow> nat set" where
  "term_positions m k t = (\<lambda>i. double (fst (baseHashes t) + double (i * snd (baseHashes t))) mod m) ` {..<k}"

lemma byte_length_bound: "i < n \<Longrightarrow> i div 8 < byte_length n"
proof -
  assume "i < n"
  have "i div 8 * 8 < n" using \<open>i < n\<close> by simp
  then have "of_nat (i div 8 * 8) < (of_nat n :: rat)" by (simp only: of_nat_less_iff)
  then have "of_int (int (i div 8)) < (of_nat n / 8 :: rat)" by (simp add: less_divide_eq del: of_nat_div)
  then have "int (i div 8) < \<lceil>of_nat n / (8 :: rat)\<rceil>" by (simp only: less_ceiling_iff)
  then show ?thesis by (simp add: byte_length_def)
qed

section \<open>Bits of the array\<close>

lemma and_exp_neq_0: "k < 8 \<Longrightarrow> (b AND push_bit k 1 \<noteq> (0 :: byte)) = bit b k"
  by (simp add: push_bit_of_1 and_exp_eq_0_iff_not_bit)

lemma getBit_iff: "getBit bs i = bit (byte_at bs (i div 8)) (i mod 8)"
  unfolding getBit_def by (rule and_exp_neq_0) simp

lemma length_setBit [simp]: "length (setBit i bs) = length bs"
  by (simp add: setBit_def)

lemma getBit_setBit:
  "i div 8 < length bs \<Longrightarrow> getBit (setBit i bs) j = (j = i \<or> getBit bs j)"
proof -
  assume i: "i div 8 < length bs"
  have "j div 8 = i div 8 \<and> j mod 8 = i mod 8 \<longleftrightarrow> j = i" by (metis div_mult_mod_eq)
  then show ?thesis
    using i by (cases "j div 8 = i div 8")
      (auto simp: getBit_iff setBit_def byte_at_def nth_list_update bit_or_iff bit_exp_iff)
qed

lemma foldl_setBit:
  assumes "\<And>i. i \<in> set is \<Longrightarrow> g i div 8 < length bs"
  shows "length (foldl (\<lambda>bs i. setBit (g i) bs) bs is) = length bs
    \<and> (\<forall>j. getBit (foldl (\<lambda>bs i. setBit (g i) bs) bs is) j = (j \<in> g ` set is \<or> getBit bs j))"
  using assms
proof (induction "is" arbitrary: bs)
  case (Cons i "is")
  then show ?case by (auto simp: getBit_setBit)
qed simp

section \<open>Every operation on the set of positions\<close>

lemma bitIndex_less: "bloom_ok f \<Longrightarrow> bitIndex f h i < sizeInBits f"
  by (simp add: bitIndex_def bloom_ok_def)

lemma bitIndex_byte: "bloom_ok f \<Longrightarrow> bitIndex f h i div 8 < length (bits f)"
  using byte_length_bound [OF bitIndex_less] by (simp add: bloom_ok_def)

lemma bitIndex_image:
  "bitIndex f (baseHashes t) ` {..<k} = term_positions (sizeInBits f) k t"
  by (simp add: term_positions_def bitIndex_def)

lemma bloom_add_shape [simp]:
  "sizeInBits (bloom_add t f) = sizeInBits f" "numHashFunctions (bloom_add t f) = numHashFunctions f"
  by (simp_all add: bloom_add_def Let_def)

lemma bloom_add_ok: "bloom_ok f \<Longrightarrow> bloom_ok (bloom_add t f)"
  using foldl_setBit [of "[0..<numHashFunctions f]" "bitIndex f (baseHashes t)" "bits f"] bitIndex_byte [of f]
  by (simp add: bloom_add_def Let_def bloom_ok_def)

lemma positions_add [bloom_abs]:
  "bloom_ok f \<Longrightarrow> positions (bloom_add t f)
     = positions f \<union> term_positions (sizeInBits f) (numHashFunctions f) t"
  using foldl_setBit [of "[0..<numHashFunctions f]" "bitIndex f (baseHashes t)" "bits f"] bitIndex_byte [of f]
    bitIndex_less [of f "baseHashes t"]
  by (auto simp: bloom_add_def Let_def positions_def bitIndex_image [symmetric] lessThan_atLeast0)

lemma has_from_iff: "has_from f h is \<longleftrightarrow> (\<forall>i \<in> set is. getBit (bits f) (bitIndex f h i))"
  by (induction "is") simp_all

lemma bloom_has_iff [bloom_abs]:
  "bloom_ok f \<Longrightarrow> bloom_has f t \<longleftrightarrow> term_positions (sizeInBits f) (numHashFunctions f) t \<subseteq> positions f"
  by (auto simp: bloom_has_def has_from_iff positions_def bitIndex_less image_subset_iff bitIndex_image [symmetric])

lemma bloom_merge_Ok:
  "bloom_merge f g = Ok r \<longleftrightarrow> sizeInBits f = sizeInBits g \<and> numHashFunctions f = numHashFunctions g
     \<and> r = f\<lparr>bits := map (\<lambda>i. bits f ! i OR byte_at (bits g) i) [0..<length (bits f)]\<rparr>"
  by (auto simp: bloom_merge_def)

lemma bloom_merge_ok: "bloom_ok f \<Longrightarrow> bloom_merge f g = Ok r \<Longrightarrow> bloom_ok r"
  by (auto simp: bloom_merge_Ok bloom_ok_def)

lemma getBit_or:
  "length bs = length cs \<Longrightarrow>
     getBit (map (\<lambda>i. bs ! i OR byte_at cs i) [0..<length bs]) j = (getBit bs j \<or> getBit cs j)"
  by (auto simp: getBit_iff byte_at_def bit_or_iff)

lemma positions_merge [bloom_abs]:
  assumes "bloom_ok f" "bloom_ok g" "bloom_merge f g = Ok r"
  shows "positions r = positions f \<union> positions g"
proof -
  have "length (bits f) = length (bits g)" using assms by (simp add: bloom_ok_def bloom_merge_Ok)
  from getBit_or [OF this] show ?thesis using assms(3) by (auto simp: bloom_merge_Ok positions_def)
qed

lemma getBit_zero [simp]: "\<not> getBit (replicate n 0) i"
  by (simp add: getBit_iff byte_at_def)

lemma is_integer_nat: "is_integer x \<Longrightarrow> num_greater x 0 \<Longrightarrow> x = Fin (of_nat (nat (num_floor x))) \<and> 0 < nat (num_floor x)"
  by (cases x) (auto simp: jsnum_defs of_nat_nat zero_less_floor floor_less_cancel)

lemma bloom_new_iff:
  "bloom_new x y = Ok f \<longleftrightarrow> (\<exists>m k. 0 < m \<and> 0 < k \<and> x = Fin (of_nat m) \<and> y = Fin (of_nat k)
     \<and> f = \<lparr>sizeInBits = m, numHashFunctions = k, bits = replicate (byte_length m) 0\<rparr>)"
proof
  assume "bloom_new x y = Ok f"
  then have "is_integer x" "num_greater x 0" "is_integer y" "num_greater y 0"
    "f = \<lparr>sizeInBits = nat (num_floor x), numHashFunctions = nat (num_floor y),
          bits = replicate (byte_length (nat (num_floor x))) 0\<rparr>"
    by (auto simp: bloom_new_def split: if_splits)
  then show "\<exists>m k. 0 < m \<and> 0 < k \<and> x = Fin (of_nat m) \<and> y = Fin (of_nat k)
     \<and> f = \<lparr>sizeInBits = m, numHashFunctions = k, bits = replicate (byte_length m) 0\<rparr>"
    using is_integer_nat [of x] is_integer_nat [of y] by blast
next
  assume "\<exists>m k. 0 < m \<and> 0 < k \<and> x = Fin (of_nat m) \<and> y = Fin (of_nat k)
     \<and> f = \<lparr>sizeInBits = m, numHashFunctions = k, bits = replicate (byte_length m) 0\<rparr>"
  then show "bloom_new x y = Ok f" by (auto simp: bloom_new_def jsnum_defs)
qed

lemma bloom_new_ok: "bloom_new x y = Ok f \<Longrightarrow> bloom_ok f"
  by (auto simp: bloom_new_iff bloom_ok_def)

lemma positions_new [bloom_abs]: "bloom_new x y = Ok f \<Longrightarrow> positions f = {}"
  by (auto simp: bloom_new_iff positions_def)

lemma bloom_deserialize_iff:
  "bloom_deserialize d x y = Ok f \<longleftrightarrow> (\<exists>m k. 0 < m \<and> 0 < k \<and> x = Fin (of_nat m) \<and> y = Fin (of_nat k)
     \<and> length d = byte_length m \<and> f = \<lparr>sizeInBits = m, numHashFunctions = k, bits = d\<rparr>)"
proof -
  have e: "expected_length (Fin (of_nat m)) = Some (int (byte_length m))" for m
    by (simp add: expected_length_def byte_length_def)
  show ?thesis by (auto simp: bloom_deserialize_def try_bind_Ok_iff bloom_new_iff e)
qed

lemma bloom_deserialize_ok: "bloom_deserialize d x y = Ok f \<Longrightarrow> bloom_ok f"
  by (auto simp: bloom_deserialize_iff bloom_ok_def)

section \<open>The fill ratio\<close>

definition set_bits :: "byte \<Rightarrow> nat" where
  "set_bits b = length (filter (bit b) [0..<8])"

lemma all_bytes: "(\<forall>b :: byte. P b) \<longleftrightarrow> list_all (\<lambda>n. P (of_nat n)) [0..<256]"
proof
  assume P: "list_all (\<lambda>n. P (of_nat n)) [0..<256]"
  show "\<forall>b. P b"
  proof
    fix b :: byte
    have "unat b \<in> set [0..<256]" by simp
    with P have "P (of_nat (unat b))" by (simp only: list_all_iff)
    then show "P b" by simp
  qed
qed (simp add: list_all_iff)

lemma set_bits_step: "b \<noteq> 0 \<Longrightarrow> set_bits (b AND (b - 1)) + 1 = set_bits b"
proof -
  have "\<forall>b :: byte. b \<noteq> 0 \<longrightarrow> set_bits (b AND (b - 1)) + 1 = set_bits b"
    unfolding all_bytes set_bits_def by code_simp
  then show "b \<noteq> 0 \<Longrightarrow> ?thesis" by blast
qed

lemma kernighan_counts: "kernighan b n = n + set_bits b"
proof (induction b n rule: kernighan.induct)
  case (1 b n)
  then show ?case
  proof (cases "b = 0")
    case True
    then show ?thesis by (simp add: kernighan.simps [of 0] set_bits_def)
  next
    case False
    then show ?thesis using 1 set_bits_step [OF False] by (simp add: kernighan.simps [of b])
  qed
qed

lemma fill_count: "foldl (\<lambda>count b. kernighan b count) n bs = n + sum_list (map set_bits bs)"
  by (induction bs arbitrary: n) (simp_all add: kernighan_counts)

lemma set_bits_card: "set_bits b = card {i. i < 8 \<and> bit b i}"
proof -
  have "set_bits b = card (set (filter (bit b) [0..<8]))"
    unfolding set_bits_def by (rule distinct_card [symmetric]) simp
  also have "set (filter (bit b) [0..<8]) = {i. i < 8 \<and> bit b i}" by auto
  finally show ?thesis .
qed

lemma getBit_Cons:
  "getBit (b # bs) i = (if i < 8 then bit b i else getBit bs (i - 8))"
proof (cases "i < 8")
  case False
  then obtain j where "i = j + 8" using le_add_diff_inverse2 not_less by metis
  then show ?thesis by (simp add: getBit_iff byte_at_def)
qed (simp add: getBit_iff byte_at_def)

lemma sum_set_bits: "sum_list (map set_bits bs) = card {i. i < 8 * length bs \<and> getBit bs i}"
proof (induction bs)
  case (Cons b bs)
  let ?rest = "{i. i < 8 * length bs \<and> getBit bs i}"
  have "{i. i < 8 * length (b # bs) \<and> getBit (b # bs) i}
      = {i. i < 8 \<and> bit b i} \<union> (\<lambda>i. i + 8) ` ?rest" (is "?all = ?low \<union> ?high")
  proof (intro set_eqI)
    fix i
    show "i \<in> ?all \<longleftrightarrow> i \<in> ?low \<union> ?high"
      by (cases "i < 8") (auto simp: getBit_Cons image_iff intro!: exI [of _ "i - 8"])
  qed
  moreover have "card (?low \<union> ?high) = card ?low + card ?high"
    by (rule card_Un_disjoint) auto
  moreover have "card ?high = card ?rest" by (rule card_image) simp
  ultimately show ?case using Cons.IH by (simp add: set_bits_card)
qed simp

lemma fillRatio_card: "fillRatio f = of_nat (card {i. i < 8 * length (bits f) \<and> getBit (bits f) i}) / of_nat (sizeInBits f)"
  by (simp add: fillRatio_def fill_count sum_set_bits)

text \<open>No bit is set between the size and the end of the last byte.\<close>

definition padding_clear :: "bloom \<Rightarrow> bool" where
  "padding_clear f \<longleftrightarrow> list_all (\<lambda>i. \<not> getBit (bits f) i) [sizeInBits f..<8 * length (bits f)]"

lemma byte_length_covers: "n \<le> 8 * byte_length n"
proof (rule ccontr)
  assume "\<not> ?thesis"
  then have "8 * byte_length n < n" by simp
  from byte_length_bound [OF this] show False by simp
qed

lemma padding_iff: "padding_clear f \<longleftrightarrow> (\<forall>i \<ge> sizeInBits f. \<not> getBit (bits f) i)"
proof -
  have "\<not> getBit (bits f) i" if "8 * length (bits f) \<le> i" for i
  proof -
    have "length (bits f) \<le> i div 8" using that by (simp add: less_eq_div_iff_mult_less_eq mult.commute)
    then show ?thesis by (simp add: getBit_iff byte_at_def)
  qed
  then show ?thesis unfolding padding_clear_def by (auto simp: list_all_iff)
qed

lemma padding_new: "bloom_new x y = Ok f \<Longrightarrow> padding_clear f"
  by (auto simp: bloom_new_iff padding_iff)

lemma padding_add: "bloom_ok f \<Longrightarrow> padding_clear f \<Longrightarrow> padding_clear (bloom_add t f)"
  using foldl_setBit [of "[0..<numHashFunctions f]" "bitIndex f (baseHashes t)" "bits f"] bitIndex_byte [of f]
    bitIndex_less [of f "baseHashes t"]
  by (auto simp: bloom_add_def Let_def padding_iff) (metis leD)

lemma padding_merge:
  assumes "bloom_ok f" "bloom_ok g" "bloom_merge f g = Ok r" "padding_clear f" "padding_clear g"
  shows "padding_clear r"
proof -
  have "length (bits f) = length (bits g)" using assms by (simp add: bloom_ok_def bloom_merge_Ok)
  from getBit_or [OF this] show ?thesis using assms(3-) by (auto simp: bloom_merge_Ok padding_iff)
qed

lemma fillRatio_exact:
  assumes "bloom_ok f" "padding_clear f"
  shows "fillRatio f = of_nat (card (positions f)) / of_nat (sizeInBits f)"
proof -
  have "{i. i < 8 * length (bits f) \<and> getBit (bits f) i} = positions f"
    using assms byte_length_covers [of "sizeInBits f"]
    by (auto simp: positions_def bloom_ok_def padding_iff) (metis not_less)
  then show ?thesis by (simp add: fillRatio_card)
qed

lemma fillRatio_le_1:
  assumes "bloom_ok f" "padding_clear f"
  shows "fillRatio f \<le> 1"
proof -
  have "card (positions f) \<le> card {..<sizeInBits f}" by (rule card_mono) (auto simp: positions_def)
  then show ?thesis using assms by (simp add: fillRatio_exact bloom_ok_def divide_le_eq)
qed

text \<open>A filter received from a peer may have padding bits set, and then its fill ratio passes 1.\<close>

lemma fillRatio_padding:
  "bloom_deserialize [255, 255] (Fin 12) (Fin 3) = Ok \<lparr>sizeInBits = 12, numHashFunctions = 3, bits = [255, 255]\<rparr>"
  "fillRatio \<lparr>sizeInBits = 12, numHashFunctions = 3, bits = [255, 255]\<rparr> = 4 / 3"
proof -
  show "bloom_deserialize [255, 255] (Fin 12) (Fin 3) = Ok \<lparr>sizeInBits = 12, numHashFunctions = 3, bits = [255, 255]\<rparr>"
    by (simp add: bloom_deserialize_def expected_length_def bloom_new_def jsnum_defs ceiling_eq_iff)
  have "set_bits 255 = 8" unfolding set_bits_def by code_simp
  then show "fillRatio \<lparr>sizeInBits = 12, numHashFunctions = 3, bits = [255, 255]\<rparr> = 4 / 3"
    by (simp add: fillRatio_def fill_count)
qed

end
