(* ===== verification/BloomGossip.thy ===== *)
theory BloomGossip
  imports BloomCorrect
begin

text \<open>
  \<^verbatim>\<open>packages/collabswarm-index/src/bloom-filter-gossip.ts\<close>: the local filter, the filters received from
  peers and their join, the start and stop of the exchange, and the query for peers.  The pub/sub
  functions are wired together by \<^verbatim>\<open>setPubSub\<close>; their calls are the effects the operations return.
\<close>

section \<open>State\<close>

record peer_filter_state =
  peerId :: string
  peer_filter :: bloom
  lastUpdated :: nat

record gossip_config =
  topic :: string
  filterSizeInBits :: jsnum
  configHashFunctions :: jsnum
  republishIntervalMs :: jsnum

text \<open>A partial configuration: \<open>None\<close> for an absent property.\<close>

record partial_gossip_config =
  opt_topic :: "string option"
  opt_filterSizeInBits :: "jsnum option"
  opt_numHashFunctions :: "jsnum option"
  opt_republishIntervalMs :: "jsnum option"

definition bloomFilterUpdateV1 :: string where
  "bloomFilterUpdateV1 = ''/collabswarm/bloom-index/1.0.0''"

definition DEFAULT_CONFIG :: gossip_config where
  "DEFAULT_CONFIG = \<lparr>topic = bloomFilterUpdateV1, filterSizeInBits = Fin 65536,
     configHashFunctions = Fin 7, republishIntervalMs = Fin 30000\<rparr>"

definition or_default :: "'a option \<Rightarrow> 'a \<Rightarrow> 'a" where
  "or_default x d = (case x of Some v \<Rightarrow> v | None \<Rightarrow> d)"

definition spread_config :: "partial_gossip_config \<Rightarrow> gossip_config" where
  "spread_config c = \<lparr>topic = or_default (opt_topic c) (topic DEFAULT_CONFIG),
     filterSizeInBits = or_default (opt_filterSizeInBits c) (filterSizeInBits DEFAULT_CONFIG),
     configHashFunctions = or_default (opt_numHashFunctions c) (configHashFunctions DEFAULT_CONFIG),
     republishIntervalMs = or_default (opt_republishIntervalMs c) (republishIntervalMs DEFAULT_CONFIG)\<rparr>"

record gossip =
  localFilter :: bloom
  peerFilters :: "(string, peer_filter_state) jsmap"
  gossipConfig :: gossip_config
  republishTimer :: "jsnum option"
  started :: bool
  wired :: bool

datatype gossip_effect =
    Subscribe_topic string
  | Unsubscribe_topic string
  | Publish_topic string bytes
  | Warn_malformed string

datatype gossip_error = Filter_error bloom_error | Not_wired

section \<open>Operations\<close>

definition gossip_new :: "partial_gossip_config \<Rightarrow> bloom_error + gossip" where
  "gossip_new c = (let cfg = spread_config c in
     try_bind (bloom_new (filterSizeInBits cfg) (configHashFunctions cfg)) (\<lambda>f.
       Ok \<lparr>localFilter = f, peerFilters = [], gossipConfig = cfg, republishTimer = None,
          started = False, wired = False\<rparr>))"

definition setPubSub :: "gossip \<Rightarrow> gossip" where
  "setPubSub g = g\<lparr>wired := True\<rparr>"

definition gossip_start :: "gossip \<Rightarrow> gossip_error + gossip \<times> gossip_effect list" where
  "gossip_start g =
     (if started g then Ok (g, [])
      else if \<not> wired g then Err Not_wired
      else Ok (g\<lparr>started := True, republishTimer := Some (republishIntervalMs (gossipConfig g))\<rparr>,
               [Subscribe_topic (topic (gossipConfig g))]))"

definition gossip_stop :: "gossip \<Rightarrow> gossip \<times> gossip_effect list" where
  "gossip_stop g =
     (if \<not> started g then (g, [])
      else (g\<lparr>started := False, republishTimer := None\<rparr>,
            if wired g then [Unsubscribe_topic (topic (gossipConfig g))] else []))"

definition addTerm :: "code_units \<Rightarrow> gossip \<Rightarrow> gossip" where
  "addTerm t g = g\<lparr>localFilter := bloom_add t (localFilter g)\<rparr>"

definition publishFilter :: "gossip \<Rightarrow> gossip_effect list" where
  "publishFilter g = (if \<not> wired g then []
     else [Publish_topic (topic (gossipConfig g)) (bloom_serialize (localFilter g))])"

text \<open>
  A filter that does not deserialize is dropped with a warning.  The error branch is the one \<^verbatim>\<open>merge\<close>
  would throw; \<open>now\<close> is the value of \<^verbatim>\<open>Date.now()\<close>.
\<close>

definition onReceiveFilter :: "string \<Rightarrow> bytes \<Rightarrow> nat \<Rightarrow> gossip \<Rightarrow> bloom_error + gossip \<times> gossip_effect list" where
  "onReceiveFilter peer data now g =
     (case bloom_deserialize data (filterSizeInBits (gossipConfig g)) (configHashFunctions (gossipConfig g)) of
        Inl _ \<Rightarrow> Ok (g, [Warn_malformed peer])
      | Inr received \<Rightarrow>
          (case map_get (peerFilters g) peer of
             Some existing \<Rightarrow>
               try_bind (bloom_merge (peer_filter existing) received) (\<lambda>merged.
                 Ok (g\<lparr>peerFilters := map_set peer (existing\<lparr>peer_filter := merged, lastUpdated := now\<rparr>) (peerFilters g)\<rparr>, []))
           | None \<Rightarrow>
               Ok (g\<lparr>peerFilters := map_set peer \<lparr>peerId = peer, peer_filter = received, lastUpdated = now\<rparr> (peerFilters g)\<rparr>, [])))"

definition queryPeers :: "gossip \<Rightarrow> code_units list \<Rightarrow> string list" where
  "queryPeers g terms =
     map fst (filter (\<lambda>(p, st). list_all (bloom_has (peer_filter st)) terms) (peerFilters g))"

fun merge_all :: "bloom \<Rightarrow> bloom list \<Rightarrow> bloom_error + bloom" where
  "merge_all f [] = Ok f"
| "merge_all f (g # gs) = try_bind (bloom_merge f g) (\<lambda>r. merge_all r gs)"

definition getMergedFilter :: "gossip \<Rightarrow> bloom_error + bloom" where
  "getMergedFilter g =
     try_bind (bloom_new (filterSizeInBits (gossipConfig g)) (configHashFunctions (gossipConfig g))) (\<lambda>empty.
       merge_all empty (localFilter g # map (\<lambda>(_, st). peer_filter st) (peerFilters g)))"

text \<open>The events that reach a gossip instance, in any order; an operation that throws leaves the state as it was.\<close>

datatype gossip_event =
    Wire | Start | Stop | Add_term code_units | Publish_tick | Receive string bytes nat

definition gossip_step :: "gossip \<Rightarrow> gossip_event \<Rightarrow> gossip" where
  "gossip_step g e = (case e of
     Wire \<Rightarrow> setPubSub g
   | Start \<Rightarrow> (case gossip_start g of Inl _ \<Rightarrow> g | Inr (g', _) \<Rightarrow> g')
   | Stop \<Rightarrow> fst (gossip_stop g)
   | Add_term t \<Rightarrow> addTerm t g
   | Publish_tick \<Rightarrow> g
   | Receive p d now \<Rightarrow> (case onReceiveFilter p d now g of Inl _ \<Rightarrow> g | Inr (g', _) \<Rightarrow> g'))"

section \<open>Invariant\<close>

text \<open>
  All filters of an instance have the shape of its configuration, which is what makes every join
  succeed; the timer runs exactly while the exchange is started, and only wired instances start.
\<close>

definition shape_ok :: "nat \<Rightarrow> nat \<Rightarrow> bloom \<Rightarrow> bool" where
  "shape_ok m k f \<longleftrightarrow> bloom_ok f \<and> sizeInBits f = m \<and> numHashFunctions f = k"

definition gossip_ok :: "nat \<Rightarrow> nat \<Rightarrow> gossip \<Rightarrow> bool" where
  "gossip_ok m k g \<longleftrightarrow> 0 < m \<and> 0 < k
     \<and> filterSizeInBits (gossipConfig g) = Fin (of_nat m) \<and> configHashFunctions (gossipConfig g) = Fin (of_nat k)
     \<and> shape_ok m k (localFilter g)
     \<and> map_ok (peerFilters g)
     \<and> list_all (\<lambda>(p, st). peerId st = p \<and> shape_ok m k (peer_filter st)) (peerFilters g)
     \<and> (started g \<longleftrightarrow> republishTimer g \<noteq> None) \<and> (started g \<longrightarrow> wired g)"

lemma shape_add: "shape_ok m k f \<Longrightarrow> shape_ok m k (bloom_add t f)"
  by (simp add: shape_ok_def bloom_add_ok)

lemma shape_deserialize:
  assumes "0 < m" "0 < k"
  shows "bloom_deserialize d (Fin (of_nat m)) (Fin (of_nat k)) =
    (if length d = byte_length m then Ok \<lparr>sizeInBits = m, numHashFunctions = k, bits = d\<rparr>
     else Err (Wrong_length (Fin (of_nat m)) (length d)))"
proof (cases "length d = byte_length m")
  case True
  then have "bloom_deserialize d (Fin (of_nat m)) (Fin (of_nat k)) = Ok \<lparr>sizeInBits = m, numHashFunctions = k, bits = d\<rparr>"
    using assms by (auto simp: bloom_deserialize_iff)
  with True show ?thesis by simp
next
  case False
  then have "Some (int (length d)) \<noteq> expected_length (Fin (of_nat m))"
    by (auto simp: expected_length_def byte_length_def)
  with False show ?thesis by (simp add: bloom_deserialize_def)
qed

lemma shape_merge:
  assumes "shape_ok m k f" "shape_ok m k g"
  obtains r where "bloom_merge f g = Ok r" "shape_ok m k r" "positions r = positions f \<union> positions g"
proof -
  let ?r = "f\<lparr>bits := map (\<lambda>i. bits f ! i OR byte_at (bits g) i) [0..<length (bits f)]\<rparr>"
  have r: "bloom_merge f g = Ok ?r" using assms by (simp add: bloom_merge_def shape_ok_def)
  then have "shape_ok m k ?r" using assms bloom_merge_ok by (auto simp: shape_ok_def)
  moreover have "positions ?r = positions f \<union> positions g"
    using r assms by (intro positions_merge) (simp_all add: shape_ok_def)
  ultimately show thesis using r that by blast
qed

section \<open>The abstract exchange\<close>

text \<open>
  The specification knows no bytes: the terms' positions of the local index, and for each peer the union
  of the positions it has announced.  A message counts when its length is that of the filter.
\<close>

type_synonym gossip_view = "nat set \<times> (string \<Rightarrow> nat set option)"

definition announced :: "nat \<Rightarrow> bytes \<Rightarrow> nat set" where
  "announced m d = {i. i < m \<and> getBit d i}"

definition gossip_spec :: "nat \<Rightarrow> nat \<Rightarrow> gossip_view \<Rightarrow> gossip_event \<Rightarrow> gossip_view" where
  "gossip_spec m k v e = (case e of
     Add_term t \<Rightarrow> (fst v \<union> term_positions m k t, snd v)
   | Receive p d _ \<Rightarrow>
       (if length d = byte_length m
        then (fst v, (snd v)(p \<mapsto> (case snd v p of Some s \<Rightarrow> s | None \<Rightarrow> {}) \<union> announced m d))
        else v)
   | _ \<Rightarrow> v)"

definition gossip_abs :: "gossip \<Rightarrow> gossip_view" where
  "gossip_abs g = (positions (localFilter g), \<lambda>p. map_option (\<lambda>st. positions (peer_filter st)) (map_get (peerFilters g) p))"

lemma gossip_okD:
  assumes "gossip_ok m k g"
  shows "filterSizeInBits (gossipConfig g) = Fin (of_nat m)" "configHashFunctions (gossipConfig g) = Fin (of_nat k)"
    "0 < m" "0 < k" "shape_ok m k (localFilter g)" "map_ok (peerFilters g)"
    "map_get (peerFilters g) p = Some st \<Longrightarrow> peerId st = p \<and> shape_ok m k (peer_filter st)"
  using assms by (auto simp: gossip_ok_def list_all_iff dest: map_get_in_set)

lemma list_all_map_set:
  assumes "map_ok m" "list_all (\<lambda>(p, v). P p v) m" "P k v"
  shows "list_all (\<lambda>(p, v). P p v) (map_set k v m)"
proof -
  have "P p w" if "(p, w) \<in> set (map_set k v m)" for p w
  proof -
    have "map_get (map_set k v m) p = Some w" using that by (simp only: map_get_iff_in [OF map_ok_set [OF assms(1)]])
    then show ?thesis using assms(2,3)
      by (auto simp: js_map list_all_iff split: if_splits dest!: map_get_in_set)
  qed
  then show ?thesis by (auto simp: list_all_iff)
qed

lemma gossip_ok_put:
  "gossip_ok m k g \<Longrightarrow> peerId st = p \<Longrightarrow> shape_ok m k (peer_filter st) \<Longrightarrow>
     gossip_ok m k (g\<lparr>peerFilters := map_set p st (peerFilters g)\<rparr>)"
  by (simp add: gossip_ok_def js_map list_all_map_set [where P = "\<lambda>p st. peerId st = p \<and> shape_ok m k (peer_filter st)"])

lemma gossip_abs_put:
  "gossip_abs (g\<lparr>peerFilters := map_set p st (peerFilters g)\<rparr>)
     = (fst (gossip_abs g), (snd (gossip_abs g))(p \<mapsto> positions (peer_filter st)))"
  by (auto simp: gossip_abs_def js_map)

lemma onReceiveFilter_cases:
  assumes "gossip_ok m k g"
  obtains
    (malformed) "length d \<noteq> byte_length m" "onReceiveFilter p d now g = Ok (g, [Warn_malformed p])"
  | (stored) st where "length d = byte_length m" "peerId st = p" "shape_ok m k (peer_filter st)"
      "positions (peer_filter st) = (case snd (gossip_abs g) p of Some s \<Rightarrow> s | None \<Rightarrow> {}) \<union> announced m d"
      "onReceiveFilter p d now g = Ok (g\<lparr>peerFilters := map_set p st (peerFilters g)\<rparr>, [])"
proof (cases "length d = byte_length m")
  case False
  then show thesis using assms by (intro malformed) (simp_all add: onReceiveFilter_def gossip_okD shape_deserialize)
next
  case True
  let ?f = "\<lparr>sizeInBits = m, numHashFunctions = k, bits = d\<rparr>"
  have f: "bloom_deserialize d (Fin (of_nat m)) (Fin (of_nat k)) = Ok ?f" "shape_ok m k ?f" "positions ?f = announced m d"
    using True gossip_okD(3,4) [OF assms] by (simp_all add: shape_deserialize shape_ok_def bloom_ok_def positions_def announced_def)
  show thesis
  proof (cases "map_get (peerFilters g) p")
    case None
    show thesis
      by (rule stored [of "\<lparr>peerId = p, peer_filter = ?f, lastUpdated = now\<rparr>"])
        (use True None f in \<open>simp_all add: onReceiveFilter_def gossip_okD(1,2) [OF assms] gossip_abs_def\<close>)
  next
    case (Some ex)
    have ex: "peerId ex = p" "shape_ok m k (peer_filter ex)" using gossip_okD(7) [OF assms Some] by simp_all
    obtain r where r: "bloom_merge (peer_filter ex) ?f = Ok r" "shape_ok m k r"
      "positions r = positions (peer_filter ex) \<union> positions ?f"
      using shape_merge [OF ex(2) f(2)] by blast
    show thesis
      by (rule stored [of "ex\<lparr>peer_filter := r, lastUpdated := now\<rparr>"])
        (use True Some f ex r in \<open>simp_all add: onReceiveFilter_def gossip_okD(1,2) [OF assms] gossip_abs_def\<close>)
  qed
qed

lemma gossip_step_refines:
  assumes ok: "gossip_ok m k g"
  shows "gossip_ok m k (gossip_step g e) \<and> gossip_abs (gossip_step g e) = gossip_spec m k (gossip_abs g) e"
proof (cases e)
  case (Add_term t)
  have "shape_ok m k (localFilter g)" using gossip_okD(5) [OF ok] .
  then have "shape_ok m k (bloom_add t (localFilter g))"
    "positions (bloom_add t (localFilter g)) = positions (localFilter g) \<union> term_positions m k t"
    by (simp_all add: shape_add positions_add) (simp_all add: shape_ok_def positions_add)
  then show ?thesis using ok Add_term
    by (simp add: gossip_step_def addTerm_def gossip_spec_def gossip_abs_def gossip_ok_def)
next
  case (Receive p d now)
  show ?thesis
  proof (rule onReceiveFilter_cases [OF ok, of d p now])
    assume "length d \<noteq> byte_length m" "onReceiveFilter p d now g = Ok (g, [Warn_malformed p])"
    then show ?thesis using ok Receive by (simp add: gossip_step_def gossip_spec_def)
  next
    fix st
    assume "length d = byte_length m" "peerId st = p" "shape_ok m k (peer_filter st)"
      "positions (peer_filter st) = (case snd (gossip_abs g) p of Some s \<Rightarrow> s | None \<Rightarrow> {}) \<union> announced m d"
      "onReceiveFilter p d now g = Ok (g\<lparr>peerFilters := map_set p st (peerFilters g)\<rparr>, [])"
    then show ?thesis using ok Receive
      by (simp add: gossip_step_def gossip_spec_def gossip_ok_put gossip_abs_put)
  qed
qed (use ok in \<open>auto simp: gossip_step_def setPubSub_def gossip_start_def gossip_stop_def gossip_spec_def
      gossip_abs_def gossip_ok_def\<close>)

interpretation gr: functional_refinement gossip_step "gossip_ok m k" gossip_abs "gossip_spec m k" for m k
  by unfold_locales (simp_all add: gossip_step_refines)

section \<open>Queries\<close>

lemma queryPeers_iff:
  assumes "gossip_ok m k g"
  shows "p \<in> set (queryPeers g ts) \<longleftrightarrow>
    (\<exists>s. snd (gossip_abs g) p = Some s \<and> (\<forall>t \<in> set ts. term_positions m k t \<subseteq> s))"
proof -
  have has: "list_all (bloom_has (peer_filter st)) ts \<longleftrightarrow> (\<forall>t \<in> set ts. term_positions m k t \<subseteq> positions (peer_filter st))"
    if "map_get (peerFilters g) p = Some st" for st
    using gossip_okD(7) [OF assms that] by (auto simp: list_all_iff shape_ok_def bloom_has_iff)
  have "p \<in> set (queryPeers g ts) \<longleftrightarrow> (\<exists>st. map_get (peerFilters g) p = Some st \<and> list_all (bloom_has (peer_filter st)) ts)"
    using gossip_okD(6) [OF assms] by (force simp: queryPeers_def map_get_iff_in)
  then show ?thesis using has by (auto simp: gossip_abs_def)
qed

lemma distinct_queryPeers: "gossip_ok m k g \<Longrightarrow> distinct (queryPeers g ts)"
  using gossip_okD(6) [of m k g] by (simp add: queryPeers_def map_ok_def distinct_map_filter)

text \<open>The view after a run depends on the terms added and on the messages received, not on their order or number.\<close>

definition added :: "gossip_event list \<Rightarrow> code_units set" where
  "added es = {t. Add_term t \<in> set es}"

definition receipts :: "gossip_event list \<Rightarrow> (string \<times> bytes) set" where
  "receipts es = {(p, d). \<exists>now. Receive p d now \<in> set es}"

definition peer_view :: "nat \<Rightarrow> (string \<times> bytes) set \<Rightarrow> nat set option \<Rightarrow> string \<Rightarrow> nat set option" where
  "peer_view m rs old p =
     (let ds = {d. (p, d) \<in> rs \<and> length d = byte_length m}
      in if ds = {} then old else Some ((case old of Some s \<Rightarrow> s | None \<Rightarrow> {}) \<union> \<Union> (announced m ` ds)))"

lemma added_Cons: "added (e # es) = (case e of Add_term t \<Rightarrow> insert t (added es) | _ \<Rightarrow> added es)"
  by (auto simp: added_def split: gossip_event.split)

lemma receipts_Cons: "receipts (e # es) = (case e of Receive p d _ \<Rightarrow> insert (p, d) (receipts es) | _ \<Rightarrow> receipts es)"
  by (auto simp: receipts_def split: gossip_event.split)

lemma peer_view_insert:
  "peer_view m (insert (q, d) rs) old p =
     (if p = q \<and> length d = byte_length m
      then peer_view m rs (Some ((case old of Some s \<Rightarrow> s | None \<Rightarrow> {}) \<union> announced m d)) p
      else peer_view m rs old p)"
proof -
  let ?ds = "{e. (p, e) \<in> rs \<and> length e = byte_length m}"
  have "{e. (p, e) \<in> insert (q, d) rs \<and> length e = byte_length m}
      = (if p = q \<and> length d = byte_length m then insert d ?ds else ?ds)" by auto
  then show ?thesis by (auto simp: peer_view_def Let_def)
qed

lemma peer_view_receipt:
  assumes "(p, d) \<in> rs" "length d = byte_length m"
  shows "\<exists>s. peer_view m rs old p = Some s \<and> announced m d \<subseteq> s"
proof -
  have "d \<in> {d. (p, d) \<in> rs \<and> length d = byte_length m}" using assms by simp
  then show ?thesis unfolding peer_view_def Let_def by (auto simp del: mem_Collect_eq)
qed

lemma gossip_spec_run:
  "foldl (gossip_spec m k) v es =
     (fst v \<union> \<Union> (term_positions m k ` added es), \<lambda>p. peer_view m (receipts es) (snd v p) p)"
proof (induction es arbitrary: v)
  case Nil
  show ?case by (simp add: added_def receipts_def peer_view_def)
next
  case (Cons e es)
  have "foldl (gossip_spec m k) v (e # es) = foldl (gossip_spec m k) (gossip_spec m k v e) es" by simp
  also note Cons.IH [of "gossip_spec m k v e"]
  also have "(fst (gossip_spec m k v e) \<union> \<Union> (term_positions m k ` added es),
        \<lambda>p. peer_view m (receipts es) (snd (gossip_spec m k v e) p) p)
      = (fst v \<union> \<Union> (term_positions m k ` added (e # es)), \<lambda>p. peer_view m (receipts (e # es)) (snd v p) p)"
    by (cases e) (auto simp: gossip_spec_def added_Cons receipts_Cons peer_view_insert)
  finally show ?case .
qed

section \<open>Runs from a new instance\<close>

definition gossip_run :: "gossip \<Rightarrow> gossip_event list \<Rightarrow> gossip" where
  "gossip_run g es = foldl gossip_step g es"

lemma gossip_new_iff:
  "gossip_new c = Ok g \<longleftrightarrow> (\<exists>f. bloom_new (filterSizeInBits (spread_config c)) (configHashFunctions (spread_config c)) = Ok f
     \<and> g = \<lparr>localFilter = f, peerFilters = [], gossipConfig = spread_config c, republishTimer = None, started = False, wired = False\<rparr>)"
  by (auto simp: gossip_new_def Let_def try_bind_Ok_iff)

lemma gossip_new_ok:
  assumes "gossip_new c = Ok g"
  obtains m k where "0 < m" "0 < k" "filterSizeInBits (spread_config c) = Fin (of_nat m)"
    "configHashFunctions (spread_config c) = Fin (of_nat k)" "gossip_ok m k g" "gossip_abs g = ({}, \<lambda>_. None)"
proof -
  obtain f where f: "bloom_new (filterSizeInBits (spread_config c)) (configHashFunctions (spread_config c)) = Ok f"
    and g: "g = \<lparr>localFilter = f, peerFilters = [], gossipConfig = spread_config c, republishTimer = None, started = False, wired = False\<rparr>"
    using assms by (auto simp: gossip_new_iff)
  obtain m k where mk: "0 < m" "0 < k" "filterSizeInBits (spread_config c) = Fin (of_nat m)"
    "configHashFunctions (spread_config c) = Fin (of_nat k)" "sizeInBits f = m" "numHashFunctions f = k"
    using f by (auto simp: bloom_new_iff)
  have "gossip_ok m k g" using mk bloom_new_ok [OF f] by (simp add: g gossip_ok_def shape_ok_def js_map)
  moreover have "gossip_abs g = ({}, \<lambda>_. None)" by (simp add: g gossip_abs_def positions_new [OF f] js_map)
  ultimately show thesis using that mk by blast
qed

lemma gossip_new_run:
  assumes "gossip_new c = Ok g" "filterSizeInBits (spread_config c) = Fin (of_nat m)"
    "configHashFunctions (spread_config c) = Fin (of_nat k)"
  shows "gossip_ok m k (gossip_run g es)"
    and "gossip_abs (gossip_run g es) = (\<Union> (term_positions m k ` added es), peer_view m (receipts es) None)"
proof -
  have ok: "gossip_ok m k g" and abs: "gossip_abs g = ({}, \<lambda>_. None)"
    using assms by (auto elim!: gossip_new_ok)
  show "gossip_ok m k (gossip_run g es)" unfolding gossip_run_def using ok by (rule gr.run_inv)
  show "gossip_abs (gossip_run g es) = (\<Union> (term_positions m k ` added es), peer_view m (receipts es) None)"
    unfolding gossip_run_def gr.run_abs [OF ok] gossip_spec_run abs by simp
qed

lemma merge_all_shape:
  assumes "shape_ok m k f" "list_all (shape_ok m k) gs"
  shows "\<exists>r. merge_all f gs = Ok r \<and> shape_ok m k r \<and> positions r = positions f \<union> \<Union> (positions ` set gs)"
  using assms
proof (induction gs arbitrary: f)
  case (Cons g gs)
  then have g: "shape_ok m k f" "shape_ok m k g" "list_all (shape_ok m k) gs" by simp_all
  obtain r where r: "bloom_merge f g = Ok r" "shape_ok m k r" "positions r = positions f \<union> positions g"
    using shape_merge [OF g(1,2)] by blast
  from Cons.IH [OF r(2) g(3)] show ?case using r by auto
qed simp

lemma getMergedFilter_positions:
  assumes ok: "gossip_ok m k g"
  shows "\<exists>r. getMergedFilter g = Ok r \<and> shape_ok m k r
    \<and> positions r = fst (gossip_abs g) \<union> \<Union> (ran (snd (gossip_abs g)))"
proof -
  let ?e = "\<lparr>sizeInBits = m, numHashFunctions = k, bits = replicate (byte_length m) 0\<rparr>"
  let ?peers = "map (\<lambda>(_, st). peer_filter st) (peerFilters g)"
  have e: "bloom_new (Fin (of_nat m)) (Fin (of_nat k)) = Ok ?e"
    using gossip_okD(3,4) [OF ok] by (auto simp: bloom_new_iff)
  have "shape_ok m k ?e" using bloom_new_ok [OF e] by (simp add: shape_ok_def)
  moreover have "list_all (shape_ok m k) (localFilter g # ?peers)"
    using ok by (auto simp: gossip_ok_def list_all_iff)
  ultimately obtain r where r: "merge_all ?e (localFilter g # ?peers) = Ok r" "shape_ok m k r"
    "positions r = positions ?e \<union> \<Union> (positions ` set (localFilter g # ?peers))"
    using merge_all_shape by blast
  have "\<Union> (positions ` set ?peers) = \<Union> (ran (snd (gossip_abs g)))"
    using gossip_okD(6) [OF ok] by (force simp: gossip_abs_def ran_def map_get_iff_in)
  then have "positions r = fst (gossip_abs g) \<union> \<Union> (ran (snd (gossip_abs g)))"
    using r(3) positions_new [OF e] by (simp add: gossip_abs_def)
  moreover have "getMergedFilter g = Ok r" using e r(1) gossip_okD(1,2) [OF ok] by (simp add: getMergedFilter_def)
  ultimately show ?thesis using r(2) by blast
qed

section \<open>Properties\<close>

text \<open>
  Claim C28.  Gossip converges and refines its specification: after any run of events the local filter holds
  exactly the positions of the terms added, and for each peer the union of the positions in its
  well-formed messages, whatever their order, interleaving or repetition; malformed messages change
  nothing; and the peers a query names are, without repetition, exactly those whose announced
  positions cover all the terms.
\<close>

theorem gossip_refines_union:
  assumes "gossip_new c = Ok g" "filterSizeInBits (spread_config c) = Fin (of_nat m)"
    "configHashFunctions (spread_config c) = Fin (of_nat k)"
  shows "gossip_abs (gossip_run g es) = (\<Union> (term_positions m k ` added es), peer_view m (receipts es) None)
    \<and> distinct (queryPeers (gossip_run g es) ts)
    \<and> (p \<in> set (queryPeers (gossip_run g es) ts) \<longleftrightarrow>
        (\<exists>s. peer_view m (receipts es) None p = Some s \<and> (\<forall>t \<in> set ts. term_positions m k t \<subseteq> s)))"
  using gossip_new_run [OF assms, of es] distinct_queryPeers queryPeers_iff by simp

text \<open>
  Claim C29.  No false negatives across the network: when a peer has added some terms and published its
  filter, any other instance of the same shape that receives the message, among any other events
  before and after it, names that peer in a query for those terms, and its merged filter has them all.
\<close>

theorem gossip_query_complete:
  assumes "gossip_new c = Ok g" "gossip_new c' = Ok h"
    "filterSizeInBits (spread_config c) = filterSizeInBits (spread_config c')"
    "configHashFunctions (spread_config c) = configHashFunctions (spread_config c')"
    "Publish_topic tp d \<in> set (publishFilter (gossip_run g es))" "set ts \<subseteq> added es"
    "Receive p d now \<in> set rs"
  shows "p \<in> set (queryPeers (gossip_run h rs) ts)
    \<and> (\<exists>f. getMergedFilter (gossip_run h rs) = Ok f \<and> list_all (bloom_has f) ts)"
proof -
  obtain m k where mk: "filterSizeInBits (spread_config c) = Fin (of_nat m)" "configHashFunctions (spread_config c) = Fin (of_nat k)"
    using gossip_new_ok [OF assms(1)] by metis
  note send = gossip_new_run [OF assms(1) mk, of es]
  note recv = gossip_new_run [OF assms(2) mk [unfolded assms(3,4)], of rs]
  have d: "d = bits (localFilter (gossip_run g es))"
    using assms(5) by (simp add: publishFilter_def bloom_serialize_def split: if_splits)
  have shape: "shape_ok m k (localFilter (gossip_run g es))" using gossip_okD(5) [OF send(1)] .
  have len: "length d = byte_length m" using shape d by (simp add: shape_ok_def bloom_ok_def)
  have "announced m d = \<Union> (term_positions m k ` added es)"
    using send(2) shape by (simp add: gossip_abs_def announced_def positions_def d shape_ok_def)
  then have terms: "term_positions m k t \<subseteq> announced m d" if "t \<in> set ts" for t using that assms(6) by auto
  have "(p, d) \<in> receipts rs" using assms(7) by (auto simp: receipts_def)
  then obtain s where s: "peer_view m (receipts rs) None p = Some s" "announced m d \<subseteq> s"
    using len peer_view_receipt by blast
  have "p \<in> set (queryPeers (gossip_run h rs) ts)"
    using queryPeers_iff [OF recv(1)] recv(2) s terms by fastforce
  moreover obtain f where f: "getMergedFilter (gossip_run h rs) = Ok f" "shape_ok m k f"
      "positions f = fst (gossip_abs (gossip_run h rs)) \<union> \<Union> (ran (snd (gossip_abs (gossip_run h rs))))"
    using getMergedFilter_positions [OF recv(1)] by blast
  have "s \<subseteq> positions f" using f(3) recv(2) s(1) by (auto simp: ran_def)
  then have "list_all (bloom_has f) ts"
    using f(2) terms s(2) by (auto simp: list_all_iff shape_ok_def bloom_has_iff)
  ultimately show ?thesis using f(1) by blast
qed

section \<open>Witnesses\<close>

definition sample_partial :: partial_gossip_config where
  "sample_partial = \<lparr>opt_topic = None, opt_filterSizeInBits = Some (Fin 8), opt_numHashFunctions = Some (Fin 2),
     opt_republishIntervalMs = None\<rparr>"

definition sample_gossip :: gossip where
  "sample_gossip = \<lparr>localFilter = \<lparr>sizeInBits = 8, numHashFunctions = 2, bits = [0]\<rparr>, peerFilters = [],
     gossipConfig = spread_config sample_partial, republishTimer = None, started = False, wired = False\<rparr>"

lemma sample_gossip_new:
  "gossip_new sample_partial = Ok sample_gossip"
  "filterSizeInBits (spread_config sample_partial) = Fin 8" "configHashFunctions (spread_config sample_partial) = Fin 2"
  by (simp_all add: gossip_new_def sample_partial_def sample_gossip_def spread_config_def or_default_def
      bloom_new_def jsnum_defs byte_length_def numeral_2_eq_2)

lemma sample_hashes: "baseHashes [97] = (3826002220, 3984843101)"
  by (simp add: baseHashes_def)

lemma double_small: "n < 2 ^ 53 \<Longrightarrow> double n = n"
  by (simp add: double_def)

lemma sample_double: "double (3826002220 + double (0 * 3984843101)) mod 8 = 4" "double (3826002220 + double (1 * 3984843101)) mod 8 = 1"
  by (simp_all add: double_small)

lemma sample_upt: "[0..<2] = [0, 1]" "[0..<8] = [0, 1, 2, 3, 4, 5, 6, 7]"
  by (simp_all add: upt_rec)

lemma sample_filter:
  "bloom_add [97] \<lparr>sizeInBits = 8, numHashFunctions = 2, bits = [0]\<rparr> = \<lparr>sizeInBits = 8, numHashFunctions = 2, bits = [18]\<rparr>"
  by (simp add: bloom_add_def sample_hashes bitIndex_def sample_upt setBit_def byte_at_def
      sample_double [simplified] del: upt_Suc One_nat_def)

lemma sample_sent: "publishFilter (gossip_run sample_gossip [Wire, Add_term [97]]) = [Publish_topic bloomFilterUpdateV1 [18]]"
  by (simp add: gossip_run_def gossip_step_def setPubSub_def addTerm_def publishFilter_def sample_gossip_def
      sample_filter bloom_serialize_def sample_partial_def spread_config_def or_default_def DEFAULT_CONFIG_def)

lemma sample_announced: "announced 8 [18] = {4, 1}"
proof -
  have "{i. i < 8 \<and> getBit [18] i} = set (filter (getBit [18]) [0..<8])" by auto
  also have "\<dots> = {4, 1}" unfolding sample_upt by (simp add: getBit_def byte_at_def insert_commute)
  finally show ?thesis unfolding announced_def .
qed

lemma sample_term: "term_positions 8 2 [97] = {4, 1}"
proof -
  have "{..<2 :: nat} = {0, 1}" by auto
  then show ?thesis using sample_double by (simp only: term_positions_def sample_hashes fst_conv snd_conv image_insert image_empty)
qed

theorem gossip_query_complete_witness:
  "''bob'' \<in> set (queryPeers (gossip_run sample_gossip
       [Receive ''bob'' [1, 2] 4, Receive ''bob'' [18] 5, Receive ''eve'' [0] 6]) [[97]])"
  using gossip_query_complete [OF sample_gossip_new(1) sample_gossip_new(1), where es = "[Wire, Add_term [97]]"
      and ts = "[[97]]" and tp = bloomFilterUpdateV1 and d = "[18]" and now = 5 and p = "''bob''"
      and rs = "[Receive ''bob'' [1, 2] 4, Receive ''bob'' [18] 5, Receive ''eve'' [0] 6]"]
  by (simp add: sample_sent added_def)

theorem gossip_refines_union_witness:
  "''bob'' \<in> set (queryPeers (gossip_run sample_gossip [Receive ''bob'' [18] 5]) [[97]])"
proof -
  have "peer_view 8 (receipts [Receive ''bob'' [18] 5]) None ''bob'' = Some {4, 1}"
    by (simp add: peer_view_def receipts_def byte_length_def sample_announced cong: conj_cong)
  then show ?thesis
    using gossip_refines_union [OF sample_gossip_new(1), of 8 2 "[Receive ''bob'' [18] 5]" "[[97]]" "''bob''"]
      sample_gossip_new(2,3) sample_term by simp
qed

end
