(* ===== verification/WireFormats.thy ===== *)
theory WireFormats
  imports BeeKem DagJson
begin

text \<open>
  The JSON forms of BeeKEM messages: \<^verbatim>\<open>path-update-wire.ts\<close>, \<^verbatim>\<open>beekem-welcome-wire.ts\<close> and the sealed
  envelope \<^verbatim>\<open>welcome-sealed-payload.ts\<close>.  Base64 (\<^verbatim>\<open>js-base64\<close>) and the text codecs (\<^verbatim>\<open>JSON.stringify\<close> with
  \<^verbatim>\<open>TextEncoder\<close>, the fatal \<^verbatim>\<open>TextDecoder\<close>, \<^verbatim>\<open>JSON.parse\<close>) are fields of \<open>wire_codec\<close>.
\<close>

section \<open>Codecs and errors\<close>

datatype text_error = Not_utf8 | Not_json

record wire_codec =
  fromUint8Array :: "bytes \<Rightarrow> string"
  toUint8Array :: "string \<Rightarrow> string + bytes"
  stringify_encode :: "json \<Rightarrow> bytes"
  decode_parse :: "bytes \<Rightarrow> text_error + json"

datatype description = Described_null | Described_array nat | Described_type string

definition describe :: "json option \<Rightarrow> description" where
  "describe value = (case value of
     Some json.JNull \<Rightarrow> Described_null
   | Some (JArray js) \<Rightarrow> Described_array (length js)
   | None \<Rightarrow> Described_type ''undefined''
   | Some (JBool _) \<Rightarrow> Described_type ''boolean''
   | Some (json.JNumber _) \<Rightarrow> Described_type ''number''
   | Some (json.JString _) \<Rightarrow> Described_type ''string''
   | Some (JObject _) \<Rightarrow> Described_type ''object'')"

datatype place = Top | Node nat | Path_key nat | Tree_key nat

datatype field_error =
    Not_plain_object place description
  | Not_index place string description
  | Not_base64_string place string description
  | Not_array string description
  | Invalid_base64 place string string

text \<open>The checks the decoders repeat: a plain object, a non-negative integer, a string, an array.\<close>

definition plain_object :: "place \<Rightarrow> json \<Rightarrow> field_error + json_fields" where
  "plain_object p j = (case j of JObject fs \<Rightarrow> Ok fs | _ \<Rightarrow> Err (Not_plain_object p (describe (Some j))))"

definition index_field :: "place \<Rightarrow> json_fields \<Rightarrow> string \<Rightarrow> field_error + int" where
  "index_field p fs name = (case field fs name of
     Some (json.JNumber x) \<Rightarrow> if \<not> is_integer x \<or> num_less x 0 then Err (Not_index p name (describe (field fs name)))
       else Ok (num_floor x)
   | v \<Rightarrow> Err (Not_index p name (describe v)))"

definition string_field :: "place \<Rightarrow> json_fields \<Rightarrow> string \<Rightarrow> field_error + string" where
  "string_field p fs name = (case field fs name of
     Some (json.JString s) \<Rightarrow> Ok s | v \<Rightarrow> Err (Not_base64_string p name (describe v)))"

definition array_field :: "json_fields \<Rightarrow> string \<Rightarrow> field_error + json list" where
  "array_field fs name = (case field fs name of
     Some (JArray js) \<Rightarrow> Ok js | v \<Rightarrow> Err (Not_array name (describe v)))"

definition decodeBase64 :: "wire_codec \<Rightarrow> string \<Rightarrow> place \<Rightarrow> string \<Rightarrow> field_error + bytes" where
  "decodeBase64 W value p name = (case toUint8Array W value of Inl msg \<Rightarrow> Err (Invalid_base64 p name msg) | Inr bs \<Rightarrow> Ok bs)"

text \<open>\<^verbatim>\<open>Array.map\<close> with a callback of element and index that may throw: the first error ends it.\<close>

fun map_from :: "(nat \<Rightarrow> 'a \<Rightarrow> 'e + 'b) \<Rightarrow> nat \<Rightarrow> 'a list \<Rightarrow> 'e + 'b list" where
  "map_from f i [] = Ok []"
| "map_from f i (x # xs) = try_bind (f i x) (\<lambda>y. try_bind (map_from f (Suc i) xs) (\<lambda>ys. Ok (y # ys)))"

section \<open>Path updates\<close>

definition json_index :: "int \<Rightarrow> json" where
  "json_index i = json.JNumber (Fin (of_int i))"

definition serialize_path_node :: "wire_codec \<Rightarrow> path_node_update \<Rightarrow> json" where
  "serialize_path_node W n = JObject
     [(''nodeIndex'', json_index (nodeIndex n)), (''publicKey'', json.JString (fromUint8Array W (pnPublicKey n))),
      (''encryptedPrivateKey'', json.JString (fromUint8Array W (encryptedPrivateKey n)))]"

definition serializePathUpdateForWire :: "wire_codec \<Rightarrow> path_update \<Rightarrow> json" where
  "serializePathUpdateForWire W u = JObject
     [(''senderLeafIndex'', json_index (senderLeafIndex u)),
      (''senderLeafPublicKey'', json.JString (fromUint8Array W (senderLeafPublicKey u))),
      (''nodes'', JArray (map (serialize_path_node W) (updateNodes u)))]"

definition deserialize_path_node :: "wire_codec \<Rightarrow> (nat \<Rightarrow> place) \<Rightarrow> nat \<Rightarrow> json \<Rightarrow> field_error + path_node_update" where
  "deserialize_path_node W loc i n =
     try_bind (plain_object (loc i) n) (\<lambda>nn.
     try_bind (index_field (loc i) nn ''nodeIndex'') (\<lambda>ix.
     try_bind (string_field (loc i) nn ''publicKey'') (\<lambda>pk.
     try_bind (string_field (loc i) nn ''encryptedPrivateKey'') (\<lambda>ek.
     try_bind (decodeBase64 W pk (loc i) ''publicKey'') (\<lambda>pkb.
     try_bind (decodeBase64 W ek (loc i) ''encryptedPrivateKey'') (\<lambda>ekb.
       Ok \<lparr>nodeIndex = ix, pnPublicKey = pkb, encryptedPrivateKey = ekb\<rparr>))))))"

definition deserializePathUpdateFromWire :: "wire_codec \<Rightarrow> json \<Rightarrow> field_error + path_update" where
  "deserializePathUpdateFromWire W wire =
     try_bind (plain_object Top wire) (\<lambda>raw.
     try_bind (index_field Top raw ''senderLeafIndex'') (\<lambda>sender.
     try_bind (string_field Top raw ''senderLeafPublicKey'') (\<lambda>leafKey.
     try_bind (array_field raw ''nodes'') (\<lambda>ns.
     try_bind (map_from (deserialize_path_node W Node) 0 ns) (\<lambda>nodes.
     try_bind (decodeBase64 W leafKey Top ''senderLeafPublicKey'') (\<lambda>leafKeyBytes.
       Ok \<lparr>senderLeafIndex = sender, senderLeafPublicKey = leafKeyBytes, updateNodes = nodes\<rparr>))))))"

section \<open>Welcomes\<close>

definition serialize_tree_key :: "wire_codec \<Rightarrow> welcome_node \<Rightarrow> json" where
  "serialize_tree_key W e = JObject
     [(''nodeIndex'', json_index (wnIndex e)),
      (''publicKey'', case wnPublicKey e of None \<Rightarrow> json.JNull | Some k \<Rightarrow> json.JString (fromUint8Array W k))]"

definition serializeBeeKEMWelcomeForWire :: "wire_codec \<Rightarrow> beekem_welcome \<Rightarrow> json" where
  "serializeBeeKEMWelcomeForWire W w = JObject
     [(''leafIndex'', json_index (leafIndex w)),
      (''pathKeys'', JArray (map (serialize_path_node W) (pathKeys w))),
      (''treeNodePublicKeys'', JArray (map (serialize_tree_key W) (treeNodePublicKeys w))),
      (''treeHash'', json.JString (fromUint8Array W (treeHash w)))]"

definition deserialize_tree_key :: "wire_codec \<Rightarrow> nat \<Rightarrow> json \<Rightarrow> field_error + welcome_node" where
  "deserialize_tree_key W i n =
     try_bind (plain_object (Tree_key i) n) (\<lambda>nn.
     try_bind (index_field (Tree_key i) nn ''nodeIndex'') (\<lambda>ix.
       if field nn ''publicKey'' = Some json.JNull then Ok \<lparr>wnIndex = ix, wnPublicKey = None\<rparr>
       else try_bind (string_field (Tree_key i) nn ''publicKey'') (\<lambda>pk.
            try_bind (decodeBase64 W pk (Tree_key i) ''publicKey'') (\<lambda>pkb.
              Ok \<lparr>wnIndex = ix, wnPublicKey = Some pkb\<rparr>))))"

definition deserializeBeeKEMWelcomeFromWire :: "wire_codec \<Rightarrow> json \<Rightarrow> field_error + beekem_welcome" where
  "deserializeBeeKEMWelcomeFromWire W wire =
     try_bind (plain_object Top wire) (\<lambda>raw.
     try_bind (index_field Top raw ''leafIndex'') (\<lambda>leaf.
     try_bind (array_field raw ''pathKeys'') (\<lambda>ps.
     try_bind (array_field raw ''treeNodePublicKeys'') (\<lambda>ts.
     try_bind (string_field Top raw ''treeHash'') (\<lambda>th.
     try_bind (map_from (deserialize_path_node W Path_key) 0 ps) (\<lambda>pks.
     try_bind (map_from (deserialize_tree_key W) 0 ts) (\<lambda>tks.
     try_bind (decodeBase64 W th Top ''treeHash'') (\<lambda>hash.
       Ok \<lparr>leafIndex = leaf, pathKeys = pks, treeNodePublicKeys = tks, treeHash = hash\<rparr>))))))))"

section \<open>The sealed envelope\<close>

record sealed_payload =
  keychainChanges :: bytes
  beekemWelcome :: "beekem_welcome option"

datatype envelope_error =
    Envelope_text text_error
  | Envelope_not_object description
  | Bad_k description
  | Bad_k_base64 string
  | Bad_bk field_error

definition welcome_envelope :: "wire_codec \<Rightarrow> sealed_payload \<Rightarrow> json" where
  "welcome_envelope W p = JObject
     [(''k'', json.JString (fromUint8Array W (keychainChanges p))),
      (''bk'', case beekemWelcome p of None \<Rightarrow> json.JNull | Some w \<Rightarrow> serializeBeeKEMWelcomeForWire W w)]"

definition encodeWelcomeSealedPayload :: "wire_codec \<Rightarrow> sealed_payload \<Rightarrow> bytes" where
  "encodeWelcomeSealedPayload W p = stringify_encode W (welcome_envelope W p)"

definition decode_envelope :: "wire_codec \<Rightarrow> json \<Rightarrow> envelope_error + sealed_payload" where
  "decode_envelope W parsed = (case parsed of
     JObject raw \<Rightarrow>
       (case field raw ''k'' of
          Some (json.JString k) \<Rightarrow>
            (case toUint8Array W k of
               Inl msg \<Rightarrow> Err (Bad_k_base64 msg)
             | Inr kc \<Rightarrow>
                 (case field raw ''bk'' of
                    None \<Rightarrow> Ok \<lparr>keychainChanges = kc, beekemWelcome = None\<rparr>
                  | Some json.JNull \<Rightarrow> Ok \<lparr>keychainChanges = kc, beekemWelcome = None\<rparr>
                  | Some bk \<Rightarrow>
                      (case deserializeBeeKEMWelcomeFromWire W bk of
                         Inl e \<Rightarrow> Err (Bad_bk e)
                       | Inr w \<Rightarrow> Ok \<lparr>keychainChanges = kc, beekemWelcome = Some w\<rparr>)))
        | v \<Rightarrow> Err (Bad_k (describe v)))
   | _ \<Rightarrow> Err (Envelope_not_object (describe (Some parsed))))"

definition decodeWelcomeSealedPayload :: "wire_codec \<Rightarrow> bytes \<Rightarrow> envelope_error + sealed_payload" where
  "decodeWelcomeSealedPayload W bytes = (case decode_parse W bytes of
     Inl e \<Rightarrow> Err (Envelope_text e) | Inr parsed \<Rightarrow> decode_envelope W parsed)"

end
