(* ===== verification/WireCorrect.thy ===== *)
theory WireCorrect
  imports WireFormats
begin

text \<open>
  The decoders of \<open>WireFormats\<close> as a type check: which JSON values they accept, what every accepted value
  decodes to, and that encoding followed by decoding is the identity.
\<close>

section \<open>Schemas\<close>

definition is_index :: "json option \<Rightarrow> bool" where
  "is_index v \<longleftrightarrow> (case v of Some (json.JNumber x) \<Rightarrow> is_integer x \<and> \<not> num_less x 0 | _ \<Rightarrow> False)"

definition is_base64 :: "wire_codec \<Rightarrow> json option \<Rightarrow> bool" where
  "is_base64 W v \<longleftrightarrow> (case v of
     Some (json.JString s) \<Rightarrow> (case toUint8Array W s of Inl _ \<Rightarrow> False | Inr _ \<Rightarrow> True) | _ \<Rightarrow> False)"

definition has_array :: "(json \<Rightarrow> bool) \<Rightarrow> json option \<Rightarrow> bool" where
  "has_array P v \<longleftrightarrow> (case v of Some (JArray js) \<Rightarrow> list_all P js | _ \<Rightarrow> False)"

definition path_node_schema :: "wire_codec \<Rightarrow> json \<Rightarrow> bool" where
  "path_node_schema W j \<longleftrightarrow> (case j of
     JObject fs \<Rightarrow> is_index (field fs ''nodeIndex'') \<and> is_base64 W (field fs ''publicKey'')
       \<and> is_base64 W (field fs ''encryptedPrivateKey'')
   | _ \<Rightarrow> False)"

definition tree_key_schema :: "wire_codec \<Rightarrow> json \<Rightarrow> bool" where
  "tree_key_schema W j \<longleftrightarrow> (case j of
     JObject fs \<Rightarrow> is_index (field fs ''nodeIndex'')
       \<and> (field fs ''publicKey'' = Some json.JNull \<or> is_base64 W (field fs ''publicKey''))
   | _ \<Rightarrow> False)"

definition path_update_schema :: "wire_codec \<Rightarrow> json \<Rightarrow> bool" where
  "path_update_schema W j \<longleftrightarrow> (case j of
     JObject fs \<Rightarrow> is_index (field fs ''senderLeafIndex'') \<and> is_base64 W (field fs ''senderLeafPublicKey'')
       \<and> has_array (path_node_schema W) (field fs ''nodes'')
   | _ \<Rightarrow> False)"

definition welcome_schema :: "wire_codec \<Rightarrow> json \<Rightarrow> bool" where
  "welcome_schema W j \<longleftrightarrow> (case j of
     JObject fs \<Rightarrow> is_index (field fs ''leafIndex'') \<and> has_array (path_node_schema W) (field fs ''pathKeys'')
       \<and> has_array (tree_key_schema W) (field fs ''treeNodePublicKeys'') \<and> is_base64 W (field fs ''treeHash'')
   | _ \<Rightarrow> False)"

definition envelope_schema :: "wire_codec \<Rightarrow> json \<Rightarrow> bool" where
  "envelope_schema W j \<longleftrightarrow> (case j of
     JObject fs \<Rightarrow> is_base64 W (field fs ''k'')
       \<and> (case field fs ''bk'' of None \<Rightarrow> True | Some json.JNull \<Rightarrow> True | Some b \<Rightarrow> welcome_schema W b)
   | _ \<Rightarrow> False)"

text \<open>The indices of a decoded message are node numbers.\<close>

definition path_update_typed :: "path_update \<Rightarrow> bool" where
  "path_update_typed u \<longleftrightarrow> 0 \<le> senderLeafIndex u \<and> list_all (\<lambda>n. 0 \<le> nodeIndex n) (updateNodes u)"

definition welcome_typed :: "beekem_welcome \<Rightarrow> bool" where
  "welcome_typed w \<longleftrightarrow> 0 \<le> leafIndex w \<and> list_all (\<lambda>n. 0 \<le> nodeIndex n) (pathKeys w)
     \<and> list_all (\<lambda>n. 0 \<le> wnIndex n) (treeNodePublicKeys w)"

definition payload_typed :: "sealed_payload \<Rightarrow> bool" where
  "payload_typed p \<longleftrightarrow> (case beekemWelcome p of None \<Rightarrow> True | Some w \<Rightarrow> welcome_typed w)"

section \<open>What a decoder returns\<close>

named_theorems wire_ok "when a field decoder returns a value"

lemma plain_object_ok [wire_ok]: "plain_object p j = Ok fs \<longleftrightarrow> j = JObject fs"
  by (cases j) (simp_all add: plain_object_def)

lemma index_field_ok [wire_ok]:
  "index_field p fs name = Ok i \<longleftrightarrow> (\<exists>x. field fs name = Some (json.JNumber x) \<and> is_integer x \<and> \<not> num_less x 0 \<and> i = num_floor x)"
  by (auto simp: index_field_def split: option.splits json.splits)

lemma string_field_ok [wire_ok]: "string_field p fs name = Ok s \<longleftrightarrow> field fs name = Some (json.JString s)"
  by (auto simp: string_field_def split: option.splits json.splits)

lemma array_field_ok [wire_ok]: "array_field fs name = Ok js \<longleftrightarrow> field fs name = Some (JArray js)"
  by (auto simp: array_field_def split: option.splits json.splits)

lemma decodeBase64_ok [wire_ok]: "decodeBase64 W s p name = Ok bs \<longleftrightarrow> toUint8Array W s = Ok bs"
  by (simp add: decodeBase64_def split: sum.split)

lemma map_from_ok:
  assumes "\<And>i x y. f i x = Ok y \<longleftrightarrow> R x y"
  shows "map_from f i xs = Ok ys \<longleftrightarrow> list_all2 R xs ys"
  by (induction xs arbitrary: i ys) (auto simp: try_bind_Ok_iff assms list_all2_Cons1)

text \<open>The node a JSON value stands for.\<close>

definition reads_path_node :: "wire_codec \<Rightarrow> json \<Rightarrow> path_node_update \<Rightarrow> bool" where
  "reads_path_node W j n \<longleftrightarrow> (\<exists>loc i. deserialize_path_node W loc i j = Ok n)"

definition reads_tree_key :: "wire_codec \<Rightarrow> json \<Rightarrow> welcome_node \<Rightarrow> bool" where
  "reads_tree_key W j n \<longleftrightarrow> (\<exists>i. deserialize_tree_key W i j = Ok n)"

lemma path_node_ok [wire_ok]: "deserialize_path_node W loc i j = Ok n \<longleftrightarrow> reads_path_node W j n"
  by (auto simp: reads_path_node_def deserialize_path_node_def try_bind_Ok_iff wire_ok)

lemma tree_key_ok [wire_ok]: "deserialize_tree_key W i j = Ok n \<longleftrightarrow> reads_tree_key W j n"
  by (auto simp: reads_tree_key_def deserialize_tree_key_def try_bind_Ok_iff wire_ok if_split_eq1)

lemmas map_nodes_ok [wire_ok] =
  map_from_ok [where R = "reads_path_node W" and f = "deserialize_path_node W loc" for W loc, OF path_node_ok]
  map_from_ok [where R = "reads_tree_key W" and f = "deserialize_tree_key W" for W, OF tree_key_ok]

lemma num_floor_nonneg: "is_integer x \<Longrightarrow> \<not> num_less x 0 \<Longrightarrow> 0 \<le> num_floor x"
  by (auto simp: jsnum_defs split: jsnum.splits)

lemma is_index_iff: "is_index v \<longleftrightarrow> (\<exists>x. v = Some (json.JNumber x) \<and> is_integer x \<and> \<not> num_less x 0)"
  by (auto simp: is_index_def split: option.splits json.splits)

lemma is_base64_iff: "is_base64 W v \<longleftrightarrow> (\<exists>s bs. v = Some (json.JString s) \<and> toUint8Array W s = Ok bs)"
  by (auto simp: is_base64_def split: option.splits json.splits sum.splits)

lemma has_array_iff: "has_array P v \<longleftrightarrow> (\<exists>js. v = Some (JArray js) \<and> list_all P js)"
  by (auto simp: has_array_def split: option.splits json.splits)

lemmas schema_iffs = is_index_iff is_base64_iff has_array_iff

lemma reads_path_node_schema:
  "(\<exists>n. reads_path_node W j n) \<longleftrightarrow> path_node_schema W j"
  "reads_path_node W j n \<Longrightarrow> 0 \<le> nodeIndex n"
  by (auto simp: reads_path_node_def deserialize_path_node_def path_node_schema_def try_bind_Ok_iff wire_ok
      schema_iffs num_floor_nonneg split: json.splits)

lemma reads_tree_key_schema:
  "(\<exists>n. reads_tree_key W j n) \<longleftrightarrow> tree_key_schema W j"
  "reads_tree_key W j n \<Longrightarrow> 0 \<le> wnIndex n"
  by (auto simp: reads_tree_key_def deserialize_tree_key_def tree_key_schema_def try_bind_Ok_iff wire_ok
      schema_iffs num_floor_nonneg if_split_eq1 split: json.splits)

lemma list_all2_exists: "(\<exists>ys. list_all2 R xs ys) \<longleftrightarrow> list_all (\<lambda>x. \<exists>y. R x y) xs"
  by (induction xs) (auto simp: list_all2_Cons1)

lemma list_all2_right: "list_all2 R xs ys \<Longrightarrow> (\<And>x y. R x y \<Longrightarrow> Q y) \<Longrightarrow> list_all Q ys"
  by (auto simp: list_all_iff in_set_conv_nth list_all2_conv_all_nth) blast

lemma path_update_ok_iff:
  "deserializePathUpdateFromWire W j = Ok u \<longleftrightarrow> (\<exists>fs ns. j = JObject fs
     \<and> index_field Top fs ''senderLeafIndex'' = Ok (senderLeafIndex u)
     \<and> (\<exists>s. field fs ''senderLeafPublicKey'' = Some (json.JString s) \<and> toUint8Array W s = Ok (senderLeafPublicKey u))
     \<and> field fs ''nodes'' = Some (JArray ns) \<and> list_all2 (reads_path_node W) ns (updateNodes u))"
  by (cases u) (auto simp: deserializePathUpdateFromWire_def try_bind_Ok_iff wire_ok)

lemma welcome_ok_iff:
  "deserializeBeeKEMWelcomeFromWire W j = Ok w \<longleftrightarrow> (\<exists>fs ps ts. j = JObject fs
     \<and> index_field Top fs ''leafIndex'' = Ok (leafIndex w)
     \<and> field fs ''pathKeys'' = Some (JArray ps) \<and> list_all2 (reads_path_node W) ps (pathKeys w)
     \<and> field fs ''treeNodePublicKeys'' = Some (JArray ts) \<and> list_all2 (reads_tree_key W) ts (treeNodePublicKeys w)
     \<and> (\<exists>s. field fs ''treeHash'' = Some (json.JString s) \<and> toUint8Array W s = Ok (treeHash w)))"
  by (cases w) (auto simp: deserializeBeeKEMWelcomeFromWire_def try_bind_Ok_iff wire_ok)

lemma nodes_schema:
  "list_all (path_node_schema W) js \<longleftrightarrow> (\<exists>ns. list_all2 (reads_path_node W) js ns)"
  "list_all (tree_key_schema W) ks \<longleftrightarrow> (\<exists>ns. list_all2 (reads_tree_key W) ks ns)"
  by (simp_all add: list_all2_exists reads_path_node_schema(1) reads_tree_key_schema(1))

lemma path_update_decides:
  "(\<exists>u. deserializePathUpdateFromWire W j = Ok u) \<longleftrightarrow> path_update_schema W j"
  by (cases j) (auto simp: deserializePathUpdateFromWire_def try_bind_Ok_iff wire_ok path_update_schema_def schema_iffs nodes_schema)

lemma welcome_decides:
  "(\<exists>w. deserializeBeeKEMWelcomeFromWire W j = Ok w) \<longleftrightarrow> welcome_schema W j"
  by (cases j, auto simp: deserializeBeeKEMWelcomeFromWire_def try_bind_Ok_iff wire_ok welcome_schema_def schema_iffs nodes_schema) blast

lemma path_update_typed: "deserializePathUpdateFromWire W j = Ok u \<Longrightarrow> path_update_typed u"
  by (auto simp: path_update_ok_iff path_update_typed_def wire_ok num_floor_nonneg
      elim: list_all2_right reads_path_node_schema(2))

lemma welcome_typed: "deserializeBeeKEMWelcomeFromWire W j = Ok w \<Longrightarrow> welcome_typed w"
  by (auto simp: welcome_ok_iff welcome_typed_def wire_ok num_floor_nonneg
      elim: list_all2_right reads_path_node_schema(2) reads_tree_key_schema(2))

lemma envelope_decides:
  "case decode_envelope W j of Inl _ \<Rightarrow> \<not> envelope_schema W j | Inr p \<Rightarrow> envelope_schema W j \<and> payload_typed p"
proof -
  have "\<not> welcome_schema W b" if "deserializeBeeKEMWelcomeFromWire W b = Inl e" for b e
    using that welcome_decides [of W b] by auto
  moreover have "welcome_schema W b \<and> welcome_typed w" if "deserializeBeeKEMWelcomeFromWire W b = Inr w" for b w
    using that welcome_decides [of W b] welcome_typed by blast
  ultimately show ?thesis
    by (auto simp: decode_envelope_def envelope_schema_def is_base64_def payload_typed_def
        split: json.splits option.splits sum.splits)
qed

section \<open>Round trips\<close>

lemma index_round_trip: "0 \<le> i \<Longrightarrow> is_integer (Fin (of_int i)) \<and> \<not> num_less (Fin (of_int i)) 0 \<and> num_floor (Fin (of_int i)) = i"
  by (simp add: jsnum_defs)

lemma path_node_round_trip:
  assumes "\<And>bs. toUint8Array W (fromUint8Array W bs) = Ok bs" "0 \<le> nodeIndex n"
  shows "reads_path_node W (serialize_path_node W n) n"
  using assms by (auto simp: reads_path_node_def deserialize_path_node_def serialize_path_node_def try_bind_Ok_iff wire_ok
      field_def json_index_def index_round_trip)

lemma tree_key_round_trip:
  assumes "\<And>bs. toUint8Array W (fromUint8Array W bs) = Ok bs" "0 \<le> wnIndex n"
  shows "reads_tree_key W (serialize_tree_key W n) n"
  using assms by (cases n, cases "wnPublicKey n") (auto simp: reads_tree_key_def deserialize_tree_key_def serialize_tree_key_def
      try_bind_Ok_iff wire_ok field_def json_index_def index_round_trip)

lemma list_all2_map_self: "(\<And>x. x \<in> set xs \<Longrightarrow> R (f x) x) \<Longrightarrow> list_all2 R (map f xs) xs"
  by (simp add: list_all2_map1 list.rel_refl_strong)

lemma path_update_round_trip:
  assumes "\<And>bs. toUint8Array W (fromUint8Array W bs) = Ok bs" "path_update_typed u"
  shows "deserializePathUpdateFromWire W (serializePathUpdateForWire W u) = Ok u"
  using assms unfolding path_update_ok_iff
  by (auto simp: serializePathUpdateForWire_def path_update_typed_def list_all_iff wire_ok field_def json_index_def
      index_round_trip intro!: list_all2_map_self path_node_round_trip)

lemma welcome_round_trip:
  assumes "\<And>bs. toUint8Array W (fromUint8Array W bs) = Ok bs" "welcome_typed w"
  shows "deserializeBeeKEMWelcomeFromWire W (serializeBeeKEMWelcomeForWire W w) = Ok w"
  using assms unfolding welcome_ok_iff
  by (auto simp: serializeBeeKEMWelcomeForWire_def welcome_typed_def list_all_iff wire_ok field_def json_index_def
      index_round_trip intro!: list_all2_map_self path_node_round_trip tree_key_round_trip)

section \<open>Properties\<close>

text \<open>
  Claim C30.  The decoders of peer messages are exact type checks: a path update decodes exactly when the JSON
  has its schema (every index a non-negative integer, every key a decodable base64 string), a sealed
  envelope exactly when its text parses to a value of the envelope schema, and everything they return
  is well typed; every other input is an error, never a partly filled message.
\<close>

theorem wire_decoders_typed:
  "(case deserializePathUpdateFromWire W j of
      Inl _ \<Rightarrow> \<not> path_update_schema W j | Inr u \<Rightarrow> path_update_schema W j \<and> path_update_typed u)
   \<and> (case decodeWelcomeSealedPayload W b of
      Inl _ \<Rightarrow> (case decode_parse W b of Inl _ \<Rightarrow> True | Inr e \<Rightarrow> \<not> envelope_schema W e)
    | Inr p \<Rightarrow> (case decode_parse W b of Inl _ \<Rightarrow> False | Inr e \<Rightarrow> envelope_schema W e \<and> payload_typed p))"
proof
  show "case deserializePathUpdateFromWire W j of
      Inl _ \<Rightarrow> \<not> path_update_schema W j | Inr u \<Rightarrow> path_update_schema W j \<and> path_update_typed u"
    using path_update_decides [of W j] path_update_typed [of W j] by (auto split: sum.split)
  show "case decodeWelcomeSealedPayload W b of
      Inl _ \<Rightarrow> (case decode_parse W b of Inl _ \<Rightarrow> True | Inr e \<Rightarrow> \<not> envelope_schema W e)
    | Inr p \<Rightarrow> (case decode_parse W b of Inl _ \<Rightarrow> False | Inr e \<Rightarrow> envelope_schema W e \<and> payload_typed p)"
  proof (cases "decode_parse W b")
    case (Inr e)
    then show ?thesis using envelope_decides [of W e] by (auto simp: decodeWelcomeSealedPayload_def split: sum.split)
  qed (simp add: decodeWelcomeSealedPayload_def)
qed

text \<open>
  The wire forms lose nothing: a well-typed path update, and a sealed payload with or without a BeeKEM
  Welcome, decode to themselves after encoding, given that base64 decodes what it encoded and that the
  JSON text of the envelope parses back to it.
\<close>

theorem wire_round_trip:
  assumes "\<And>bs. toUint8Array W (fromUint8Array W bs) = Ok bs"
    and "decode_parse W (stringify_encode W (welcome_envelope W p)) = Ok (welcome_envelope W p)"
    and "path_update_typed u" "payload_typed p"
  shows "deserializePathUpdateFromWire W (serializePathUpdateForWire W u) = Ok u
    \<and> decodeWelcomeSealedPayload W (encodeWelcomeSealedPayload W p) = Ok p"
proof
  show "deserializePathUpdateFromWire W (serializePathUpdateForWire W u) = Ok u"
    using assms(1,3) by (rule path_update_round_trip)
  show "decodeWelcomeSealedPayload W (encodeWelcomeSealedPayload W p) = Ok p"
  proof (cases "beekemWelcome p")
    case None
    then show ?thesis using assms(1,2)
      by (simp add: decodeWelcomeSealedPayload_def encodeWelcomeSealedPayload_def welcome_envelope_def decode_envelope_def
          field_def)
  next
    case (Some w)
    then have "deserializeBeeKEMWelcomeFromWire W (serializeBeeKEMWelcomeForWire W w) = Ok w"
      using assms(1,4) by (simp add: welcome_round_trip payload_typed_def)
    moreover obtain fs where "serializeBeeKEMWelcomeForWire W w = JObject fs"
      by (simp add: serializeBeeKEMWelcomeForWire_def)
    ultimately show ?thesis using assms(1,2) Some
      by (simp add: decodeWelcomeSealedPayload_def encodeWelcomeSealedPayload_def welcome_envelope_def decode_envelope_def
          field_def)
  qed
qed

section \<open>Witness\<close>

text \<open>Bytes as characters for base64, and a JSON text codec for one envelope.\<close>

definition sample_welcome :: beekem_welcome where
  "sample_welcome = \<lparr>leafIndex = 1, pathKeys = [\<lparr>nodeIndex = 3, pnPublicKey = [4], encryptedPrivateKey = [5, 6]\<rparr>],
     treeNodePublicKeys = [\<lparr>wnIndex = 0, wnPublicKey = Some [7]\<rparr>, \<lparr>wnIndex = 1, wnPublicKey = None\<rparr>], treeHash = [8]\<rparr>"

definition sample_update :: path_update where
  "sample_update = \<lparr>senderLeafIndex = 0, senderLeafPublicKey = [1, 2],
     updateNodes = [\<lparr>nodeIndex = 1, pnPublicKey = [], encryptedPrivateKey = [3]\<rparr>]\<rparr>"

definition byte_text :: "bytes \<Rightarrow> string" where
  "byte_text bs = map (\<lambda>b. char_of (unat b)) bs"

definition text_bytes :: "string \<Rightarrow> bytes" where
  "text_bytes s = map (\<lambda>c. of_nat (of_char c)) s"

lemma text_bytes_byte_text: "text_bytes (byte_text bs) = bs"
  by (induction bs) (simp_all add: text_bytes_def byte_text_def)

definition bare_codec :: wire_codec where
  "bare_codec = \<lparr>fromUint8Array = byte_text, toUint8Array = (\<lambda>s. Ok (text_bytes s)),
     stringify_encode = (\<lambda>_. []), decode_parse = (\<lambda>_. Err Not_json)\<rparr>"

definition sample_payload :: sealed_payload where
  "sample_payload = \<lparr>keychainChanges = [9, 10], beekemWelcome = Some sample_welcome\<rparr>"

definition sample_codec :: wire_codec where
  "sample_codec = bare_codec\<lparr>decode_parse := \<lambda>_. Ok (welcome_envelope bare_codec sample_payload)\<rparr>"

lemma sample_codec_envelope:
  "decode_parse sample_codec (stringify_encode sample_codec (welcome_envelope sample_codec sample_payload))
     = Ok (welcome_envelope sample_codec sample_payload)"
  by (simp add: sample_codec_def bare_codec_def welcome_envelope_def sample_payload_def serializeBeeKEMWelcomeForWire_def
      sample_welcome_def serialize_path_node_def serialize_tree_key_def)

theorem wire_round_trip_witness:
  "deserializePathUpdateFromWire sample_codec (serializePathUpdateForWire sample_codec sample_update) = Ok sample_update
    \<and> decodeWelcomeSealedPayload sample_codec (encodeWelcomeSealedPayload sample_codec sample_payload) = Ok sample_payload"
proof (rule wire_round_trip)
  show "toUint8Array sample_codec (fromUint8Array sample_codec bs) = Ok bs" for bs
    by (simp add: sample_codec_def bare_codec_def text_bytes_byte_text)
  show "path_update_typed sample_update" by (simp add: path_update_typed_def sample_update_def)
  show "payload_typed sample_payload" by (simp add: payload_typed_def sample_payload_def welcome_typed_def sample_welcome_def)
qed (rule sample_codec_envelope)

end
