(* ===== verification/StreamIo.thy ===== *)
theory StreamIo
  imports Membership
begin

text \<open>
  Reading protocol streams (\<^verbatim>\<open>utils.ts\<close>): the assembly of the chunks of a stream under a size limit, the
  incremental read of one message with its growing buffer, and the path-prefixed header that routes a
  message to its document.  A chunk is its bytes, whichever of the three buffer types carries it.
\<close>

unbundle bit_operations_syntax

section \<open>Sources\<close>

text \<open>The chunks a source yields (\<open>None\<close> for a falsy one), then its end or the exception it throws.\<close>

datatype source_exn = Range_exn string | Other_exn string

type_synonym source = "bytes option list \<times> source_exn option"

datatype 'd read_error =
    Too_large "nat option"
  | Source_failed source_exn
  | Array_overflow
  | Stream_ended
  | Undecodable 'd

definition exceeds :: "nat \<Rightarrow> nat option \<Rightarrow> bool" where
  "exceeds n maxSize = (case maxSize of None \<Rightarrow> False | Some m \<Rightarrow> m < n)"

text \<open>\<^verbatim>\<open>a.set(c, i)\<close> on a typed array: it throws when \<open>c\<close> does not fit.\<close>

definition array_set :: "bytes \<Rightarrow> bytes \<Rightarrow> nat \<Rightarrow> bytes option" where
  "array_set a c i = (if i + length c > length a then None else Some (take i a @ c @ drop (i + length c) a))"

definition concatUint8Arrays :: "bytes list \<Rightarrow> bytes option" where
  "concatUint8Arrays arrs = (let n = foldl (\<lambda>a b. a + length b) 0 arrs
     in map_option fst (foldl (\<lambda>st arr. case st of None \<Rightarrow> None
          | Some (a, i) \<Rightarrow> map_option (\<lambda>a'. (a', i + length arr)) (array_set a arr i)) (Some (replicate n 0, 0)) arrs))"

section \<open>Reading a whole stream\<close>

fun collect :: "nat option \<Rightarrow> nat \<Rightarrow> bytes list \<Rightarrow> bytes option list \<Rightarrow> source_exn option \<Rightarrow> 'd read_error + bytes list \<times> nat" where
  "collect mx len chunks [] fail = (case fail of None \<Rightarrow> Ok (chunks, len) | Some e \<Rightarrow> Err (Source_failed e))"
| "collect mx len chunks (None # cs) fail = collect mx len chunks cs fail"
| "collect mx len chunks (Some c # cs) fail =
     (let len' = len + length c in
      if exceeds len' mx then Err (Too_large mx) else collect mx len' (chunks @ [c]) cs fail)"

fun assemble :: "bytes \<Rightarrow> nat \<Rightarrow> bytes list \<Rightarrow> 'd read_error + bytes" where
  "assemble a i [] = Ok a"
| "assemble a i (c # cs) = (case array_set a c i of None \<Rightarrow> Err Array_overflow | Some a' \<Rightarrow> assemble a' (i + length c) cs)"

definition readUint8Iterable :: "source \<Rightarrow> nat option \<Rightarrow> 'd read_error + bytes" where
  "readUint8Iterable src mx = try_bind (collect mx 0 [] (fst src) (snd src)) (\<lambda>(chunks, len).
     assemble (replicate len 0) 0 chunks)"

section \<open>Reading one message\<close>

definition grow :: "nat option \<Rightarrow> bytes \<Rightarrow> nat \<Rightarrow> nat \<Rightarrow> bytes option" where
  "grow mx a len nextLength =
     (if nextLength > length a then
        let grown = max nextLength (max 1 (length a * 2));
            cap = (case mx of None \<Rightarrow> grown | Some m \<Rightarrow> min grown m)
        in array_set (replicate cap 0) (take len a) 0
      else Some a)"

fun first_loop :: "(bytes \<Rightarrow> 'd + 'a) \<Rightarrow> nat option \<Rightarrow> bytes \<Rightarrow> nat \<Rightarrow> 'd read_error \<Rightarrow> bytes option list \<Rightarrow> source_exn option
    \<Rightarrow> 'd read_error + 'a" where
  "first_loop deser mx a len lastError [] fail = (case fail of None \<Rightarrow> Err lastError | Some e \<Rightarrow> Err (Source_failed e))"
| "first_loop deser mx a len lastError (None # cs) fail = first_loop deser mx a len lastError cs fail"
| "first_loop deser mx a len lastError (Some c # cs) fail =
     (let nextLength = len + length c in
      if exceeds nextLength mx then Err (Too_large mx)
      else (case Option.bind (grow mx a len nextLength) (\<lambda>a'. array_set a' c len) of
              None \<Rightarrow> Err Array_overflow
            | Some a' \<Rightarrow> (case deser (take nextLength a') of
                 Inr v \<Rightarrow> Ok v
               | Inl d \<Rightarrow> first_loop deser mx a' nextLength (Undecodable d) cs fail)))"

definition readFirstDeserializable :: "source \<Rightarrow> (bytes \<Rightarrow> 'd + 'a) \<Rightarrow> nat option \<Rightarrow> 'd read_error + 'a" where
  "readFirstDeserializable src deser mx = first_loop deser mx [] 0 Stream_ended (fst src) (snd src)"

section \<open>The path-prefixed header\<close>

datatype drop_reason = Request_too_large | Read_failed | Too_short | Invalid_path_length | No_document_registered

datatype 'doc header = Header_ok string 'doc bytes | Header_drop drop_reason

text \<open>\<^verbatim>\<open>((b0 << 24) | (b1 << 16) | (b2 << 8) | b3) >>> 0\<close>.\<close>

definition path_length :: "bytes \<Rightarrow> nat" where
  "path_length b = unat (push_bit 24 (ucast (b ! 0)) OR push_bit 16 (ucast (b ! 1)) OR push_bit 8 (ucast (b ! 2))
     OR ucast (b ! 3) :: 32 word)"

text \<open>\<open>textDecode\<close> is the \<^verbatim>\<open>TextDecoder\<close>, \<open>registry\<close> the map of open documents.\<close>

definition parse_header :: "(bytes \<Rightarrow> string) \<Rightarrow> (string \<Rightarrow> 'doc option) \<Rightarrow> nat \<Rightarrow> bytes \<Rightarrow> 'doc header" where
  "parse_header textDecode registry maxPath assembled =
     (if length assembled < 4 then Header_drop Too_short
      else let n = path_length assembled in
        if n = 0 \<or> n > maxPath \<or> n + 4 > length assembled then Header_drop Invalid_path_length
        else let path = textDecode (take n (drop 4 assembled)); payload = drop (4 + n) assembled in
          (case registry path of None \<Rightarrow> Header_drop No_document_registered | Some doc \<Rightarrow> Header_ok path doc payload))"

definition readPathPrefixedProtocolHeader ::
    "(bytes \<Rightarrow> string) \<Rightarrow> source \<Rightarrow> (string \<Rightarrow> 'doc option) \<Rightarrow> nat \<Rightarrow> nat \<Rightarrow> 'doc header" where
  "readPathPrefixedProtocolHeader textDecode src registry maxRequest maxPath =
     (case (readUint8Iterable src (Some maxRequest) :: unit read_error + bytes) of
        Inl (Too_large _) \<Rightarrow> Header_drop Request_too_large
      | Inl Array_overflow \<Rightarrow> Header_drop Request_too_large
      | Inl (Source_failed (Range_exn _)) \<Rightarrow> Header_drop Request_too_large
      | Inl _ \<Rightarrow> Header_drop Read_failed
      | Inr assembled \<Rightarrow> parse_header textDecode registry maxPath assembled)"

end
