(* ===== verification/StreamCorrect.thy ===== *)
theory StreamCorrect
  imports StreamIo
begin

text \<open>
  What the stream readers return, independently of how the bytes arrive: the whole content or an error
  under the size limit, the first prefix that decodes, and the header a sender wrote.
\<close>

unbundle bit_operations_syntax

section \<open>Whole streams\<close>

definition content :: "bytes option list \<Rightarrow> bytes" where
  "content cs = concat (List.map_filter id cs)"

lemma content_simps [simp]:
  "content [] = []" "content (None # cs) = content cs" "content (Some c # cs) = c @ content cs"
  by (simp_all add: content_def List.map_filter_def)

lemma exceeds_mono: "exceeds n mx \<Longrightarrow> n \<le> m \<Longrightarrow> exceeds m mx"
  by (auto simp: exceeds_def split: option.splits)

definition read_spec :: "source \<Rightarrow> nat option \<Rightarrow> 'd read_error + bytes" where
  "read_spec src mx =
     (if exceeds (length (content (fst src))) mx then Err (Too_large mx)
      else (case snd src of None \<Rightarrow> Ok (content (fst src)) | Some e \<Rightarrow> Err (Source_failed e)))"

lemma collect_spec:
  assumes "\<not> exceeds len mx"
  shows "collect mx len chunks cs fail =
    (if exceeds (len + length (content cs)) mx then Err (Too_large mx)
     else (case fail of None \<Rightarrow> Ok (chunks @ List.map_filter id cs, len + length (content cs)) | Some e \<Rightarrow> Err (Source_failed e)))"
  using assms
proof (induction mx len chunks cs fail rule: collect.induct)
  case (3 mx len chunks c cs fail)
  show ?case
  proof (cases "exceeds (len + length c) mx")
    case True
    then have "exceeds (len + (length c + length (content cs))) mx" by (rule exceeds_mono) simp
    then show ?thesis using True by simp
  next
    case False
    then show ?thesis using 3 by (simp add: add.assoc List.map_filter_def split: option.split)
  qed
qed (auto simp: List.map_filter_def split: option.split)

lemma array_set_front: "array_set (xs @ replicate (length c + n) 0) c (length xs) = Some ((xs @ c) @ replicate n 0)"
  by (simp add: array_set_def)

lemma assemble_concat:
  "assemble (xs @ replicate (length (concat cs)) 0) (length xs) cs = Ok (xs @ concat cs)"
proof (induction cs arbitrary: xs)
  case (Cons c cs)
  then show ?case using array_set_front [of xs c "length (concat cs)"] Cons.IH [of "xs @ c"] by simp
qed simp

lemma assemble_all: "assemble (replicate (length (concat cs)) 0) 0 cs = Ok (concat cs)"
  using assemble_concat [of "[]" cs] by simp

lemma readUint8Iterable_spec: "readUint8Iterable src mx = read_spec src mx"
proof -
  have "\<not> exceeds 0 mx" by (simp add: exceeds_def split: option.split)
  then show ?thesis
    by (simp add: readUint8Iterable_def read_spec_def collect_spec content_def assemble_all split: option.split)
qed

lemma concatUint8Arrays_concat: "concatUint8Arrays arrs = Some (concat arrs)"
proof -
  let ?step = "\<lambda>st arr. case st of None \<Rightarrow> None | Some (a, i) \<Rightarrow> map_option (\<lambda>a'. (a', i + length arr)) (array_set a arr i)"
  have "foldl ?step (Some (xs @ replicate (length (concat arrs)) 0, length xs)) arrs
      = Some (xs @ concat arrs, length xs + length (concat arrs))" for xs
  proof (induction arrs arbitrary: xs)
    case (Cons c cs)
    then show ?case using array_set_front [of xs c "length (concat cs)"] Cons.IH [of "xs @ c"] by (simp add: add.assoc)
  qed simp
  moreover have "foldl (\<lambda>a b. a + length b) n arrs = n + length (concat arrs)" for n
    by (induction arrs arbitrary: n) simp_all
  ultimately show ?thesis by (metis (no_types, lifting) add_0 append_Nil concatUint8Arrays_def fst_conv list.size(3) option.map(2))
qed

section \<open>One message\<close>

text \<open>The reference has no buffer: it decodes the bytes received so far.\<close>

fun first_spec :: "(bytes \<Rightarrow> 'd + 'a) \<Rightarrow> nat option \<Rightarrow> bytes \<Rightarrow> 'd read_error \<Rightarrow> bytes option list \<Rightarrow> source_exn option
    \<Rightarrow> 'd read_error + 'a" where
  "first_spec deser mx acc lastError [] fail = (case fail of None \<Rightarrow> Err lastError | Some e \<Rightarrow> Err (Source_failed e))"
| "first_spec deser mx acc lastError (None # cs) fail = first_spec deser mx acc lastError cs fail"
| "first_spec deser mx acc lastError (Some c # cs) fail =
     (if exceeds (length acc + length c) mx then Err (Too_large mx)
      else (case deser (acc @ c) of Inr v \<Rightarrow> Ok v | Inl d \<Rightarrow> first_spec deser mx (acc @ c) (Undecodable d) cs fail))"

lemma grow_step:
  assumes "length acc \<le> length a" "take (length acc) a = acc" "\<not> exceeds (length acc + length c) mx"
  obtains a' where "Option.bind (grow mx a (length acc) (length acc + length c)) (\<lambda>a'. array_set a' c (length acc)) = Some a'"
    "take (length acc + length c) a' = acc @ c" "length acc + length c \<le> length a'"
proof -
  let ?n = "length acc + length c"
  obtain g where g: "grow mx a (length acc) ?n = Some g" "take (length acc) g = acc" "?n \<le> length g"
  proof (cases "?n > length a")
    case True
    define cap where "cap = (case mx of None \<Rightarrow> max ?n (max 1 (length a * 2)) | Some m \<Rightarrow> min (max ?n (max 1 (length a * 2))) m)"
    have "?n \<le> cap" using assms(3) by (auto simp: cap_def exceeds_def split: option.splits)
    moreover have "grow mx a (length acc) ?n = array_set (replicate cap 0) (take (length acc) a) 0"
      by (simp only: grow_def Let_def cap_def True if_True)
    ultimately have "grow mx a (length acc) ?n = Some (acc @ drop (length acc) (replicate cap 0))"
      using assms(1,2) by (simp add: array_set_def)
    then show thesis by (rule that) (use \<open>?n \<le> cap\<close> in simp_all)
  next
    case False
    then show thesis using assms that [of a] by (simp add: grow_def)
  qed
  let ?a' = "acc @ c @ drop ?n g"
  have "array_set g c (length acc) = Some ?a'" using g by (simp add: array_set_def)
  then show thesis using g by (intro that [of ?a']) simp_all
qed

lemma first_loop_spec:
  assumes "length acc \<le> length a" "take (length acc) a = acc"
  shows "first_loop deser mx a (length acc) lastError cs fail = first_spec deser mx acc lastError cs fail"
  using assms
proof (induction deser mx acc lastError cs fail arbitrary: a rule: first_spec.induct)
  case (3 deser mx acc lastError c cs fail)
  show ?case
  proof (cases "exceeds (length acc + length c) mx")
    case False
    then obtain a' where a': "Option.bind (grow mx a (length acc) (length acc + length c)) (\<lambda>a'. array_set a' c (length acc)) = Some a'"
      "take (length acc + length c) a' = acc @ c" "length acc + length c \<le> length a'"
      using grow_step [OF 3(2,3)] by blast
    show ?thesis
    proof (cases "deser (acc @ c)")
      case (Inl d)
      then show ?thesis using False a' 3(1) [OF False Inl, of a'] by simp
    qed (use False a' in simp)
  qed simp
qed simp_all

section \<open>Headers\<close>

lemma path_length_be32: "path_length (be32 n @ rest) = n mod 2 ^ 32"
proof -
  have b: "(be32 n @ rest) ! 0 = of_nat (drop_bit 24 n)" "(be32 n @ rest) ! 1 = of_nat (drop_bit 16 n)"
    "(be32 n @ rest) ! 2 = of_nat (drop_bit 8 n)" "(be32 n @ rest) ! 3 = of_nat n"
    by (simp_all add: be32_def drop_bit_eq_div)
  have "push_bit 24 (ucast ((be32 n @ rest) ! 0)) OR push_bit 16 (ucast ((be32 n @ rest) ! 1))
      OR push_bit 8 (ucast ((be32 n @ rest) ! 2)) OR ucast ((be32 n @ rest) ! 3) = (of_nat n :: 32 word)"
    unfolding b
  proof (rule bit_word_eqI)
    fix i
    assume "i < LENGTH(32)"
    consider "i < 8" | "8 \<le> i \<and> i < 16" | "16 \<le> i \<and> i < 24" | "24 \<le> i" by linarith
    then show "bit (push_bit 24 (ucast (of_nat (drop_bit 24 n) :: byte)) OR push_bit 16 (ucast (of_nat (drop_bit 16 n) :: byte))
        OR push_bit 8 (ucast (of_nat (drop_bit 8 n) :: byte)) OR ucast (of_nat n :: byte) :: 32 word) i = bit (of_nat n :: 32 word) i"
      using \<open>i < LENGTH(32)\<close> by cases (auto simp: bit_simps)
  qed
  then show ?thesis by (simp add: path_length_def unat_of_nat)
qed

lemma header_of_prefixed:
  assumes "path_prefixed E body = Ok payload" "textDecode (text_encode (documentPath E)) = documentPath E"
  shows "parse_header textDecode registry MAX_DOCUMENT_PATH_LENGTH payload =
    (case registry (documentPath E) of None \<Rightarrow> Header_drop No_document_registered | Some doc \<Rightarrow> Header_ok (documentPath E) doc body)"
proof -
  let ?path = "text_encode (documentPath E)"
  have path: "?path \<noteq> []" "length ?path \<le> 4096" and payload: "payload = be32 (length ?path) @ ?path @ body"
    using assms(1) by (auto simp: path_prefixed_def Let_def MAX_DOCUMENT_PATH_LENGTH_def split: if_splits)
  have "path_length payload = length ?path" using path(2) by (simp add: payload path_length_be32)
  then show ?thesis using path assms(2) by (simp add: parse_header_def Let_def MAX_DOCUMENT_PATH_LENGTH_def payload)
qed

section \<open>Properties\<close>

text \<open>
  Claim C31.  The readers do not depend on how a stream is cut into chunks or on the buffer they grow: reading a
  whole stream gives its content, or the size error exactly when the content exceeds the limit, or the
  exception of the source; reading one message gives the decoding of the first prefix, at a chunk
  boundary, that decodes within the limit, and otherwise the last decoding error.  No write overflows
  the buffer.
\<close>

theorem stream_readers_exact:
  "readUint8Iterable src mx = read_spec src mx
   \<and> readFirstDeserializable src deser mx = first_spec deser mx [] Stream_ended (fst src) (snd src)"
proof
  show "readUint8Iterable src mx = read_spec src mx" by (rule readUint8Iterable_spec)
  show "readFirstDeserializable src deser mx = first_spec deser mx [] Stream_ended (fst src) (snd src)"
    using first_loop_spec [of "[]" "[]"] by (simp add: readFirstDeserializable_def)
qed

end
