(* ===== verification/SwarmNode.thy ===== *)
theory SwarmNode
  imports StreamCorrect DocLoad
begin

text \<open>
  The \<^verbatim>\<open>Collabswarm\<close> object (\<^verbatim>\<open>collabswarm.ts\<close>): its initialization, the registry of open documents, the list of
  connected peers with its subscribers, and the six shared protocol handlers that route an inbound
  stream to a document.  A document is an object identity \<open>'d\<close>, a subscriber \<open>'h\<close>.  Helia and libp2p
  are the record \<open>node_env\<close>: what starting the node and registering the handlers gives.
\<close>

section \<open>State\<close>

record swarm_config =
  quorum_knobs :: quorum_config
  loadQuorumEnabled :: "bool option"
  enableNetworkStats :: bool

record ('d, 'h) swarm =
  documentRegistry :: "(string, 'd) jsmap"
  peerIds :: "string list"
  swarmPeerId :: "string option"
  heliaNode :: "nat option" \<comment> \<open>the running node\<close>
  openedLegacyStores :: nat
  swarmConfig :: "swarm_config option"
  peerConnectHandlers :: "(string, 'h) jsmap"
  peerDisconnectHandlers :: "(string, 'h) jsmap"
  networkStats :: bool
  sharedHandlers :: bool \<comment> \<open>whether a registration of the shared handlers is in place\<close>

datatype swarm_error =
    Documents_open
  | Quorum_config_error quorum_error
  | Node_start_failed string
  | Handle_failed string
  | Not_initialized
  | Path_registered string

record node_env =
  createAndStartHeliaNode :: "string + nat \<times> string \<times> nat" \<comment> \<open>the node, its peer id and the stores opened for it\<close>
  libp2p_handle :: "string + unit" \<comment> \<open>the registration of all six handlers\<close>

definition default_swarm_config :: swarm_config where
  "default_swarm_config = \<lparr>quorum_knobs = \<lparr>loadQuorumK = None, loadQuorumQ = None, loadQuorumTimeoutMs = None\<rparr>,
     loadQuorumEnabled = None, enableNetworkStats = False\<rparr>"

definition swarm_new :: "('d, 'h) swarm" where
  "swarm_new = \<lparr>documentRegistry = [], peerIds = [], swarmPeerId = None, heliaNode = None, openedLegacyStores = 0,
     swarmConfig = None, peerConnectHandlers = [], peerDisconnectHandlers = [], networkStats = False, sharedHandlers = False\<rparr>"

section \<open>Initialization\<close>

definition get_heliaNode :: "('d, 'h) swarm \<Rightarrow> swarm_error + nat" where
  "get_heliaNode s = (case heliaNode s of Some n \<Rightarrow> Ok n | None \<Rightarrow> Err Not_initialized)"

definition get_peerId :: "('d, 'h) swarm \<Rightarrow> swarm_error + string" where
  "get_peerId s = (case swarmPeerId s of Some p \<Rightarrow> Ok p | None \<Rightarrow> Err Not_initialized)"

text \<open>The previous node is stopped, its stores closed and its peers forgotten.\<close>

definition tear_down :: "('d, 'h) swarm \<Rightarrow> ('d, 'h) swarm" where
  "tear_down s = (if heliaNode s = None then s
     else s\<lparr>openedLegacyStores := 0, heliaNode := None, swarmPeerId := None, peerIds := []\<rparr>)"

definition registerSharedProtocolHandlers :: "node_env \<Rightarrow> ('d, 'h) swarm \<Rightarrow> (swarm_error + unit) \<times> ('d, 'h) swarm" where
  "registerSharedProtocolHandlers N s =
     (if sharedHandlers s then (Ok (), s)
      else (case libp2p_handle N of
              Inl e \<Rightarrow> (Err (Handle_failed e), s\<lparr>sharedHandlers := False\<rparr>)
            | Inr _ \<Rightarrow> (Ok (), s\<lparr>sharedHandlers := True\<rparr>)))"

definition swarm_initialize :: "node_env \<Rightarrow> swarm_config option \<Rightarrow> ('d, 'h) swarm \<Rightarrow> (swarm_error + unit) \<times> ('d, 'h) swarm" where
  "swarm_initialize N config s0 =
     (if documentRegistry s0 \<noteq> [] then (Err Documents_open, s0)
      else let s = tear_down s0;
               c = (case config of None \<Rightarrow> default_swarm_config | Some c \<Rightarrow> c)
        in (case (if loadQuorumEnabled c \<noteq> Some False then validateLoadQuorumConfig (quorum_knobs c) else Ok ()) of
              Inl e \<Rightarrow> (Err (Quorum_config_error e), s)
            | Inr _ \<Rightarrow>
                let s = s\<lparr>swarmConfig := Some c, sharedHandlers := False, networkStats := enableNetworkStats c\<rparr>
                in (case createAndStartHeliaNode N of
                      Inl e \<Rightarrow> (Err (Node_start_failed e), s)
                    | Inr (running, peer, stores) \<Rightarrow>
                        registerSharedProtocolHandlers N (s\<lparr>heliaNode := Some running, openedLegacyStores := stores, swarmPeerId := Some peer\<rparr>))))"

section \<open>Documents and peers\<close>

definition registerDocument :: "string \<Rightarrow> 'd \<Rightarrow> ('d, 'h) swarm \<Rightarrow> swarm_error + ('d, 'h) swarm" where
  "registerDocument path doc s =
     (if map_has (documentRegistry s) path then Err (Path_registered path)
      else Ok (s\<lparr>documentRegistry := map_set path doc (documentRegistry s)\<rparr>))"

definition unregisterDocument :: "string \<Rightarrow> 'd \<Rightarrow> ('d, 'h) swarm \<Rightarrow> ('d, 'h) swarm" where
  "unregisterDocument path doc s =
     (if map_get (documentRegistry s) path = Some doc
      then s\<lparr>documentRegistry := map_delete path (documentRegistry s)\<rparr> else s)"

text \<open>The calls of the subscribers, in the order of their map.\<close>

definition on_peer_connect :: "string \<Rightarrow> ('d, 'h) swarm \<Rightarrow> ('d, 'h) swarm \<times> ('h \<times> string) list" where
  "on_peer_connect peer s =
     (s\<lparr>peerIds := peerIds s @ [peer]\<rparr>, map (\<lambda>(_, h). (h, peer)) (peerConnectHandlers s))"

fun splice_first :: "string \<Rightarrow> string list \<Rightarrow> string list" where
  "splice_first p [] = []"
| "splice_first p (q # qs) = (if q = p then qs else q # splice_first p qs)"

definition on_peer_disconnect :: "string \<Rightarrow> ('d, 'h) swarm \<Rightarrow> ('d, 'h) swarm \<times> ('h \<times> string) list" where
  "on_peer_disconnect peer s =
     (s\<lparr>peerIds := splice_first peer (peerIds s)\<rparr>, map (\<lambda>(_, h). (h, peer)) (peerDisconnectHandlers s))"

definition subscribeToPeerConnect :: "string \<Rightarrow> 'h \<Rightarrow> ('d, 'h) swarm \<Rightarrow> ('d, 'h) swarm" where
  "subscribeToPeerConnect handlerId h s = s\<lparr>peerConnectHandlers := map_set handlerId h (peerConnectHandlers s)\<rparr>"

definition unsubscribeFromPeerConnect :: "string \<Rightarrow> ('d, 'h) swarm \<Rightarrow> ('d, 'h) swarm" where
  "unsubscribeFromPeerConnect handlerId s = s\<lparr>peerConnectHandlers := map_delete handlerId (peerConnectHandlers s)\<rparr>"

definition subscribeToPeerDisconnect :: "string \<Rightarrow> 'h \<Rightarrow> ('d, 'h) swarm \<Rightarrow> ('d, 'h) swarm" where
  "subscribeToPeerDisconnect handlerId h s = s\<lparr>peerDisconnectHandlers := map_set handlerId h (peerDisconnectHandlers s)\<rparr>"

definition unsubscribeFromPeerDisconnect :: "string \<Rightarrow> ('d, 'h) swarm \<Rightarrow> ('d, 'h) swarm" where
  "unsubscribeFromPeerDisconnect handlerId s = s\<lparr>peerDisconnectHandlers := map_delete handlerId (peerDisconnectHandlers s)\<rparr>"

section \<open>The shared handlers\<close>

definition MAX_REQUEST_SIZE :: nat where
  "MAX_REQUEST_SIZE = 10 * 1024 * 1024"

text \<open>What a handler does with its stream: what it writes, which method of which document it calls, its close.\<close>

datatype 'd action =
    Sink "bytes list"
  | Serve load_protocol 'd load_request
  | Deliver protocol 'd bytes
  | Close_stream

definition route_request :: "load_protocol \<Rightarrow> (bytes \<Rightarrow> 'x + load_request) \<Rightarrow> source \<Rightarrow> ('d, 'h) swarm \<Rightarrow> 'd action list" where
  "route_request p deserializeLoadRequest src s =
     (case readFirstDeserializable src deserializeLoadRequest (Some MAX_REQUEST_SIZE) of
        Inl _ \<Rightarrow> [Sink []]
      | Inr request \<Rightarrow>
          (case map_get (documentRegistry s) (lr_documentId request) of
             None \<Rightarrow> [Sink (if p = TipAdvertiseV1 then [[0xff]] else [])]
           | Some doc \<Rightarrow> [Serve p doc request]))"

definition docLoadHandler :: "(bytes \<Rightarrow> 'x + load_request) \<Rightarrow> source \<Rightarrow> ('d, 'h) swarm \<Rightarrow> 'd action list" where
  "docLoadHandler deser src s = route_request DocumentLoadV3 deser src s"

definition snapshotLoadHandler :: "(bytes \<Rightarrow> 'x + load_request) \<Rightarrow> source \<Rightarrow> ('d, 'h) swarm \<Rightarrow> 'd action list" where
  "snapshotLoadHandler deser src s = route_request SnapshotLoadV3 deser src s"

definition tipAdvertiseHandler :: "(bytes \<Rightarrow> 'x + load_request) \<Rightarrow> source \<Rightarrow> ('d, 'h) swarm \<Rightarrow> 'd action list" where
  "tipAdvertiseHandler deser src s = route_request TipAdvertiseV1 deser src s @ [Close_stream]"

definition route_prefixed :: "protocol \<Rightarrow> (bytes \<Rightarrow> string) \<Rightarrow> source \<Rightarrow> ('d, 'h) swarm \<Rightarrow> 'd action list" where
  "route_prefixed p textDecode src s =
     (case readPathPrefixedProtocolHeader textDecode src (map_get (documentRegistry s)) MAX_REQUEST_SIZE MAX_DOCUMENT_PATH_LENGTH of
        Header_drop _ \<Rightarrow> []
      | Header_ok _ doc payload \<Rightarrow> [Deliver p doc payload]) @ [Close_stream]"

definition keyUpdateHandler :: "(bytes \<Rightarrow> string) \<Rightarrow> source \<Rightarrow> ('d, 'h) swarm \<Rightarrow> 'd action list" where
  "keyUpdateHandler textDecode src s = route_prefixed DocumentKeyUpdateV2 textDecode src s"

definition beekemWelcomeHandler :: "(bytes \<Rightarrow> string) \<Rightarrow> source \<Rightarrow> ('d, 'h) swarm \<Rightarrow> 'd action list" where
  "beekemWelcomeHandler textDecode src s = route_prefixed BeekemWelcomeV1 textDecode src s"

definition beekemPathUpdateHandler :: "(bytes \<Rightarrow> string) \<Rightarrow> source \<Rightarrow> ('d, 'h) swarm \<Rightarrow> 'd action list" where
  "beekemPathUpdateHandler textDecode src s = route_prefixed BeekemPathUpdateV1 textDecode src s"

end
