(* ===== verification/SwarmCorrect.thy ===== *)
theory SwarmCorrect
  imports SwarmNode DocSample
begin

text \<open>
  Correctness of the swarm object: the life of a registration against stale closes and
  re-initialization, the list of peers, and the routing of inbound streams.
\<close>

section \<open>Runs\<close>

datatype ('d, 'h) swarm_event =
    Register string 'd
  | Unregister string 'd
  | Peer_connect string
  | Peer_disconnect string
  | Subscribe_connect string 'h
  | Unsubscribe_connect string
  | Subscribe_disconnect string 'h
  | Unsubscribe_disconnect string
  | Initialize node_env "swarm_config option"

definition swarm_step :: "('d, 'h) swarm \<Rightarrow> ('d, 'h) swarm_event \<Rightarrow> ('d, 'h) swarm" where
  "swarm_step s e = (case e of
     Register path d \<Rightarrow> (case registerDocument path d s of Inl _ \<Rightarrow> s | Inr t \<Rightarrow> t)
   | Unregister path d \<Rightarrow> unregisterDocument path d s
   | Peer_connect p \<Rightarrow> fst (on_peer_connect p s)
   | Peer_disconnect p \<Rightarrow> fst (on_peer_disconnect p s)
   | Subscribe_connect i h \<Rightarrow> subscribeToPeerConnect i h s
   | Unsubscribe_connect i \<Rightarrow> unsubscribeFromPeerConnect i s
   | Subscribe_disconnect i h \<Rightarrow> subscribeToPeerDisconnect i h s
   | Unsubscribe_disconnect i \<Rightarrow> unsubscribeFromPeerDisconnect i s
   | Initialize N c \<Rightarrow> snd (swarm_initialize N c s))"

definition swarm_run :: "('d, 'h) swarm \<Rightarrow> ('d, 'h) swarm_event list \<Rightarrow> ('d, 'h) swarm" where
  "swarm_run s es = foldl swarm_step s es"

definition swarm_ok :: "('d, 'h) swarm \<Rightarrow> bool" where
  "swarm_ok s \<longleftrightarrow> map_ok (documentRegistry s) \<and> map_ok (peerConnectHandlers s) \<and> map_ok (peerDisconnectHandlers s)
     \<and> (heliaNode s = None \<longleftrightarrow> swarmPeerId s = None)"

lemmas swarm_event_defs = swarm_step_def registerDocument_def unregisterDocument_def on_peer_connect_def
  on_peer_disconnect_def subscribeToPeerConnect_def unsubscribeFromPeerConnect_def subscribeToPeerDisconnect_def
  unsubscribeFromPeerDisconnect_def

lemma initialize_registry: "documentRegistry (snd (swarm_initialize N c s)) = documentRegistry s"
  by (auto simp: swarm_initialize_def tear_down_def registerSharedProtocolHandlers_def Let_def split: sum.splits prod.splits)

lemma initialize_ok: "swarm_ok s \<Longrightarrow> swarm_ok (snd (swarm_initialize N c s))"
  by (auto simp: swarm_initialize_def tear_down_def registerSharedProtocolHandlers_def Let_def swarm_ok_def
      split: sum.splits prod.splits)

lemma swarm_step_ok: "swarm_ok s \<Longrightarrow> swarm_ok (swarm_step s e)"
  by (cases e) (auto simp: swarm_event_defs initialize_ok, auto simp: swarm_ok_def js_map)

interpretation sw: machine_invariant swarm_step swarm_ok
  by unfold_locales (rule swarm_step_ok)

text \<open>A registered document survives every event but its own removal, and with it the node it runs on.\<close>

definition holds_document :: "string \<Rightarrow> 'd \<Rightarrow> nat option \<Rightarrow> ('d, 'h) swarm \<Rightarrow> bool" where
  "holds_document path d n s \<longleftrightarrow> map_get (documentRegistry s) path = Some d \<and> heliaNode s = n"

lemma initialize_refused: "documentRegistry s \<noteq> [] \<Longrightarrow> swarm_initialize N c s = (Err Documents_open, s)"
  by (simp add: swarm_initialize_def)

lemma holds_step:
  assumes "holds_document path d n s" "e \<noteq> Unregister path d"
  shows "holds_document path d n (swarm_step s e)"
proof (cases e)
  case (Initialize N c)
  have "documentRegistry s \<noteq> []" using assms(1) by (auto simp: holds_document_def map_get_def)
  then show ?thesis using assms(1) Initialize by (simp add: swarm_step_def initialize_refused)
qed (use assms in \<open>auto simp: swarm_event_defs holds_document_def js_map\<close>)

lemma holds_run:
  "holds_document path d n s \<Longrightarrow> Unregister path d \<notin> set es \<Longrightarrow> holds_document path d n (swarm_run s es)"
  by (induction es arbitrary: s) (auto simp: swarm_run_def holds_step)

section \<open>Peers\<close>

lemma splice_count: "count_list (splice_first p ps) q = count_list ps q - (if p = q then 1 else 0)"
  by (induction ps) auto

definition peer_balance :: "string \<Rightarrow> ('d, 'h) swarm_event list \<Rightarrow> nat \<Rightarrow> nat" where
  "peer_balance p es n = foldl (\<lambda>n e. if e = Peer_connect p then n + 1 else if e = Peer_disconnect p then n - 1 else n) n es"

lemma peers_balanced:
  assumes "\<And>N c. Initialize N c \<notin> set es"
  shows "count_list (peerIds (swarm_run s es)) p = peer_balance p es (count_list (peerIds s) p)"
  using assms
proof (induction es arbitrary: s)
  case (Cons e es)
  then have IH: "count_list (peerIds (swarm_run (swarm_step s e) es)) p = peer_balance p es (count_list (peerIds (swarm_step s e)) p)"
    by simp
  have "count_list (peerIds (swarm_step s e)) p =
      (if e = Peer_connect p then count_list (peerIds s) p + 1 else if e = Peer_disconnect p then count_list (peerIds s) p - 1
       else count_list (peerIds s) p)"
    using Cons.prems by (cases e) (auto simp: swarm_event_defs splice_count)
  then show ?case using IH by (simp add: swarm_run_def peer_balance_def)
qed (simp add: swarm_run_def peer_balance_def)

section \<open>Routing\<close>

lemma route_prefixed_sound:
  "Deliver q d payload \<in> set (route_prefixed p textDecode src s) \<longleftrightarrow>
     q = p \<and> (\<exists>path. readPathPrefixedProtocolHeader textDecode src (map_get (documentRegistry s)) MAX_REQUEST_SIZE MAX_DOCUMENT_PATH_LENGTH
       = Header_ok path d payload)"
  by (auto simp: route_prefixed_def split: header.splits dest: sym)

lemma header_ok_registered:
  "readPathPrefixedProtocolHeader textDecode src registry mx mp = Header_ok path d payload \<Longrightarrow> registry path = Some d"
  by (auto simp: readPathPrefixedProtocolHeader_def parse_header_def Let_def
      split: sum.splits read_error.splits source_exn.splits if_splits option.splits)

lemma route_prefixed_delivers:
  assumes "path_prefixed E body = Ok payload" "textDecode (text_encode (doc_env.documentPath E)) = doc_env.documentPath E"
    and "content cs = payload" "length payload \<le> MAX_REQUEST_SIZE"
  shows "route_prefixed p textDecode (cs, None) s =
    (case map_get (documentRegistry s) (doc_env.documentPath E) of None \<Rightarrow> [Close_stream] | Some d \<Rightarrow> [Deliver p d body, Close_stream])"
  using assms(3,4)
  by (simp add: header_of_prefixed [where textDecode = textDecode, OF assms(1,2)] route_prefixed_def readPathPrefixedProtocolHeader_def readUint8Iterable_spec read_spec_def exceeds_def
      split: option.split)

section \<open>Properties\<close>

text \<open>
  Claim C32.  A key update, Welcome or path update that a member sends arrives: however the transport cuts the
  message into chunks, the receiving node hands the exact body to the document registered under the
  sender's path, and to no other, or drops it when there is none; it always closes the stream.
\<close>

theorem swarm_delivers_broadcast:
  assumes "path_prefixed E body = Ok payload" "textDecode (text_encode (doc_env.documentPath E)) = doc_env.documentPath E"
    and "content cs = payload" "length payload \<le> MAX_REQUEST_SIZE"
  shows "(let route = (\<lambda>p. case map_get (documentRegistry s) (doc_env.documentPath E) of
            None \<Rightarrow> [Close_stream] | Some d \<Rightarrow> [Deliver p d body, Close_stream])
     in keyUpdateHandler textDecode (cs, None) s = route DocumentKeyUpdateV2
      \<and> beekemWelcomeHandler textDecode (cs, None) s = route BeekemWelcomeV1
      \<and> beekemPathUpdateHandler textDecode (cs, None) s = route BeekemPathUpdateV1)"
  by (simp add: keyUpdateHandler_def beekemWelcomeHandler_def beekemPathUpdateHandler_def route_prefixed_delivers [where textDecode = textDecode, OF assms])

text \<open>
  Claim C33.  An open document stays reachable: once its registration succeeded, no later sequence of opens and
  closes of other instances (a stale close of an earlier instance at the same path included), of peer
  events and of re-initializations removes it or replaces the node it runs on; and a load request that
  names its path, alone in a stream, is served by it.
\<close>

theorem swarm_registration_stable:
  assumes "registerDocument path d s = Ok t" "Unregister path d \<notin> set es"
    and "deser b = Ok request" "lr_documentId request = path" "length b \<le> MAX_REQUEST_SIZE"
  shows "let u = swarm_run t es in
    map_get (documentRegistry u) path = Some d \<and> heliaNode u = heliaNode s
    \<and> docLoadHandler deser ([Some b], None) u = [Serve DocumentLoadV3 d request]
    \<and> snapshotLoadHandler deser ([Some b], None) u = [Serve SnapshotLoadV3 d request]
    \<and> tipAdvertiseHandler deser ([Some b], None) u = [Serve TipAdvertiseV1 d request, Close_stream]"
proof -
  have "holds_document path d (heliaNode s) t"
    using assms(1) by (auto simp: registerDocument_def holds_document_def js_map split: if_splits)
  from holds_run [OF this assms(2)]
  have u: "map_get (documentRegistry (swarm_run t es)) path = Some d" "heliaNode (swarm_run t es) = heliaNode s"
    by (simp_all add: holds_document_def)
  have "readFirstDeserializable ([Some b], None) deser (Some MAX_REQUEST_SIZE) = Ok request"
    using assms(3,5) first_loop_spec [of "[]" "[]" deser "Some MAX_REQUEST_SIZE" Stream_ended "[Some b]" None]
    by (simp add: readFirstDeserializable_def exceeds_def)
  then show ?thesis using u assms(4)
    by (simp add: Let_def docLoadHandler_def snapshotLoadHandler_def tipAdvertiseHandler_def route_request_def)
qed

section \<open>Witnesses\<close>

lemma sample_path: "text_decode (text_encode ''/doc'') = ''/doc''"
  unfolding text_decode_def text_encode_def by code_simp

theorem swarm_delivers_broadcast_witness:
  "keyUpdateHandler text_decode ([Some [0, 0], None, Some [0, 4, 47, 100], Some [111, 99, 9, 8]], None)
     (swarm_new\<lparr>documentRegistry := [(''/doc'', 1 :: nat)]\<rparr> :: (nat, nat) swarm)
   = [Deliver DocumentKeyUpdateV2 1 [9, 8], Close_stream]"
proof -
  have path: "doc_env.documentPath sample_failing = ''/doc''" by (simp add: sample_failing_def sample_env_def)
  have "path_prefixed sample_failing [9, 8] = Ok [0, 0, 0, 4, 47, 100, 111, 99, 9, 8]"
    by (simp add: path_prefixed_def path text_encode_def MAX_DOCUMENT_PATH_LENGTH_def be32_def)
  from swarm_delivers_broadcast [where textDecode = text_decode, OF this, of "[Some [0, 0], None, Some [0, 4, 47, 100], Some [111, 99, 9, 8]]"
      "swarm_new\<lparr>documentRegistry := [(''/doc'', 1 :: nat)]\<rparr> :: (nat, nat) swarm"]
  show ?thesis by (simp add: path sample_path MAX_REQUEST_SIZE_def map_get_def)
qed

definition sample_node :: node_env where
  "sample_node = \<lparr>createAndStartHeliaNode = Ok (7, ''peer'', 0), libp2p_handle = Ok ()\<rparr>"

definition sample_request :: load_request where
  "sample_request = \<lparr>lr_documentId = ''/doc'', lr_signature = []\<rparr>"

definition sample_parse :: "bytes \<Rightarrow> unit + load_request" where
  "sample_parse b = (if b = [1] then Ok sample_request else Err ())"

theorem swarm_registration_stable_witness:
  "docLoadHandler sample_parse ([Some [1]], None)
     (swarm_run ((swarm_new :: (nat, nat) swarm)\<lparr>documentRegistry := [(''/doc'', 2)]\<rparr>)
        [Unregister ''/doc'' 1, Register ''/doc'' 3, Initialize sample_node None])
   = [Serve DocumentLoadV3 2 sample_request]"
proof -
  have "registerDocument ''/doc'' 2 (swarm_new :: (nat, nat) swarm) = Ok ((swarm_new :: (nat, nat) swarm)\<lparr>documentRegistry := [(''/doc'', 2)]\<rparr>)"
    by (simp add: registerDocument_def swarm_new_def map_has_def map_set_def)
  from swarm_registration_stable [OF this, of "[Unregister ''/doc'' 1, Register ''/doc'' 3, Initialize sample_node None]"
      sample_parse "[1]" sample_request]
  show ?thesis by (simp add: Let_def MAX_REQUEST_SIZE_def sample_parse_def sample_request_def)
qed

end
