(* ===== verification/UcanAcl.thy ===== *)
theory UcanAcl
  imports UcanCorrect
begin

text \<open>
  The ACL with capabilities (\<^verbatim>\<open>ucan-acl.ts\<close>): grants and revocations kept beside a backing ACL of plain
  membership.  The backing ACL is the record \<open>backing\<close> of its operations on a state \<open>'b\<close>; a change it
  broadcasts is of type \<open>'u\<close>.  Serialization of a public key is total.
\<close>

section \<open>State\<close>

record ('b, 'u, 'pk) backing =
  b_add :: "'pk \<Rightarrow> 'b \<Rightarrow> 'u \<times> 'b"
  b_remove :: "'pk \<Rightarrow> 'b \<Rightarrow> 'u \<times> 'b"
  b_current :: "'b \<Rightarrow> 'u"
  b_merge :: "'u \<Rightarrow> 'b \<Rightarrow> 'b"
  b_check :: "'pk \<Rightarrow> 'b \<Rightarrow> bool"
  b_users :: "'b \<Rightarrow> 'pk list"
  b_new :: 'b
  serializePublicKey :: "'pk \<Rightarrow> string"

record ucan_acl_entry =
  publicKeyBase64 :: string
  entry_ucan :: ucan
  entry_capabilities :: "string list"
  grantedBy :: string
  entry_epochId :: "bytes option"
  entry_revoked :: bool

record 'b ucan_acl =
  entries :: "(string, ucan_acl_entry) jsmap"
  revokedKeys :: "string list"
  backing_state :: 'b

definition ucan_acl_new :: "('b, 'u, 'pk) backing \<Rightarrow> 'b ucan_acl" where
  "ucan_acl_new B = \<lparr>entries = [], revokedKeys = [], backing_state = b_new B\<rparr>"

section \<open>Operations\<close>

definition ucan_acl_add :: "('b, 'u, 'pk) backing \<Rightarrow> 'pk \<Rightarrow> 'b ucan_acl \<Rightarrow> 'u \<times> 'b ucan_acl" where
  "ucan_acl_add B pk a = (let (u, b) = b_add B pk (backing_state a) in (u, a\<lparr>backing_state := b\<rparr>))"

definition ucan_acl_remove :: "('b, 'u, 'pk) backing \<Rightarrow> 'pk \<Rightarrow> 'b ucan_acl \<Rightarrow> 'u \<times> 'b ucan_acl" where
  "ucan_acl_remove B pk a =
     (let keyBase64 = serializePublicKey B pk;
          (u, b) = b_remove B pk (backing_state a)
      in (u, a\<lparr>revokedKeys := set_add keyBase64 (revokedKeys a), entries := map_delete keyBase64 (entries a), backing_state := b\<rparr>))"

definition ucan_acl_current :: "('b, 'u, 'pk) backing \<Rightarrow> 'b ucan_acl \<Rightarrow> 'u" where
  "ucan_acl_current B a = b_current B (backing_state a)"

definition ucan_acl_merge :: "('b, 'u, 'pk) backing \<Rightarrow> 'u \<Rightarrow> 'b ucan_acl \<Rightarrow> 'b ucan_acl" where
  "ucan_acl_merge B u a = a\<lparr>backing_state := b_merge B u (backing_state a)\<rparr>"

text \<open>\<^verbatim>\<open>!capability\<close> holds of \<^verbatim>\<open>undefined\<close> and of the empty string.\<close>

definition ucan_acl_check :: "('b, 'u, 'pk) backing \<Rightarrow> 'pk \<Rightarrow> string option \<Rightarrow> 'b ucan_acl \<Rightarrow> bool" where
  "ucan_acl_check B pk capability a =
     (if capability = None \<or> capability = Some [] then b_check B pk (backing_state a)
      else let keyBase64 = serializePublicKey B pk in
        if keyBase64 \<in> set (revokedKeys a) then False
        else (case map_get (entries a) keyBase64 of
                None \<Rightarrow> b_check B pk (backing_state a)
              | Some entry \<Rightarrow> list_ex (\<lambda>held. capabilityImplies held (the capability)) (entry_capabilities entry)))"

definition ucan_acl_users :: "('b, 'u, 'pk) backing \<Rightarrow> string option \<Rightarrow> 'b ucan_acl \<Rightarrow> 'pk list" where
  "ucan_acl_users B capability a =
     (let allUsers = b_users B (backing_state a) in
      if capability = None \<or> capability = Some [] then allUsers
      else filter (\<lambda>user. ucan_acl_check B user capability a) allUsers)"

definition ucan_acl_grant :: "('b, 'u, 'pk) backing \<Rightarrow> ('k, 'sk) ucan_env \<Rightarrow> 'pk \<Rightarrow> string \<Rightarrow> string \<Rightarrow> 'sk \<Rightarrow> string
    \<Rightarrow> string list \<Rightarrow> bytes option \<Rightarrow> bytes \<Rightarrow> 'b ucan_acl \<Rightarrow> (ucan_exn + 'u) \<times> 'b ucan_acl" where
  "ucan_acl_grant B E pk capability documentId issuerPrivateKey issuerPublicKeyBase64 proofs epochId random a =
     (let keyBase64 = serializePublicKey B pk in
      case createUCAN E issuerPrivateKey issuerPublicKeyBase64 keyBase64 [\<lparr>resource = documentId, ability = capability\<rparr>]
             proofs None None random of
        Inl e \<Rightarrow> (Err e, a)
      | Inr u \<Rightarrow>
          (let a' = a\<lparr>entries := map_set keyBase64 \<lparr>publicKeyBase64 = keyBase64, entry_ucan = u, entry_capabilities = [capability],
                 grantedBy = issuerPublicKeyBase64, entry_epochId = epochId, entry_revoked = False\<rparr> (entries a)\<rparr>;
               (ch, b) = b_add B pk (backing_state a')
           in (Ok ch, a'\<lparr>backing_state := b\<rparr>)))"

definition ucan_acl_revoke :: "('b, 'u, 'pk) backing \<Rightarrow> 'pk \<Rightarrow> 'b ucan_acl \<Rightarrow> 'u \<times> 'b ucan_acl" where
  "ucan_acl_revoke B pk a = ucan_acl_remove B pk a"

definition ucan_acl_getEntry :: "('b, 'u, 'pk) backing \<Rightarrow> 'pk \<Rightarrow> 'b ucan_acl \<Rightarrow> ucan_acl_entry option" where
  "ucan_acl_getEntry B pk a = map_get (entries a) (serializePublicKey B pk)"

section \<open>Runs\<close>

datatype ('u, 'pk, 'sk) ucan_acl_op =
    Op_add 'pk
  | Op_remove 'pk
  | Op_revoke 'pk
  | Op_merge 'u
  | Op_grant 'pk string string 'sk string "string list" "bytes option" bytes

definition ucan_acl_step :: "('b, 'u, 'pk) backing \<Rightarrow> ('k, 'sk) ucan_env \<Rightarrow> 'b ucan_acl \<Rightarrow> ('u, 'pk, 'sk) ucan_acl_op \<Rightarrow> 'b ucan_acl" where
  "ucan_acl_step B E a op = (case op of
     Op_add pk \<Rightarrow> snd (ucan_acl_add B pk a)
   | Op_remove pk \<Rightarrow> snd (ucan_acl_remove B pk a)
   | Op_revoke pk \<Rightarrow> snd (ucan_acl_revoke B pk a)
   | Op_merge u \<Rightarrow> ucan_acl_merge B u a
   | Op_grant pk cap doc sk iss proofs ep rnd \<Rightarrow> snd (ucan_acl_grant B E pk cap doc sk iss proofs ep rnd a))"

text \<open>A revoked key has no entry unless it was granted again, and a key is never taken off the revocation list.\<close>

definition revoked_in :: "string \<Rightarrow> 'b ucan_acl \<Rightarrow> bool" where
  "revoked_in key a \<longleftrightarrow> key \<in> set (revokedKeys a)"

lemmas ucan_acl_ops = ucan_acl_add_def ucan_acl_remove_def ucan_acl_revoke_def ucan_acl_merge_def ucan_acl_grant_def

interpretation rev: machine_invariant "ucan_acl_step B E" "revoked_in key" for B E key
  by unfold_locales
    (auto simp: revoked_in_def ucan_acl_step_def ucan_acl_ops Let_def split: ucan_acl_op.splits prod.splits sum.splits)

section \<open>Properties\<close>


text \<open>
  A grant is exact where it is made and unbounded elsewhere: on the granting replica the key holds exactly
  the capabilities that the granted one implies, but a replica that receives the change of the grant, and
  has neither granted to the key nor revoked it, grants it every capability.  The backing ACL is assumed
  to report a key as a member once it has merged the change that added it.
\<close>

theorem ucan_acl_grant_widens_on_merge:
  assumes "ucan_acl_grant B E pk cap doc sk iss proofs ep rnd a = (Ok ch, a')"
    and "serializePublicKey B pk \<notin> set (revokedKeys a)"
    and "b_check B pk (b_merge B ch (backing_state r))"
    and "ucan_acl_getEntry B pk r = None" "serializePublicKey B pk \<notin> set (revokedKeys r)"
    and "required \<noteq> []"
  shows "(ucan_acl_check B pk (Some required) a' \<longleftrightarrow> capabilityImplies cap required)
    \<and> ucan_acl_check B pk (Some required) (ucan_acl_merge B ch r)"
proof
  show "ucan_acl_check B pk (Some required) a' \<longleftrightarrow> capabilityImplies cap required"
    using assms(1,2,6)
    by (auto simp: ucan_acl_grant_def ucan_acl_check_def Let_def js_map split: sum.splits prod.splits)
  show "ucan_acl_check B pk (Some required) (ucan_acl_merge B ch r)"
    using assms(3-6) by (simp add: ucan_acl_check_def ucan_acl_merge_def ucan_acl_getEntry_def Let_def)
qed

section \<open>Witnesses\<close>

definition set_backing :: "(string list, string, string) backing" where
  "set_backing = \<lparr>b_add = (\<lambda>pk b. (pk, set_add pk b)), b_remove = (\<lambda>pk b. (pk, filter (\<lambda>p. p \<noteq> pk) b)),
     b_current = concat, b_merge = set_add, b_check = (\<lambda>pk b. pk \<in> set b), b_users = (\<lambda>b. b), b_new = [],
     serializePublicKey = (\<lambda>pk. pk)\<rparr>"


theorem ucan_acl_grant_widens_on_merge_witness:
  "\<not> ucan_acl_check set_backing ''bob'' (Some CAP_DOC_ADMIN)
      (snd (ucan_acl_grant set_backing small_env ''bob'' CAP_DOC_READ ''/d'' ''sk'' ''alice'' [] None [] (ucan_acl_new set_backing)))
   \<and> ucan_acl_check set_backing ''bob'' (Some CAP_DOC_ADMIN) (ucan_acl_merge set_backing ''bob'' (ucan_acl_new set_backing))"
proof -
  obtain a' where a': "ucan_acl_grant set_backing small_env ''bob'' CAP_DOC_READ ''/d'' ''sk'' ''alice'' [] None [] (ucan_acl_new set_backing)
      = (Ok ''bob'', a')"
    by (simp add: ucan_acl_grant_def ucan_acl_new_def set_backing_def createUCAN_def small_env_def Let_def)
  have "\<not> capabilityImplies CAP_DOC_READ CAP_DOC_ADMIN"
    by (simp add: capabilityImplies_def CAPABILITY_HIERARCHY_def CAP_DOC_READ_def CAP_DOC_ADMIN_def CAP_DOC_WRITE_def Let_def)
  then show ?thesis
    using ucan_acl_grant_widens_on_merge [OF a', of "ucan_acl_new set_backing" CAP_DOC_ADMIN] a'
    by (simp add: ucan_acl_new_def ucan_acl_getEntry_def set_backing_def js_map CAP_DOC_ADMIN_def)
qed

end
