(* ===== verification/Epoch.thy ===== *)
theory Epoch
  imports Prelude
begin

text \<open>
  Epochs and the epoch manager (\<^verbatim>\<open>epoch.ts\<close>).  A \<^verbatim>\<open>Uint8Array\<close> is a view of a buffer, because the code
  hands \<^verbatim>\<open>.buffer\<close> to WebCrypto; SHA-256 and HKDF are fields of \<open>epoch_crypto\<close>.
\<close>

section \<open>Views and keys\<close>

record view =
  view_buffer :: bytes
  byteOffset :: nat
  byteLength :: nat

definition view_bytes :: "view \<Rightarrow> bytes" where
  "view_bytes v = take (byteLength v) (drop (byteOffset v) (view_buffer v))"

definition fresh_view :: "bytes \<Rightarrow> view" where
  "fresh_view bs = \<lparr>view_buffer = bs, byteOffset = 0, byteLength = length bs\<rparr>"

datatype aes_name = AES_GCM | AES_CTR | AES_CBC

definition EPOCH_SECRET_INFO :: string where
  "EPOCH_SECRET_INFO = ''swarmdb-epoch-v1''"

definition ENCRYPTION_KEY_INFO :: "aes_name \<Rightarrow> string" where
  "ENCRYPTION_KEY_INFO a = (case a of AES_GCM \<Rightarrow> ''aes-gcm-key'' | AES_CTR \<Rightarrow> ''aes-ctr-key'' | AES_CBC \<Rightarrow> ''aes-cbc-key'')"

text \<open>\<open>hkdf_key\<close> takes the key material, the salt, the info string, the algorithm and extractability.\<close>

record 'key epoch_crypto =
  digest :: "bytes \<Rightarrow> bytes"
  hkdf_bits :: "bytes \<Rightarrow> bytes \<Rightarrow> string \<Rightarrow> bytes"
  hkdf_key :: "bytes \<Rightarrow> bytes \<Rightarrow> string \<Rightarrow> aes_name \<Rightarrow> bool \<Rightarrow> 'key"

record 'key epoch =
  epoch_id :: view
  encryptionKey :: 'key
  memberHashes :: "string list"
  parentEpochId :: "view option"
  createdAt :: nat

datatype transition_reason = Member_added | Member_removed | Key_update

record 'key epoch_transition =
  tr_epoch :: "'key epoch"
  tr_reason :: transition_reason
  affectedMember :: "string option"

definition generateEpochId :: "'key epoch_crypto \<Rightarrow> view \<Rightarrow> view option \<Rightarrow> view" where
  "generateEpochId C groupSecret parent =
     (let input = (case parent of None \<Rightarrow> groupSecret | Some p \<Rightarrow> fresh_view (view_bytes groupSecret @ view_bytes p))
      in fresh_view (digest C (view_buffer input)))"

definition deriveEpochSecret :: "'key epoch_crypto \<Rightarrow> view \<Rightarrow> view \<Rightarrow> view" where
  "deriveEpochSecret C groupKeyAgreementOutput epochId =
     fresh_view (hkdf_bits C (view_buffer groupKeyAgreementOutput) (view_buffer epochId) EPOCH_SECRET_INFO)"

definition deriveEncryptionKey :: "'key epoch_crypto \<Rightarrow> view \<Rightarrow> aes_name \<Rightarrow> 'key" where
  "deriveEncryptionKey C epochSecret alg = hkdf_key C (view_buffer epochSecret) [] (ENCRYPTION_KEY_INFO alg) alg (alg \<noteq> AES_GCM)"

definition createEpoch :: "'key epoch_crypto \<Rightarrow> view \<Rightarrow> string list \<Rightarrow> view option \<Rightarrow> aes_name \<Rightarrow> nat \<Rightarrow> 'key epoch" where
  "createEpoch C groupSecret members parent alg now =
     (let epochId = generateEpochId C groupSecret parent;
          epochSecret = deriveEpochSecret C groupSecret epochId
      in \<lparr>epoch_id = epochId, encryptionKey = deriveEncryptionKey C epochSecret alg, memberHashes = members,
          parentEpochId = parent, createdAt = now\<rparr>)"

section \<open>The manager\<close>

record 'key epoch_manager =
  epochMap :: "(string, 'key epoch) jsmap"
  currentEpochId :: "view option"

definition epoch_manager_new :: "'key epoch_manager" where
  "epoch_manager_new = \<lparr>epochMap = [], currentEpochId = None\<rparr>"

definition epochKey :: "view \<Rightarrow> string" where
  "epochKey v = hex_of_bytes (view_bytes v)"

definition currentEpoch :: "'key epoch_manager \<Rightarrow> 'key epoch option" where
  "currentEpoch m = (case currentEpochId m of None \<Rightarrow> None | Some i \<Rightarrow> map_get (epochMap m) (epochKey i))"

definition addEpoch :: "'key epoch \<Rightarrow> 'key epoch_manager \<Rightarrow> 'key epoch_manager" where
  "addEpoch e m = m\<lparr>epochMap := map_set (epochKey (epoch_id e)) e (epochMap m), currentEpochId := Some (epoch_id e)\<rparr>"

definition getEpoch :: "view \<Rightarrow> 'key epoch_manager \<Rightarrow> 'key epoch option" where
  "getEpoch i m = map_get (epochMap m) (epochKey i)"

definition epochs :: "'key epoch_manager \<Rightarrow> 'key epoch list" where
  "epochs m = map snd (epochMap m)"

definition transitionEpoch :: "'key epoch_crypto \<Rightarrow> view \<Rightarrow> string list \<Rightarrow> transition_reason \<Rightarrow> string option \<Rightarrow> aes_name \<Rightarrow> nat
    \<Rightarrow> 'key epoch_manager \<Rightarrow> 'key epoch_transition \<times> 'key epoch_manager" where
  "transitionEpoch C groupSecret members reason affected alg now m =
     (let e = createEpoch C groupSecret members (currentEpochId m) alg now
      in (\<lparr>tr_epoch = e, tr_reason = reason, affectedMember = affected\<rparr>, addEpoch e m))"

section \<open>Runs of transitions\<close>

type_synonym transition = "view \<times> string list \<times> transition_reason \<times> string option \<times> aes_name \<times> nat"

definition epoch_step :: "'key epoch_crypto \<Rightarrow> 'key epoch_manager \<Rightarrow> transition \<Rightarrow> 'key epoch_manager" where
  "epoch_step C m t = (case t of (gs, ms, r, a, alg, now) \<Rightarrow> snd (transitionEpoch C gs ms r a alg now m))"

text \<open>Each epoch names the one before it as its parent.\<close>

fun linked :: "view option \<Rightarrow> 'key epoch list \<Rightarrow> bool" where
  "linked p [] \<longleftrightarrow> True"
| "linked p (e # es) \<longleftrightarrow> parentEpochId e = p \<and> linked (Some (epoch_id e)) es"

text \<open>The epochs that a run creates, as a chain.\<close>

fun chain_of :: "'key epoch_crypto \<Rightarrow> view option \<Rightarrow> transition list \<Rightarrow> 'key epoch list" where
  "chain_of C p [] = []"
| "chain_of C p ((gs, ms, r, a, alg, now) # ts) =
     (let e = createEpoch C gs ms p alg now in e # chain_of C (Some (epoch_id e)) ts)"

lemma createEpoch_parent [simp]: "parentEpochId (createEpoch C gs ms p alg now) = p"
  by (simp add: createEpoch_def Let_def)

lemma linked_chain: "linked p (chain_of C p ts)"
  by (induction C p ts rule: chain_of.induct) (simp_all add: Let_def)

lemma epoch_run:
  assumes "distinct (map (epochKey \<circ> epoch_id) (epochs m @ chain_of C (currentEpochId m) ts))"
    and "epochMap m = map (\<lambda>e. (epochKey (epoch_id e), e)) (epochs m)"
  shows "epochMap (foldl (epoch_step C) m ts) = map (\<lambda>e. (epochKey (epoch_id e), e)) (epochs m @ chain_of C (currentEpochId m) ts)
    \<and> currentEpochId (foldl (epoch_step C) m ts) = (if ts = [] then currentEpochId m
         else Some (epoch_id (last (chain_of C (currentEpochId m) ts))))"
  using assms
proof (induction ts arbitrary: m)
  case (Cons t ts)
  obtain gs ms r a alg now where t: "t = (gs, ms, r, a, alg, now)" by (metis surj_pair)
  define e where "e = createEpoch C gs ms (currentEpochId m) alg now"
  define m' where "m' = addEpoch e m"
  have step: "epoch_step C m t = m'" by (simp add: epoch_step_def t transitionEpoch_def Let_def m'_def e_def)
  have fresh: "epochKey (epoch_id e) \<notin> fst ` set (epochMap m)"
    using Cons.prems by (auto simp: t Let_def e_def comp_def)
  have map': "epochMap m' = epochMap m @ [(epochKey (epoch_id e), e)]"
    using map_set_fresh [OF fresh] by (simp add: m'_def addEpoch_def)
  then have ep: "epochs m' = epochs m @ [e]" by (simp add: epochs_def)
  have cur: "currentEpochId m' = Some (epoch_id e)" by (simp add: m'_def addEpoch_def)
  have "distinct (map (epochKey \<circ> epoch_id) (epochs m' @ chain_of C (currentEpochId m') ts))"
    using Cons.prems(1) by (simp add: ep cur t Let_def e_def comp_def)
  moreover have "epochMap m' = map (\<lambda>e. (epochKey (epoch_id e), e)) (epochs m')"
    using map' ep Cons.prems(2) by simp
  ultimately have "epochMap (foldl (epoch_step C) m' ts) = map (\<lambda>e. (epochKey (epoch_id e), e)) (epochs m' @ chain_of C (currentEpochId m') ts)
    \<and> currentEpochId (foldl (epoch_step C) m' ts) = (if ts = [] then currentEpochId m'
         else Some (epoch_id (last (chain_of C (currentEpochId m') ts))))" by (rule Cons.IH)
  moreover have "chain_of C (currentEpochId m') ts = [] \<longleftrightarrow> ts = []" by (cases ts) (auto simp: Let_def)
  ultimately show ?case using step by (simp add: ep cur t Let_def e_def)
qed simp

section \<open>Properties\<close>

text \<open>
  Claim C35.  The manager keeps a chain: after any run of transitions whose epoch IDs do not collide, the epochs are
  those the transitions created, in order, each naming its predecessor as parent; every one of them is
  found under its ID, and the current epoch is the last.
\<close>

theorem epoch_chain:
  assumes "es = chain_of C None ts" "distinct (map (\<lambda>e. view_bytes (epoch_id e)) es)" "m = foldl (epoch_step C) epoch_manager_new ts"
  shows "epochs m = es \<and> linked None es \<and> list_all (\<lambda>e. getEpoch (epoch_id e) m = Some e) es
    \<and> currentEpoch m = (if es = [] then None else Some (last es))"
proof -
  have inj: "map (epochKey \<circ> epoch_id) es = map hex_of_bytes (map (\<lambda>e. view_bytes (epoch_id e)) es)"
    by (simp add: epochKey_def)
  have d: "distinct (map (epochKey \<circ> epoch_id) es)"
    unfolding inj using assms(2) by (subst distinct_map) (simp add: inj_on_def hex_of_bytes_inj)
  have run: "epochMap m = map (\<lambda>e. (epochKey (epoch_id e), e)) es"
    "currentEpochId m = (if ts = [] then None else Some (epoch_id (last es)))"
    using epoch_run [of epoch_manager_new C ts] d by (simp_all add: assms(1,3) epoch_manager_new_def epochs_def)
  have ok: "map_ok (epochMap m)" using d by (simp add: run map_ok_def comp_def)
  have get: "getEpoch (epoch_id e) m = Some e" if "e \<in> set es" for e
    using that ok by (simp add: getEpoch_def map_get_iff_in run image_iff)
  have nil: "es = [] \<longleftrightarrow> ts = []" unfolding assms(1) by (cases ts) (auto simp: Let_def)
  have "currentEpoch m = (if es = [] then None else Some (last es))"
    using get [of "last es"] nil by (simp add: currentEpoch_def run getEpoch_def)
  then show ?thesis using get by (simp add: run epochs_def comp_def list_all_iff linked_chain assms(1))
qed

definition sample_crypto :: "bytes epoch_crypto" where
  "sample_crypto = \<lparr>digest = (\<lambda>b. b), hkdf_bits = (\<lambda>k salt _. k @ salt), hkdf_key = (\<lambda>k _ _ _ _. k)\<rparr>"

definition sample_transitions :: "transition list" where
  "sample_transitions = [(fresh_view [1], [''alice''], Key_update, None, AES_GCM, 10),
     (fresh_view [2], [''alice'', ''bob''], Member_added, Some ''bob'', AES_CBC, 20)]"

theorem epoch_chain_witness:
  "linked None (epochs (foldl (epoch_step sample_crypto) epoch_manager_new sample_transitions))
    \<and> map encryptionKey (epochs (foldl (epoch_step sample_crypto) epoch_manager_new sample_transitions)) = [[1, 1], [2, 2, 1]]"
proof -
  have es: "chain_of sample_crypto None sample_transitions =
     [\<lparr>epoch_id = fresh_view [1], encryptionKey = [1, 1], memberHashes = [''alice''], parentEpochId = None, createdAt = 10\<rparr>,
      \<lparr>epoch_id = fresh_view [2, 1], encryptionKey = [2, 2, 1], memberHashes = [''alice'', ''bob''],
        parentEpochId = Some (fresh_view [1]), createdAt = 20\<rparr>]"
    by (simp add: sample_transitions_def sample_crypto_def createEpoch_def generateEpochId_def deriveEpochSecret_def
        deriveEncryptionKey_def fresh_view_def view_bytes_def)
  then have d: "distinct (map (\<lambda>e. view_bytes (epoch_id e)) (chain_of sample_crypto None sample_transitions))"
    by (simp add: view_bytes_def fresh_view_def)
  show ?thesis using epoch_chain [OF refl d refl] by (simp add: es)
qed

text \<open>
  The epoch keys do not depend on the group secret alone: for the first epoch, and for the epoch secret of
  every epoch, the whole buffer behind the secret is hashed, so that two members who hold the same secret
  in buffers that differ elsewhere derive their epoch from different inputs.
\<close>

theorem epoch_reads_whole_buffer:
  "\<exists>v w. view_bytes v = view_bytes w \<and> byteLength v = 32
    \<and> generateEpochId C v None = fresh_view (digest C (replicate 32 1 @ [2]))
    \<and> generateEpochId C w None = fresh_view (digest C (replicate 32 1 @ [3]))
    \<and> deriveEpochSecret C v i = fresh_view (hkdf_bits C (replicate 32 1 @ [2]) (view_buffer i) EPOCH_SECRET_INFO)
    \<and> deriveEpochSecret C w i = fresh_view (hkdf_bits C (replicate 32 1 @ [3]) (view_buffer i) EPOCH_SECRET_INFO)"
proof (intro exI conjI)
  let ?v = "\<lparr>view_buffer = replicate 32 1 @ [2], byteOffset = 0, byteLength = 32\<rparr>"
  let ?w = "\<lparr>view_buffer = replicate 32 1 @ [3], byteOffset = 0, byteLength = 32\<rparr>"
  show "view_bytes ?v = view_bytes ?w" by (simp add: view_bytes_def)
  show "generateEpochId C ?w None = fresh_view (digest C (replicate 32 1 @ [3]))"
    "deriveEpochSecret C ?w i = fresh_view (hkdf_bits C (replicate 32 1 @ [3]) (view_buffer i) EPOCH_SECRET_INFO)"
    by (simp_all add: generateEpochId_def deriveEpochSecret_def)
qed (simp_all add: generateEpochId_def deriveEpochSecret_def)

end
