(* ===== verification/SyncWire.thy ===== *)
theory SyncWire
  imports WireFormats DocCore
begin

text \<open>
  The JSON codecs of sync messages and change blocks: \<^verbatim>\<open>YjsJSONSerializer\<close>, \<^verbatim>\<open>AutomergeJSONSerializer\<close> and the
  metadata check of \<^verbatim>\<open>json-serializer.ts\<close>.  A Yjs change is a byte array, an Automerge change a list of them; what
  the two serializers do differently with a change is the record \<open>payload_codec\<close>.
\<close>

section \<open>Changes as JSON\<close>

text \<open>\<open>pc_shape\<close> is the test made before a value is decoded; decoding itself may throw.\<close>

record 'c payload_codec =
  pc_encode :: "'c \<Rightarrow> json"
  pc_shape :: "json \<Rightarrow> bool"
  pc_decode :: "json \<Rightarrow> string + 'c"

text \<open>\<^verbatim>\<open>Base64.toUint8Array\<close> throws a \<^verbatim>\<open>TypeError\<close> on what is not a string.\<close>

definition base64_value :: "wire_codec \<Rightarrow> json \<Rightarrow> string + bytes" where
  "base64_value W j = (case j of json.JString s \<Rightarrow> toUint8Array W s | _ \<Rightarrow> Err ''TypeError'')"

fun map_or_throw :: "('a \<Rightarrow> 'e + 'b) \<Rightarrow> 'a list \<Rightarrow> 'e + 'b list" where
  "map_or_throw f [] = Ok []"
| "map_or_throw f (x # xs) = try_bind (f x) (\<lambda>y. try_bind (map_or_throw f xs) (\<lambda>ys. Ok (y # ys)))"

definition yjs_payload :: "wire_codec \<Rightarrow> bytes payload_codec" where
  "yjs_payload W = \<lparr>pc_encode = (\<lambda>c. json.JString (fromUint8Array W c)),
     pc_shape = (\<lambda>j. case j of json.JString _ \<Rightarrow> True | _ \<Rightarrow> False), pc_decode = base64_value W\<rparr>"

definition serializeBinaryChanges :: "wire_codec \<Rightarrow> bytes list \<Rightarrow> json" where
  "serializeBinaryChanges W changes = JArray (map (\<lambda>c. json.JString (fromUint8Array W c)) changes)"

definition deserializeBinaryChanges :: "wire_codec \<Rightarrow> json \<Rightarrow> string + bytes list" where
  "deserializeBinaryChanges W j = (case j of JArray cs \<Rightarrow> map_or_throw (base64_value W) cs | _ \<Rightarrow> Err ''TypeError'')"

definition automerge_payload :: "wire_codec \<Rightarrow> bytes list payload_codec" where
  "automerge_payload W = \<lparr>pc_encode = serializeBinaryChanges W,
     pc_shape = (\<lambda>j. case j of JArray _ \<Rightarrow> True | _ \<Rightarrow> False), pc_decode = deserializeBinaryChanges W\<rparr>"

section \<open>Messages\<close>

text \<open>
  A snapshot that has been read is an object whose \<^verbatim>\<open>state\<close> and \<^verbatim>\<open>signature\<close> are decoded when they have the
  expected shape and left as they are otherwise; the other entries are copied.
\<close>

datatype 'a slot = Absent | Decoded 'a | Left_as json

record 'c wire_snapshot =
  ws_state :: "'c slot"
  ws_signature :: "bytes slot"
  ws_rest :: json_fields

record 'c wire_message =
  wm_documentId :: string
  wm_changeId :: "string option"
  wm_signature :: "string option"
  wm_changes :: "'c change_node option"
  wm_keychainChanges :: "'c option"
  wm_welcomeEpochId :: "bytes option"
  wm_welcomeRecipient :: "string option"
  wm_welcomeRecipientKemPublicKey :: "bytes option"
  wm_eciesSealed :: "bytes option"
  wm_pathUpdate :: "json_fields option"
  wm_pathUpdateEpochId :: "bytes option"
  wm_tipsHash :: "bytes option"
  wm_tips :: "string list option"
  wm_snapshot :: "'c wire_snapshot option"

datatype message_error =
    Message_not_object string
  | Message_text text_error
  | Field_type string string
  | Field_base64 string
  | Tips_hash_length nat
  | Tips_entry string
  | Bad_changes "string wire_error"

section \<open>Encoding\<close>

text \<open>\<^verbatim>\<open>JSON.stringify\<close> leaves out a property whose value is \<^verbatim>\<open>undefined\<close>.\<close>

definition opt_field :: "string \<Rightarrow> ('a \<Rightarrow> json) \<Rightarrow> 'a option \<Rightarrow> json_fields" where
  "opt_field name enc v = (case v of None \<Rightarrow> [] | Some x \<Rightarrow> [(name, enc x)])"

definition base64_json :: "wire_codec \<Rightarrow> bytes \<Rightarrow> json" where
  "base64_json W b = json.JString (fromUint8Array W b)"

text \<open>The public key of a snapshot is dropped; its other fields are those of \<^verbatim>\<open>CRDTSnapshotNode\<close>.\<close>

definition snapshotForWire :: "wire_codec \<Rightarrow> 'c payload_codec \<Rightarrow> ('c, 'pk) snapshot_node \<Rightarrow> json" where
  "snapshotForWire W P sn = JObject
     [(''state'', pc_encode P (sn_state sn)), (''lastChangeNodeCID'', json.JString (sn_lastChangeNodeCID sn)),
      (''compactedCount'', json_index (sn_compactedCount sn)), (''signature'', base64_json W (sn_signature sn)),
      (''timestamp'', json_index (sn_timestamp sn))]"

definition message_json :: "wire_codec \<Rightarrow> 'c payload_codec \<Rightarrow> ('c, 'pk) sync_message \<Rightarrow> json_fields option \<Rightarrow> json" where
  "message_json W P m pathUpdate = JObject
     ([(''documentId'', json.JString (m_documentId m))] @ opt_field ''changeId'' json.JString (m_changeId m)
      @ opt_field ''signature'' json.JString (m_signature m)
      @ opt_field ''changes'' (serializeChangeNodeForJSON (pc_encode P)) (m_changes m)
      @ opt_field ''keychainChanges'' (pc_encode P) (m_keychainChanges m)
      @ opt_field ''welcomeEpochId'' (base64_json W) (m_welcomeEpochId m)
      @ opt_field ''welcomeRecipient'' json.JString (m_welcomeRecipient m)
      @ opt_field ''welcomeRecipientKemPublicKey'' (base64_json W) (m_welcomeRecipientKemPublicKey m)
      @ opt_field ''eciesSealed'' (base64_json W) (m_eciesSealed m)
      @ opt_field ''pathUpdate'' JObject pathUpdate
      @ opt_field ''pathUpdateEpochId'' (base64_json W) (m_pathUpdateEpochId m)
      @ opt_field ''tipsHash'' (base64_json W) (m_tipsHash m)
      @ opt_field ''tips'' (\<lambda>ts. JArray (map json.JString ts)) (m_tips m)
      @ opt_field ''snapshot'' (snapshotForWire W P) (m_snapshot m))"

definition yjs_serializeSyncMessage :: "wire_codec \<Rightarrow> (bytes, 'pk) sync_message \<Rightarrow> json_fields option \<Rightarrow> bytes" where
  "yjs_serializeSyncMessage W m pathUpdate = stringify_encode W (message_json W (yjs_payload W) m pathUpdate)"

definition automerge_serializeSyncMessage :: "wire_codec \<Rightarrow> (bytes list, 'pk) sync_message \<Rightarrow> json_fields option \<Rightarrow> bytes" where
  "automerge_serializeSyncMessage W m pathUpdate = stringify_encode W (message_json W (automerge_payload W) m pathUpdate)"

section \<open>Decoding\<close>

definition opt_string :: "json_fields \<Rightarrow> string \<Rightarrow> message_error + string option" where
  "opt_string raw name = (case field raw name of
     None \<Rightarrow> Ok None | Some (json.JString s) \<Rightarrow> Ok (Some s) | v \<Rightarrow> Err (Field_type name (describeValue v)))"

definition opt_base64 :: "wire_codec \<Rightarrow> json_fields \<Rightarrow> string \<Rightarrow> message_error + bytes option" where
  "opt_base64 W raw name = try_bind (opt_string raw name) (\<lambda>v. case v of
     None \<Rightarrow> Ok None
   | Some s \<Rightarrow> (case toUint8Array W s of Inl _ \<Rightarrow> Err (Field_base64 name) | Inr b \<Rightarrow> Ok (Some b)))"

definition opt_object :: "json_fields \<Rightarrow> string \<Rightarrow> message_error + json_fields option" where
  "opt_object raw name = (case field raw name of
     None \<Rightarrow> Ok None | Some (JObject fs) \<Rightarrow> Ok (Some fs) | v \<Rightarrow> Err (Field_type name (describeValue v)))"

definition slot_of :: "(json \<Rightarrow> bool) \<Rightarrow> (json \<Rightarrow> string + 'a) \<Rightarrow> string \<Rightarrow> json_fields \<Rightarrow> message_error + 'a slot" where
  "slot_of shape dec name fs = (case field fs name of
     None \<Rightarrow> Ok Absent
   | Some v \<Rightarrow> if shape v then (case dec v of Inl _ \<Rightarrow> Err (Field_base64 name) | Inr x \<Rightarrow> Ok (Decoded x)) else Ok (Left_as v))"

definition opt_snapshot :: "wire_codec \<Rightarrow> 'c payload_codec \<Rightarrow> json_fields \<Rightarrow> message_error + 'c wire_snapshot option" where
  "opt_snapshot W P raw = try_bind (opt_object raw ''snapshot'') (\<lambda>v. case v of
     None \<Rightarrow> Ok None
   | Some fs \<Rightarrow>
       try_bind (slot_of (pc_shape P) (pc_decode P) ''state'' fs) (\<lambda>st.
       try_bind (slot_of (pc_shape (yjs_payload W)) (base64_value W) ''signature'' fs) (\<lambda>sig.
         Ok (Some \<lparr>ws_state = st, ws_signature = sig,
           ws_rest = filter (\<lambda>(k, _). k \<noteq> ''state'' \<and> k \<noteq> ''signature'') fs\<rparr>))))"

definition opt_payload :: "'c payload_codec \<Rightarrow> json_fields \<Rightarrow> string \<Rightarrow> message_error + 'c option" where
  "opt_payload P raw name = (case field raw name of
     None \<Rightarrow> Ok None
   | Some v \<Rightarrow> if \<not> pc_shape P v then Err (Field_type name (describeValue (Some v)))
       else (case pc_decode P v of Inl _ \<Rightarrow> Err (Field_base64 name) | Inr x \<Rightarrow> Ok (Some x)))"

definition opt_tipsHash :: "wire_codec \<Rightarrow> json_fields \<Rightarrow> message_error + bytes option" where
  "opt_tipsHash W raw = try_bind (opt_base64 W raw ''tipsHash'') (\<lambda>v. case v of
     None \<Rightarrow> Ok None
   | Some b \<Rightarrow> if length b \<noteq> 32 then Err (Tips_hash_length (length b)) else Ok (Some b))"

fun string_entries :: "json list \<Rightarrow> message_error + string list" where
  "string_entries [] = Ok []"
| "string_entries (j # js) = (case j of
     json.JString s \<Rightarrow> try_bind (string_entries js) (\<lambda>ss. Ok (s # ss)) | _ \<Rightarrow> Err (Tips_entry (describeValue (Some j))))"

definition opt_tips :: "json_fields \<Rightarrow> message_error + string list option" where
  "opt_tips raw = (case field raw ''tips'' of
     None \<Rightarrow> Ok None
   | Some (JArray js) \<Rightarrow> try_bind (string_entries js) (\<lambda>ts. Ok (Some ts))
   | v \<Rightarrow> Err (Field_type ''tips'' (describeValue v)))"

definition opt_changes :: "'c payload_codec \<Rightarrow> json_fields \<Rightarrow> message_error + 'c change_node option" where
  "opt_changes P raw = (case field raw ''changes'' of
     None \<Rightarrow> Ok None
   | Some v \<Rightarrow> (case deserializeChangeNodeFromJSON (pc_decode P) v of Inl e \<Rightarrow> Err (Bad_changes e) | Inr n \<Rightarrow> Ok (Some n)))"

definition message_head :: "json \<Rightarrow> message_error + json_fields \<times> string \<times> string option \<times> string option" where
  "message_head decoded = (case decoded of
     JObject raw \<Rightarrow>
       (case field raw ''documentId'' of
          Some (json.JString d) \<Rightarrow>
            try_bind (opt_string raw ''changeId'') (\<lambda>c.
            try_bind (opt_string raw ''signature'') (\<lambda>s. Ok (raw, d, c, s)))
        | v \<Rightarrow> Err (Field_type ''documentId'' (describeValue v)))
   | _ \<Rightarrow> Err (Message_not_object (describeValue (Some decoded))))"

text \<open>The two deserializers read the fields of a Welcome in a different order.\<close>

definition yjs_message :: "wire_codec \<Rightarrow> json \<Rightarrow> message_error + bytes wire_message" where
  "yjs_message W decoded = try_bind (message_head decoded) (\<lambda>(raw, documentId, changeId, signature).
     try_bind (opt_snapshot W (yjs_payload W) raw) (\<lambda>snapshot.
     try_bind (opt_payload (yjs_payload W) raw ''keychainChanges'') (\<lambda>keychainChanges.
     try_bind (opt_base64 W raw ''welcomeEpochId'') (\<lambda>welcomeEpochId.
     try_bind (opt_base64 W raw ''welcomeRecipientKemPublicKey'') (\<lambda>kemKey.
     try_bind (opt_base64 W raw ''eciesSealed'') (\<lambda>eciesSealed.
     try_bind (opt_string raw ''welcomeRecipient'') (\<lambda>welcomeRecipient.
     try_bind (opt_object raw ''pathUpdate'') (\<lambda>pathUpdate.
     try_bind (opt_base64 W raw ''pathUpdateEpochId'') (\<lambda>pathUpdateEpochId.
     try_bind (opt_tipsHash W raw) (\<lambda>tipsHash.
     try_bind (opt_tips raw) (\<lambda>tips.
     try_bind (opt_changes (yjs_payload W) raw) (\<lambda>changes.
       Ok \<lparr>wm_documentId = documentId, wm_changeId = changeId, wm_signature = signature, wm_changes = changes,
           wm_keychainChanges = keychainChanges, wm_welcomeEpochId = welcomeEpochId, wm_welcomeRecipient = welcomeRecipient,
           wm_welcomeRecipientKemPublicKey = kemKey, wm_eciesSealed = eciesSealed, wm_pathUpdate = pathUpdate,
           wm_pathUpdateEpochId = pathUpdateEpochId, wm_tipsHash = tipsHash, wm_tips = tips, wm_snapshot = snapshot\<rparr>))))))))))))"

definition automerge_message :: "wire_codec \<Rightarrow> json \<Rightarrow> message_error + bytes list wire_message" where
  "automerge_message W decoded = try_bind (message_head decoded) (\<lambda>(raw, documentId, changeId, signature).
     try_bind (opt_snapshot W (automerge_payload W) raw) (\<lambda>snapshot.
     try_bind (opt_payload (automerge_payload W) raw ''keychainChanges'') (\<lambda>keychainChanges.
     try_bind (opt_base64 W raw ''welcomeEpochId'') (\<lambda>welcomeEpochId.
     try_bind (opt_string raw ''welcomeRecipient'') (\<lambda>welcomeRecipient.
     try_bind (opt_base64 W raw ''welcomeRecipientKemPublicKey'') (\<lambda>kemKey.
     try_bind (opt_base64 W raw ''eciesSealed'') (\<lambda>eciesSealed.
     try_bind (opt_object raw ''pathUpdate'') (\<lambda>pathUpdate.
     try_bind (opt_base64 W raw ''pathUpdateEpochId'') (\<lambda>pathUpdateEpochId.
     try_bind (opt_tipsHash W raw) (\<lambda>tipsHash.
     try_bind (opt_tips raw) (\<lambda>tips.
     try_bind (opt_changes (automerge_payload W) raw) (\<lambda>changes.
       Ok \<lparr>wm_documentId = documentId, wm_changeId = changeId, wm_signature = signature, wm_changes = changes,
           wm_keychainChanges = keychainChanges, wm_welcomeEpochId = welcomeEpochId, wm_welcomeRecipient = welcomeRecipient,
           wm_welcomeRecipientKemPublicKey = kemKey, wm_eciesSealed = eciesSealed, wm_pathUpdate = pathUpdate,
           wm_pathUpdateEpochId = pathUpdateEpochId, wm_tipsHash = tipsHash, wm_tips = tips, wm_snapshot = snapshot\<rparr>))))))))))))"

definition parsed :: "wire_codec \<Rightarrow> bytes \<Rightarrow> message_error + json" where
  "parsed W b = (case decode_parse W b of Inl e \<Rightarrow> Err (Message_text e) | Inr j \<Rightarrow> Ok j)"

definition yjs_deserializeSyncMessage :: "wire_codec \<Rightarrow> bytes \<Rightarrow> message_error + bytes wire_message" where
  "yjs_deserializeSyncMessage W b = try_bind (parsed W b) (yjs_message W)"

definition automerge_deserializeSyncMessage :: "wire_codec \<Rightarrow> bytes \<Rightarrow> message_error + bytes list wire_message" where
  "automerge_deserializeSyncMessage W b = try_bind (parsed W b) (automerge_message W)"

section \<open>Change blocks\<close>

record 'c change_block =
  cb_keyID :: "string option"
  cb_nonce :: bytes
  cb_changes :: 'c
  cb_blindIndexTokens :: "(string, string) jsmap option"

datatype block_error =
    Block_text text_error
  | Block_shape
  | Block_base64
  | KeyID_not_string
  | Tokens_not_object
  | Token_not_string string

definition DANGEROUS_KEYS :: "string list" where
  "DANGEROUS_KEYS = [''__proto__'', ''constructor'', ''prototype'']"

fun sanitize_tokens :: "json_fields \<Rightarrow> (string, string) jsmap \<Rightarrow> block_error + (string, string) jsmap" where
  "sanitize_tokens [] out = Ok out"
| "sanitize_tokens ((key, val) # ts) out =
     (if key \<in> set DANGEROUS_KEYS then sanitize_tokens ts out
      else (case val of json.JString s \<Rightarrow> sanitize_tokens ts (map_set key s out) | _ \<Rightarrow> Err (Token_not_string key)))"

definition validateChangeBlockMetadata :: "json_fields \<Rightarrow> 'c change_block \<Rightarrow> block_error + 'c change_block" where
  "validateChangeBlockMetadata raw result =
     try_bind (case field raw ''keyID'' of
         None \<Rightarrow> Ok result | Some (json.JString i) \<Rightarrow> Ok (result\<lparr>cb_keyID := Some i\<rparr>) | _ \<Rightarrow> Err KeyID_not_string) (\<lambda>result.
       case field raw ''blindIndexTokens'' of
         None \<Rightarrow> Ok result
       | Some (JObject ts) \<Rightarrow> try_bind (sanitize_tokens ts []) (\<lambda>out. Ok (result\<lparr>cb_blindIndexTokens := Some out\<rparr>))
       | _ \<Rightarrow> Err Tokens_not_object)"

definition block_json :: "wire_codec \<Rightarrow> 'c payload_codec \<Rightarrow> 'c change_block \<Rightarrow> json" where
  "block_json W P b = JObject
     ([(''changes'', pc_encode P (cb_changes b)), (''nonce'', base64_json W (cb_nonce b))]
      @ opt_field ''keyID'' json.JString (cb_keyID b)
      @ opt_field ''blindIndexTokens'' (\<lambda>ts. JObject (map (\<lambda>(k, v). (k, json.JString v)) ts)) (cb_blindIndexTokens b))"

definition block_of_json :: "wire_codec \<Rightarrow> 'c payload_codec \<Rightarrow> json \<Rightarrow> block_error + 'c change_block" where
  "block_of_json W P j = (case j of
     JObject raw \<Rightarrow>
       (case (field raw ''changes'', field raw ''nonce'') of
          (Some c, Some (json.JString n)) \<Rightarrow>
            if \<not> pc_shape P c then Err Block_shape
            else (case (pc_decode P c, toUint8Array W n) of
                    (Inr ch, Inr nonce) \<Rightarrow> validateChangeBlockMetadata raw
                      \<lparr>cb_keyID = None, cb_nonce = nonce, cb_changes = ch, cb_blindIndexTokens = None\<rparr>
                  | _ \<Rightarrow> Err Block_base64)
        | _ \<Rightarrow> Err Block_shape)
   | _ \<Rightarrow> Err Block_shape)"

text \<open>Block texts: \<open>stringify\<close> and \<open>parse\<close> are \<^verbatim>\<open>JSON.stringify\<close> and \<^verbatim>\<open>JSON.parse\<close>.\<close>

definition block_of_text ::
  "(string \<Rightarrow> text_error + json) \<Rightarrow> wire_codec \<Rightarrow> 'c payload_codec \<Rightarrow> string \<Rightarrow> block_error + 'c change_block" where
  "block_of_text parse W P t = (case parse t of Inl e \<Rightarrow> Err (Block_text e) | Inr j \<Rightarrow> block_of_json W P j)"

definition yjs_serializeChangeBlock :: "(json \<Rightarrow> string) \<Rightarrow> wire_codec \<Rightarrow> bytes change_block \<Rightarrow> string" where
  "yjs_serializeChangeBlock stringify W b = stringify (block_json W (yjs_payload W) b)"

definition yjs_deserializeChangeBlock ::
  "(string \<Rightarrow> text_error + json) \<Rightarrow> wire_codec \<Rightarrow> string \<Rightarrow> block_error + bytes change_block" where
  "yjs_deserializeChangeBlock parse W t = block_of_text parse W (yjs_payload W) t"

definition automerge_serializeChangeBlock :: "(json \<Rightarrow> string) \<Rightarrow> wire_codec \<Rightarrow> bytes list change_block \<Rightarrow> string" where
  "automerge_serializeChangeBlock stringify W b = stringify (block_json W (automerge_payload W) b)"

definition automerge_deserializeChangeBlock ::
  "(string \<Rightarrow> text_error + json) \<Rightarrow> wire_codec \<Rightarrow> string \<Rightarrow> block_error + bytes list change_block" where
  "automerge_deserializeChangeBlock parse W t = block_of_text parse W (automerge_payload W) t"

text \<open>The changes of a transaction outside a block: Yjs passes its bytes on, Automerge writes a JSON array.\<close>

definition automerge_serializeChanges :: "wire_codec \<Rightarrow> bytes list \<Rightarrow> bytes" where
  "automerge_serializeChanges W changes = stringify_encode W (serializeBinaryChanges W changes)"

definition automerge_deserializeChanges :: "wire_codec \<Rightarrow> bytes \<Rightarrow> block_error + bytes list" where
  "automerge_deserializeChanges W b = (case decode_parse W b of
     Inl e \<Rightarrow> Err (Block_text e)
   | Inr (JArray cs) \<Rightarrow> (case deserializeBinaryChanges W (JArray cs) of Inl _ \<Rightarrow> Err Block_base64 | Inr xs \<Rightarrow> Ok xs)
   | Inr _ \<Rightarrow> Err Block_shape)"

end
