(* ===== verification/SyncWireCorrect.thy ===== *)
theory SyncWireCorrect
  imports SyncWire WireCorrect
begin

text \<open>
  What the sync-message and change-block codecs guarantee: the checks every decoded message has passed, and
  that a message decodes to itself, less the public key of its snapshot.
\<close>

section \<open>Fields of an encoded object\<close>

lemma field_append: "field (fs @ gs) name = (case field fs name of None \<Rightarrow> field gs name | Some v \<Rightarrow> Some v)"
  by (auto simp: field_def map_add_def split: option.split)

lemma field_opt: "field (opt_field n enc v) name = (if n = name then map_option enc v else None)"
  by (auto simp: field_def opt_field_def split: option.split)

lemma field_Cons: "field ((n, v) # fs) name = (if n = name then Some v else field fs name)"
  by (simp add: field_def)

lemma field_Nil: "field [] name = None"
  by (simp add: field_def)

lemma field_opt_append:
  "field (opt_field n enc v @ gs) name = (if n = name \<and> v \<noteq> None then map_option enc v else field gs name)"
  by (auto simp: field_append field_opt split: option.split)

lemmas field_simps = field_opt_append field_opt field_Cons field_Nil

lemma option_case_else [simp]: "(case x of None \<Rightarrow> None | Some v \<Rightarrow> Some v) = x"
  by (cases x) simp_all

section \<open>Payloads\<close>

text \<open>The laws of a payload codec: what it encodes has the shape it tests and decodes back.\<close>

definition lossless :: "'c payload_codec \<Rightarrow> bool" where
  "lossless P \<longleftrightarrow> (\<forall>c. pc_shape P (pc_encode P c) \<and> pc_decode P (pc_encode P c) = Ok c)"

lemma payload_round_trip: "lossless P \<Longrightarrow> field raw name = map_option (pc_encode P) v \<Longrightarrow> opt_payload P raw name = Ok v"
  by (cases v) (simp_all add: opt_payload_def lossless_def)

lemma state_round_trip:
  "lossless P \<Longrightarrow> field fs name = Some (pc_encode P c) \<Longrightarrow> slot_of (pc_shape P) (pc_decode P) name fs = Ok (Decoded c)"
  by (simp add: slot_of_def lossless_def)

lemma changes_round_trip:
  assumes "lossless P" "field raw ''changes'' = map_option (serializeChangeNodeForJSON (pc_encode P)) v" "\<And>n. v = Some n \<Longrightarrow> keys_unique n"
  shows "opt_changes P raw = Ok v"
proof -
  have "pc_decode P (pc_encode P c) = Ok c" for c using assms(1) by (simp add: lossless_def)
  from deserialize_serialize(1) [where dec = "pc_decode P" and enc = "pc_encode P", OF this] show ?thesis
    using assms(2,3) by (cases v) (auto simp: opt_changes_def simp del: deserializeChangeNodeFromJSON.simps)
qed

definition base64_lossless :: "wire_codec \<Rightarrow> bool" where
  "base64_lossless W \<longleftrightarrow> (\<forall>bs. toUint8Array W (fromUint8Array W bs) = Ok bs)"

lemma lossless_yjs: "base64_lossless W \<Longrightarrow> lossless (yjs_payload W)"
  by (simp add: lossless_def yjs_payload_def base64_value_def base64_lossless_def)

lemma map_or_throw_map: "(\<And>x. f (g x) = Ok x) \<Longrightarrow> map_or_throw f (map g xs) = Ok xs"
  by (induction xs) simp_all

lemma lossless_automerge: "base64_lossless W \<Longrightarrow> lossless (automerge_payload W)"
  by (simp add: lossless_def automerge_payload_def serializeBinaryChanges_def deserializeBinaryChanges_def
      base64_lossless_def map_or_throw_map base64_value_def)

section \<open>Round trip\<close>

definition snapshot_view :: "('c, 'pk) snapshot_node \<Rightarrow> 'c wire_snapshot" where
  "snapshot_view sn = \<lparr>ws_state = Decoded (sn_state sn), ws_signature = Decoded (sn_signature sn),
     ws_rest = [(''lastChangeNodeCID'', json.JString (sn_lastChangeNodeCID sn)), (''compactedCount'', json_index (sn_compactedCount sn)),
       (''timestamp'', json_index (sn_timestamp sn))]\<rparr>"

definition message_view :: "('c, 'pk) sync_message \<Rightarrow> json_fields option \<Rightarrow> 'c wire_message" where
  "message_view m pathUpdate = \<lparr>wm_documentId = m_documentId m, wm_changeId = m_changeId m, wm_signature = m_signature m,
     wm_changes = m_changes m, wm_keychainChanges = m_keychainChanges m, wm_welcomeEpochId = m_welcomeEpochId m,
     wm_welcomeRecipient = m_welcomeRecipient m, wm_welcomeRecipientKemPublicKey = m_welcomeRecipientKemPublicKey m,
     wm_eciesSealed = m_eciesSealed m, wm_pathUpdate = pathUpdate, wm_pathUpdateEpochId = m_pathUpdateEpochId m,
     wm_tipsHash = m_tipsHash m, wm_tips = m_tips m, wm_snapshot = map_option snapshot_view (m_snapshot m)\<rparr>"

text \<open>A message a node builds: a tip-set hash is a SHA-256 digest and the sync tree has one entry per child.\<close>

definition sendable :: "('c, 'pk) sync_message \<Rightarrow> bool" where
  "sendable m \<longleftrightarrow> (case m_tipsHash m of None \<Rightarrow> True | Some h \<Rightarrow> length h = 32)
     \<and> (case m_changes m of None \<Rightarrow> True | Some n \<Rightarrow> keys_unique n)"

lemma opt_string_encoded: "field raw name = map_option json.JString v \<Longrightarrow> opt_string raw name = Ok v"
  by (cases v) (simp_all add: opt_string_def)

lemma opt_base64_encoded: "base64_lossless W \<Longrightarrow> field raw name = map_option (base64_json W) v \<Longrightarrow> opt_base64 W raw name = Ok v"
  by (cases v) (simp_all add: opt_base64_def opt_string_def base64_json_def base64_lossless_def)

lemma opt_object_encoded: "field raw name = map_option JObject v \<Longrightarrow> opt_object raw name = Ok v"
  by (cases v) (simp_all add: opt_object_def)

lemma opt_tipsHash_encoded:
  assumes "base64_lossless W" "field raw ''tipsHash'' = map_option (base64_json W) v" "\<And>h. v = Some h \<Longrightarrow> length h = 32"
  shows "opt_tipsHash W raw = Ok v"
  using opt_base64_encoded [OF assms(1,2)] assms(3) by (cases v) (simp_all add: opt_tipsHash_def)

lemma string_entries_map: "string_entries (map json.JString ts) = Ok ts"
  by (induction ts) simp_all

lemma opt_tips_encoded: "field raw ''tips'' = map_option (\<lambda>ts. JArray (map json.JString ts)) v \<Longrightarrow> opt_tips raw = Ok v"
  by (cases v) (simp_all add: opt_tips_def string_entries_map)

lemma opt_snapshot_encoded:
  assumes "base64_lossless W" "lossless P" "field raw ''snapshot'' = map_option (snapshotForWire W P) v"
  shows "opt_snapshot W P raw = Ok (map_option snapshot_view v)"
proof (cases v)
  case None
  then show ?thesis using assms(3) by (simp add: opt_snapshot_def opt_object_def)
next
  case (Some sn)
  obtain fs where fs: "snapshotForWire W P sn = JObject fs" "field fs ''state'' = Some (pc_encode P (sn_state sn))"
    "field fs ''signature'' = Some (base64_json W (sn_signature sn))"
    "filter (\<lambda>(k, _). k \<noteq> ''state'' \<and> k \<noteq> ''signature'') fs = ws_rest (snapshot_view sn)"
    by (simp add: snapshotForWire_def field_simps snapshot_view_def)
  have st: "slot_of (pc_shape P) (pc_decode P) ''state'' fs = Ok (Decoded (sn_state sn))"
    using state_round_trip [OF assms(2) fs(2)] .
  have sig: "slot_of (pc_shape (yjs_payload W)) (base64_value W) ''signature'' fs = Ok (Decoded (sn_signature sn))"
    using assms(1) fs(3) by (simp add: slot_of_def yjs_payload_def base64_json_def base64_value_def base64_lossless_def)
  show ?thesis using assms(3) Some fs(1,4) st sig
    by (simp add: opt_snapshot_def opt_object_def snapshot_view_def)
qed

lemma message_raw: "\<exists>raw. message_json W P m pu = JObject raw"
  by (simp add: message_json_def)

lemma map_option_unless: "(if v \<noteq> None then map_option f v else None) = map_option f v"
  by simp

lemma message_fields:
  assumes "message_json W P m pu = JObject raw"
  shows "field raw ''documentId'' = Some (json.JString (m_documentId m))"
    "field raw ''changeId'' = map_option json.JString (m_changeId m)"
    "field raw ''signature'' = map_option json.JString (m_signature m)"
    "field raw ''changes'' = map_option (serializeChangeNodeForJSON (pc_encode P)) (m_changes m)"
    "field raw ''keychainChanges'' = map_option (pc_encode P) (m_keychainChanges m)"
    "field raw ''welcomeEpochId'' = map_option (base64_json W) (m_welcomeEpochId m)"
    "field raw ''welcomeRecipient'' = map_option json.JString (m_welcomeRecipient m)"
    "field raw ''welcomeRecipientKemPublicKey'' = map_option (base64_json W) (m_welcomeRecipientKemPublicKey m)"
    "field raw ''eciesSealed'' = map_option (base64_json W) (m_eciesSealed m)"
    "field raw ''pathUpdate'' = map_option JObject pu"
    "field raw ''pathUpdateEpochId'' = map_option (base64_json W) (m_pathUpdateEpochId m)"
    "field raw ''tipsHash'' = map_option (base64_json W) (m_tipsHash m)"
    "field raw ''tips'' = map_option (\<lambda>ts. JArray (map json.JString ts)) (m_tips m)"
    "field raw ''snapshot'' = map_option (snapshotForWire W P) (m_snapshot m)"
  using assms unfolding message_json_def by (auto simp: field_simps)

lemma read_fields:
  assumes "message_json W P m pu = JObject raw" "base64_lossless W" "lossless P" "sendable m"
  shows "message_head (JObject raw) = Ok (raw, m_documentId m, m_changeId m, m_signature m)"
    "opt_changes P raw = Ok (m_changes m)"
    "opt_payload P raw ''keychainChanges'' = Ok (m_keychainChanges m)"
    "opt_base64 W raw ''welcomeEpochId'' = Ok (m_welcomeEpochId m)"
    "opt_string raw ''welcomeRecipient'' = Ok (m_welcomeRecipient m)"
    "opt_base64 W raw ''welcomeRecipientKemPublicKey'' = Ok (m_welcomeRecipientKemPublicKey m)"
    "opt_base64 W raw ''eciesSealed'' = Ok (m_eciesSealed m)"
    "opt_object raw ''pathUpdate'' = Ok pu"
    "opt_base64 W raw ''pathUpdateEpochId'' = Ok (m_pathUpdateEpochId m)"
    "opt_tipsHash W raw = Ok (m_tipsHash m)"
    "opt_tips raw = Ok (m_tips m)"
    "opt_snapshot W P raw = Ok (map_option snapshot_view (m_snapshot m))"
proof -
  note fs = message_fields [OF assms(1)]
  show "message_head (JObject raw) = Ok (raw, m_documentId m, m_changeId m, m_signature m)"
    by (simp add: message_head_def fs(1) opt_string_encoded [OF fs(2)] opt_string_encoded [OF fs(3)])
  show "opt_changes P raw = Ok (m_changes m)"
    using assms(4) by (intro changes_round_trip [OF assms(3) fs(4)]) (simp add: sendable_def)
  show "opt_tipsHash W raw = Ok (m_tipsHash m)"
    using assms(4) by (intro opt_tipsHash_encoded [OF assms(2) fs(12)]) (simp add: sendable_def)
qed (rule payload_round_trip opt_base64_encoded opt_string_encoded opt_object_encoded opt_tips_encoded opt_snapshot_encoded
    assms message_fields [OF assms(1)])+

lemma yjs_message_round_trip:
  assumes "base64_lossless W" "sendable m"
  shows "yjs_message W (message_json W (yjs_payload W) m pu) = Ok (message_view m pu)"
proof -
  obtain raw where raw: "message_json W (yjs_payload W) m pu = JObject raw" using message_raw by blast
  show ?thesis using read_fields [OF raw assms(1) lossless_yjs [OF assms(1)] assms(2)]
    by (simp add: raw yjs_message_def message_view_def)
qed

lemma automerge_message_round_trip:
  assumes "base64_lossless W" "sendable m"
  shows "automerge_message W (message_json W (automerge_payload W) m pu) = Ok (message_view m pu)"
proof -
  obtain raw where raw: "message_json W (automerge_payload W) m pu = JObject raw" using message_raw by blast
  show ?thesis using read_fields [OF raw assms(1) lossless_automerge [OF assms(1)] assms(2)]
    by (simp add: raw automerge_message_def message_view_def)
qed

section \<open>What a decoded message has passed\<close>

definition message_typed :: "'c wire_message \<Rightarrow> bool" where
  "message_typed m \<longleftrightarrow> (case wm_tipsHash m of None \<Rightarrow> True | Some h \<Rightarrow> length h = 32)
     \<and> (case wm_changes m of None \<Rightarrow> True | Some n \<Rightarrow> keys_unique n)"

lemma tipsHash_typed: "opt_tipsHash W raw = Ok (Some h) \<Longrightarrow> length h = 32"
  by (cases "opt_base64 W raw ''tipsHash''") (simp_all add: opt_tipsHash_def split: option.splits if_splits)

lemma changes_typed: "opt_changes P raw = Ok (Some n) \<Longrightarrow> keys_unique n"
  by (auto simp: opt_changes_def deserialized_unique split: option.splits sum.splits)

lemmas message_typed_simps = message_typed_def try_bind_Ok_iff tipsHash_typed changes_typed

lemma yjs_typed: "case yjs_deserializeSyncMessage W b of Inl _ \<Rightarrow> True | Inr m \<Rightarrow> message_typed m"
  by (auto simp: yjs_deserializeSyncMessage_def yjs_message_def message_typed_simps split: sum.split option.split)

lemma automerge_typed: "case automerge_deserializeSyncMessage W b of Inl _ \<Rightarrow> True | Inr m \<Rightarrow> message_typed m"
  by (auto simp: automerge_deserializeSyncMessage_def automerge_message_def message_typed_simps split: sum.split option.split)

section \<open>Change blocks\<close>

text \<open>Tokens that survive the sanitizer: distinct names, none of them a name of the prototype chain.\<close>

definition tokens_plain :: "(string, string) jsmap \<Rightarrow> bool" where
  "tokens_plain ts \<longleftrightarrow> distinct (map fst ts) \<and> set (map fst ts) \<inter> set DANGEROUS_KEYS = {}"

definition block_plain :: "'c change_block \<Rightarrow> bool" where
  "block_plain b \<longleftrightarrow> (case cb_blindIndexTokens b of None \<Rightarrow> True | Some ts \<Rightarrow> tokens_plain ts)"

lemma sanitize_plain:
  "tokens_plain ts \<Longrightarrow> set (map fst ts) \<inter> set (map fst out) = {}
    \<Longrightarrow> sanitize_tokens (map (\<lambda>(k, v). (k, json.JString v)) ts) out = Ok (out @ ts)"
proof (induction ts arbitrary: out)
  case (Cons t ts)
  obtain k v where t: "t = (k, v)" by (cases t)
  then have "map_set k v out = out @ [(k, v)]" using Cons.prems(2) by (simp add: map_set_fresh image_iff)
  then show ?case using Cons.IH [of "out @ [(k, v)]"] Cons.prems t by (auto simp: tokens_plain_def)
qed simp

lemma tokens_plain_set: "tokens_plain ts \<Longrightarrow> k \<notin> set DANGEROUS_KEYS \<Longrightarrow> tokens_plain (map_set k v ts)"
  by (auto simp: tokens_plain_def keys_map_set simp del: set_map list.map_comp)

lemma sanitize_safe:
  "sanitize_tokens ts out = Ok res \<Longrightarrow> tokens_plain out \<Longrightarrow> tokens_plain res"
  by (induction ts out rule: sanitize_tokens.induct) (auto simp: tokens_plain_set split: if_splits json.splits)

lemma sanitized_plain: "sanitize_tokens ts [] = Ok res \<Longrightarrow> tokens_plain res"
  by (erule sanitize_safe) (simp add: tokens_plain_def)

lemma metadata_plain: "validateChangeBlockMetadata raw b = Ok cb \<Longrightarrow> block_plain b \<Longrightarrow> block_plain cb"
  by (auto simp: validateChangeBlockMetadata_def block_plain_def try_bind_Ok_iff sanitized_plain split: option.splits json.splits)

lemma block_read:
  assumes "block_of_json W P j = Ok cb"
  shows "\<exists>raw ch nonce. validateChangeBlockMetadata raw
    \<lparr>cb_keyID = None, cb_nonce = nonce, cb_changes = ch, cb_blindIndexTokens = None\<rparr> = Ok cb"
proof -
  obtain raw where j: "j = JObject raw" using assms by (cases j) (simp_all add: block_of_json_def)
  obtain c n where f: "field raw ''changes'' = Some c" "field raw ''nonce'' = Some (json.JString n)"
    using assms j by (auto simp: block_of_json_def split: option.splits json.splits)
  show ?thesis using assms j f by (auto simp: block_of_json_def split: if_splits sum.splits)
qed

lemma block_typed: "case block_of_json W P j of Inl _ \<Rightarrow> True | Inr cb \<Rightarrow> block_plain cb"
proof (cases "block_of_json W P j")
  case (Inr cb)
  then obtain raw ch nonce where
    "validateChangeBlockMetadata raw \<lparr>cb_keyID = None, cb_nonce = nonce, cb_changes = ch, cb_blindIndexTokens = None\<rparr> = Ok cb"
    using block_read by blast
  then show ?thesis using Inr by (simp add: metadata_plain block_plain_def [of "\<lparr>cb_keyID = _, cb_nonce = _, cb_changes = _, cb_blindIndexTokens = _\<rparr>"])
qed simp

lemma block_round_trip:
  assumes "base64_lossless W" "lossless P" "block_plain b"
  shows "block_of_json W P (block_json W P b) = Ok b"
  using assms
  by (cases "cb_keyID b"; cases "cb_blindIndexTokens b")
    (auto simp: block_of_json_def block_json_def field_simps lossless_def base64_lossless_def base64_json_def
      validateChangeBlockMetadata_def block_plain_def sanitize_plain)

lemma block_text_typed: "case block_of_text parse W P t of Inl _ \<Rightarrow> True | Inr cb \<Rightarrow> block_plain cb"
  using block_typed by (cases "parse t") (simp_all add: block_of_text_def)

text \<open>A text codec that parses back the texts of \<open>js\<close>.\<close>

definition text_lossless :: "(json \<Rightarrow> 't) \<Rightarrow> ('t \<Rightarrow> text_error + json) \<Rightarrow> json set \<Rightarrow> bool" where
  "text_lossless out inp js \<longleftrightarrow> (\<forall>j\<in>js. inp (out j) = Ok j)"

lemma text_losslessD: "text_lossless out inp js \<Longrightarrow> j \<in> js \<Longrightarrow> inp (out j) = Ok j"
  by (simp add: text_lossless_def)

lemma block_text_round_trip:
  assumes "base64_lossless W" "lossless P" "block_plain b" "parse (stringify (block_json W P b)) = Ok (block_json W P b)"
  shows "block_of_text parse W P (stringify (block_json W P b)) = Ok b"
  using assms by (simp add: block_of_text_def block_round_trip)

section \<open>Properties\<close>

text \<open>
  Claim C36.  Whatever bytes arrive, a message that either deserializer accepts carries a tip-set hash of exactly 32 bytes, if any, and
  a sync tree in which no child occurs twice; a change block that either accepts has no index token named
  after the prototype chain.
\<close>

theorem sync_messages_typed:
  "(case yjs_deserializeSyncMessage W b of Inl _ \<Rightarrow> True | Inr m \<Rightarrow> message_typed m)
    \<and> (case automerge_deserializeSyncMessage W b of Inl _ \<Rightarrow> True | Inr m \<Rightarrow> message_typed m)
    \<and> (case yjs_deserializeChangeBlock parse W t of Inl _ \<Rightarrow> True | Inr cb \<Rightarrow> block_plain cb)
    \<and> (case automerge_deserializeChangeBlock parse W t of Inl _ \<Rightarrow> True | Inr cb \<Rightarrow> block_plain cb)"
  unfolding yjs_deserializeChangeBlock_def automerge_deserializeChangeBlock_def
  by (intro conjI yjs_typed automerge_typed block_text_typed)

text \<open>
  Claim C37.  The Automerge serializer is lossless: a sync message decodes to itself, less the public key of its snapshot, a change block
  and a list of changes decode to themselves, given that base64 decodes what it encoded and that the JSON texts of the three values
  parse back.
\<close>

theorem automerge_wire_round_trip:
  assumes "base64_lossless W" "sendable m" "block_plain b"
    and "text_lossless (stringify_encode W) (decode_parse W)
      {message_json W (automerge_payload W) m pu, serializeBinaryChanges W changes}"
    and "text_lossless stringify parse {block_json W (automerge_payload W) b}"
  shows "automerge_deserializeSyncMessage W (automerge_serializeSyncMessage W m pu) = Ok (message_view m pu)
    \<and> automerge_deserializeChangeBlock parse W (automerge_serializeChangeBlock stringify W b) = Ok b
    \<and> automerge_deserializeChanges W (automerge_serializeChanges W changes) = Ok changes"
proof (intro conjI)
  show "automerge_deserializeSyncMessage W (automerge_serializeSyncMessage W m pu) = Ok (message_view m pu)"
    using assms(1,2,4) by (simp add: automerge_deserializeSyncMessage_def automerge_serializeSyncMessage_def parsed_def
        automerge_message_round_trip text_losslessD)
  show "automerge_deserializeChangeBlock parse W (automerge_serializeChangeBlock stringify W b) = Ok b"
    using assms(1,3,5) by (simp add: automerge_deserializeChangeBlock_def automerge_serializeChangeBlock_def
        block_text_round_trip lossless_automerge text_losslessD)
  have "decode_parse W (stringify_encode W (serializeBinaryChanges W changes)) = Ok (serializeBinaryChanges W changes)"
    using assms(4) by (simp add: text_losslessD)
  moreover have "deserializeBinaryChanges W (serializeBinaryChanges W changes) = Ok changes"
    using lossless_automerge [OF assms(1)] by (simp add: lossless_def automerge_payload_def)
  ultimately show "automerge_deserializeChanges W (automerge_serializeChanges W changes) = Ok changes"
    by (simp add: automerge_deserializeChanges_def automerge_serializeChanges_def serializeBinaryChanges_def)
qed

text \<open>
  The Yjs serializer is lossless in the same sense.
\<close>

theorem yjs_wire_round_trip:
  assumes "base64_lossless W" "sendable m" "block_plain b"
    and "text_lossless (stringify_encode W) (decode_parse W) {message_json W (yjs_payload W) m pu}"
    and "text_lossless stringify parse {block_json W (yjs_payload W) b}"
  shows "yjs_deserializeSyncMessage W (yjs_serializeSyncMessage W m pu) = Ok (message_view m pu)
    \<and> yjs_deserializeChangeBlock parse W (yjs_serializeChangeBlock stringify W b) = Ok b"
  using assms by (simp add: yjs_deserializeSyncMessage_def yjs_serializeSyncMessage_def parsed_def yjs_message_round_trip
      yjs_deserializeChangeBlock_def yjs_serializeChangeBlock_def block_text_round_trip lossless_yjs text_losslessD)

section \<open>Witnesses\<close>

definition sample_message :: "'c \<Rightarrow> ('c, nat) sync_message" where
  "sample_message c = (empty_message ''/doc'')\<lparr>m_changeId := Some ''c1'', m_signature := Some ''sig'',
     m_changes := Some (Change_node (Some ''k'') Document_change (Some c) (Children [(''c0'', Change_node None Writer_change (Some c) Deferred)])),
     m_keychainChanges := Some c, m_tipsHash := Some (replicate 32 7), m_tips := Some [''c1'', ''c2''],
     m_snapshot := Some \<lparr>sn_state = c, sn_lastChangeNodeCID = ''c0'', sn_compactedCount = 3, sn_signature = [1], sn_publicKey = Some 5,
       sn_timestamp = 9\<rparr>\<rparr>"

definition sample_block :: "'c \<Rightarrow> 'c change_block" where
  "sample_block c = \<lparr>cb_keyID = Some ''k'', cb_nonce = [1, 2], cb_changes = c, cb_blindIndexTokens = Some [(''title'', ''t0'')]\<rparr>"

text \<open>A codec that knows the texts of one object and one array.\<close>

definition two_texts :: "json \<Rightarrow> json \<Rightarrow> wire_codec" where
  "two_texts obj arr = bare_codec\<lparr>stringify_encode := \<lambda>j. (case j of JArray _ \<Rightarrow> [1] | _ \<Rightarrow> [0]),
     decode_parse := \<lambda>b. Ok (if b = [1] then arr else obj)\<rparr>"

lemma two_texts_base64: "fromUint8Array (two_texts obj arr) = byte_text" "base64_lossless (two_texts obj arr)"
  by (simp_all add: two_texts_def bare_codec_def base64_lossless_def text_bytes_byte_text)

lemma two_texts_text:
  "text_lossless (stringify_encode (two_texts (JObject fs) (JArray js))) (decode_parse (two_texts (JObject fs) (JArray js)))
     {JObject fs, JArray js}"
  by (simp add: text_lossless_def two_texts_def)

lemma json_same_base64:
  assumes "fromUint8Array W = fromUint8Array V"
  shows "message_json W (yjs_payload W) m pu = message_json V (yjs_payload V) m pu"
    "message_json W (automerge_payload W) a pu = message_json V (automerge_payload V) a pu"
    "serializeBinaryChanges W = serializeBinaryChanges V"
  using assms by (simp_all add: message_json_def snapshotForWire_def [abs_def] yjs_payload_def automerge_payload_def serializeBinaryChanges_def [abs_def]
      base64_json_def [abs_def])

lemma sample_sendable: "sendable (sample_message c)" "block_plain (sample_block c)"
  by (simp_all add: sendable_def sample_message_def empty_message_def sample_block_def block_plain_def tokens_plain_def DANGEROUS_KEYS_def)

definition automerge_codec :: wire_codec where
  "automerge_codec = two_texts (message_json bare_codec (automerge_payload bare_codec) (sample_message [[1], [2, 3]]) None)
     (serializeBinaryChanges bare_codec [[4]])"

theorem automerge_wire_round_trip_witness:
  "automerge_deserializeSyncMessage automerge_codec (automerge_serializeSyncMessage automerge_codec (sample_message [[1], [2, 3]]) None)
      = Ok (message_view (sample_message [[1], [2, 3]]) None)
    \<and> automerge_deserializeChangeBlock (\<lambda>_. Ok (block_json automerge_codec (automerge_payload automerge_codec) (sample_block [[8]])))
        automerge_codec (automerge_serializeChangeBlock (\<lambda>_. []) automerge_codec (sample_block [[8]])) = Ok (sample_block [[8]])
    \<and> automerge_deserializeChanges automerge_codec (automerge_serializeChanges automerge_codec [[4]]) = Ok [[4]]"
proof (rule automerge_wire_round_trip [OF _ sample_sendable])
  show "base64_lossless automerge_codec" by (simp add: automerge_codec_def two_texts_base64)
  have same: "fromUint8Array automerge_codec = fromUint8Array bare_codec"
    by (simp add: automerge_codec_def two_texts_base64) (simp add: bare_codec_def)
  show "text_lossless (stringify_encode automerge_codec) (decode_parse automerge_codec)
    {message_json automerge_codec (automerge_payload automerge_codec) (sample_message [[1], [2, 3]]) None,
     serializeBinaryChanges automerge_codec [[4]]}"
    unfolding json_same_base64(2,3) [OF same] unfolding automerge_codec_def message_json_def serializeBinaryChanges_def
    by (rule two_texts_text)
qed (simp add: text_lossless_def)

definition yjs_codec :: wire_codec where
  "yjs_codec = two_texts (message_json bare_codec (yjs_payload bare_codec) (sample_message [1, 2]) None) (JArray [])"

theorem yjs_wire_round_trip_witness:
  "yjs_deserializeSyncMessage yjs_codec (yjs_serializeSyncMessage yjs_codec (sample_message [1, 2]) None)
      = Ok (message_view (sample_message [1, 2]) None)
    \<and> yjs_deserializeChangeBlock (\<lambda>_. Ok (block_json yjs_codec (yjs_payload yjs_codec) (sample_block [8])))
        yjs_codec (yjs_serializeChangeBlock (\<lambda>_. []) yjs_codec (sample_block [8])) = Ok (sample_block [8])"
proof (rule yjs_wire_round_trip [OF _ sample_sendable])
  show "base64_lossless yjs_codec" by (simp add: yjs_codec_def two_texts_base64)
  have same: "fromUint8Array yjs_codec = fromUint8Array bare_codec"
    by (simp add: yjs_codec_def two_texts_base64) (simp add: bare_codec_def)
  show "text_lossless (stringify_encode yjs_codec) (decode_parse yjs_codec)
    {message_json yjs_codec (yjs_payload yjs_codec) (sample_message [1, 2]) None}"
    unfolding json_same_base64(1) [OF same] unfolding yjs_codec_def message_json_def
    using two_texts_text by (simp add: text_lossless_def)
qed (simp add: text_lossless_def)

end
