(* ===== verification/IndexStore.thy ===== *)
theory IndexStore
  imports Bloom Effects
begin

text \<open>
  The local document index: values of indexed fields, the filter and sort semantics shared by the storage backends, and
  \<^verbatim>\<open>MemoryIndexStorage\<close> (\<^verbatim>\<open>packages/collabswarm-index/src/memory-index-storage.ts\<close>, \<^verbatim>\<open>field-extractor.ts\<close>,
  \<^verbatim>\<open>types.ts\<close>).  Strings are sequences of UTF-16 code units where the code compares them; names and paths are strings.
\<close>

section \<open>Values\<close>

text \<open>A date is its time value.  Properties that objects inherit from a prototype are left out.\<close>

datatype ival =
    VUndef | VNull | VBool bool | VNum jsnum | VStr code_units | VDate jsnum
  | VArr "ival list" | VObj "(string \<times> ival) list"

type_synonym fields = "(string \<times> ival) list"

text \<open>
  Functions of the language that are parameters: \<^verbatim>\<open>Date.parse\<close>, the number of a string, \<^verbatim>\<open>String(v)\<close> and
  \<^verbatim>\<open>localeCompare\<close>.
\<close>

record index_env =
  Date_parse :: "code_units \<Rightarrow> jsnum"
  StringToNumber :: "code_units \<Rightarrow> jsnum"
  ToString :: "ival \<Rightarrow> code_units"
  localeCompare :: "code_units \<Rightarrow> code_units \<Rightarrow> int"

text \<open>\<^verbatim>\<open>===\<close>: two objects read from different places are different objects.\<close>

definition strict_eq :: "ival \<Rightarrow> ival \<Rightarrow> bool" where
  "strict_eq a b \<longleftrightarrow> (case a of VNum x \<Rightarrow> x \<noteq> NaN \<and> b = a | VDate _ \<Rightarrow> False | VArr _ \<Rightarrow> False | VObj _ \<Rightarrow> False | _ \<Rightarrow> b = a)"

definition same_value_zero :: "ival \<Rightarrow> ival \<Rightarrow> bool" where
  "same_value_zero a b \<longleftrightarrow> strict_eq a b \<or> a = VNum NaN \<and> b = VNum NaN"

definition nullish :: "ival \<Rightarrow> bool" where
  "nullish v \<longleftrightarrow> v = VUndef \<or> v = VNull"

definition is_object :: "ival \<Rightarrow> bool" where
  "is_object v = (case v of VDate _ \<Rightarrow> True | VArr _ \<Rightarrow> True | VObj _ \<Rightarrow> True | _ \<Rightarrow> False)"

definition num_lt :: "jsnum \<Rightarrow> jsnum \<Rightarrow> bool" where
  "num_lt a b = (case (a, b) of
     (Fin x, Fin y) \<Rightarrow> x < y | (Fin _, PosInf) \<Rightarrow> True | (NegInf, Fin _) \<Rightarrow> True | (NegInf, PosInf) \<Rightarrow> True | _ \<Rightarrow> False)"

definition num_le :: "jsnum \<Rightarrow> jsnum \<Rightarrow> bool" where
  "num_le a b \<longleftrightarrow> num_lt a b \<or> a = b \<and> a \<noteq> NaN"

text \<open>The subtraction of the comparator: only its sign and \<^verbatim>\<open>NaN\<close> are used.\<close>

definition num_minus :: "jsnum \<Rightarrow> jsnum \<Rightarrow> jsnum" where
  "num_minus a b = (case (a, b) of
     (Fin x, Fin y) \<Rightarrow> Fin (x - y) | (NaN, _) \<Rightarrow> NaN | (_, NaN) \<Rightarrow> NaN
   | (PosInf, PosInf) \<Rightarrow> NaN | (NegInf, NegInf) \<Rightarrow> NaN
   | (PosInf, _) \<Rightarrow> PosInf | (NegInf, _) \<Rightarrow> NegInf | (_, PosInf) \<Rightarrow> NegInf | (_, NegInf) \<Rightarrow> PosInf)"

definition num_uminus :: "jsnum \<Rightarrow> jsnum" where
  "num_uminus a = (case a of Fin x \<Rightarrow> Fin (- x) | PosInf \<Rightarrow> NegInf | NegInf \<Rightarrow> PosInf | NaN \<Rightarrow> NaN)"

text \<open>Strings are ordered by code units.\<close>

fun units_less :: "code_units \<Rightarrow> code_units \<Rightarrow> bool" where
  "units_less _ [] = False"
| "units_less [] (_ # _) = True"
| "units_less (a # s) (b # t) = (a < b \<or> a = b \<and> units_less s t)"

definition units_le :: "code_units \<Rightarrow> code_units \<Rightarrow> bool" where
  "units_le s t \<longleftrightarrow> s = t \<or> units_less s t"

text \<open>\<^verbatim>\<open><\<close> and \<^verbatim>\<open><=\<close> of the language.\<close>

definition to_primitive :: "index_env \<Rightarrow> ival \<Rightarrow> ival" where
  "to_primitive E v = (case v of VDate t \<Rightarrow> VNum t | VArr _ \<Rightarrow> VStr (ToString E v) | VObj _ \<Rightarrow> VStr (ToString E v) | _ \<Rightarrow> v)"

definition to_number :: "index_env \<Rightarrow> ival \<Rightarrow> jsnum" where
  "to_number E v = (case v of
     VUndef \<Rightarrow> NaN | VNull \<Rightarrow> Fin 0 | VBool b \<Rightarrow> Fin (if b then 1 else 0) | VNum x \<Rightarrow> x | VStr s \<Rightarrow> StringToNumber E s | _ \<Rightarrow> NaN)"

definition js_lt :: "index_env \<Rightarrow> ival \<Rightarrow> ival \<Rightarrow> bool" where
  "js_lt E a b = (case (to_primitive E a, to_primitive E b) of
     (VStr s, VStr t) \<Rightarrow> units_less s t | (p, q) \<Rightarrow> num_lt (to_number E p) (to_number E q))"

definition js_le :: "index_env \<Rightarrow> ival \<Rightarrow> ival \<Rightarrow> bool" where
  "js_le E a b = (case (to_primitive E a, to_primitive E b) of
     (VStr s, VStr t) \<Rightarrow> units_le s t | (p, q) \<Rightarrow> num_le (to_number E p) (to_number E q))"

section \<open>Field paths\<close>

text \<open>\<^verbatim>\<open>path.split('.')\<close>\<close>

fun split_dots :: "string \<Rightarrow> string list" where
  "split_dots [] = [[]]"
| "split_dots (c # cs) =
     (if c = CHR ''.'' then [] # split_dots cs else (case split_dots cs of s # ss \<Rightarrow> (c # s) # ss | [] \<Rightarrow> [[c]]))"

definition digit :: "char \<Rightarrow> bool" where
  "digit c \<longleftrightarrow> c \<in> set ''0123456789''"

text \<open>The index that a property name of an array denotes: a decimal numeral without leading zeros.\<close>

definition array_index :: "string \<Rightarrow> nat option" where
  "array_index s = (if s \<noteq> [] \<and> list_all digit s \<and> (length s = 1 \<or> hd s \<noteq> CHR ''0'')
     then Some (foldl (\<lambda>n c. 10 * n + (of_char c - 48)) 0 s) else None)"

definition property :: "ival \<Rightarrow> string \<Rightarrow> ival" where
  "property v name = (case v of
     VObj fs \<Rightarrow> (case map_of fs name of None \<Rightarrow> VUndef | Some x \<Rightarrow> x)
   | VArr xs \<Rightarrow> if name = ''length'' then VNum (Fin (of_nat (length xs)))
       else (case array_index name of None \<Rightarrow> VUndef | Some i \<Rightarrow> if i < length xs then xs ! i else VUndef)
   | _ \<Rightarrow> VUndef)"

fun walk :: "ival \<Rightarrow> string list \<Rightarrow> ival" where
  "walk current [] = current"
| "walk current (seg # segs) = (if \<not> is_object current then VUndef else walk (property current seg) segs)"

definition extractField :: "ival \<Rightarrow> string \<Rightarrow> ival" where
  "extractField obj path = walk obj (split_dots path)"

definition resolveFieldPath :: "fields \<Rightarrow> string \<Rightarrow> ival" where
  "resolveFieldPath obj path = walk (VObj obj) (split_dots path)"

section \<open>Filters\<close>

datatype operator = Eq | Neq | Gt | Gte | Lt | Lte | Prefix | In | Contains | Unknown_operator string

record field_filter =
  ff_path :: string
  ff_operator :: operator
  ff_value :: ival

text \<open>The pattern \<^verbatim>\<open>^\d{4}-\d{2}-\d{2}\<close>\<close>

definition unit_digit :: "16 word \<Rightarrow> bool" where
  "unit_digit u \<longleftrightarrow> 48 \<le> u \<and> u \<le> 57"

definition iso_prefix :: "code_units \<Rightarrow> bool" where
  "iso_prefix s \<longleftrightarrow> 10 \<le> length s \<and> list_all (\<lambda>i. unit_digit (s ! i)) [0, 1, 2, 3, 5, 6, 8, 9] \<and> s ! 4 = 45 \<and> s ! 7 = 45"

definition normalizeForComparison :: "index_env \<Rightarrow> ival \<Rightarrow> ival" where
  "normalizeForComparison E v = (case v of
     VDate t \<Rightarrow> VNum t
   | VStr s \<Rightarrow> let timestamp = Date_parse E s in if timestamp \<noteq> NaN \<and> iso_prefix s then VNum timestamp else VStr s
   | _ \<Rightarrow> v)"

definition startsWith :: "code_units \<Rightarrow> code_units \<Rightarrow> bool" where
  "startsWith s p \<longleftrightarrow> take (length p) s = p"

fun includes_units :: "code_units \<Rightarrow> code_units \<Rightarrow> bool" where
  "includes_units [] p = (p = [])"
| "includes_units (u # s) p = (startsWith (u # s) p \<or> includes_units s p)"

definition range_match :: "index_env \<Rightarrow> (ival \<Rightarrow> ival \<Rightarrow> bool) \<Rightarrow> ival \<Rightarrow> ival \<Rightarrow> bool" where
  "range_match E rel v fv = (let nv = normalizeForComparison E v; nfv = normalizeForComparison E fv in
     \<not> nullish nv \<and> \<not> nullish nfv \<and> rel nv nfv)"

definition matchesFilter :: "index_env \<Rightarrow> fields \<Rightarrow> field_filter \<Rightarrow> bool" where
  "matchesFilter E record f = (let v = resolveFieldPath record (ff_path f); fv = ff_value f in
     case ff_operator f of
       Eq \<Rightarrow> strict_eq v fv
     | Neq \<Rightarrow> \<not> strict_eq v fv
     | Gt \<Rightarrow> range_match E (\<lambda>a b. js_lt E b a) v fv
     | Gte \<Rightarrow> range_match E (\<lambda>a b. js_le E b a) v fv
     | Lt \<Rightarrow> range_match E (js_lt E) v fv
     | Lte \<Rightarrow> range_match E (js_le E) v fv
     | Prefix \<Rightarrow> (case (v, fv) of (VStr s, VStr p) \<Rightarrow> startsWith s p | _ \<Rightarrow> False)
     | In \<Rightarrow> (case fv of VArr xs \<Rightarrow> list_ex (\<lambda>x. same_value_zero x v) xs | _ \<Rightarrow> False)
     | Contains \<Rightarrow> (case (v, fv) of (VStr s, VStr p) \<Rightarrow> includes_units s p | _ \<Rightarrow> False)
     | Unknown_operator _ \<Rightarrow> False)"

definition matchesFilters :: "index_env \<Rightarrow> fields \<Rightarrow> field_filter list \<Rightarrow> bool" where
  "matchesFilters E obj fs = list_all (matchesFilter E obj) fs"

section \<open>Sorting\<close>

datatype direction = Asc | Desc

record sort_clause =
  sc_path :: string
  sc_direction :: direction

definition compareValues :: "index_env \<Rightarrow> ival \<Rightarrow> ival \<Rightarrow> jsnum" where
  "compareValues E a b = (let na = normalizeForComparison E a; nb = normalizeForComparison E b in
     if strict_eq na nb then Fin 0
     else if nullish na then Fin (- 1)
     else if nullish nb then Fin 1
     else (case (na, nb) of
        (VNum x, VNum y) \<Rightarrow> num_minus x y
      | (VStr s, VStr t) \<Rightarrow> Fin (of_int (localeCompare E s t))
      | (VBool p, VBool q) \<Rightarrow> Fin ((if p then 1 else 0) - (if q then 1 else 0))
      | _ \<Rightarrow> Fin (of_int (localeCompare E (ToString E na) (ToString E nb)))))"

fun compareEntries :: "index_env \<Rightarrow> fields \<Rightarrow> fields \<Rightarrow> sort_clause list \<Rightarrow> jsnum" where
  "compareEntries E a b [] = Fin 0"
| "compareEntries E a b (clause # cs) =
     (let cmp = compareValues E (resolveFieldPath a (sc_path clause)) (resolveFieldPath b (sc_path clause)) in
      if cmp \<noteq> Fin 0 then (case sc_direction clause of Desc \<Rightarrow> num_uminus cmp | Asc \<Rightarrow> cmp) else compareEntries E a b cs)"

text \<open>
  \<^verbatim>\<open>Array.prototype.sort\<close> is stable; its result is determined by the comparator when that is consistent, and is
  given here by insertion.  A comparison that is \<^verbatim>\<open>NaN\<close> counts as equal.
\<close>

fun sort_insert :: "('a \<Rightarrow> 'a \<Rightarrow> jsnum) \<Rightarrow> 'a \<Rightarrow> 'a list \<Rightarrow> 'a list" where
  "sort_insert cmp x [] = [x]"
| "sort_insert cmp x (y # ys) = (if num_less (cmp y x) 0 then y # sort_insert cmp x ys else x # y # ys)"

definition js_sort :: "('a \<Rightarrow> 'a \<Rightarrow> jsnum) \<Rightarrow> 'a list \<Rightarrow> 'a list" where
  "js_sort cmp xs = foldr (sort_insert cmp) xs []"

section \<open>Storage in memory\<close>

type_synonym entry = "string \<times> fields"

datatype index_error =
    Negative_offset int
  | Negative_limit int
  | Database_not_initialized
  | Store_not_found string
  | Open_failed string
  | Index_redefined string

type_synonym memory_stores = "(string, (string, fields) jsmap) jsmap"

definition mem_initialize :: "string \<Rightarrow> memory_stores \<Rightarrow> memory_stores" where
  "mem_initialize indexName ms = (if map_has ms indexName then ms else map_set indexName [] ms)"

text \<open>\<^verbatim>\<open>_getStore\<close> creates the store on demand.\<close>

definition getStore :: "string \<Rightarrow> memory_stores \<Rightarrow> (string, fields) jsmap" where
  "getStore indexName ms = (case map_get ms indexName of None \<Rightarrow> [] | Some store \<Rightarrow> store)"

definition mem_put :: "string \<Rightarrow> string \<Rightarrow> fields \<Rightarrow> memory_stores \<Rightarrow> memory_stores" where
  "mem_put indexName documentPath obj ms = map_set indexName (map_set documentPath obj (getStore indexName ms)) ms"

definition mem_delete :: "string \<Rightarrow> string \<Rightarrow> memory_stores \<Rightarrow> memory_stores" where
  "mem_delete indexName documentPath ms = (case map_get ms indexName of
     None \<Rightarrow> ms | Some store \<Rightarrow> map_set indexName (map_delete documentPath store) ms)"

definition mem_get :: "string \<Rightarrow> string \<Rightarrow> memory_stores \<Rightarrow> fields option" where
  "mem_get indexName documentPath ms = (case map_get ms indexName of None \<Rightarrow> None | Some store \<Rightarrow> map_get store documentPath)"

definition mem_clear :: "string \<Rightarrow> memory_stores \<Rightarrow> memory_stores" where
  "mem_clear indexName ms = (case map_get ms indexName of None \<Rightarrow> ms | Some _ \<Rightarrow> map_set indexName [] ms)"

definition mem_close :: "memory_stores \<Rightarrow> memory_stores" where
  "mem_close ms = []"

text \<open>Limits and offsets are integers.\<close>

definition check_page :: "int option \<Rightarrow> int option \<Rightarrow> index_error + unit" where
  "check_page limit offset =
     (case offset of Some n \<Rightarrow> if n < 0 then Err (Negative_offset n) else
        (case limit of Some l \<Rightarrow> if l < 0 then Err (Negative_limit l) else Ok () | None \<Rightarrow> Ok ())
      | None \<Rightarrow> (case limit of Some l \<Rightarrow> if l < 0 then Err (Negative_limit l) else Ok () | None \<Rightarrow> Ok ()))"

definition paginate :: "int option \<Rightarrow> int option \<Rightarrow> 'a list \<Rightarrow> 'a list" where
  "paginate limit offset results = (let start = nat (case offset of None \<Rightarrow> 0 | Some n \<Rightarrow> n) in
     case limit of Some l \<Rightarrow> take (nat l) (drop start results)
     | None \<Rightarrow> if start > 0 then drop start results else results)"

definition sort_entries :: "index_env \<Rightarrow> sort_clause list \<Rightarrow> entry list \<Rightarrow> entry list" where
  "sort_entries E clauses results =
     (if clauses \<noteq> [] then js_sort (\<lambda>a b. compareEntries E (snd a) (snd b) clauses) results else results)"

definition mem_query :: "index_env \<Rightarrow> string \<Rightarrow> field_filter list \<Rightarrow> sort_clause list \<Rightarrow> int option \<Rightarrow> int option
    \<Rightarrow> memory_stores \<Rightarrow> index_error + entry list" where
  "mem_query E indexName filters clauses limit offset ms = (case map_get ms indexName of
     None \<Rightarrow> Ok []
   | Some store \<Rightarrow> try_bind (check_page limit offset) (\<lambda>_.
       Ok (paginate limit offset (sort_entries E clauses (filter (\<lambda>(_, obj). matchesFilters E obj filters) store)))))"

end
