(* ===== verification/IndexManager.thy ===== *)
theory IndexManager
  imports IndexStore
begin

text \<open>
  The index manager (\<^verbatim>\<open>packages/collabswarm-index/src/index-manager.ts\<close>) over the interface \<^verbatim>\<open>IndexStorage\<close>: definitions, incremental
  updates with the comparison that skips unchanged entries, queries and live subscriptions.  Extracting a snapshot from a document
  is a parameter.  Callbacks are recorded in the order in which they are called.
\<close>

section \<open>The storage interface\<close>

record field_definition =
  if_path :: string
  if_type :: string

record 's storage_ops =
  op_initialize :: "string \<Rightarrow> field_definition list \<Rightarrow> ('s, index_error, unit) eff"
  op_put :: "string \<Rightarrow> string \<Rightarrow> fields \<Rightarrow> ('s, index_error, unit) eff"
  op_delete :: "string \<Rightarrow> string \<Rightarrow> ('s, index_error, unit) eff"
  op_query :: "string \<Rightarrow> field_filter list \<Rightarrow> sort_clause list \<Rightarrow> int option \<Rightarrow> int option \<Rightarrow> ('s, index_error, entry list) eff"
  op_get :: "string \<Rightarrow> string \<Rightarrow> ('s, index_error, fields option) eff"
  op_clear :: "string \<Rightarrow> ('s, index_error, unit) eff"

definition memory_ops :: "index_env \<Rightarrow> memory_stores storage_ops" where
  "memory_ops E = \<lparr>
     op_initialize = (\<lambda>n _. eff_modify (mem_initialize n)),
     op_put = (\<lambda>n p obj. eff_modify (mem_put n p obj)),
     op_delete = (\<lambda>n p. eff_modify (mem_delete n p)),
     op_query = (\<lambda>n filters clauses limit offset ms. (mem_query E n filters clauses limit offset ms, ms)),
     op_get = (\<lambda>n p ms. (Ok (mem_get n p ms), ms)),
     op_clear = (\<lambda>n. eff_modify (mem_clear n))\<rparr>"

section \<open>Field projections\<close>

record index_def =
  id_name :: string
  id_collectionPrefix :: string
  id_fields :: "field_definition list"

text \<open>
  A path into an array that another field of the same index has stored changes an element in place; beyond its end the array is left as it is.
\<close>

fun set_nested :: "ival \<Rightarrow> string list \<Rightarrow> ival \<Rightarrow> ival" where
  "set_nested obj [] v = obj"
| "set_nested (VObj fs) [seg] v = VObj (map_set seg v fs)"
| "set_nested (VObj fs) (seg # t # ts) v =
     (let current = (case map_of fs seg of Some x \<Rightarrow> if is_object x then x else VObj [] | None \<Rightarrow> VObj [])
      in VObj (map_set seg (set_nested current (t # ts) v) fs))"
| "set_nested (VArr xs) (seg # ts) v =
     (case array_index seg of
        Some i \<Rightarrow> if i < length xs then VArr (xs[i := (if ts = [] then v else set_nested (xs ! i) ts v)]) else VArr xs
      | None \<Rightarrow> VArr xs)"
| "set_nested obj (seg # ts) v = obj"

definition setNestedField :: "fields \<Rightarrow> string \<Rightarrow> ival \<Rightarrow> fields" where
  "setNestedField obj path v = (case set_nested (VObj obj) (split_dots path) v of VObj fs \<Rightarrow> fs | _ \<Rightarrow> obj)"

definition project :: "index_def \<Rightarrow> ival \<Rightarrow> fields" where
  "project def snapshot = foldl (\<lambda>obj f. setNestedField obj (if_path f) (extractField snapshot (if_path f))) [] (id_fields def)"

text \<open>\<^verbatim>\<open>Object.keys\<close>: the indices of an array, no keys for a date.\<close>

fun decimal :: "nat \<Rightarrow> string" where
  "decimal n = (if n < 10 then [char_of (48 + n)] else decimal (n div 10) @ [char_of (48 + n mod 10)])"

declare decimal.simps [simp del]

definition object_keys :: "ival \<Rightarrow> string list" where
  "object_keys v = (case v of VObj fs \<Rightarrow> map fst fs | VArr xs \<Rightarrow> map decimal [0..<length xs] | _ \<Rightarrow> [])"

lemma size_property: "is_object (property v k) \<Longrightarrow> size (property v k) < size v"
proof (cases v)
  case (VObj fs)
  show "is_object (property v k) \<Longrightarrow> size (property v k) < size v"
    unfolding VObj by (induction fs) (auto simp: property_def is_object_def split: option.splits)
next
  case (VArr xs)
  show "is_object (property v k) \<Longrightarrow> size (property v k) < size v"
    unfolding VArr by (auto simp: property_def is_object_def less_Suc_eq_le size_list_estimation' intro!: size_list_estimation' [where f = size]
        split: option.splits if_splits)
qed (simp_all add: property_def is_object_def)

definition is_date :: "ival \<Rightarrow> bool" where
  "is_date v = (case v of VDate _ \<Rightarrow> True | _ \<Rightarrow> False)"

function fieldsEqual :: "ival \<Rightarrow> ival \<Rightarrow> bool" where
  "fieldsEqual a b \<longleftrightarrow> length (object_keys a) = length (object_keys b)
     \<and> list_all (\<lambda>k. let va = property a k; vb = property b k in
         strict_eq va vb
         \<or> (if is_date va \<and> is_date vb then va = vb \<and> va \<noteq> VDate NaN
             else if is_object va \<and> is_object vb then fieldsEqual va vb else False)) (object_keys a)"
  by pat_completeness auto

termination
  by (relation "measure (\<lambda>(a, _). size a)") (auto simp: size_property)

declare fieldsEqual.simps [simp del]

section \<open>The manager\<close>

record query_options =
  qo_indexName :: "string option"
  qo_collectionPrefix :: "string option"
  qo_filters :: "field_filter list"
  qo_sort :: "sort_clause list"
  qo_limit :: "int option"
  qo_offset :: "int option"

type_synonym query_result = "entry list \<times> nat"

record 's manager =
  mg_storage :: 's
  definitions :: "(string, index_def) jsmap"
  subscriptions :: "(nat, query_options) jsmap"
  nextSubscriptionId :: nat
  delivered :: "(nat \<times> query_result) list"

definition manager_new :: "'s \<Rightarrow> 's manager" where
  "manager_new storage = \<lparr>mg_storage = storage, definitions = [], subscriptions = [], nextSubscriptionId = 1, delivered = []\<rparr>"

definition in_storage :: "('s, index_error, 'a) eff \<Rightarrow> ('s manager, index_error, 'a) eff" where
  "in_storage m mg = (case m (mg_storage mg) of (r, s) \<Rightarrow> (r, mg\<lparr>mg_storage := s\<rparr>))"

text \<open>An empty string counts as absent.\<close>

definition given :: "string option \<Rightarrow> bool" where
  "given v \<longleftrightarrow> v \<noteq> None \<and> v \<noteq> Some []"

definition resolveIndexName :: "query_options \<Rightarrow> (string, index_def) jsmap \<Rightarrow> string option" where
  "resolveIndexName options defs =
     (if given (qo_indexName options)
      then (if map_has defs (the (qo_indexName options)) then qo_indexName options else None)
      else (case (if given (qo_collectionPrefix options)
                  then find (\<lambda>(_, def). id_collectionPrefix def = the (qo_collectionPrefix options)) defs else None) of
              Some (name, _) \<Rightarrow> Some name
            | None \<Rightarrow> (case defs of [] \<Rightarrow> None | (name, _) # _ \<Rightarrow> Some name)))"

definition mg_query :: "'s storage_ops \<Rightarrow> query_options \<Rightarrow> ('s manager, index_error, query_result) eff" where
  "mg_query S options = eff_bind eff_get (\<lambda>mg.
     let name = resolveIndexName options (definitions mg) in
     if \<not> given name then eff_return ([], 0)
     else eff_bind (in_storage (op_query S (the name) (qo_filters options) (qo_sort options) None None)) (\<lambda>allEntries.
       eff_bind (if qo_limit options \<noteq> None \<or> (case qo_offset options of Some n \<Rightarrow> n > 0 | None \<Rightarrow> False)
           then in_storage (op_query S (the name) (qo_filters options) (qo_sort options) (qo_limit options) (qo_offset options))
           else eff_return allEntries) (\<lambda>resultEntries.
         eff_return (resultEntries, length allEntries))))"

definition deliver :: "'s storage_ops \<Rightarrow> nat \<Rightarrow> query_options \<Rightarrow> ('s manager, index_error, unit) eff" where
  "deliver S i options = eff_catch
     (eff_bind (mg_query S options) (\<lambda>result. eff_modify (\<lambda>mg.
        if map_has (subscriptions mg) i then mg\<lparr>delivered := delivered mg @ [(i, result)]\<rparr> else mg)))
     (\<lambda>_. eff_return ())"

definition notifySubscribers :: "'s storage_ops \<Rightarrow> ('s manager, index_error, unit) eff" where
  "notifySubscribers S = eff_bind eff_get (\<lambda>mg. eff_iter (\<lambda>(i, options). deliver S i options) (subscriptions mg))"

definition mg_subscribe :: "'s storage_ops \<Rightarrow> query_options \<Rightarrow> ('s manager, index_error, nat) eff" where
  "mg_subscribe S options = eff_bind eff_get (\<lambda>mg. let i = nextSubscriptionId mg in
     eff_bind (eff_modify (\<lambda>mg. mg\<lparr>nextSubscriptionId := i + 1, subscriptions := map_set i options (subscriptions mg)\<rparr>)) (\<lambda>_.
     eff_bind (deliver S i options) (\<lambda>_. eff_return i)))"

definition mg_unsubscribe :: "nat \<Rightarrow> ('s manager, index_error, unit) eff" where
  "mg_unsubscribe i = eff_modify (\<lambda>mg. mg\<lparr>subscriptions := map_delete i (subscriptions mg)\<rparr>)"

text \<open>The JSON texts of two definitions are equal exactly when the definitions are.\<close>

definition defineIndex :: "'s storage_ops \<Rightarrow> index_def \<Rightarrow> ('s manager, index_error, unit) eff" where
  "defineIndex S def = eff_bind eff_get (\<lambda>mg. case map_get (definitions mg) (id_name def) of
     Some existing \<Rightarrow> if existing = def then eff_return () else eff_throw (Index_redefined (id_name def))
   | None \<Rightarrow> eff_bind (eff_modify (\<lambda>mg. mg\<lparr>definitions := map_set (id_name def) def (definitions mg)\<rparr>)) (\<lambda>_.
       in_storage (op_initialize S (id_name def) (id_fields def))))"

definition removeIndex :: "'s storage_ops \<Rightarrow> string \<Rightarrow> ('s manager, index_error, unit) eff" where
  "removeIndex S indexName = eff_bind (eff_modify (\<lambda>mg. mg\<lparr>definitions := map_delete indexName (definitions mg)\<rparr>)) (\<lambda>_.
     in_storage (op_clear S indexName))"

definition in_collection :: "index_def \<Rightarrow> string \<Rightarrow> bool" where
  "in_collection def documentPath \<longleftrightarrow> take (length (id_collectionPrefix def)) documentPath = id_collectionPrefix def"

fun update_entries :: "'s storage_ops \<Rightarrow> string \<Rightarrow> ival \<Rightarrow> (string \<times> index_def) list \<Rightarrow> bool \<Rightarrow> ('s, index_error, bool) eff" where
  "update_entries S documentPath snapshot [] changed = eff_return changed"
| "update_entries S documentPath snapshot ((indexName, def) # defs) changed =
     (if \<not> in_collection def documentPath then update_entries S documentPath snapshot defs changed
      else eff_bind (op_get S indexName documentPath) (\<lambda>existing.
        let new = project def snapshot in
        if existing \<noteq> None \<and> fieldsEqual (VObj (the existing)) (VObj new) then update_entries S documentPath snapshot defs changed
        else eff_bind (op_put S indexName documentPath new) (\<lambda>_. update_entries S documentPath snapshot defs True)))"

definition updateIndex :: "'s storage_ops \<Rightarrow> string \<Rightarrow> ival \<Rightarrow> ('s manager, index_error, unit) eff" where
  "updateIndex S documentPath snapshot = eff_bind eff_get (\<lambda>mg.
     eff_bind (in_storage (update_entries S documentPath snapshot (definitions mg) False)) (\<lambda>changed.
       eff_when changed (notifySubscribers S)))"

definition removeFromIndex :: "'s storage_ops \<Rightarrow> string \<Rightarrow> ('s manager, index_error, unit) eff" where
  "removeFromIndex S documentPath = eff_bind eff_get (\<lambda>mg.
     eff_bind (in_storage (eff_iter (\<lambda>(indexName, _). op_delete S indexName documentPath) (definitions mg))) (\<lambda>_.
       notifySubscribers S))"

definition rebuildIndex :: "'s storage_ops \<Rightarrow> string \<Rightarrow> (string, ival) jsmap \<Rightarrow> ('s manager, index_error, unit) eff" where
  "rebuildIndex S indexName documents = eff_bind eff_get (\<lambda>mg. case map_get (definitions mg) indexName of
     None \<Rightarrow> eff_return ()
   | Some def \<Rightarrow> eff_bind (in_storage (op_clear S indexName)) (\<lambda>_.
       eff_bind (in_storage (eff_iter (\<lambda>(documentPath, snapshot).
           if in_collection def documentPath then op_put S indexName documentPath (project def snapshot) else eff_return ()) documents)) (\<lambda>_.
         notifySubscribers S)))"

section \<open>Tracking documents\<close>

text \<open>
  \<^verbatim>\<open>CollabswarmIndexIntegration\<close>: the handler that a tracked document calls on each change, and its registration.  A failing
  update is logged.
\<close>

record 's integration =
  it_manager :: "'s manager"
  trackedDocuments :: "string list"

definition in_manager :: "('s manager, index_error, unit) eff \<Rightarrow> 's integration \<Rightarrow> 's integration" where
  "in_manager m it = it\<lparr>it_manager := snd (m (it_manager it))\<rparr>"

definition trackDocument :: "'s storage_ops \<Rightarrow> string \<Rightarrow> ival \<Rightarrow> 's integration \<Rightarrow> 's integration" where
  "trackDocument S documentPath current it = (if documentPath \<in> set (trackedDocuments it) then it
     else in_manager (updateIndex S documentPath current) (it\<lparr>trackedDocuments := trackedDocuments it @ [documentPath]\<rparr>))"

definition on_document_change :: "'s storage_ops \<Rightarrow> string \<Rightarrow> ival \<Rightarrow> 's integration \<Rightarrow> 's integration" where
  "on_document_change S documentPath current it = (if documentPath \<in> set (trackedDocuments it)
     then in_manager (updateIndex S documentPath current) it else it)"

definition untrackDocument :: "'s storage_ops \<Rightarrow> string \<Rightarrow> 's integration \<Rightarrow> 's integration" where
  "untrackDocument S documentPath it = (if documentPath \<notin> set (trackedDocuments it) then it
     else in_manager (removeFromIndex S documentPath) (it\<lparr>trackedDocuments := filter (\<lambda>p. p \<noteq> documentPath) (trackedDocuments it)\<rparr>))"

definition dispose :: "'s integration \<Rightarrow> 's integration" where
  "dispose it = it\<lparr>trackedDocuments := []\<rparr>"

end
