(* ===== verification/IdbStore.thy ===== *)
theory IdbStore
  imports IndexStore
begin

text \<open>
  \<^verbatim>\<open>IDBIndexStorage\<close> (\<^verbatim>\<open>packages/collabswarm-index/src/idb-index-storage.ts\<close>): opening and upgrading the database against
  concurrent tabs, the entry operations, and queries accelerated by IndexedDB indexes.  IndexedDB itself is the record
  \<open>idb\<close>: which values are keys, how keys are ordered, and what the cursors visit.
\<close>

section \<open>The platform\<close>

datatype key_range =
    Range_only ival
  | Range_lower ival bool
  | Range_bound ival ival bool bool

record 'k idb =
  idb_key :: "ival \<Rightarrow> 'k option"
  key_less :: "'k \<Rightarrow> 'k \<Rightarrow> bool"
  key_path :: "fields \<Rightarrow> string \<Rightarrow> ival"
  store_cursor :: "entry list \<Rightarrow> entry list"
  index_cursor :: "string \<Rightarrow> key_range \<Rightarrow> entry list \<Rightarrow> entry list"

text \<open>The database: other tabs may change it between two opens.\<close>

record idb_store =
  idb_records :: "(string, fields) jsmap"
  indexNames :: "string list"

record idb_database =
  version :: nat
  objectStores :: "(string, idb_store) jsmap"

datatype open_error = VersionError | Other_open_error string

text \<open>Opening at a version runs the upgrade only when the version is larger than that of the database.\<close>

definition openDB :: "nat \<Rightarrow> (idb_database \<Rightarrow> idb_database) \<Rightarrow> idb_database \<Rightarrow> open_error + idb_database" where
  "openDB v upgrade d = (if v < version d then Err VersionError
     else if v = version d then Ok d else Ok ((upgrade d)\<lparr>version := v\<rparr>))"

section \<open>State and initialization\<close>

record idb_state =
  db_open :: bool
  database :: idb_database
  initializedStores :: "string list"
  indexedFields :: "(string, string list) jsmap"

definition idb_new :: "idb_database \<Rightarrow> idb_state" where
  "idb_new d = \<lparr>db_open = False, database = d, initializedStores = [], indexedFields = []\<rparr>"

definition MAX_OPEN_ATTEMPTS :: nat where
  "MAX_OPEN_ATTEMPTS = 4"

definition upgrade_schema :: "string \<Rightarrow> string list \<Rightarrow> idb_database \<Rightarrow> idb_database" where
  "upgrade_schema indexName missing d =
     (let store = (case map_get (objectStores d) indexName of None \<Rightarrow> \<lparr>idb_records = [], indexNames = []\<rparr> | Some st \<Rightarrow> st)
      in d\<lparr>objectStores := map_set indexName (store\<lparr>indexNames := foldl (\<lambda>ns f. set_add f ns) (indexNames store) missing\<rparr>) (objectStores d)\<rparr>)"

definition probe_schema :: "string \<Rightarrow> string list \<Rightarrow> idb_database \<Rightarrow> string list \<times> string list \<times> bool" where
  "probe_schema indexName paths d = (case map_get (objectStores d) indexName of
     None \<Rightarrow> ([], paths, True)
   | Some st \<Rightarrow> let missing = filter (\<lambda>f. f \<notin> set (indexNames st)) paths in (indexNames st, missing, missing \<noteq> []))"

text \<open>\<open>others n\<close> is what other tabs do between the probe and the reopening of attempt \<open>n\<close>.\<close>

function open_loop :: "(nat \<Rightarrow> idb_database \<Rightarrow> idb_database) \<Rightarrow> string \<Rightarrow> string list \<Rightarrow> nat \<Rightarrow> idb_database
    \<Rightarrow> (open_error + string list) \<times> idb_database" where
  "open_loop others indexName paths attempt d =
     (let (probed, missing, needsUpgrade) = probe_schema indexName paths d;
          d' = others attempt d
      in case openDB (if needsUpgrade then version d + 1 else version d) (upgrade_schema indexName missing) d' of
           Inr d'' \<Rightarrow> (Ok probed, d'')
         | Inl e \<Rightarrow> if e = VersionError \<and> attempt < MAX_OPEN_ATTEMPTS - 1
             then open_loop others indexName paths (attempt + 1) d' else (Err e, d'))"
  by pat_completeness auto

termination
  by (relation "measure (\<lambda>(_, _, _, attempt, _). MAX_OPEN_ATTEMPTS - attempt)") (auto simp: MAX_OPEN_ATTEMPTS_def)

declare open_loop.simps [simp del]

definition idb_initialize :: "(nat \<Rightarrow> idb_database \<Rightarrow> idb_database) \<Rightarrow> string \<Rightarrow> string list
    \<Rightarrow> idb_state \<Rightarrow> (open_error + unit) \<times> idb_state" where
  "idb_initialize others indexName paths s =
     (if indexName \<in> set (initializedStores s) \<and> db_open s
         \<and> (case map_get (indexedFields s) indexName of None \<Rightarrow> False | Some cached \<Rightarrow> set paths \<subseteq> set cached)
      then (Ok (), s)
      else (case open_loop others indexName paths 0 (database s) of
         (Inl e, d) \<Rightarrow> (Err e, s\<lparr>db_open := False, database := d\<rparr>)
       | (Inr existing, d) \<Rightarrow> (Ok (), s\<lparr>db_open := True, database := d,
           indexedFields := map_set indexName (foldl (\<lambda>ns f. set_add f ns) existing paths) (indexedFields s),
           initializedStores := set_add indexName (initializedStores s)\<rparr>)))"

section \<open>Entries\<close>

definition getDB :: "idb_state \<Rightarrow> index_error + idb_database" where
  "getDB s = (if db_open s then Ok (database s) else Err Database_not_initialized)"

definition idb_change :: "string \<Rightarrow> ((string, fields) jsmap \<Rightarrow> (string, fields) jsmap) \<Rightarrow> idb_state \<Rightarrow> idb_state" where
  "idb_change indexName f s = s\<lparr>database := (database s)\<lparr>objectStores :=
     map (\<lambda>(n, st). (n, if n = indexName then st\<lparr>idb_records := f (idb_records st)\<rparr> else st)) (objectStores (database s))\<rparr>\<rparr>"

definition idb_put :: "string \<Rightarrow> string \<Rightarrow> fields \<Rightarrow> idb_state \<Rightarrow> index_error + idb_state" where
  "idb_put indexName documentPath obj s = try_bind (getDB s) (\<lambda>d.
     if \<not> map_has (objectStores d) indexName then Err (Store_not_found indexName)
     else Ok (idb_change indexName (map_set documentPath obj) s))"

definition idb_delete :: "string \<Rightarrow> string \<Rightarrow> idb_state \<Rightarrow> index_error + idb_state" where
  "idb_delete indexName documentPath s = try_bind (getDB s) (\<lambda>d.
     if \<not> map_has (objectStores d) indexName then Err (Store_not_found indexName)
     else Ok (idb_change indexName (map_delete documentPath) s))"

definition idb_get :: "string \<Rightarrow> string \<Rightarrow> idb_state \<Rightarrow> index_error + fields option" where
  "idb_get indexName documentPath s = try_bind (getDB s) (\<lambda>d. case map_get (objectStores d) indexName of
     None \<Rightarrow> Ok None | Some st \<Rightarrow> Ok (map_get (idb_records st) documentPath))"

definition idb_clear :: "string \<Rightarrow> idb_state \<Rightarrow> index_error + idb_state" where
  "idb_clear indexName s = try_bind (getDB s) (\<lambda>d. if map_has (objectStores d) indexName then Ok (idb_change indexName (\<lambda>_. []) s) else Ok s)"

definition idb_close :: "idb_state \<Rightarrow> idb_state" where
  "idb_close s = s\<lparr>db_open := False\<rparr>"

section \<open>Queries\<close>

definition isIDBAcceleratable :: "operator \<Rightarrow> ival \<Rightarrow> bool" where
  "isIDBAcceleratable op v = (case op of
     Prefix \<Rightarrow> (case v of VStr _ \<Rightarrow> True | _ \<Rightarrow> False)
   | Gt \<Rightarrow> (case v of VNum x \<Rightarrow> is_finite x | _ \<Rightarrow> False)
   | Gte \<Rightarrow> (case v of VNum x \<Rightarrow> is_finite x | _ \<Rightarrow> False)
   | Eq \<Rightarrow> (case v of VNum x \<Rightarrow> is_finite x | VStr _ \<Rightarrow> True | _ \<Rightarrow> False)
   | _ \<Rightarrow> False)"

text \<open>The loop runs from the last code unit to the first.\<close>

fun successor_loop :: "code_units \<Rightarrow> nat \<Rightarrow> code_units option" where
  "successor_loop p 0 = None"
| "successor_loop p (Suc i) = (let code = p ! i in
     if code < 0xffff then Some (take i p @ [code + 1]) else successor_loop p i)"

definition lexicographicSuccessor :: "code_units \<Rightarrow> code_units option" where
  "lexicographicSuccessor p = successor_loop p (length p)"

definition strategy_range :: "operator \<Rightarrow> ival \<Rightarrow> (key_range \<times> bool) option" where
  "strategy_range op v = (case op of
     Eq \<Rightarrow> Some (Range_only v, True)
   | Gt \<Rightarrow> Some (Range_lower v True, False)
   | Gte \<Rightarrow> Some (Range_lower v False, False)
   | Prefix \<Rightarrow> (case v of
        VStr p \<Rightarrow> (case lexicographicSuccessor p of
            None \<Rightarrow> Some (Range_lower v False, False)
          | Some q \<Rightarrow> Some (Range_bound v (VStr q) False True, False))
      | _ \<Rightarrow> None)
   | _ \<Rightarrow> None)"

fun pick_from :: "string list \<Rightarrow> field_filter list \<Rightarrow> nat \<Rightarrow> field_filter list \<Rightarrow> (string \<times> key_range \<times> field_filter list) option" where
  "pick_from indexed filters i [] = None"
| "pick_from indexed filters i (f # fs) =
     (if ff_path f \<notin> set indexed \<or> \<not> isIDBAcceleratable (ff_operator f) (ff_value f) then pick_from indexed filters (Suc i) fs
      else (case strategy_range (ff_operator f) (ff_value f) of
          None \<Rightarrow> pick_from indexed filters (Suc i) fs
        | Some (kr, dropped) \<Rightarrow> Some (ff_path f, kr,
            if dropped then take i filters @ drop (Suc i) filters else filters)))"

definition pickIDBStrategy :: "string \<Rightarrow> field_filter list \<Rightarrow> idb_state \<Rightarrow> (string \<times> key_range \<times> field_filter list) option" where
  "pickIDBStrategy indexName filters s = (if filters = [] then None
     else (case map_get (indexedFields s) indexName of None \<Rightarrow> None | Some indexed \<Rightarrow> pick_from indexed filters 0 filters))"

definition idb_candidates :: "index_env \<Rightarrow> 'k idb \<Rightarrow> string \<Rightarrow> field_filter list \<Rightarrow> idb_store \<Rightarrow> idb_state \<Rightarrow> index_error + entry list" where
  "idb_candidates E K indexName filters st s = (case pickIDBStrategy indexName filters s of
     Some (path, kr, remaining) \<Rightarrow>
       if path \<notin> set (indexNames st) then Err (Store_not_found path)
       else Ok (filter (\<lambda>(_, obj). matchesFilters E obj remaining) (index_cursor K path kr (idb_records st)))
   | None \<Rightarrow> Ok (filter (\<lambda>(_, obj). matchesFilters E obj filters) (store_cursor K (idb_records st))))"

definition idb_query :: "index_env \<Rightarrow> 'k idb \<Rightarrow> string \<Rightarrow> field_filter list \<Rightarrow> sort_clause list \<Rightarrow> int option \<Rightarrow> int option
    \<Rightarrow> idb_state \<Rightarrow> index_error + entry list" where
  "idb_query E K indexName filters clauses limit offset s = try_bind (getDB s) (\<lambda>d.
     try_bind (check_page limit offset) (\<lambda>_.
     case map_get (objectStores d) indexName of
       None \<Rightarrow> Ok []
     | Some st \<Rightarrow> try_bind (idb_candidates E K indexName filters st s) (\<lambda>results.
         Ok (paginate limit offset (sort_entries E clauses results)))))"

end
