(* ===== verification/IdbCorrect.thy ===== *)
theory IdbCorrect
  imports IdbStore "HOL-Library.Multiset"
begin

text \<open>
  Correctness of the accelerated queries and of the initialization of \<^verbatim>\<open>IDBIndexStorage\<close>: a query through an IndexedDB index
  finds the same documents as the scan, and where it does not.
\<close>

section \<open>Prefix ranges\<close>

lemma units_less_irrefl [simp]: "\<not> units_less s s"
  by (induction s) auto

lemma units_le_Cons [simp]: "units_le (a # s) (b # t) \<longleftrightarrow> a < b \<or> a = b \<and> units_le s t"
  by (auto simp: units_le_def)

lemma units_le_Nil [simp]: "units_le [] s" "units_le (a # s) [] \<longleftrightarrow> False"
  by (cases s) (simp_all add: units_le_def)

lemma startsWith_Cons [simp]: "startsWith (a # s) (b # p) \<longleftrightarrow> a = b \<and> startsWith s p"
  by (auto simp: startsWith_def)

lemma startsWith_Nil [simp]: "startsWith s []" "startsWith [] (b # p) \<longleftrightarrow> False"
  by (simp_all add: startsWith_def)

lemma startsWith_le: "startsWith s p \<Longrightarrow> units_le p s"
proof (induction p arbitrary: s)
  case (Cons b p)
  then show ?case by (cases s) auto
qed simp

lemma max_unit: "(a :: 16 word) \<le> 0xffff"
  using unsigned_less [of a, where 'a = nat] by (simp add: word_le_nat_alt)

lemma max_units_le: "units_le (replicate n 0xffff) s \<longleftrightarrow> startsWith s (replicate n (0xffff :: 16 word))"
proof (induction n arbitrary: s)
  case (Suc n)
  show ?case
  proof (cases s)
    case (Cons a t)
    have "\<not> (0xffff :: 16 word) < a" using max_unit [of a] by (simp add: not_less)
    then show ?thesis using Cons Suc.IH by auto
  qed simp
qed simp

lemma unit_less_succ:
  assumes "c < (0xffff :: 16 word)"
  shows "a < c + 1 \<longleftrightarrow> a \<le> c"
proof -
  have "unat c < 65535" using assms by (simp add: word_less_nat_alt)
  then have "unat (c + 1) = unat c + 1" by (simp add: unat_word_ariths)
  then show ?thesis by (simp add: word_less_nat_alt word_le_nat_alt less_Suc_eq_le)
qed

lemma successor_loop_shape:
  assumes "successor_loop p i = Some q" "i \<le> length p"
  shows "\<exists>j c. j < i \<and> p ! j = c \<and> c < 0xffff \<and> q = take j p @ [c + 1] \<and> (\<forall>k. j < k \<and> k < i \<longrightarrow> p ! k = 0xffff)"
  using assms
proof (induction p i rule: successor_loop.induct)
  case (2 p i)
  show ?case
  proof (cases "p ! i < 0xffff")
    case True
    then show ?thesis using "2.prems" by (intro exI [of _ i]) (auto simp: Let_def)
  next
    case False
    then have m: "p ! i = 0xffff" using max_unit [of "p ! i"] by simp
    from False 2 obtain j c where "j < i" "p ! j = c" "c < 0xffff" "q = take j p @ [c + 1]"
      "\<forall>k. j < k \<and> k < i \<longrightarrow> p ! k = 0xffff" by (auto simp: Let_def)
    then show ?thesis using m by (intro exI [of _ j]) (auto simp: less_Suc_eq)
  qed
qed simp

lemma successor_shape:
  assumes "lexicographicSuccessor p = Some q"
  shows "\<exists>pre c n. p = pre @ c # replicate n 0xffff \<and> c < 0xffff \<and> q = pre @ [c + 1]"
proof -
  obtain j c where j: "j < length p" "p ! j = c" "c < 0xffff" "q = take j p @ [c + 1]"
    "\<And>k. j < k \<Longrightarrow> k < length p \<Longrightarrow> p ! k = 0xffff"
    using successor_loop_shape [of p "length p" q] assms by (auto simp: lexicographicSuccessor_def)
  have "drop (Suc j) p = replicate (length p - Suc j) 0xffff"
    by (rule nth_equalityI) (use j(1,5) in auto)
  then have "p = take j p @ c # replicate (length p - Suc j) 0xffff"
    using id_take_nth_drop [OF j(1)] j(2) by simp
  then show ?thesis using j(3,4) by blast
qed

text \<open>The half-open range from a prefix to its successor holds exactly the strings with that prefix.\<close>

lemma prefix_range_exact:
  assumes "lexicographicSuccessor p = Some q"
  shows "units_le p s \<and> units_less s q \<longleftrightarrow> startsWith s p"
proof -
  obtain pre c n where p: "p = pre @ c # replicate n 0xffff" and c: "c < 0xffff" and q: "q = pre @ [c + 1]"
    using successor_shape [OF assms] by blast
  show ?thesis unfolding p q
  proof (induction pre arbitrary: s)
    case Nil
    show ?case
    proof (cases s)
      case (Cons a t)
      have "units_less (a # t) [c + 1] \<longleftrightarrow> a \<le> c" by (simp add: unit_less_succ [OF c])
      then show ?thesis using max_units_le [of n t] by (auto simp: Cons simp del: units_less.simps dest: leD)
    qed simp
  next
    case (Cons b pre)
    show ?case
    proof (cases s)
      case (Cons a t)
      then show ?thesis using Cons.IH [of t]
        by (cases a b rule: linorder_cases) (simp_all add: less_not_sym less_imp_neq less_imp_neq [symmetric])
    qed simp
  qed
qed

section \<open>Documented behaviour of IndexedDB\<close>

definition range_has :: "'k idb \<Rightarrow> key_range \<Rightarrow> 'k \<Rightarrow> bool" where
  "range_has K r k = (case r of
     Range_only w \<Rightarrow> idb_key K w = Some k
   | Range_lower w opn \<Rightarrow> (case idb_key K w of None \<Rightarrow> False | Some l \<Rightarrow> key_less K l k \<or> \<not> opn \<and> l = k)
   | Range_bound w u lopen uopen \<Rightarrow>
       (case idb_key K w of None \<Rightarrow> False | Some l \<Rightarrow> key_less K l k \<or> \<not> lopen \<and> l = k)
     \<and> (case idb_key K u of None \<Rightarrow> False | Some l \<Rightarrow> key_less K k l \<or> \<not> uopen \<and> l = k))"

definition in_range :: "'k idb \<Rightarrow> key_range \<Rightarrow> ival \<Rightarrow> bool" where
  "in_range K r v = (case idb_key K v of None \<Rightarrow> False | Some k \<Rightarrow> range_has K r k)"

text \<open>
  Numbers other than \<^verbatim>\<open>NaN\<close>, valid dates and strings are keys, numbers sort below dates and strings, and
  key equality does not mix them with other values; missing values, booleans and plain objects are not keys.
\<close>

definition idb_keys_ok :: "'k idb \<Rightarrow> bool" where
  "idb_keys_ok K \<longleftrightarrow> (\<forall>x. idb_key K (VNum x) = None \<longleftrightarrow> x = NaN) \<and> (\<forall>s. idb_key K (VStr s) \<noteq> None)
     \<and> (\<forall>t. idb_key K (VDate t) = None \<longleftrightarrow> t = NaN)
     \<and> idb_key K VUndef = None \<and> idb_key K VNull = None \<and> (\<forall>b. idb_key K (VBool b) = None) \<and> (\<forall>fs. idb_key K (VObj fs) = None)
     \<and> (\<forall>v w. (case w of VNum _ \<Rightarrow> True | VStr _ \<Rightarrow> True | _ \<Rightarrow> False) \<longrightarrow> idb_key K w \<noteq> None \<longrightarrow> idb_key K v = idb_key K w \<longrightarrow> v = w)"

definition idb_order_ok :: "'k idb \<Rightarrow> bool" where
  "idb_order_ok K \<longleftrightarrow>
     (\<forall>x y k l. idb_key K (VNum x) = Some k \<longrightarrow> idb_key K (VNum y) = Some l \<longrightarrow> key_less K k l = num_lt x y)
     \<and> (\<forall>s t k l. idb_key K (VStr s) = Some k \<longrightarrow> idb_key K (VStr t) = Some l \<longrightarrow> key_less K k l = units_less s t)
     \<and> (\<forall>x t k l. idb_key K (VNum x) = Some k \<longrightarrow> idb_key K (VStr t) = Some l \<longrightarrow> key_less K k l)
     \<and> (\<forall>x t k l. idb_key K (VNum x) = Some k \<longrightarrow> idb_key K (VDate t) = Some l \<longrightarrow> key_less K k l)"

text \<open>A key path reads own properties; only \<^verbatim>\<open>length\<close> of a string is special.\<close>

definition idb_cursors_ok :: "'k idb \<Rightarrow> bool" where
  "idb_cursors_ok K \<longleftrightarrow> (\<forall>obj path. ''length'' \<notin> set (split_dots path) \<longrightarrow> key_path K obj path = resolveFieldPath obj path)
     \<and> (\<forall>es. mset (store_cursor K es) = mset es)
     \<and> (\<forall>path r es. mset (index_cursor K path r es) = mset (filter (\<lambda>e. in_range K r (key_path K (snd e) path)) es))"

definition idb_ok :: "'k idb \<Rightarrow> bool" where
  "idb_ok K \<longleftrightarrow> idb_keys_ok K \<and> idb_order_ok K \<and> idb_cursors_ok K"

lemma idb_key_num: "idb_ok K \<Longrightarrow> x \<noteq> NaN \<Longrightarrow> \<exists>k. idb_key K (VNum x) = Some k"
  by (auto simp: idb_ok_def idb_keys_ok_def)

lemma idb_key_str: "idb_ok K \<Longrightarrow> \<exists>k. idb_key K (VStr s) = Some k"
  by (auto simp: idb_ok_def idb_keys_ok_def)

lemma idb_key_date: "idb_ok K \<Longrightarrow> t \<noteq> NaN \<Longrightarrow> \<exists>k. idb_key K (VDate t) = Some k"
  by (auto simp: idb_ok_def idb_keys_ok_def)

lemma idb_key_inj:
  assumes "idb_ok K" "idb_key K v = Some k"
  shows "idb_key K (VNum x) = Some k \<Longrightarrow> v = VNum x" "idb_key K (VStr s) = Some k \<Longrightarrow> v = VStr s"
proof -
  have law: "(case w of VNum _ \<Rightarrow> True | VStr _ \<Rightarrow> True | _ \<Rightarrow> False) \<Longrightarrow> idb_key K w = Some k \<Longrightarrow> v = w" for w
    using assms unfolding idb_ok_def idb_keys_ok_def by (metis option.distinct(1))
  show "idb_key K (VNum x) = Some k \<Longrightarrow> v = VNum x" "idb_key K (VStr s) = Some k \<Longrightarrow> v = VStr s"
    using law [of "VNum x"] law [of "VStr s"] by simp_all
qed

section \<open>Ranges cover their filter\<close>

text \<open>Values the relational operators of the language convert to numbers although they are not keys.\<close>

definition coerced :: "ival \<Rightarrow> bool" where
  "coerced v = (case v of VBool _ \<Rightarrow> True | VArr _ \<Rightarrow> True | VObj _ \<Rightarrow> True | _ \<Rightarrow> False)"

lemma lower_range:
  assumes K: "idb_ok K" and c: "c \<noteq> NaN" and v: "\<not> coerced v"
  shows "range_match E (\<lambda>a b. js_lt E b a) v (VNum c) \<Longrightarrow> in_range K (Range_lower (VNum c) True) v"
    and "range_match E (\<lambda>a b. js_le E b a) v (VNum c) \<Longrightarrow> in_range K (Range_lower (VNum c) False) v"
proof -
  obtain l where l: "idb_key K (VNum c) = Some l" using idb_key_num [OF K c] by blast
  have ord: "idb_order_ok K" using K by (simp add: idb_ok_def)
  have key: "\<exists>k. idb_key K v = Some k \<and> (key_less K l k \<or> le \<and> l = k)"
    if "(\<exists>x. v = VNum x \<and> (num_lt c x \<or> le \<and> c = x)) \<or> (\<exists>s. v = VStr s) \<or> (\<exists>t. v = VDate t \<and> t \<noteq> NaN)" for le
    using that
  proof (elim disjE exE conjE)
    fix x assume x: "v = VNum x" "num_lt c x"
    then obtain k where k: "idb_key K (VNum x) = Some k" using idb_key_num [OF K, of x] by (cases x) (auto simp: num_lt_def split: jsnum.splits)
    then show ?thesis using ord l x by (auto simp: idb_order_ok_def)
  next
    fix x assume "v = VNum x" "le" "c = x"
    then show ?thesis using l by simp
  next
    fix s assume "v = VStr s"
    then show ?thesis using idb_key_str [OF K, of s] ord l unfolding idb_order_ok_def by blast
  next
    fix t assume t: "v = VDate t" "t \<noteq> NaN"
    then show ?thesis using idb_key_date [OF K t(2)] ord l unfolding idb_order_ok_def by blast
  qed
  have lt: "(\<exists>x. v = VNum x \<and> num_lt c x) \<or> (\<exists>s. v = VStr s) \<or> (\<exists>t. v = VDate t \<and> t \<noteq> NaN)"
    if "range_match E (\<lambda>a b. js_lt E b a) v (VNum c)"
    using that v by (cases v; cases c) (auto simp: range_match_def normalizeForComparison_def js_lt_def to_primitive_def to_number_def
        nullish_def coerced_def num_lt_def split: jsnum.splits)
  have le: "(\<exists>x. v = VNum x \<and> (num_lt c x \<or> c = x)) \<or> (\<exists>s. v = VStr s) \<or> (\<exists>t. v = VDate t \<and> t \<noteq> NaN)"
    if "range_match E (\<lambda>a b. js_le E b a) v (VNum c)"
    using that v c by (cases v; cases c) (auto simp: range_match_def normalizeForComparison_def js_le_def to_primitive_def
        to_number_def nullish_def coerced_def num_le_def num_lt_def split: jsnum.splits)
  show "range_match E (\<lambda>a b. js_lt E b a) v (VNum c) \<Longrightarrow> in_range K (Range_lower (VNum c) True) v"
    using key [of False] lt l by (auto simp: in_range_def range_has_def)
  show "range_match E (\<lambda>a b. js_le E b a) v (VNum c) \<Longrightarrow> in_range K (Range_lower (VNum c) False) v"
    using key [of True] le l by (auto simp: in_range_def range_has_def)
qed

lemma prefix_range:
  assumes K: "idb_ok K" and r: "strategy_range Prefix (VStr p) = Some (r, d)" and "startsWith s p"
  shows "in_range K r (VStr s)"
proof -
  obtain k l where k: "idb_key K (VStr s) = Some k" "idb_key K (VStr p) = Some l" using idb_key_str [OF K] by blast
  have ord: "idb_order_ok K" using K by (simp add: idb_ok_def)
  have lower: "key_less K l k \<or> l = k"
    using startsWith_le [OF assms(3)] ord k unfolding units_le_def idb_order_ok_def by auto
  show ?thesis
  proof (cases "lexicographicSuccessor p")
    case None
    then show ?thesis using r k lower by (auto simp: strategy_range_def in_range_def range_has_def)
  next
    case (Some q)
    obtain u where u: "idb_key K (VStr q) = Some u" using idb_key_str [OF K] by blast
    have "units_less s q" using prefix_range_exact [OF Some] assms(3) by blast
    then have "key_less K k u" using ord k u unfolding idb_order_ok_def by blast
    then show ?thesis using r k u lower Some by (auto simp: strategy_range_def in_range_def range_has_def)
  qed
qed

lemma only_range:
  assumes K: "idb_ok K" and w: "isIDBAcceleratable Eq w"
  shows "in_range K (Range_only w) v \<longleftrightarrow> strict_eq v w"
proof -
  obtain k where k: "idb_key K w = Some k"
    using w idb_key_str [OF K] idb_key_num [OF K] by (auto simp: isIDBAcceleratable_def is_finite_def split: ival.splits jsnum.splits)
  show ?thesis
  proof (cases w)
    case (VNum x)
    then show ?thesis using k w idb_key_inj(1) [OF K, of v k x]
      by (auto simp: in_range_def range_has_def strict_eq_def isIDBAcceleratable_def is_finite_def split: option.splits ival.splits)
  next
    case (VStr s)
    then show ?thesis using k idb_key_inj(2) [OF K, of v k s]
      by (auto simp: in_range_def range_has_def strict_eq_def split: option.splits ival.splits)
  qed (use w in \<open>simp_all add: isIDBAcceleratable_def\<close>)
qed

section \<open>Queries find the same documents\<close>

text \<open>The values on which the accelerated range operators agree with the language.\<close>

definition comparable :: "field_filter list \<Rightarrow> entry list \<Rightarrow> bool" where
  "comparable filters es \<longleftrightarrow> list_all (\<lambda>f. ''length'' \<notin> set (split_dots (ff_path f))
     \<and> (ff_operator f = Gt \<or> ff_operator f = Gte \<longrightarrow> list_all (\<lambda>e. \<not> coerced (resolveFieldPath (snd e) (ff_path f))) es)) filters"

lemma range_covers:
  assumes K: "idb_ok K" and acc: "isIDBAcceleratable (ff_operator f) (ff_value f)"
    and r: "strategy_range (ff_operator f) (ff_value f) = Some (r, d)"
    and cmp: "ff_operator f = Gt \<or> ff_operator f = Gte \<Longrightarrow> \<not> coerced (resolveFieldPath obj (ff_path f))"
    and m: "matchesFilter E obj f"
  shows "in_range K r (resolveFieldPath obj (ff_path f))"
proof (cases "ff_operator f")
  case Eq
  then show ?thesis using only_range [OF K, of "ff_value f"] acc r m by (auto simp: strategy_range_def matchesFilter_def)
next
  case Gt
  then obtain c where c: "ff_value f = VNum c" "c \<noteq> NaN"
    using acc by (auto simp: isIDBAcceleratable_def is_finite_def split: ival.splits jsnum.splits)
  then show ?thesis using lower_range(1) [OF K c(2)] Gt cmp r m by (auto simp: strategy_range_def matchesFilter_def)
next
  case Gte
  then obtain c where c: "ff_value f = VNum c" "c \<noteq> NaN"
    using acc by (auto simp: isIDBAcceleratable_def is_finite_def split: ival.splits jsnum.splits)
  then show ?thesis using lower_range(2) [OF K c(2)] Gte cmp r m by (auto simp: strategy_range_def matchesFilter_def)
next
  case Prefix
  then obtain p where p: "ff_value f = VStr p" using acc by (auto simp: isIDBAcceleratable_def split: ival.splits)
  then show ?thesis using prefix_range [OF K] Prefix r m by (auto simp: matchesFilter_def split: ival.splits)
qed (use r in \<open>simp_all add: strategy_range_def\<close>)

lemma dropped_exact:
  assumes K: "idb_ok K" and acc: "isIDBAcceleratable (ff_operator f) (ff_value f)"
    and r: "strategy_range (ff_operator f) (ff_value f) = Some (r, True)"
    and "in_range K r (resolveFieldPath obj (ff_path f))"
  shows "matchesFilter E obj f"
proof -
  have "ff_operator f = Eq" "r = Range_only (ff_value f)"
    using r by (auto simp: strategy_range_def split: operator.splits ival.splits option.splits)
  then show ?thesis using only_range [OF K] assms(2,4) by (simp add: matchesFilter_def)
qed

lemma pick_from_sound:
  assumes "pick_from indexed filters i fs = Some (path, r, remaining)" "filters = pre @ fs" "length pre = i"
  shows "\<exists>f d. f \<in> set filters \<and> ff_path f = path \<and> path \<in> set indexed \<and> isIDBAcceleratable (ff_operator f) (ff_value f)
    \<and> strategy_range (ff_operator f) (ff_value f) = Some (r, d)
    \<and> (if d then set filters = insert f (set remaining) else remaining = filters)"
  using assms
proof (induction fs arbitrary: i pre)
  case (Cons f fs)
  show ?case
  proof (cases "ff_path f \<notin> set indexed \<or> \<not> isIDBAcceleratable (ff_operator f) (ff_value f)
      \<or> strategy_range (ff_operator f) (ff_value f) = None")
    case True
    then have "pick_from indexed filters (Suc i) fs = Some (path, r, remaining)" using Cons.prems(1) by (auto split: if_splits)
    then show ?thesis using Cons.IH [of "Suc i" "pre @ [f]"] Cons.prems(2,3) by simp
  next
    case False
    then obtain r' d where sr: "strategy_range (ff_operator f) (ff_value f) = Some (r', d)" by auto
    then show ?thesis using False Cons.prems by (intro exI [of _ f] exI [of _ d]) (auto split: if_splits)
  qed
qed simp

lemma filters_split:
  assumes "if d then set filters = insert f (set remaining) else remaining = filters" "f \<in> set filters"
  shows "matchesFilters E obj filters \<longleftrightarrow> matchesFilters E obj remaining \<and> (d \<longrightarrow> matchesFilter E obj f)"
    "matchesFilters E obj filters \<Longrightarrow> matchesFilter E obj f"
  using assms by (auto simp: matchesFilters_def list_all_iff split: if_splits)

text \<open>Indexes that the storage believes to exist do exist.\<close>

definition indexes_exist :: "string \<Rightarrow> idb_store \<Rightarrow> idb_state \<Rightarrow> bool" where
  "indexes_exist indexName st s = (case map_get (indexedFields s) indexName of
     None \<Rightarrow> True | Some indexed \<Rightarrow> set indexed \<subseteq> set (indexNames st))"

lemma candidates_exact:
  assumes K: "idb_ok K" and ix: "indexes_exist indexName st s" and cmp: "comparable filters (idb_records st)"
  shows "\<exists>rs. idb_candidates E K indexName filters st s = Ok rs
    \<and> mset rs = mset (filter (\<lambda>(_, obj). matchesFilters E obj filters) (idb_records st))"
proof (cases "pickIDBStrategy indexName filters s")
  case None
  have "mset (store_cursor K (idb_records st)) = mset (idb_records st)" using K by (simp add: idb_ok_def idb_cursors_ok_def)
  then show ?thesis using None by (simp add: idb_candidates_def)
next
  case (Some strategy)
  obtain path r remaining where strategy: "strategy = (path, r, remaining)" by (cases strategy)
  then obtain indexed where indexed: "map_get (indexedFields s) indexName = Some indexed"
    "pick_from indexed filters 0 filters = Some (path, r, remaining)"
    using Some by (auto simp: pickIDBStrategy_def split: if_splits option.splits)
  then obtain f d where f: "f \<in> set filters" "ff_path f = path" "path \<in> set indexed"
    "isIDBAcceleratable (ff_operator f) (ff_value f)" "strategy_range (ff_operator f) (ff_value f) = Some (r, d)"
    "if d then set filters = insert f (set remaining) else remaining = filters"
    using pick_from_sound [of indexed filters 0 filters path r remaining "[]"] by auto
  have exists: "path \<in> set (indexNames st)" using ix indexed f(3) by (auto simp: indexes_exist_def)
  have len: "''length'' \<notin> set (split_dots path)" using cmp f(1,2) by (auto simp: comparable_def list_all_iff)
  have cur: "mset (index_cursor K path r (idb_records st)) = mset (filter (\<lambda>e. in_range K r (resolveFieldPath (snd e) path)) (idb_records st))"
    using K len unfolding idb_ok_def idb_cursors_ok_def by simp
  have same: "(in_range K r (resolveFieldPath (snd e) path) \<and> matchesFilters E (snd e) remaining) \<longleftrightarrow> matchesFilters E (snd e) filters"
    if e: "e \<in> set (idb_records st)" for e
  proof -
    have nc: "ff_operator f = Gt \<or> ff_operator f = Gte \<Longrightarrow> \<not> coerced (resolveFieldPath (snd e) (ff_path f))"
      using cmp f(1) e by (auto simp: comparable_def list_all_iff)
    have "matchesFilters E (snd e) filters \<Longrightarrow> in_range K r (resolveFieldPath (snd e) path)"
      using range_covers [OF K f(4,5) nc, of E] filters_split(2) [OF f(6,1), of E "snd e"] f(2) by simp
    moreover have "d \<Longrightarrow> in_range K r (resolveFieldPath (snd e) path) \<Longrightarrow> matchesFilter E (snd e) f"
      using dropped_exact [OF K f(4)] f(2,5) by simp
    ultimately show ?thesis using filters_split(1) [OF f(6,1), of E "snd e"] by blast
  qed
  have "mset (filter (\<lambda>(_, obj). matchesFilters E obj remaining) (index_cursor K path r (idb_records st)))
      = mset (filter (\<lambda>e. in_range K r (resolveFieldPath (snd e) path) \<and> matchesFilters E (snd e) remaining) (idb_records st))"
    by (simp add: cur case_prod_unfold filter_filter_mset conj_commute)
  also have "\<dots> = mset (filter (\<lambda>(_, obj). matchesFilters E obj filters) (idb_records st))"
    by (rule arg_cong [where f = mset], rule filter_cong) (simp_all add: same case_prod_unfold)
  finally show ?thesis using Some strategy exists by (simp add: idb_candidates_def)
qed

section \<open>Sorting\<close>

lemma mset_sort_insert: "mset (sort_insert cmp x ys) = add_mset x (mset ys)"
  by (induction ys) auto

lemma mset_js_sort: "mset (js_sort cmp xs) = mset xs"
  unfolding js_sort_def by (induction xs) (simp_all add: mset_sort_insert)

lemma mset_sort_entries: "mset (sort_entries E clauses es) = mset es"
  by (simp add: sort_entries_def mset_js_sort)

text \<open>A comparator that puts any two entries in a definite order.\<close>

definition decisive :: "('a \<Rightarrow> 'a \<Rightarrow> jsnum) \<Rightarrow> 'a set \<Rightarrow> bool" where
  "decisive cmp S \<longleftrightarrow> (\<forall>x\<in>S. \<forall>y\<in>S. num_less (cmp x y) 0 \<longrightarrow> \<not> num_less (cmp y x) 0)
     \<and> (\<forall>x\<in>S. \<forall>y\<in>S. x \<noteq> y \<longrightarrow> num_less (cmp x y) 0 \<or> num_less (cmp y x) 0)
     \<and> (\<forall>x\<in>S. \<forall>y\<in>S. \<forall>z\<in>S. num_less (cmp x y) 0 \<longrightarrow> num_less (cmp y z) 0 \<longrightarrow> num_less (cmp x z) 0)"

lemma decisiveD:
  assumes "decisive cmp S" "x \<in> S" "y \<in> S"
  shows "num_less (cmp x y) 0 \<Longrightarrow> \<not> num_less (cmp y x) 0" "x \<noteq> y \<Longrightarrow> num_less (cmp x y) 0 \<or> num_less (cmp y x) 0"
    "z \<in> S \<Longrightarrow> num_less (cmp x y) 0 \<Longrightarrow> num_less (cmp y z) 0 \<Longrightarrow> num_less (cmp x z) 0"
  using assms unfolding decisive_def by blast+

lemma decisive_subset: "decisive cmp S \<Longrightarrow> T \<subseteq> S \<Longrightarrow> decisive cmp T"
  unfolding decisive_def by (meson subsetD)

lemma sort_insert_sorted:
  assumes "decisive cmp S" "insert x (set ys) \<subseteq> S" "x \<notin> set ys" "sorted_wrt (\<lambda>a b. num_less (cmp a b) 0) ys"
  shows "sorted_wrt (\<lambda>a b. num_less (cmp a b) 0) (sort_insert cmp x ys)"
  using assms(2-4)
proof (induction ys)
  case (Cons y ys)
  have set: "set (sort_insert cmp x ys) = insert x (set ys)"
    using mset_sort_insert [of cmp x ys] by (metis set_mset_add_mset_insert set_mset_mset)
  have S: "x \<in> S" "y \<in> S" "set ys \<subseteq> S" "x \<noteq> y" using Cons.prems by auto
  show ?case
  proof (cases "num_less (cmp y x) 0")
    case True
    have "sorted_wrt (\<lambda>a b. num_less (cmp a b) 0) (sort_insert cmp x ys)" using Cons by simp
    then show ?thesis using True set Cons.prems(3) by simp
  next
    case False
    then have xy: "num_less (cmp x y) 0" using decisiveD(2) [OF assms(1) S(1,2)] S(4) by blast
    have "num_less (cmp x z) 0" if z: "z \<in> set ys" for z
    proof -
      have "num_less (cmp y z) 0" using Cons.prems(3) z by simp
      then show ?thesis using decisiveD(3) [OF assms(1) S(1,2) _ xy] z S(3) by blast
    qed
    then show ?thesis using False xy Cons.prems(3) by simp
  qed
qed simp

lemma js_sort_sorted:
  assumes "decisive cmp S" "set xs \<subseteq> S" "distinct xs"
  shows "sorted_wrt (\<lambda>a b. num_less (cmp a b) 0) (js_sort cmp xs)"
  using assms(2,3)
proof (induction xs)
  case (Cons x xs)
  have "set (js_sort cmp xs) = set xs" using mset_js_sort [of cmp xs] by (metis set_mset_mset)
  then have "sorted_wrt (\<lambda>a b. num_less (cmp a b) 0) (sort_insert cmp x (js_sort cmp xs))"
    using Cons by (intro sort_insert_sorted [OF assms(1)]) simp_all
  then show ?case by (simp add: js_sort_def)
qed (simp add: js_sort_def)

lemma sorted_unique:
  assumes "\<And>x y. x \<in> set xs \<Longrightarrow> y \<in> set xs \<Longrightarrow> R x y \<Longrightarrow> \<not> R y x"
  shows "sorted_wrt R xs \<Longrightarrow> sorted_wrt R ys \<Longrightarrow> mset xs = mset ys \<Longrightarrow> xs = ys"
  using assms
proof (induction xs arbitrary: ys)
  case (Cons x xs)
  have "ys \<noteq> []" using Cons.prems(3) by (cases ys) simp_all
  then obtain y zs where ys: "ys = y # zs" by (cases ys) simp_all
  have sets: "set (x # xs) = set (y # zs)" using Cons.prems(3) ys by (metis set_mset_mset)
  have "x = y"
  proof (rule ccontr)
    assume "x \<noteq> y"
    then have "y \<in> set xs" "x \<in> set zs" using sets by auto
    then have "R x y" "R y x" using Cons.prems(1,2) ys by auto
    then show False using Cons.prems(4) [of x y] \<open>y \<in> set xs\<close> by auto
  qed
  moreover have "xs = zs"
  proof (rule Cons.IH)
    show "mset xs = mset zs" using Cons.prems(3) ys \<open>x = y\<close> by simp
  qed (use Cons.prems(1,2,4) ys in simp_all)
  ultimately show ?case using ys by simp
qed simp

lemma decisive_unique:
  assumes "decisive cmp (set xs)" "distinct xs" "mset xs = mset ys"
  shows "js_sort cmp xs = js_sort cmp ys"
proof -
  have ys: "set ys = set xs" "distinct ys" using assms(2,3) by (metis set_mset_mset, metis mset_eq_imp_distinct_iff)
  have s: "sorted_wrt (\<lambda>a b. num_less (cmp a b) 0) (js_sort cmp xs)" "sorted_wrt (\<lambda>a b. num_less (cmp a b) 0) (js_sort cmp ys)"
    using js_sort_sorted [OF assms(1)] assms(2) ys by simp_all
  have set: "set (js_sort cmp xs) = set xs" using mset_js_sort [of cmp xs] by (metis set_mset_mset)
  show ?thesis
  proof (rule sorted_unique [OF _ s])
    fix x y assume "x \<in> set (js_sort cmp xs)" "y \<in> set (js_sort cmp xs)" and R: "num_less (cmp x y) 0"
    then show "\<not> num_less (cmp y x) 0" using decisiveD(1) [OF assms(1) _ _ R] set by simp
  qed (simp add: mset_js_sort assms(3))
qed

section \<open>Initialization against other tabs\<close>

definition schema_le :: "idb_database \<Rightarrow> idb_database \<Rightarrow> bool" where
  "schema_le d d' \<longleftrightarrow> (\<forall>n st. map_get (objectStores d) n = Some st
     \<longrightarrow> (\<exists>st'. map_get (objectStores d') n = Some st' \<and> set (indexNames st) \<subseteq> set (indexNames st')))"

lemma schema_le_refl [simp]: "schema_le d d"
  by (simp add: schema_le_def)

lemma schema_le_trans: "schema_le a b \<Longrightarrow> schema_le b c \<Longrightarrow> schema_le a c"
  unfolding schema_le_def by blast

lemma schema_le_version [simp]: "schema_le d (d'\<lparr>version := v\<rparr>) = schema_le d d'"
  by (simp add: schema_le_def)

text \<open>Other tabs remove nothing, and upgrade the database not at all or at least twice in a row.\<close>

definition tabs_ok :: "(nat \<Rightarrow> idb_database \<Rightarrow> idb_database) \<Rightarrow> bool" where
  "tabs_ok others \<longleftrightarrow> (\<forall>k d. schema_le d (others k d) \<and> (version (others k d) = version d \<or> version d + 2 \<le> version (others k d)))"

lemma set_foldl_set_add: "set (foldl (\<lambda>ns f. set_add f ns) ns fs) = set ns \<union> set fs"
  by (induction fs arbitrary: ns) auto

lemma upgrade_schema_le: "schema_le d (upgrade_schema n missing d)"
  by (auto simp: schema_le_def upgrade_schema_def Let_def map_get_set set_foldl_set_add)

lemma upgrade_schema_store:
  "\<exists>st. map_get (objectStores (upgrade_schema n missing d)) n = Some st \<and> set missing \<subseteq> set (indexNames st)"
  by (simp add: upgrade_schema_def Let_def map_get_set set_foldl_set_add)

definition store_has :: "string \<Rightarrow> string list \<Rightarrow> idb_database \<Rightarrow> bool" where
  "store_has n paths d \<longleftrightarrow> (\<exists>st. map_get (objectStores d) n = Some st \<and> set paths \<subseteq> set (indexNames st))"

lemma store_has_mono: "store_has n paths d \<Longrightarrow> schema_le d d' \<Longrightarrow> store_has n paths d'"
  unfolding store_has_def schema_le_def by blast

lemma probe_covers:
  assumes "probe_schema n paths d = (probed, missing, needs)" "schema_le d d'"
  shows "\<not> needs \<Longrightarrow> store_has n (probed @ paths) d'" "store_has n (probed @ paths) (upgrade_schema n missing d')"
proof -
  have up: "schema_le d (upgrade_schema n missing d')" using schema_le_trans [OF assms(2) upgrade_schema_le] .
  obtain st where st: "map_get (objectStores (upgrade_schema n missing d')) n = Some st" "set missing \<subseteq> set (indexNames st)"
    using upgrade_schema_store by blast
  show "\<not> needs \<Longrightarrow> store_has n (probed @ paths) d'"
    using assms by (auto simp: probe_schema_def store_has_def schema_le_def Let_def filter_empty_conv split: option.splits) blast
  show "store_has n (probed @ paths) (upgrade_schema n missing d')"
  proof (cases "map_get (objectStores d) n")
    case None
    then show ?thesis using assms(1) st by (auto simp: probe_schema_def store_has_def)
  next
    case (Some old)
    then have "set (indexNames old) \<subseteq> set (indexNames st)" using up st(1) unfolding schema_le_def by (metis option.inject)
    moreover have "set paths \<subseteq> set missing \<union> set (indexNames old)" "probed = indexNames old"
      using assms(1) Some by (auto simp: probe_schema_def Let_def filter_empty_conv)
    ultimately have "set (probed @ paths) \<subseteq> set (indexNames st)" using st(2) by auto
    then show ?thesis using st(1) unfolding store_has_def by blast
  qed
qed

lemma open_loop_sound:
  assumes "tabs_ok others" "open_loop others n paths a d = (res, d'')"
  shows "schema_le d d'' \<and> (case res of Inl _ \<Rightarrow> True | Inr probed \<Rightarrow> store_has n (probed @ paths) d'')"
  using assms
proof (induction others n paths a d rule: open_loop.induct)
  case (1 others n paths a d)
  obtain probed missing needs where p: "probe_schema n paths d = (probed, missing, needs)" by (cases "probe_schema n paths d")
  define d' where "d' = others a d"
  have le: "schema_le d d'" and ver: "version d' = version d \<or> version d + 2 \<le> version d'"
    using "1.prems"(1) unfolding tabs_ok_def d'_def by blast+
  note run = "1.prems"(2) [unfolded open_loop.simps [of others n paths a d] p Let_def prod.case, folded d'_def]
  show ?case
  proof (cases "openDB (if needs then version d + 1 else version d) (upgrade_schema n missing) d'")
    case (Inr e)
    then have "d'' = e" "res = Ok probed" using run by simp_all
    moreover have "schema_le d e \<and> store_has n (probed @ paths) e"
    proof (cases needs)
      case True
      then have "e = (upgrade_schema n missing d')\<lparr>version := version d + 1\<rparr>" using Inr ver by (auto simp: openDB_def split: if_splits)
      then show ?thesis using probe_covers(2) [OF p le] schema_le_trans [OF le upgrade_schema_le]
        by (simp add: store_has_def)
    next
      case False
      then have "e = d'" using Inr ver by (auto simp: openDB_def split: if_splits)
      then show ?thesis using probe_covers(1) [OF p le False] le by simp
    qed
    ultimately show ?thesis by simp
  next
    case (Inl e)
    show ?thesis
    proof (cases "e = VersionError \<and> a < MAX_OPEN_ATTEMPTS - 1")
      case True
      then have "open_loop others n paths (a + 1) d' = (res, d'')" using run Inl by simp
      then show ?thesis using "1.IH" [OF p [symmetric] refl refl _ _ True] "1.prems"(1) Inl le schema_le_trans
        unfolding d'_def by simp
    next
      case False
      then show ?thesis using run Inl le by auto
    qed
  qed
qed

section \<open>Runs of the storage\<close>

datatype idb_event =
    Init "nat \<Rightarrow> idb_database \<Rightarrow> idb_database" string "string list"
  | Put string string fields
  | Delete string string
  | Clear string
  | Close

text \<open>An operation that throws leaves the state as it is; \<^verbatim>\<open>initialize\<close> leaves the connection closed.\<close>

definition idb_step :: "idb_state \<Rightarrow> idb_event \<Rightarrow> idb_state" where
  "idb_step s e = (case e of
     Init others n paths \<Rightarrow> snd (idb_initialize others n paths s)
   | Put n p obj \<Rightarrow> (case idb_put n p obj s of Inl _ \<Rightarrow> s | Inr t \<Rightarrow> t)
   | Delete n p \<Rightarrow> (case idb_delete n p s of Inl _ \<Rightarrow> s | Inr t \<Rightarrow> t)
   | Clear n \<Rightarrow> (case idb_clear n s of Inl _ \<Rightarrow> s | Inr t \<Rightarrow> t)
   | Close \<Rightarrow> idb_close s)"

definition event_ok :: "idb_event \<Rightarrow> bool" where
  "event_ok e = (case e of Init others _ _ \<Rightarrow> tabs_ok others | _ \<Rightarrow> True)"

definition idb_inv :: "idb_state \<Rightarrow> bool" where
  "idb_inv s \<longleftrightarrow> (\<forall>n indexed. map_get (indexedFields s) n = Some indexed \<longrightarrow> store_has n indexed (database s))"

lemma change_store_get:
  "map_get (map (\<lambda>(n, st). (n, if n = i then f st else st)) m) n = map_option (\<lambda>st. if n = i then f st else st) (map_get m n)"
  by (induction m) (auto simp: map_get_def)

lemma idb_change_schema: "schema_le (database s) (database (idb_change n f s))" "indexedFields (idb_change n f s) = indexedFields s"
  by (simp_all add: schema_le_def idb_change_def change_store_get)

lemma idb_change_inv: "idb_inv s \<Longrightarrow> idb_inv (idb_change n f s)"
  using store_has_mono [OF _ idb_change_schema(1)] by (simp add: idb_inv_def idb_change_schema(2))

lemma idb_inv_close: "idb_inv s \<Longrightarrow> idb_inv (idb_close s)"
  by (simp add: idb_inv_def idb_close_def)

lemma idb_initialize_inv:
  assumes "tabs_ok others" "idb_inv s"
  shows "idb_inv (snd (idb_initialize others n paths s))"
proof -
  obtain res d where run: "open_loop others n paths 0 (database s) = (res, d)" by (cases "open_loop others n paths 0 (database s)")
  note loop = open_loop_sound [OF assms(1) run]
  have old: "store_has m indexed d" if "map_get (indexedFields s) m = Some indexed" for m indexed
    using assms(2) that loop store_has_mono unfolding idb_inv_def by blast
  have "store_has n (foldl (\<lambda>ns f. set_add f ns) probed paths) d" if "res = Ok probed" for probed
    using loop that by (simp add: store_has_def set_foldl_set_add)
  then show ?thesis using run old assms(2)
    by (auto simp: idb_initialize_def idb_inv_def map_get_set split: sum.splits)
qed

lemma idb_step_inv: "event_ok e \<Longrightarrow> idb_inv s \<Longrightarrow> idb_inv (idb_step s e)"
  by (auto simp: idb_step_def event_ok_def idb_initialize_inv idb_inv_close idb_put_def idb_delete_def idb_clear_def try_bind_Ok_iff
      idb_change_inv split: idb_event.splits sum.splits if_splits)

lemma idb_run_inv: "list_all event_ok es \<Longrightarrow> idb_inv s \<Longrightarrow> idb_inv (foldl idb_step s es)"
  by (induction es arbitrary: s) (simp_all add: idb_step_inv)

lemma idb_new_inv: "idb_inv (idb_new d)"
  by (simp add: idb_inv_def idb_new_def map_get_def)

lemma idb_inv_store:
  "idb_inv s \<Longrightarrow> map_get (indexedFields s) n = Some indexed \<Longrightarrow> map_get (objectStores (database s)) n = Some st
    \<Longrightarrow> x \<in> set indexed \<Longrightarrow> x \<in> set (indexNames st)"
  unfolding idb_inv_def store_has_def by (metis option.inject subsetD)

lemma inv_indexes_exist:
  "idb_inv s \<Longrightarrow> map_get (objectStores (database s)) n = Some st \<Longrightarrow> indexes_exist n st s"
  by (cases "map_get (indexedFields s) n") (auto simp: indexes_exist_def dest: idb_inv_store)

section \<open>Properties\<close>


text \<open>
  The range operators miss booleans: \<^verbatim>\<open>true > 0\<close> holds in the scan, but a boolean is no key, so the cursor never visits the entry.
\<close>

lemma idb_misses_booleans:
  assumes "idb_ok K"
  defines "st \<equiv> \<lparr>idb_records = [(''/a'', [(''done'', VBool True)])], indexNames = [''done'']\<rparr>"
  defines "s \<equiv> \<lparr>db_open = True, database = \<lparr>version = 2, objectStores = [(''todo'', st)]\<rparr>, initializedStores = [''todo''],
    indexedFields = [(''todo'', [''done''])]\<rparr>"
  defines "f \<equiv> \<lparr>ff_path = ''done'', ff_operator = Gt, ff_value = VNum (Fin 0)\<rparr>"
  shows "idb_query E K ''todo'' [f] [] None None s = Ok []"
    "mem_query E ''todo'' [f] [] None None [(''todo'', idb_records st)] = Ok (idb_records st)"
proof -
  have key: "idb_key K (VBool True) = None" using assms(1) by (simp add: idb_ok_def idb_keys_ok_def)
  have path: "resolveFieldPath [(''done'', VBool True)] ''done'' = VBool True"
    by (simp add: resolveFieldPath_def is_object_def property_def)
  have "mset (index_cursor K ''done'' r (idb_records st)) = mset (filter (\<lambda>e. in_range K r (resolveFieldPath (snd e) ''done'')) (idb_records st))" for r
    using assms(1) by (simp add: idb_ok_def idb_cursors_ok_def)
  then have "index_cursor K ''done'' r (idb_records st) = []" for r
    by (simp add: st_def path in_range_def key)
  then show "idb_query E K ''todo'' [f] [] None None s = Ok []"
    by (simp add: idb_query_def getDB_def s_def check_page_def map_get_def idb_candidates_def pickIDBStrategy_def f_def
        isIDBAcceleratable_def is_finite_def strategy_range_def paginate_def sort_entries_def st_def [symmetric])
      (simp add: st_def)
  show "mem_query E ''todo'' [f] [] None None [(''todo'', idb_records st)] = Ok (idb_records st)"
    by (simp add: mem_query_def map_get_def check_page_def paginate_def sort_entries_def matchesFilters_def matchesFilter_def f_def st_def
        path range_match_def normalizeForComparison_def nullish_def js_lt_def to_primitive_def to_number_def num_lt_def)
qed

text \<open>
  One upgrade of another tab between the two opens is not noticed: the version asked for is then the current one, so the database
  opens without an error and without the upgrade; \<^verbatim>\<open>initialize\<close> succeeds, and the store does not exist.
\<close>

lemma idb_initialize_race:
  defines "other \<equiv> \<lambda>(_ :: nat) d. (upgrade_schema ''other'' [] d)\<lparr>version := version d + 1\<rparr>"
  shows "fst (idb_initialize other ''todo'' [''rank''] (idb_new \<lparr>version = 1, objectStores = []\<rparr>)) = Ok ()"
    "idb_put ''todo'' ''/a'' obj (snd (idb_initialize other ''todo'' [''rank''] (idb_new \<lparr>version = 1, objectStores = []\<rparr>)))
       = Err (Store_not_found ''todo'')"
  by (simp_all add: other_def idb_initialize_def idb_new_def open_loop.simps probe_schema_def openDB_def upgrade_schema_def map_get_def
      map_set_def idb_put_def getDB_def map_has_def)

section \<open>Witness\<close>

definition sample_keys :: "ival idb" where
  "sample_keys = \<lparr>
     idb_key = (\<lambda>v. case v of VNum x \<Rightarrow> if x = NaN then None else Some v | VStr _ \<Rightarrow> Some v
       | VDate t \<Rightarrow> if t = NaN then None else Some v | _ \<Rightarrow> None),
     key_less = (\<lambda>k l. case (k, l) of (VNum x, VNum y) \<Rightarrow> num_lt x y | (VNum _, _) \<Rightarrow> True
       | (VDate x, VDate y) \<Rightarrow> num_lt x y | (VDate _, VStr _) \<Rightarrow> True | (VStr s, VStr t) \<Rightarrow> units_less s t | _ \<Rightarrow> False),
     key_path = resolveFieldPath, store_cursor = (\<lambda>es. es), index_cursor = (\<lambda>_ _ es. es)\<rparr>"

definition sample_idb :: "ival idb" where
  "sample_idb = sample_keys\<lparr>index_cursor := \<lambda>path r es. filter (\<lambda>e. in_range sample_keys r (resolveFieldPath (snd e) path)) es\<rparr>"

lemma in_range_cong:
  assumes "idb_key A = idb_key B" "key_less A = key_less B"
  shows "in_range A r v = in_range B r v"
  unfolding in_range_def range_has_def assms by (rule refl)

lemma sample_in_range: "in_range sample_idb r v = in_range sample_keys r v"
  by (rule in_range_cong) (simp_all add: sample_idb_def)

lemma sample_idb_ok: "idb_ok sample_idb"
proof -
  have "idb_keys_ok sample_idb"
    by (auto simp: idb_keys_ok_def sample_idb_def sample_keys_def split: ival.splits if_splits)
  moreover have "idb_order_ok sample_idb"
    by (auto simp: idb_order_ok_def sample_idb_def sample_keys_def split: if_splits)
  moreover have "idb_cursors_ok sample_idb"
    unfolding idb_cursors_ok_def sample_in_range by (simp add: sample_idb_def sample_keys_def)
  ultimately show ?thesis by (simp add: idb_ok_def)
qed

definition sample_index_env :: index_env where
  "sample_index_env = \<lparr>Date_parse = (\<lambda>_. NaN), StringToNumber = (\<lambda>_. NaN), ToString = (\<lambda>_. []), localeCompare = (\<lambda>_ _. 0)\<rparr>"

definition sample_records :: "(string, fields) jsmap" where
  "sample_records = [(''/a'', [(''rank'', VNum (Fin 3))]), (''/b'', [(''rank'', VNum (Fin 1))]), (''/c'', [(''rank'', VNum (Fin 2))])]"

definition sample_events :: "idb_event list" where
  "sample_events = Init (\<lambda>_ d. d) ''todo'' [''rank''] # map (\<lambda>(p, obj). Put ''todo'' p obj) sample_records"

definition sample_state :: idb_state where
  "sample_state = \<lparr>db_open = True, database = \<lparr>version = 2, objectStores = [(''todo'', \<lparr>idb_records = sample_records, indexNames = [''rank'']\<rparr>)]\<rparr>,
     initializedStores = [''todo''], indexedFields = [(''todo'', [''rank''])]\<rparr>"

lemma sample_run: "sample_state = foldl idb_step (idb_new \<lparr>version = 1, objectStores = []\<rparr>) sample_events"
  by (simp add: sample_state_def sample_events_def sample_records_def idb_step_def idb_initialize_def idb_new_def open_loop.simps
      probe_schema_def openDB_def upgrade_schema_def map_get_def map_set_def idb_put_def getDB_def map_has_def idb_change_def set_add_def)

definition at_least_two :: field_filter where
  "at_least_two = \<lparr>ff_path = ''rank'', ff_operator = Gte, ff_value = VNum (Fin 2)\<rparr>"

definition by_rank :: sort_clause where
  "by_rank = \<lparr>sc_path = ''rank'', sc_direction = Asc\<rparr>"

lemma sample_rank: "resolveFieldPath [(''rank'', v)] ''rank'' = v"
  by (simp add: resolveFieldPath_def is_object_def property_def)

lemma sample_comparable: "comparable [at_least_two] sample_records"
  by (simp add: comparable_def at_least_two_def sample_records_def sample_rank coerced_def)

lemma sample_compare:
  "compareEntries sample_index_env [(''rank'', VNum (Fin x))] [(''rank'', VNum (Fin y))] [by_rank] = Fin (x - y)"
  by (auto simp: by_rank_def sample_rank compareValues_def normalizeForComparison_def strict_eq_def num_minus_def nullish_def Let_def)

lemma sample_decisive: "decisive (\<lambda>a b. compareEntries sample_index_env (snd a) (snd b) [by_rank]) (set sample_records)"
  by (simp add: decisive_def sample_records_def sample_compare num_less_def del: compareEntries.simps)


end
