(* ===== verification/IndexCorrect.thy ===== *)
theory IndexCorrect
  imports IndexManager IdbCorrect
begin

text \<open>
  The index is a materialized view: over any storage with the laws of the interface \<open>index_storage\<close>, what the manager stores for
  an index is the projection of the latest snapshot of every document of its collection.
\<close>

section \<open>The interface\<close>

locale index_storage =
  fixes S :: "'s storage_ops"
    and view :: "'s \<Rightarrow> string \<Rightarrow> string \<Rightarrow> fields option"
    and ok :: "'s \<Rightarrow> bool"
    and ready :: "'s \<Rightarrow> string \<Rightarrow> bool"
  assumes get: "ok s \<Longrightarrow> op_get S n p s = (Ok (view s n p), s)"
    and put: "ok s \<Longrightarrow> ready s n \<Longrightarrow> \<exists>t. op_put S n p obj s = (Ok (), t) \<and> ok t \<and> ready t = ready s
      \<and> view t = (\<lambda>m q. if m = n \<and> q = p then Some obj else view s m q)"
    and delete: "ok s \<Longrightarrow> ready s n \<Longrightarrow> \<exists>t. op_delete S n p s = (Ok (), t) \<and> ok t \<and> ready t = ready s
      \<and> view t = (\<lambda>m q. if m = n \<and> q = p then None else view s m q)"
    and clear: "ok s \<Longrightarrow> \<exists>t. op_clear S n s = (Ok (), t) \<and> ok t \<and> ready t = ready s
      \<and> view t = (\<lambda>m q. if m = n then None else view s m q)"
    and initialize: "ok s \<Longrightarrow> \<exists>t. op_initialize S n fs s = (Ok (), t) \<and> ok t \<and> view t = view s \<and> ready t n
      \<and> (\<forall>m. ready s m \<longrightarrow> ready t m)"
    and query_pure: "snd (op_query S n filters clauses limit offset s) = s"

definition same_fields :: "fields \<Rightarrow> fields \<Rightarrow> bool" where
  "same_fields e e' \<longleftrightarrow> e = e' \<or> fieldsEqual (VObj e) (VObj e')"

text \<open>Entries are compared up to a relation: that of the manager, or equality.\<close>

definition same_entry :: "(fields \<Rightarrow> fields \<Rightarrow> bool) \<Rightarrow> fields option \<Rightarrow> fields option \<Rightarrow> bool" where
  "same_entry R a b = (case (a, b) of (None, None) \<Rightarrow> True | (Some e, Some e') \<Rightarrow> R e e' | _ \<Rightarrow> False)"

lemma same_entry_simps [simp]: "same_entry R None None" "same_entry R (Some e) (Some e') = R e e'"
  by (simp_all add: same_entry_def)

lemma same_entry_refl: "(\<And>e. R e e) \<Longrightarrow> same_entry R a a"
  by (cases a) (simp_all add: same_entry_def)

section \<open>Specification\<close>

type_synonym index_view = "(string, index_def) jsmap \<times> (string \<Rightarrow> string \<Rightarrow> fields option)"

datatype index_event =
    Define index_def
  | Remove_index string
  | Update string ival
  | Remove_document string
  | Rebuild string "(string, ival) jsmap"
  | Subscribe query_options
  | Unsubscribe nat

definition mg_step :: "'s storage_ops \<Rightarrow> 's manager \<Rightarrow> index_event \<Rightarrow> 's manager" where
  "mg_step S mg e = (case e of
     Define def \<Rightarrow> snd (defineIndex S def mg)
   | Remove_index n \<Rightarrow> snd (removeIndex S n mg)
   | Update p snapshot \<Rightarrow> snd (updateIndex S p snapshot mg)
   | Remove_document p \<Rightarrow> snd (removeFromIndex S p mg)
   | Rebuild n docs \<Rightarrow> snd (rebuildIndex S n docs mg)
   | Subscribe options \<Rightarrow> snd (mg_subscribe S options mg)
   | Unsubscribe i \<Rightarrow> snd (mg_unsubscribe i mg))"

definition rebuilt :: "index_def \<Rightarrow> (string, ival) jsmap \<Rightarrow> string \<Rightarrow> fields option" where
  "rebuilt def docs p = (if in_collection def p then map_option (project def) (map_get docs p) else None)"

definition view_step :: "index_view \<Rightarrow> index_event \<Rightarrow> index_view" where
  "view_step a e = (case a of (defs, ent) \<Rightarrow> (case e of
     Define def \<Rightarrow> (if map_has defs (id_name def) then defs else map_set (id_name def) def defs, ent)
   | Remove_index n \<Rightarrow> (map_delete n defs, ent(n := \<lambda>_. None))
   | Update p snapshot \<Rightarrow> (defs, \<lambda>n q. case map_get defs n of
       Some def \<Rightarrow> if q = p \<and> in_collection def p then Some (project def snapshot) else ent n q | None \<Rightarrow> ent n q)
   | Remove_document p \<Rightarrow> (defs, \<lambda>n q. if q = p \<and> map_has defs n then None else ent n q)
   | Rebuild n docs \<Rightarrow> (defs, case map_get defs n of Some def \<Rightarrow> ent(n := rebuilt def docs) | None \<Rightarrow> ent)
   | _ \<Rightarrow> a))"

definition event_plain :: "index_event \<Rightarrow> bool" where
  "event_plain e = (case e of Rebuild _ docs \<Rightarrow> map_ok docs | _ \<Rightarrow> True)"

text \<open>What the storage shows for each index, up to the comparison of the manager, is the specified view.\<close>

definition materialized :: "(fields \<Rightarrow> fields \<Rightarrow> bool) \<Rightarrow> ('s \<Rightarrow> string \<Rightarrow> string \<Rightarrow> fields option) \<Rightarrow> ('s \<Rightarrow> bool) \<Rightarrow> ('s \<Rightarrow> string \<Rightarrow> bool) \<Rightarrow> 's manager \<Rightarrow> index_view \<Rightarrow> bool" where
  "materialized R view ok ready mg a \<longleftrightarrow> definitions mg = fst a \<and> map_ok (fst a) \<and> ok (mg_storage mg)
     \<and> (\<forall>n. map_has (fst a) n \<longrightarrow> ready (mg_storage mg) n)
     \<and> (\<forall>n p. same_entry R (view (mg_storage mg) n p) (snd a n p))"

definition entries_updated :: "(fields \<Rightarrow> fields \<Rightarrow> bool) \<Rightarrow> (string, index_def) jsmap \<Rightarrow> string \<Rightarrow> ival \<Rightarrow> (string \<Rightarrow> string \<Rightarrow> fields option)
    \<Rightarrow> (string \<Rightarrow> string \<Rightarrow> fields option) \<Rightarrow> bool" where
  "entries_updated R defs p snapshot old new \<longleftrightarrow> (\<forall>n q. case map_get defs n of
     Some def \<Rightarrow> if q = p \<and> in_collection def p then same_entry R (new n q) (Some (project def snapshot)) else new n q = old n q
   | None \<Rightarrow> new n q = old n q)"

lemma entries_updatedD:
  "entries_updated R defs p snapshot old new \<Longrightarrow> (case map_get defs n of
     Some def \<Rightarrow> if q = p \<and> in_collection def p then same_entry R (new n q) (Some (project def snapshot)) else new n q = old n q
   | None \<Rightarrow> new n q = old n q)"
  by (simp add: entries_updated_def)

text \<open>A write is skipped only for an entry that the relation identifies with the new one.\<close>

definition skips_ok :: "(fields \<Rightarrow> fields \<Rightarrow> bool) \<Rightarrow> (string, index_def) jsmap \<Rightarrow> string \<Rightarrow> ival \<Rightarrow> (string \<Rightarrow> string \<Rightarrow> fields option) \<Rightarrow> bool" where
  "skips_ok R defs p snapshot old \<longleftrightarrow> (\<forall>n def e. map_get defs n = Some def \<longrightarrow> in_collection def p \<longrightarrow> old n p = Some e
     \<longrightarrow> fieldsEqual (VObj e) (VObj (project def snapshot)) \<longrightarrow> R e (project def snapshot))"

lemma skips_okD:
  "skips_ok R defs p snapshot old \<Longrightarrow> map_get defs n = Some def \<Longrightarrow> in_collection def p \<Longrightarrow> old n p = Some e
    \<Longrightarrow> fieldsEqual (VObj e) (VObj (project def snapshot)) \<Longrightarrow> R e (project def snapshot)"
  by (simp add: skips_ok_def)

lemma skips_ok_same_fields: "skips_ok same_fields defs p snapshot old"
  by (simp add: skips_ok_def same_fields_def)

lemma skips_ok_tail:
  assumes "skips_ok R ((n, def) # defs) p snapshot old" "map_get defs n = None" "\<And>m. m \<noteq> n \<Longrightarrow> new m p = old m p"
  shows "skips_ok R defs p snapshot new"
  unfolding skips_ok_def
proof (intro allI impI)
  fix m d e
  assume m: "map_get defs m = Some d" "in_collection d p" "new m p = Some e" "fieldsEqual (VObj e) (VObj (project d snapshot))"
  then have "m \<noteq> n" using assms(2) by auto
  then have "map_get ((n, def) # defs) m = Some d" "old m p = Some e" using m(1,3) assms(3) by (simp_all add: map_get_def)
  then show "R e (project d snapshot)" using assms(1) m(2,4) unfolding skips_ok_def by blast
qed

lemma entries_updated_other:
  assumes "map_get defs n = None" "\<not> in_collection def p" "entries_updated R defs p snapshot old new"
  shows "entries_updated R ((n, def) # defs) p snapshot old new"
  unfolding entries_updated_def
proof (intro allI)
  fix m q
  show "case map_get ((n, def) # defs) m of
     Some def \<Rightarrow> if q = p \<and> in_collection def p then same_entry R (new m q) (Some (project def snapshot)) else new m q = old m q
   | None \<Rightarrow> new m q = old m q"
    using entries_updatedD [OF assms(3), of m q] assms(1,2) by (cases "m = n") (simp_all add: map_get_def)
qed

lemma entries_updated_this:
  assumes "map_get defs n = None" "in_collection def p" "same_entry R (mid n p) (Some (project def snapshot))"
    and "\<And>m q. \<not> (m = n \<and> q = p) \<Longrightarrow> mid m q = old m q" "entries_updated R defs p snapshot mid new"
  shows "entries_updated R ((n, def) # defs) p snapshot old new"
  unfolding entries_updated_def
proof (intro allI)
  fix m q
  show "case map_get ((n, def) # defs) m of
     Some def \<Rightarrow> if q = p \<and> in_collection def p then same_entry R (new m q) (Some (project def snapshot)) else new m q = old m q
   | None \<Rightarrow> new m q = old m q"
    using entries_updatedD [OF assms(5), of m q] assms(1-3) assms(4) [of m q]
    by (cases "m = n") (auto simp: map_get_def split: option.splits)
qed

section \<open>The manager implements it\<close>

context index_storage
begin

lemma query_storage: "mg_storage (snd (mg_query S options mg)) = mg_storage mg \<and> definitions (snd (mg_query S options mg)) = definitions mg"
proof -
  have q: "in_storage (op_query S n f c l k) mg = (fst (op_query S n f c l k (mg_storage mg)), mg)" for n f c l k mg
    using query_pure [of n f c l k "mg_storage mg"] by (cases "op_query S n f c l k (mg_storage mg)") (simp add: in_storage_def)
  show ?thesis by (simp add: mg_query_def Let_def eff_bind_def q split: sum.split prod.split)
qed

lemma deliver_storage: "mg_storage (snd (deliver S i options mg)) = mg_storage mg \<and> definitions (snd (deliver S i options mg)) = definitions mg"
  using query_storage [of options mg] by (auto simp: deliver_def eff_catch_def eff_bind_def split: prod.splits sum.splits)

lemma deliver_iter_storage:
  "mg_storage (snd (eff_iter (\<lambda>(i, options). deliver S i options) subs mg)) = mg_storage mg
    \<and> definitions (snd (eff_iter (\<lambda>(i, options). deliver S i options) subs mg)) = definitions mg"
proof (induction subs arbitrary: mg)
  case (Cons sub subs)
  obtain i options where sub: "sub = (i, options)" by (cases sub)
  show ?case using deliver_storage [of i options mg] Cons.IH
    by (auto simp: sub eff_bind_def split: prod.splits sum.splits)
qed simp

lemma notify_storage:
  "mg_storage (snd (notifySubscribers S mg)) = mg_storage mg" "definitions (snd (notifySubscribers S mg)) = definitions mg"
  using deliver_iter_storage by (simp_all add: notifySubscribers_def)

lemma put_run:
  assumes "ok s" "ready s n"
  obtains t where "op_put S n p obj s = (Ok (), t)" "ok t" "ready t = ready s" "view t = (\<lambda>m q. if m = n \<and> q = p then Some obj else view s m q)"
  using put [OF assms] by blast

lemma update_entries_run:
  assumes "ok s" "map_ok defs" "\<And>n. map_has defs n \<Longrightarrow> ready s n" "skips_ok R defs p snapshot (view s)" "\<And>e. R e e"
  shows "\<exists>ch' t. update_entries S p snapshot defs ch s = (Ok ch', t) \<and> ok t \<and> ready t = ready s
    \<and> entries_updated R defs p snapshot (view s) (view t)"
  using assms
proof (induction defs arbitrary: s ch)
  case Nil
  then show ?case by (simp add: entries_updated_def map_get_def)
next
  case (Cons d defs)
  obtain n def where d: "d = (n, def)" by (cases d)
  have defs: "map_ok defs" "map_get defs n = None"
    using Cons.prems(2) by (auto simp: d map_ok_def map_get_def map_of_eq_None_iff)
  have rest: "\<exists>ch' t. update_entries S p snapshot defs c u = (Ok ch', t) \<and> ok t \<and> ready t = ready u
      \<and> entries_updated R defs p snapshot (view u) (view t)"
    if "ok u" "ready u = ready s" "\<And>m. m \<noteq> n \<Longrightarrow> view u m p = view s m p" for u c
    using Cons.IH [OF that(1) defs(1) _ skips_ok_tail [OF Cons.prems(4) [unfolded d] defs(2), of "view u", OF that(3)] assms(5)] Cons.prems(3) that(2)
    by (simp add: d map_has_def)
  show ?case
  proof (cases "in_collection def p")
    case False
    then show ?thesis using rest [OF Cons.prems(1) refl refl, of ch] entries_updated_other [OF defs(2) False] by (auto simp: d)
  next
    case True
    show ?thesis
    proof (cases "\<exists>e. view s n p = Some e \<and> fieldsEqual (VObj e) (VObj (project def snapshot))")
      case skip: True
      then have "update_entries S p snapshot (d # defs) ch s = update_entries S p snapshot defs ch s"
        using True get [OF Cons.prems(1)] by (auto simp: d)
      moreover have "same_entry R (view s n p) (Some (project def snapshot))"
        using skip skips_okD [OF Cons.prems(4) _ True, of n] by (auto simp: d map_get_def)
      ultimately show ?thesis using rest [OF Cons.prems(1) refl refl, of ch] entries_updated_this [OF defs(2) True, of R "view s"]
        by (auto simp: d)
    next
      case fresh: False
      have r: "ready s n" using Cons.prems(3) by (simp add: d map_has_def)
      obtain u where u: "op_put S n p (project def snapshot) s = (Ok (), u)" "ok u" "ready u = ready s"
        "view u = (\<lambda>m q. if m = n \<and> q = p then Some (project def snapshot) else view s m q)"
        using put_run [OF Cons.prems(1) r] by blast
      then have run: "update_entries S p snapshot (d # defs) ch s = update_entries S p snapshot defs True u"
        using True fresh get [OF Cons.prems(1)] by (auto simp: d Let_def)
      obtain ch' t where t: "update_entries S p snapshot defs True u = (Ok ch', t)" "ok t" "ready t = ready s"
        "entries_updated R defs p snapshot (view u) (view t)"
        using rest [OF u(2,3), of True] u(3,4) by auto
      have "entries_updated R (d # defs) p snapshot (view s) (view t)"
        unfolding d by (rule entries_updated_this [OF defs(2) True _ _ t(4)]) (auto simp: u(4) same_entry_def assms(5))
      then show ?thesis using run t(1-3) by auto
    qed
  qed
qed

lemma materialized_update:
  assumes "materialized R view ok ready mg a" "skips_ok R (fst a) p snapshot (view (mg_storage mg))" "\<And>e. R e e"
  shows "materialized R view ok ready (snd (updateIndex S p snapshot mg)) (view_step a (Update p snapshot))"
proof -
  obtain defs ent where a: "a = (defs, ent)" by (cases a)
  have m: "definitions mg = defs" "map_ok defs" "ok (mg_storage mg)" "\<And>n. map_has defs n \<Longrightarrow> ready (mg_storage mg) n"
    "\<And>n q. same_entry R (view (mg_storage mg) n q) (ent n q)"
    using assms(1) by (simp_all add: materialized_def a)
  obtain ch t where t: "update_entries S p snapshot defs False (mg_storage mg) = (Ok ch, t)" "ok t" "ready t = ready (mg_storage mg)"
    "entries_updated R defs p snapshot (view (mg_storage mg)) (view t)"
    using update_entries_run [OF m(3,2,4) assms(2) [unfolded a fst_conv] assms(3), of False] by blast
  have "updateIndex S p snapshot mg = eff_when ch (notifySubscribers S) (mg\<lparr>mg_storage := t\<rparr>)"
    using t(1) m(1) by (simp add: updateIndex_def in_storage_def)
  then have run: "mg_storage (snd (updateIndex S p snapshot mg)) = t" "definitions (snd (updateIndex S p snapshot mg)) = defs"
    using notify_storage [of "mg\<lparr>mg_storage := t\<rparr>"] m(1) by (cases ch; simp add: eff_when_def)+
  have "same_entry R (view t n q) (snd (view_step a (Update p snapshot)) n q)" for n q
    using entries_updatedD [OF t(4), of n q] m(5) [of n q] by (cases "map_get defs n") (auto simp: view_step_def a split: if_splits)
  then show ?thesis using run t(2,3) m(2,4) by (simp add: materialized_def view_step_def a)
qed

lemma delete_iter_run:
  assumes "ok s" "\<And>n. n \<in> set (map fst ds) \<Longrightarrow> ready s n"
  shows "\<exists>t. eff_iter (\<lambda>(n, _). op_delete S n p) ds s = (Ok (), t) \<and> ok t \<and> ready t = ready s
    \<and> view t = (\<lambda>m q. if q = p \<and> m \<in> set (map fst ds) then None else view s m q)"
  using assms
proof (induction ds arbitrary: s)
  case (Cons d ds)
  obtain n x where d: "d = (n, x)" by (cases d)
  obtain u where u: "op_delete S n p s = (Ok (), u)" "ok u" "ready u = ready s" "view u = (\<lambda>m q. if m = n \<and> q = p then None else view s m q)"
    using delete [OF Cons.prems(1), of n p] Cons.prems(2) [of n] d by auto
  then obtain t where "eff_iter (\<lambda>(n, _). op_delete S n p) ds u = (Ok (), t)" "ok t" "ready t = ready u"
    "view t = (\<lambda>m q. if q = p \<and> m \<in> set (map fst ds) then None else view u m q)"
    using Cons.IH [OF u(2)] Cons.prems(2) by auto
  then show ?case using u by (auto simp: d fun_eq_iff)
qed (auto simp: fun_eq_iff)

lemma materialized_remove_document:
  assumes "materialized R view ok ready mg a" "\<And>e. R e e"
  shows "materialized R view ok ready (snd (removeFromIndex S p mg)) (view_step a (Remove_document p))"
proof -
  obtain defs ent where a: "a = (defs, ent)" by (cases a)
  have m: "definitions mg = defs" "map_ok defs" "ok (mg_storage mg)" "\<And>n. n \<in> set (map fst defs) \<Longrightarrow> ready (mg_storage mg) n"
    "\<And>n q. same_entry R (view (mg_storage mg) n q) (ent n q)"
    using assms by (simp_all add: materialized_def a map_has_def)
  obtain t where t: "eff_iter (\<lambda>(n, _). op_delete S n p) defs (mg_storage mg) = (Ok (), t)" "ok t" "ready t = ready (mg_storage mg)"
    "view t = (\<lambda>m q. if q = p \<and> m \<in> set (map fst defs) then None else view (mg_storage mg) m q)"
    using delete_iter_run [OF m(3,4)] by blast
  have "removeFromIndex S p mg = notifySubscribers S (mg\<lparr>mg_storage := t\<rparr>)"
    using t(1) m(1) by (simp add: removeFromIndex_def in_storage_def)
  then show ?thesis using notify_storage [of "mg\<lparr>mg_storage := t\<rparr>"] t(2-4) m
    by (simp add: materialized_def view_step_def a map_has_def)
qed

lemma materialized_define:
  assumes "materialized R view ok ready mg a"
  shows "materialized R view ok ready (snd (defineIndex S def mg)) (view_step a (Define def))"
proof -
  obtain defs ent where a: "a = (defs, ent)" by (cases a)
  have m: "definitions mg = defs" "map_ok defs" "ok (mg_storage mg)" "\<And>n. map_has defs n \<Longrightarrow> ready (mg_storage mg) n"
    using assms by (simp_all add: materialized_def a)
  show ?thesis
  proof (cases "map_get defs (id_name def)")
    case None
    obtain t where t: "op_initialize S (id_name def) (id_fields def) (mg_storage mg) = (Ok (), t)" "ok t" "view t = view (mg_storage mg)"
      "ready t (id_name def)" "\<And>n. ready (mg_storage mg) n \<Longrightarrow> ready t n"
      using initialize [OF m(3)] by blast
    then have "defineIndex S def mg = (Ok (), mg\<lparr>definitions := map_set (id_name def) def defs, mg_storage := t\<rparr>)"
      using None m(1) by (simp add: defineIndex_def in_storage_def)
    then show ?thesis using None t(2-5) m assms
      by (auto simp: materialized_def view_step_def a map_has_iff map_ok_set map_get_set)
  next
    case (Some old)
    then have "snd (defineIndex S def mg) = mg" using m(1) by (simp add: defineIndex_def)
    then show ?thesis using Some assms by (simp add: view_step_def a map_has_iff)
  qed
qed

lemma materialized_remove_index:
  assumes "materialized R view ok ready mg a" "\<And>e. R e e"
  shows "materialized R view ok ready (snd (removeIndex S n mg)) (view_step a (Remove_index n))"
proof -
  obtain defs ent where a: "a = (defs, ent)" by (cases a)
  obtain t where t: "op_clear S n (mg_storage mg) = (Ok (), t)" "ok t" "ready t = ready (mg_storage mg)"
    "view t = (\<lambda>m q. if m = n then None else view (mg_storage mg) m q)"
    using clear assms unfolding materialized_def by blast
  then have "removeIndex S n mg = (Ok (), mg\<lparr>definitions := map_delete n (definitions mg), mg_storage := t\<rparr>)"
    by (simp add: removeIndex_def in_storage_def)
  then show ?thesis using t(2-4) assms
    by (auto simp: materialized_def view_step_def a map_has_iff map_ok_delete map_get_delete split: if_splits)
qed

lemma rebuild_iter_run:
  assumes "ok s" "ready s n" "map_ok docs"
  shows "\<exists>t. eff_iter (\<lambda>(p, snapshot). if in_collection def p then op_put S n p (project def snapshot) else eff_return ()) docs s = (Ok (), t)
    \<and> ok t \<and> ready t = ready s
    \<and> view t = (\<lambda>m q. if m = n \<and> rebuilt def docs q \<noteq> None then rebuilt def docs q else view s m q)"
  using assms
proof (induction docs arbitrary: s)
  case Nil
  have "rebuilt def [] q = None" for q by (simp add: rebuilt_def map_get_def)
  then show ?case using Nil by simp
next
  case (Cons d docs)
  obtain p snapshot where d: "d = (p, snapshot)" by (cases d)
  have docs: "map_ok docs" "rebuilt def docs p = None"
    using Cons.prems(3) by (auto simp: d map_ok_def map_get_def rebuilt_def map_of_eq_None_iff)
  have cons: "rebuilt def (d # docs) q = (if q = p \<and> in_collection def p then Some (project def snapshot) else rebuilt def docs q)" for q
    using docs(2) by (auto simp: d rebuilt_def map_get_def)
  obtain u where u: "(if in_collection def p then op_put S n p (project def snapshot) else eff_return ()) s = (Ok (), u)"
    "ok u" "ready u = ready s"
    "view u = (\<lambda>m q. if m = n \<and> q = p \<and> in_collection def p then Some (project def snapshot) else view s m q)"
  proof (cases "in_collection def p")
    case True
    then show ?thesis using put_run [OF Cons.prems(1,2), of p "project def snapshot"] that by (auto simp: fun_eq_iff)
  next
    case False
    then show ?thesis using that [of s] Cons.prems(1) by simp
  qed
  obtain t where "eff_iter (\<lambda>(p, snapshot). if in_collection def p then op_put S n p (project def snapshot) else eff_return ()) docs u = (Ok (), t)"
    "ok t" "ready t = ready u" "view t = (\<lambda>m q. if m = n \<and> rebuilt def docs q \<noteq> None then rebuilt def docs q else view u m q)"
    using Cons.IH [OF u(2) _ docs(1)] u(3) Cons.prems(2) by auto
  then show ?case using u docs(2) by (auto simp: d [symmetric] cons fun_eq_iff) (auto simp: d)
qed

lemma materialized_rebuild:
  assumes "materialized R view ok ready mg a" "map_ok docs" "\<And>e. R e e"
  shows "materialized R view ok ready (snd (rebuildIndex S n docs mg)) (view_step a (Rebuild n docs))"
proof -
  obtain defs ent where a: "a = (defs, ent)" by (cases a)
  have m: "definitions mg = defs" "map_ok defs" "ok (mg_storage mg)" "\<And>m. map_has defs m \<Longrightarrow> ready (mg_storage mg) m"
    "\<And>n q. same_entry R (view (mg_storage mg) n q) (ent n q)"
    using assms by (simp_all add: materialized_def a)
  show ?thesis
  proof (cases "map_get defs n")
    case None
    then show ?thesis using assms(1) m(1) by (simp add: rebuildIndex_def view_step_def a)
  next
    case (Some def)
    obtain u where u: "op_clear S n (mg_storage mg) = (Ok (), u)" "ok u" "ready u = ready (mg_storage mg)"
      "view u = (\<lambda>m q. if m = n then None else view (mg_storage mg) m q)" using clear [OF m(3)] by blast
    have "ready u n" using u(3) m(4) Some by (simp add: map_has_iff)
    then obtain t where t: "eff_iter (\<lambda>(p, snapshot). if in_collection def p then op_put S n p (project def snapshot) else eff_return ()) docs u
        = (Ok (), t)" "ok t" "ready t = ready u"
      "view t = (\<lambda>m q. if m = n \<and> rebuilt def docs q \<noteq> None then rebuilt def docs q else view u m q)"
      using rebuild_iter_run [OF u(2) _ assms(2)] by blast
    have "rebuildIndex S n docs mg = notifySubscribers S (mg\<lparr>mg_storage := t\<rparr>)"
      using t(1) u(1) m(1) Some by (simp add: rebuildIndex_def in_storage_def)
    moreover have "same_entry R (view t k q) ((ent(n := rebuilt def docs)) k q)" for k q
      using m(5) [of k q] by (cases "rebuilt def docs q") (simp_all add: t(4) u(4) assms(3))
    ultimately show ?thesis using notify_storage [of "mg\<lparr>mg_storage := t\<rparr>"] t(2,3) u(3) m Some
      by (simp add: materialized_def view_step_def a)
  qed
qed

lemma materialized_step:
  assumes "materialized R view ok ready mg a" "event_plain e" "\<And>e. R e e"
    and "\<And>p snapshot. e = Update p snapshot \<Longrightarrow> skips_ok R (fst a) p snapshot (view (mg_storage mg))"
  shows "materialized R view ok ready (mg_step S mg e) (view_step a e)"
proof (cases e)
  case (Subscribe options)
  let ?mg = "mg\<lparr>nextSubscriptionId := nextSubscriptionId mg + 1,
    subscriptions := map_set (nextSubscriptionId mg) options (subscriptions mg)\<rparr>"
  have "snd (mg_subscribe S options mg) = snd (deliver S (nextSubscriptionId mg) options ?mg)"
    by (simp add: mg_subscribe_def eff_bind_def Let_def split: prod.split sum.split)
  then have "mg_storage (snd (mg_subscribe S options mg)) = mg_storage mg" "definitions (snd (mg_subscribe S options mg)) = definitions mg"
    using deliver_storage [of "nextSubscriptionId mg" options ?mg] by simp_all
  then have "materialized R view ok ready (snd (mg_subscribe S options mg)) a" using assms(1) by (simp add: materialized_def)
  moreover have "view_step a e = a" by (cases a) (simp add: Subscribe view_step_def)
  ultimately show ?thesis by (simp add: Subscribe mg_step_def)
next
  case (Unsubscribe i)
  then show ?thesis using assms(1) by (cases a) (simp add: mg_step_def view_step_def mg_unsubscribe_def materialized_def)
qed (use assms in \<open>simp_all add: mg_step_def event_plain_def materialized_define materialized_remove_index materialized_update
    materialized_remove_document materialized_rebuild\<close>)

lemma materialized_run:
  "materialized same_fields view ok ready mg a \<Longrightarrow> list_all event_plain es
    \<Longrightarrow> materialized same_fields view ok ready (foldl (mg_step S) mg es) (foldl view_step a es)"
  by (induction es arbitrary: mg a) (simp_all add: materialized_step skips_ok_same_fields same_fields_def)

end

section \<open>Both storages have the interface\<close>

definition mem_ok :: "memory_stores \<Rightarrow> bool" where
  "mem_ok ms \<longleftrightarrow> (\<forall>n st. map_get ms n = Some st \<longrightarrow> map_ok st)"

lemma mem_ok_set: "mem_ok ms \<Longrightarrow> map_ok st \<Longrightarrow> mem_ok (map_set n st ms)"
  by (simp add: mem_ok_def map_get_set)

lemma mem_ok_get: "mem_ok ms \<Longrightarrow> map_get ms n = Some st \<Longrightarrow> map_ok st"
  by (simp add: mem_ok_def)

lemma mem_ok_getStore: "mem_ok ms \<Longrightarrow> map_ok (getStore n ms)"
  by (auto simp: getStore_def map_ok_Nil mem_ok_get split: option.split)

lemma mem_ops_ok:
  assumes "mem_ok ms"
  shows "mem_ok (mem_initialize n ms)" "mem_ok (mem_put n p obj ms)" "mem_ok (mem_delete n p ms)" "mem_ok (mem_clear n ms)"
  using assms by (auto simp: mem_initialize_def mem_put_def mem_delete_def mem_clear_def mem_ok_set mem_ok_getStore mem_ok_get map_ok_set
      map_ok_delete map_ok_Nil split: option.split)

lemma mem_ops_view:
  "mem_get m q (mem_initialize n ms) = mem_get m q ms"
  "mem_get m q (mem_put n p obj ms) = (if m = n \<and> q = p then Some obj else mem_get m q ms)"
  "mem_get m q (mem_delete n p ms) = (if m = n \<and> q = p then None else mem_get m q ms)"
  "mem_get m q (mem_clear n ms) = (if m = n then None else mem_get m q ms)"
  by (auto simp: mem_get_def mem_put_def mem_delete_def mem_clear_def mem_initialize_def getStore_def map_get_set map_get_delete
      map_has_iff map_get_Nil split: option.split)

interpretation mem: index_storage "memory_ops E" "\<lambda>ms n p. mem_get n p ms" mem_ok "\<lambda>_ _. True" for E
  by unfold_locales (simp_all add: memory_ops_def mem_ops_ok mem_ops_view fun_eq_iff)

text \<open>The IndexedDB storage, with no other tab upgrading the database.\<close>

definition throwing :: "('s \<Rightarrow> index_error + 's) \<Rightarrow> ('s, index_error, unit) eff" where
  "throwing f s = (case f s of Inl e \<Rightarrow> (Err e, s) | Inr t \<Rightarrow> (Ok (), t))"

definition idb_ops :: "index_env \<Rightarrow> 'k idb \<Rightarrow> idb_state storage_ops" where
  "idb_ops E K = \<lparr>
     op_initialize = (\<lambda>n fs s. case idb_initialize (\<lambda>_ d. d) n (map if_path fs) s of
        (Inl e, t) \<Rightarrow> (Err (Open_failed n), t) | (Inr u, t) \<Rightarrow> (Ok (), t)),
     op_put = (\<lambda>n p obj. throwing (idb_put n p obj)),
     op_delete = (\<lambda>n p. throwing (idb_delete n p)),
     op_query = (\<lambda>n filters clauses limit offset s. (idb_query E K n filters clauses limit offset s, s)),
     op_get = (\<lambda>n p s. (idb_get n p s, s)),
     op_clear = (\<lambda>n. throwing (idb_clear n))\<rparr>"

definition idb_view :: "idb_state \<Rightarrow> string \<Rightarrow> string \<Rightarrow> fields option" where
  "idb_view s n p = (case map_get (objectStores (database s)) n of None \<Rightarrow> None | Some st \<Rightarrow> map_get (idb_records st) p)"

definition idb_ready :: "idb_state \<Rightarrow> string \<Rightarrow> bool" where
  "idb_ready s n \<longleftrightarrow> map_has (objectStores (database s)) n"

lemma idb_view_change: "idb_view (idb_change n f s) m q = (if m = n then (case map_get (objectStores (database s)) n of
    None \<Rightarrow> None | Some st \<Rightarrow> map_get (f (idb_records st)) q) else idb_view s m q)"
  by (auto simp: idb_view_def idb_change_def change_store_get split: option.split)

lemma idb_ready_change: "idb_ready (idb_change n f s) = idb_ready s"
  by (simp add: fun_eq_iff idb_ready_def idb_change_def map_has_iff change_store_get)

lemma db_open_change [simp]: "db_open (idb_change n f s) = db_open s"
  by (simp add: idb_change_def)

lemma upgrade_records:
  "(case map_get (objectStores (upgrade_schema n missing d)) m of None \<Rightarrow> None | Some st \<Rightarrow> map_get (idb_records st) q)
    = (case map_get (objectStores d) m of None \<Rightarrow> None | Some st \<Rightarrow> map_get (idb_records st) q)"
  by (simp add: upgrade_schema_def Let_def map_get_set map_get_Nil split: option.split)

lemma quiet_open:
  "\<exists>probed d'. open_loop (\<lambda>_ d. d) n paths 0 d = (Ok probed, d') \<and> (d' = d \<or> (\<exists>missing v. d' = (upgrade_schema n missing d)\<lparr>version := v\<rparr>))"
proof -
  obtain probed missing needs where "probe_schema n paths d = (probed, missing, needs)" by (cases "probe_schema n paths d")
  then show ?thesis by (cases needs) (auto simp: open_loop.simps openDB_def)
qed

lemma idb_initialize_quiet:
  assumes "idb_inv s" "db_open s"
  shows "\<exists>t. idb_initialize (\<lambda>_ d. d) n paths s = (Ok (), t) \<and> db_open t \<and> idb_inv t \<and> idb_view t = idb_view s \<and> idb_ready t n
    \<and> (\<forall>m. idb_ready s m \<longrightarrow> idb_ready t m)"
proof -
  obtain probed d where run: "open_loop (\<lambda>_ d. d) n paths 0 (database s) = (Ok probed, d)"
    and d: "d = database s \<or> (\<exists>missing v. d = (upgrade_schema n missing (database s))\<lparr>version := v\<rparr>)"
    using quiet_open by blast
  have quiet: "tabs_ok (\<lambda>_ d. d)" by (simp add: tabs_ok_def)
  obtain t where t: "idb_initialize (\<lambda>_ d. d) n paths s = (Ok (), t)" "db_open t" "database t = database s \<or> database t = d"
    "database t = d \<or> n \<in> dom (map_get (indexedFields s))"
  proof (cases "n \<in> set (initializedStores s) \<and> db_open s
      \<and> (case map_get (indexedFields s) n of None \<Rightarrow> False | Some cached \<Rightarrow> set paths \<subseteq> set cached)")
    case True
    then show ?thesis using that [of s] assms(2) by (auto simp: idb_initialize_def split: option.splits)
  next
    case False
    show ?thesis
      by (rule that, unfold idb_initialize_def if_not_P [OF False] run prod.case sum.case, rule refl) simp_all
  qed
  have inv: "idb_inv t" using idb_initialize_inv [OF quiet assms(1), of n paths] t(1) by simp
  have views: "idb_view t = idb_view s" using t(3) d by (auto simp: fun_eq_iff idb_view_def upgrade_records)
  have le: "schema_le (database s) (database t)" "store_has n (probed @ paths) d"
    using open_loop_sound [OF quiet run] t(3) by auto
  have "idb_ready t n" using t(3,4) le(2) assms(1) unfolding idb_ready_def map_has_iff store_has_def idb_inv_def by fastforce
  moreover have "idb_ready s m \<Longrightarrow> idb_ready t m" for m using le(1) unfolding idb_ready_def map_has_iff schema_le_def by fastforce
  ultimately show ?thesis using t(1,2) inv views by blast
qed

lemma idb_put_view:
  assumes "db_open s" "idb_ready s n"
  shows "throwing (idb_put n p obj) s = (Ok (), idb_change n (map_set p obj) s)"
    "idb_view (idb_change n (map_set p obj) s) = (\<lambda>m q. if m = n \<and> q = p then Some obj else idb_view s m q)"
  using assms by (auto simp: throwing_def idb_put_def getDB_def idb_ready_def fun_eq_iff idb_view_change map_has_iff idb_view_def [of s] map_get_set)

lemma idb_delete_view:
  assumes "db_open s" "idb_ready s n"
  shows "throwing (idb_delete n p) s = (Ok (), idb_change n (map_delete p) s)"
    "idb_view (idb_change n (map_delete p) s) = (\<lambda>m q. if m = n \<and> q = p then None else idb_view s m q)"
  using assms by (auto simp: throwing_def idb_delete_def getDB_def idb_ready_def fun_eq_iff idb_view_change map_has_iff idb_view_def [of s]
      map_get_delete)

lemma idb_clear_view:
  assumes "db_open s" "idb_inv s"
  shows "\<exists>t. throwing (idb_clear n) s = (Ok (), t) \<and> (db_open t \<and> idb_inv t) \<and> idb_ready t = idb_ready s
    \<and> idb_view t = (\<lambda>m q. if m = n then None else idb_view s m q)"
proof (cases "idb_ready s n")
  case True
  then have "throwing (idb_clear n) s = (Ok (), idb_change n (\<lambda>_. []) s)"
    using assms(1) by (simp add: throwing_def idb_clear_def getDB_def idb_ready_def)
  moreover have "idb_view (idb_change n (\<lambda>_. []) s) = (\<lambda>m q. if m = n then None else idb_view s m q)"
    by (auto simp: fun_eq_iff idb_view_change map_get_Nil split: option.split)
  ultimately show ?thesis using assms by (simp add: idb_change_inv idb_ready_change)
next
  case False
  then have "throwing (idb_clear n) s = (Ok (), s)" "\<And>q. idb_view s n q = None"
    using assms(1) by (simp_all add: throwing_def idb_clear_def getDB_def idb_ready_def idb_view_def map_has_iff)
  then show ?thesis using assms by (auto simp: fun_eq_iff)
qed

interpretation idbs: index_storage "idb_ops E K" idb_view "\<lambda>s. db_open s \<and> idb_inv s" idb_ready for E K
proof unfold_locales
  fix n fs and s :: idb_state
  assume "db_open s \<and> idb_inv s"
  then show "\<exists>t. op_initialize (idb_ops E K) n fs s = (Ok (), t) \<and> (db_open t \<and> idb_inv t) \<and> idb_view t = idb_view s \<and> idb_ready t n
      \<and> (\<forall>m. idb_ready s m \<longrightarrow> idb_ready t m)"
    using idb_initialize_quiet [of s n "map if_path fs"] by (auto simp: idb_ops_def)
next
  fix n and s :: idb_state
  assume "db_open s \<and> idb_inv s"
  then show "\<exists>t. op_clear (idb_ops E K) n s = (Ok (), t) \<and> (db_open t \<and> idb_inv t) \<and> idb_ready t = idb_ready s
      \<and> idb_view t = (\<lambda>m q. if m = n then None else idb_view s m q)"
    using idb_clear_view [of s n] by (simp add: idb_ops_def)
qed (simp_all add: idb_ops_def idb_put_view idb_delete_view idb_change_inv idb_ready_change idb_get_def getDB_def idb_view_def split: option.split)

end
