(* ===== verification/IndexView.thy ===== *)
theory IndexView
  imports IndexCorrect
begin

text \<open>
  For indexes over plain fields the stored entries are exactly the projections of the latest snapshots, and queries answer exactly
  for them; where the comparison of entries and the order of updates and removals let the index go stale.
\<close>

section \<open>Plain fields\<close>

definition flat_def :: "index_def \<Rightarrow> bool" where
  "flat_def def \<longleftrightarrow> distinct (map if_path (id_fields def)) \<and> list_all (\<lambda>f. CHR ''.'' \<notin> set (if_path f)) (id_fields def)"

definition plain_snapshot :: "ival \<Rightarrow> bool" where
  "plain_snapshot s = (case s of VObj fs \<Rightarrow> list_all (\<lambda>(_, v). \<not> is_object v) fs | _ \<Rightarrow> False)"

definition flat_entry :: "index_def \<Rightarrow> fields \<Rightarrow> bool" where
  "flat_entry def e \<longleftrightarrow> map fst e = map if_path (id_fields def) \<and> list_all (\<lambda>(_, v). \<not> is_object v) e"

lemma split_dots_plain: "CHR ''.'' \<notin> set path \<Longrightarrow> split_dots path = [path]"
  by (induction path) auto

lemma extract_plain:
  assumes "plain_snapshot s" "CHR ''.'' \<notin> set path"
  shows "\<not> is_object (extractField s path)"
proof -
  obtain fs where s: "s = VObj fs" "list_all (\<lambda>(_, v). \<not> is_object v) fs"
    using assms(1) by (auto simp: plain_snapshot_def split: ival.splits)
  have "\<not> is_object (property s path)"
    using s(2) by (auto simp: s(1) property_def list_all_iff is_object_def dest!: map_of_SomeD split: option.splits)
  then show ?thesis by (simp add: extractField_def split_dots_plain [OF assms(2)] is_object_def s(1))
qed

lemma project_flat_from:
  assumes "distinct (map fst acc @ map if_path fs)" "list_all (\<lambda>f. CHR ''.'' \<notin> set (if_path f)) fs"
  shows "foldl (\<lambda>obj f. setNestedField obj (if_path f) (extractField s (if_path f))) acc fs
    = acc @ map (\<lambda>f. (if_path f, extractField s (if_path f))) fs"
  using assms
proof (induction fs arbitrary: acc)
  case (Cons f fs)
  have "if_path f \<notin> fst ` set acc" using Cons.prems(1) by auto
  then have "setNestedField acc (if_path f) (extractField s (if_path f)) = acc @ [(if_path f, extractField s (if_path f))]"
    using Cons.prems(2) by (simp add: setNestedField_def split_dots_plain map_set_fresh)
  then show ?case using Cons by simp
qed simp

lemma project_flat: "flat_def def \<Longrightarrow> project def s = map (\<lambda>f. (if_path f, extractField s (if_path f))) (id_fields def)"
  using project_flat_from [of "[]" "id_fields def" s] by (simp add: project_def flat_def_def)

lemma project_flat_entry: "flat_def def \<Longrightarrow> plain_snapshot s \<Longrightarrow> flat_entry def (project def s)"
  by (auto simp: flat_entry_def project_flat list_all_iff flat_def_def extract_plain)

lemma map_of_list_eq:
  assumes "map fst xs = map fst ys" "distinct (map fst xs)" "map_of xs = map_of ys"
  shows "xs = ys"
proof (rule nth_equalityI)
  show len: "length xs = length ys" using assms(1) map_eq_imp_length_eq by blast
  fix i
  assume i: "i < length xs"
  have "map_of xs (fst (xs ! i)) = Some (snd (xs ! i))" using assms(2) i by (simp add: map_of_is_SomeI)
  moreover have "map_of ys (fst (ys ! i)) = Some (snd (ys ! i))" using assms(1,2) i len by (simp add: map_of_is_SomeI)
  moreover have "fst (xs ! i) = fst (ys ! i)" using assms(1) i len by (metis nth_map)
  ultimately show "xs ! i = ys ! i" using assms(3) by (simp add: prod_eq_iff)
qed

lemma strict_eq_eq: "strict_eq a b \<Longrightarrow> a = b"
  by (cases a) (simp_all add: strict_eq_def)

lemma flat_entry_property: "flat_entry def e \<Longrightarrow> \<not> is_object (property (VObj e) k)"
  by (auto simp: flat_entry_def property_def list_all_iff is_object_def dest!: map_of_SomeD split: option.splits)

lemma date_is_object: "is_date v \<Longrightarrow> is_object v"
  by (cases v) (simp_all add: is_date_def is_object_def)

lemma fieldsEqual_flat:
  assumes "flat_def def" "flat_entry def e" "flat_entry def e'" "fieldsEqual (VObj e) (VObj e')"
  shows "e = e'"
proof (rule map_of_list_eq)
  show keys: "map fst e = map fst e'" "distinct (map fst e)" using assms(1-3) by (simp_all add: flat_entry_def flat_def_def)
  have all: "list_all (\<lambda>k. let va = property (VObj e) k; vb = property (VObj e') k in strict_eq va vb
      \<or> (if is_date va \<and> is_date vb then va = vb \<and> va \<noteq> VDate NaN
          else if is_object va \<and> is_object vb then fieldsEqual va vb else False)) (map fst e)"
    using assms(4) unfolding fieldsEqual.simps [of "VObj e"] by (simp add: object_keys_def)
  have same: "property (VObj e) k = property (VObj e') k" if "k \<in> set (map fst e)" for k
    using all that flat_entry_property [OF assms(2), of k] date_is_object
    unfolding list_all_iff Let_def by (metis strict_eq_eq)
  show "map_of e = map_of e'"
  proof
    fix k
    show "map_of e k = map_of e' k"
    proof (cases "k \<in> set (map fst e)")
      case True
      then obtain v w where "map_of e k = Some v" "map_of e' k = Some w"
        using keys(1) by (metis map_of_eq_None_iff option.exhaust set_map)
      then show ?thesis using same [OF True] by (simp add: property_def)
    next
      case False
      then show ?thesis using keys(1) by (metis map_of_eq_None_iff set_map)
    qed
  qed
qed

section \<open>The view is exact\<close>

definition flat_spec :: "index_view \<Rightarrow> bool" where
  "flat_spec a = (case a of (defs, ent) \<Rightarrow> map_ok defs \<and> (\<forall>n. case map_get defs n of
     Some def \<Rightarrow> flat_def def \<and> (\<forall>p e. ent n p = Some e \<longrightarrow> flat_entry def e)
   | None \<Rightarrow> \<forall>p. ent n p = None))"

definition event_flat :: "index_event \<Rightarrow> bool" where
  "event_flat e = (case e of
     Define def \<Rightarrow> flat_def def
   | Update _ snapshot \<Rightarrow> plain_snapshot snapshot
   | Rebuild _ docs \<Rightarrow> map_ok docs \<and> list_all (\<lambda>(_, snapshot). plain_snapshot snapshot) docs
   | _ \<Rightarrow> True)"

lemma event_flat_plain: "event_flat e \<Longrightarrow> event_plain e"
  by (cases e) (simp_all add: event_flat_def event_plain_def)

lemma rebuilt_flat:
  assumes "list_all (\<lambda>(_, snapshot). plain_snapshot snapshot) docs" "flat_def def" "rebuilt def docs p = Some e"
  shows "flat_entry def e"
  using assms by (auto simp: rebuilt_def map_get_def list_all_iff project_flat_entry dest!: map_of_SomeD split: if_splits)

lemma flat_specD0:
  assumes "flat_spec (defs, ent)"
  shows "map_ok defs" "case map_get defs n of Some def \<Rightarrow> flat_def def \<and> (\<forall>p e. ent n p = Some e \<longrightarrow> flat_entry def e) | None \<Rightarrow> \<forall>p. ent n p = None"
  using assms unfolding flat_spec_def prod.case by blast+

lemma flat_specD:
  "flat_spec (defs, ent) \<Longrightarrow> map_get defs n = Some def \<Longrightarrow> flat_def def"
  "flat_spec (defs, ent) \<Longrightarrow> map_get defs n = Some def \<Longrightarrow> ent n p = Some e \<Longrightarrow> flat_entry def e"
  "flat_spec (defs, ent) \<Longrightarrow> map_get defs n = None \<Longrightarrow> ent n p = None"
  "flat_spec (defs, ent) \<Longrightarrow> map_ok defs"
  using flat_specD0(1) [of defs ent] flat_specD0(2) [of defs ent n] by simp_all

lemma flat_specI:
  assumes "map_ok defs" "\<And>n def. map_get defs n = Some def \<Longrightarrow> flat_def def"
    "\<And>n def p e. map_get defs n = Some def \<Longrightarrow> ent n p = Some e \<Longrightarrow> flat_entry def e"
    "\<And>n p. map_get defs n = None \<Longrightarrow> ent n p = None"
  shows "flat_spec (defs, ent)"
  using assms by (simp add: flat_spec_def split: option.split)

lemma flat_step:
  assumes "flat_spec a" "event_flat e"
  shows "flat_spec (view_step a e)"
proof -
  obtain defs ent where a: "a = (defs, ent)" by (cases a)
  note inv = flat_specD [OF assms(1) [unfolded a]]
  show ?thesis
  proof (cases e)
    case (Define def)
    have "flat_spec (map_set (id_name def) def defs, ent)" if "map_get defs (id_name def) = None"
      using assms(2) inv that by (intro flat_specI) (auto simp: Define event_flat_def map_get_set map_ok_set split: if_splits)
    then show ?thesis using assms(1) by (simp add: Define a view_step_def map_has_iff)
  next
    case (Remove_index n)
    have "flat_spec (map_delete n defs, ent(n := \<lambda>_. None))"
      using inv by (intro flat_specI) (auto simp: map_get_delete map_ok_delete split: if_splits)
    then show ?thesis by (simp add: Remove_index a view_step_def)
  next
    case (Update p snapshot)
    then have "plain_snapshot snapshot" using assms(2) by (simp add: event_flat_def)
    then show ?thesis using inv unfolding Update a view_step_def
      by (simp, intro flat_specI) (auto simp: project_flat_entry split: if_splits option.splits)
  next
    case (Remove_document p)
    show ?thesis using inv unfolding Remove_document a view_step_def
      by (simp, intro flat_specI) (auto split: if_splits)
  next
    case (Rebuild n docs)
    then have docs: "list_all (\<lambda>(_, snapshot). plain_snapshot snapshot) docs" using assms(2) by (simp add: event_flat_def)
    show ?thesis using inv rebuilt_flat [OF docs] unfolding Rebuild a view_step_def
      by (simp, intro flat_specI) (auto split: if_splits option.splits)
  qed (use assms(1) in \<open>simp_all add: a view_step_def\<close>)
qed

lemma same_entry_eq: "same_entry (=) a b \<longleftrightarrow> a = b"
  by (cases a; cases b) (simp_all add: same_entry_def)

context index_storage
begin

lemma exact_step:
  assumes "materialized (=) view ok ready mg a" "flat_spec a" "event_flat e"
  shows "materialized (=) view ok ready (mg_step S mg e) (view_step a e)"
proof (rule materialized_step [OF assms(1) event_flat_plain [OF assms(3)]])
  fix p snapshot
  assume e: "e = Update p snapshot"
  obtain defs ent where a: "a = (defs, ent)" by (cases a)
  have "view (mg_storage mg) = ent" using assms(1) by (simp add: materialized_def a same_entry_eq fun_eq_iff)
  moreover have "plain_snapshot snapshot" using assms(3) by (simp add: e event_flat_def)
  ultimately show "skips_ok (=) (fst a) p snapshot (view (mg_storage mg))"
    using fieldsEqual_flat [OF _ _ project_flat_entry] flat_specD(1,2) [OF assms(2) [unfolded a]]
    by (simp add: skips_ok_def a)
qed simp

lemma exact_run:
  "materialized (=) view ok ready mg a \<Longrightarrow> flat_spec a \<Longrightarrow> list_all event_flat es
    \<Longrightarrow> materialized (=) view ok ready (foldl (mg_step S) mg es) (foldl view_step a es)"
  by (induction es arbitrary: mg a) (simp_all add: exact_step flat_step)

end

section \<open>Queries\<close>

definition mem_found :: "index_env \<Rightarrow> string \<Rightarrow> field_filter list \<Rightarrow> memory_stores \<Rightarrow> entry list" where
  "mem_found E n filters ms = filter (\<lambda>(_, obj). matchesFilters E obj filters) (getStore n ms)"

lemma mem_query_found:
  "check_page limit offset = Ok () \<Longrightarrow> mem_query E n filters clauses limit offset ms
    = Ok (paginate limit offset (sort_entries E clauses (mem_found E n filters ms)))"
  by (simp add: mem_query_def mem_found_def getStore_def sort_entries_def js_sort_def paginate_def Let_def split: option.split)

lemma mem_found_set:
  assumes "mem_ok ms"
  shows "distinct (mem_found E n filters ms)"
    "set (mem_found E n filters ms) = {(p, e). mem_get n p ms = Some e \<and> matchesFilters E e filters}"
proof -
  have ok: "distinct (map fst (getStore n ms))" using mem_ok_getStore [OF assms] by (simp add: map_ok_def)
  then show "distinct (mem_found E n filters ms)" unfolding mem_found_def by (simp add: distinct_map)
  have "(p, e) \<in> set (getStore n ms) \<longleftrightarrow> mem_get n p ms = Some e" for p e
    using ok by (auto simp: mem_get_def getStore_def map_get_def split: option.splits)
  then show "set (mem_found E n filters ms) = {(p, e). mem_get n p ms = Some e \<and> matchesFilters E e filters}"
    unfolding mem_found_def by auto
qed

lemma mg_query_found:
  assumes "resolveIndexName options (definitions mg) = Some n" "n \<noteq> []"
    "check_page (qo_limit options) (qo_offset options) = Ok ()"
  shows "fst (mg_query (memory_ops E) options mg)
    = (let found = mem_found E n (qo_filters options) (mg_storage mg) in
       Ok (paginate (qo_limit options) (qo_offset options) (sort_entries E (qo_sort options) found), length found))"
proof -
  have page: "check_page None None = Ok ()" by (simp add: check_page_def)
  have "length (sort_entries E cs xs) = length xs" for cs xs using mset_sort_entries [of E cs xs] by (metis size_mset)
  moreover have "paginate None None xs = xs" for xs :: "entry list" by (simp add: paginate_def)
  moreover have "paginate None (Some k) xs = xs" if "\<not> 0 < k" for k and xs :: "entry list" using that by (simp add: paginate_def)
  ultimately show ?thesis
    using assms(1,2) by (auto simp: mg_query_def given_def in_storage_def memory_ops_def mem_query_found [OF page] mem_query_found [OF assms(3)]
        Let_def split: option.split)
qed

text \<open>
  Claim C38.  After any sequence of definitions, removals, updates and rebuilds over plain fields, a query through the manager answers with
  exactly the entries of the specified view that match its filters, each once, sorted and cut to the page, and with their total number.
\<close>

theorem index_query_exact:
  assumes "list_all event_flat es" "foldl view_step ([], \<lambda>_ _. None) es = (defs, ent)"
    "resolveIndexName options defs = Some n" "n \<noteq> []" "check_page (qo_limit options) (qo_offset options) = Ok ()"
  shows "\<exists>found. fst (mg_query (memory_ops E) options (foldl (mg_step (memory_ops E)) (manager_new []) es))
        = Ok (paginate (qo_limit options) (qo_offset options) (sort_entries E (qo_sort options) found), length found)
      \<and> distinct found \<and> set found = {(p, e). ent n p = Some e \<and> matchesFilters E e (qo_filters options)}"
proof -
  let ?mg = "foldl (mg_step (memory_ops E)) (manager_new []) es"
  have start: "materialized (=) (\<lambda>ms n p. mem_get n p ms) mem_ok (\<lambda>_ _. True) (manager_new []) ([], \<lambda>_ _. None)"
    by (simp add: materialized_def manager_new_def mem_ok_def mem_get_def map_get_Nil map_ok_Nil)
  have "flat_spec ([], \<lambda>_ _. None)" by (simp add: flat_spec_def map_ok_Nil map_get_Nil)
  from mem.exact_run [OF start this assms(1), of E] have "materialized (=) (\<lambda>ms n p. mem_get n p ms) mem_ok (\<lambda>_ _. True) ?mg (defs, ent)"
    by (simp only: assms(2))
  then have mg: "definitions ?mg = defs" "mem_ok (mg_storage ?mg)" "\<And>n p. mem_get n p (mg_storage ?mg) = ent n p"
    by (simp_all add: materialized_def same_entry_eq)
  show ?thesis
    using mg_query_found [of options ?mg n E] mem_found_set [OF mg(2), of E n "qo_filters options"] assms(3-5) mg(1,3)
    by (auto simp: Let_def)
qed

definition ranked :: index_def where
  "ranked = \<lparr>id_name = ''todo'', id_collectionPrefix = ''/'', id_fields = [\<lparr>if_path = ''rank'', if_type = ''number''\<rparr>]\<rparr>"

definition rank_query :: query_options where
  "rank_query = \<lparr>qo_indexName = None, qo_collectionPrefix = Some ''/'', qo_filters = [at_least_two], qo_sort = [by_rank],
     qo_limit = Some 1, qo_offset = None\<rparr>"

definition ranking :: "index_event list" where
  "ranking = [Define ranked, Update ''/a'' (VObj [(''rank'', VNum (Fin 3))]), Update ''/b'' (VObj [(''rank'', VNum (Fin 2))]),
     Update ''/b'' (VObj [(''rank'', VNum (Fin 1))])]"

lemma project_ranked: "project ranked (VObj [(''rank'', v)]) = [(''rank'', v)]"
  by (simp add: project_def ranked_def setNestedField_def extractField_def is_object_def property_def map_set_def)

lemma ranking_view: "foldl view_step ([], \<lambda>_ _. None) ranking
    = ([(''todo'', ranked)], (\<lambda>_ _. None)(''todo'' := [''/a'' \<mapsto> [(''rank'', VNum (Fin 3))], ''/b'' \<mapsto> [(''rank'', VNum (Fin 1))]]))"
proof -
  have "id_name ranked = ''todo''" "in_collection ranked (''/'' @ p)" for p by (simp_all add: ranked_def in_collection_def)
  from this(1) this(2) [of "''a''"] this(2) [of "''b''"] show ?thesis
    by (simp add: ranking_def view_step_def map_has_def map_set_def map_get_def project_ranked fun_eq_iff)
qed

lemma rank_matches: "matchesFilters E [(''rank'', VNum (Fin x))] [at_least_two] \<longleftrightarrow> 2 \<le> x"
  by (auto simp: matchesFilters_def at_least_two_def matchesFilter_def sample_rank range_match_def normalizeForComparison_def nullish_def
      js_le_def to_primitive_def to_number_def num_le_def num_lt_def Let_def)

theorem index_query_exact_witness:
  "fst (mg_query (memory_ops sample_index_env) rank_query (foldl (mg_step (memory_ops sample_index_env)) (manager_new []) ranking))
     = Ok ([(''/a'', [(''rank'', VNum (Fin 3))])], 1)"
proof -
  have flat: "list_all event_flat ranking"
    by (simp add: ranking_def event_flat_def flat_def_def ranked_def plain_snapshot_def is_object_def)
  have name: "resolveIndexName rank_query [(''todo'', ranked)] = Some ''todo''"
    by (simp add: resolveIndexName_def rank_query_def given_def ranked_def)
  have page: "check_page (qo_limit rank_query) (qo_offset rank_query) = Ok ()" by (simp add: check_page_def rank_query_def)
  obtain found where found:
    "fst (mg_query (memory_ops sample_index_env) rank_query (foldl (mg_step (memory_ops sample_index_env)) (manager_new []) ranking))
      = Ok (paginate (Some 1) None (sort_entries sample_index_env [by_rank] found), length found)" "distinct found"
    "set found = {(p, e). ((\<lambda>_ _. None)(''todo'' := [''/a'' \<mapsto> [(''rank'', VNum (Fin 3))], ''/b'' \<mapsto> [(''rank'', VNum (Fin 1))]])) ''todo'' p = Some e
      \<and> matchesFilters sample_index_env e [at_least_two]}"
    using index_query_exact [OF flat ranking_view name _ page, of sample_index_env] by (auto simp: rank_query_def)
  have "set found = {(''/a'', [(''rank'', VNum (Fin 3))])}"
    unfolding found(3) by (auto simp: rank_matches split: if_splits)
  then have "found = [(''/a'', [(''rank'', VNum (Fin 3))])]"
    using found(2) by (cases found; cases "tl found") auto
  then show ?thesis using found(1) by (simp add: paginate_def sort_entries_def js_sort_def)
qed

section \<open>Where the index goes stale\<close>

text \<open>
  The comparison that skips a write looks at the keys of objects only: an array and an object with its indices as keys are the
  same to it, and so are a date and an object without keys, so the old entry stays.
\<close>

lemma stale_entry:
  defines "old \<equiv> [(''v'', VArr [VNull])]" and "new \<equiv> [(''v'', VObj [(''0'', VNull)])]"
  shows "fieldsEqual (VObj old) (VObj new)" "fieldsEqual (VObj [(''v'', VDate t)]) (VObj [(''v'', VObj [])])"
    "update_entries (memory_ops E) ''/a'' (VObj new) [(''todo'', ranked\<lparr>id_fields := [\<lparr>if_path = ''v'', if_type = ''string''\<rparr>]\<rparr>)] False
       [(''todo'', [(''/a'', old)])] = (Ok False, [(''todo'', [(''/a'', old)])])"
proof -
  have zero: "decimal 0 = ''0''" by (simp add: decimal.simps) (simp add: char_of_eq_iff)
  have "array_index ''0'' = Some 0" by (simp add: array_index_def digit_def)
  then have inner: "fieldsEqual (VArr [VNull]) (VObj [(''0'', VNull)])"
    by (simp add: fieldsEqual.simps [of "VArr [VNull]"] object_keys_def zero property_def strict_eq_def)
  show eq: "fieldsEqual (VObj old) (VObj new)"
    unfolding fieldsEqual.simps [of "VObj old"] using inner by (simp add: object_keys_def old_def new_def property_def is_date_def is_object_def)
  have "fieldsEqual (VDate t) (VObj [])" by (simp add: fieldsEqual.simps [of "VDate t"] object_keys_def)
  then show "fieldsEqual (VObj [(''v'', VDate t)]) (VObj [(''v'', VObj [])])"
    unfolding fieldsEqual.simps [of "VObj [(''v'', VDate t)]"] by (simp add: object_keys_def property_def is_date_def is_object_def)
  have "project (ranked\<lparr>id_fields := [\<lparr>if_path = ''v'', if_type = ''string''\<rparr>]\<rparr>) (VObj new) = new"
    by (simp add: project_def setNestedField_def extractField_def is_object_def property_def map_set_def new_def)
  then show "update_entries (memory_ops E) ''/a'' (VObj new) [(''todo'', ranked\<lparr>id_fields := [\<lparr>if_path = ''v'', if_type = ''string''\<rparr>]\<rparr>)] False
       [(''todo'', [(''/a'', old)])] = (Ok False, [(''todo'', [(''/a'', old)])])"
    using eq by (simp add: in_collection_def ranked_def memory_ops_def mem_get_def map_get_def)
qed

text \<open>
  An update waits between reading the entry and writing it.  A document that is untracked in between is removed first and
  written afterwards: it stays in the index.
\<close>

definition update_resumed :: "'s storage_ops \<Rightarrow> string \<Rightarrow> ival \<Rightarrow> string \<times> index_def \<Rightarrow> (string \<times> index_def) list \<Rightarrow> bool \<Rightarrow> fields option
    \<Rightarrow> ('s, index_error, bool) eff" where
  "update_resumed S p snapshot d defs changed existing =
     (if existing \<noteq> None \<and> fieldsEqual (VObj (the existing)) (VObj (project (snd d) snapshot)) then update_entries S p snapshot defs changed
      else eff_bind (op_put S (fst d) p (project (snd d) snapshot)) (\<lambda>_. update_entries S p snapshot defs True))"

lemma update_suspends:
  "in_collection def p \<Longrightarrow> update_entries S p snapshot ((n, def) # defs) changed = eff_bind (op_get S n p) (update_resumed S p snapshot (n, def) defs changed)"
  unfolding update_entries.simps Let_def by (auto simp: update_resumed_def fun_eq_iff eff_bind_def split: prod.split sum.split)

lemma untrack_race:
  assumes "it = \<lparr>it_manager = (manager_new [(''todo'', [])])\<lparr>definitions := [(''todo'', ranked)]\<rparr>, trackedDocuments = [''/a'']\<rparr>"
    and "op_get (memory_ops E) ''todo'' ''/a'' (mg_storage (it_manager it)) = (Ok existing, s)"
    and "untracked = untrackDocument (memory_ops E) ''/a'' it"
  shows "trackedDocuments untracked = []"
    "mem_get ''todo'' ''/a'' (snd (update_resumed (memory_ops E) ''/a'' (VObj [(''rank'', v)]) (''todo'', ranked) [] False existing
       (mg_storage (it_manager untracked)))) = Some [(''rank'', v)]"
proof -
  have "existing = None" using assms(2) by (simp add: assms(1) manager_new_def memory_ops_def mem_get_def map_get_def)
  moreover show "trackedDocuments untracked = []"
    by (simp add: assms(1,3) untrackDocument_def in_manager_def)
  ultimately show "mem_get ''todo'' ''/a'' (snd (update_resumed (memory_ops E) ''/a'' (VObj [(''rank'', v)]) (''todo'', ranked) [] False existing
       (mg_storage (it_manager untracked)))) = Some [(''rank'', v)]"
    by (simp add: update_resumed_def memory_ops_def project_ranked mem_ops_view)
qed

end
