(* ===== verification/AutomergeProviders.thy ===== *)
theory AutomergeProviders
  imports YjsProviders
begin

text \<open>
  The ACL and the keychain of \<^verbatim>\<open>packages/collabswarm-automerge/src/collabswarm-automerge.ts\<close>.  Automerge documents are immutable values of
  a parameter type; their actors, drawn at random, are arguments.  The key caches and the imports of keys are those of the Yjs providers, whose code is
  the same.
\<close>

section \<open>The ACL\<close>

text \<open>
  What the ACL calls of Automerge on a document with a map \<^verbatim>\<open>users\<close>: \<^verbatim>\<open>from({users: {}})\<close> under an actor, the keys of the map
  (\<open>None\<close> when the property is missing), the three changes, and the exchange of changes.
\<close>

record ('a, 'd, 'c) automerge_map =
  am_from :: "'a \<Rightarrow> 'd"
  am_users :: "'d \<Rightarrow> string list option"
  am_reset :: "'d \<Rightarrow> 'd" \<comment> \<open>\<^verbatim>\<open>doc.users = {}\<close>\<close>
  am_put :: "string \<Rightarrow> 'd \<Rightarrow> 'd" \<comment> \<open>\<^verbatim>\<open>doc.users[hash] = true\<close>\<close>
  am_delete :: "string \<Rightarrow> 'd \<Rightarrow> 'd"
  am_getChanges :: "'d \<Rightarrow> 'd \<Rightarrow> 'c"
  am_getAllChanges :: "'d \<Rightarrow> 'c"
  am_applyChanges :: "'c \<Rightarrow> 'd \<Rightarrow> 'd"

record ('d, 'key) automerge_acl =
  am_acl :: 'd
  am_keyCache :: "(string, 'key) lru"

datatype acl_error = Users_missing | Users_import key_error

definition am_acl_new :: "('a, 'd, 'c) automerge_map \<Rightarrow> 'a \<Rightarrow> ('d, 'key) automerge_acl" where
  "am_acl_new A actor = \<lparr>am_acl = am_from A actor, am_keyCache = key_cache\<rparr>"

definition am_acl_add :: "('a, 'd, 'c) automerge_map \<Rightarrow> 'key key_codec \<Rightarrow> 'key \<Rightarrow> ('d, 'key) automerge_acl \<Rightarrow> 'c \<times> ('d, 'key) automerge_acl" where
  "am_acl_add A K publicKey acl = (let hash = serializeKey K publicKey; doc = am_acl acl;
       aclNew = am_put A hash (if am_users A doc = None then am_reset A doc else doc)
     in (am_getChanges A doc aclNew, acl\<lparr>am_acl := aclNew\<rparr>))"

definition am_acl_remove :: "('a, 'd, 'c) automerge_map \<Rightarrow> 'key key_codec \<Rightarrow> 'key \<Rightarrow> ('d, 'key) automerge_acl \<Rightarrow> 'c \<times> ('d, 'key) automerge_acl" where
  "am_acl_remove A K publicKey acl = (let hash = serializeKey K publicKey; doc = am_acl acl;
       aclNew = (case am_users A doc of None \<Rightarrow> am_reset A doc | Some us \<Rightarrow> if hash \<in> set us then am_delete A hash doc else doc)
     in (am_getChanges A doc aclNew, acl\<lparr>am_acl := aclNew\<rparr>))"

definition am_acl_current :: "('a, 'd, 'c) automerge_map \<Rightarrow> ('d, 'key) automerge_acl \<Rightarrow> 'c" where
  "am_acl_current A acl = am_getAllChanges A (am_acl acl)"

definition am_acl_merge :: "('a, 'd, 'c) automerge_map \<Rightarrow> 'c \<Rightarrow> ('d, 'key) automerge_acl \<Rightarrow> ('d, 'key) automerge_acl" where
  "am_acl_merge A ch acl = acl\<lparr>am_acl := am_applyChanges A ch (am_acl acl)\<rparr>"

definition am_acl_check :: "('a, 'd, 'c) automerge_map \<Rightarrow> 'key key_codec \<Rightarrow> 'key \<Rightarrow> ('d, 'key) automerge_acl \<Rightarrow> bool" where
  "am_acl_check A K publicKey acl = (case am_users A (am_acl acl) of None \<Rightarrow> False | Some us \<Rightarrow> serializeKey K publicKey \<in> set us)"

definition am_acl_users :: "('a, 'd, 'c) automerge_map \<Rightarrow> 'key key_codec \<Rightarrow> nat list \<Rightarrow> ('d, 'key) automerge_acl
    \<Rightarrow> (acl_error + 'key list) \<times> ('d, 'key) automerge_acl" where
  "am_acl_users A K order acl = (case am_users A (am_acl acl) of
     None \<Rightarrow> (Err Users_missing, acl)
   | Some us \<Rightarrow> (case import_all (importKey K) order (map (\<lambda>s. (s, s)) us) (am_keyCache acl) of
       (r, c) \<Rightarrow> (case r of Inl e \<Rightarrow> Err (Users_import e) | Inr ks \<Rightarrow> Ok ks, acl\<lparr>am_keyCache := c\<rparr>)))"

section \<open>The keychain\<close>

record ('a, 'd, 'c) automerge_list =
  ak_init :: "string \<Rightarrow> 'd"
  ak_keys :: "'d \<Rightarrow> key_entry list option"
  ak_seed :: "'d \<Rightarrow> 'd" \<comment> \<open>\<^verbatim>\<open>doc.keys = []\<close> at time 0\<close>
  ak_reset :: "'d \<Rightarrow> 'd" \<comment> \<open>\<^verbatim>\<open>doc.keys = []\<close>\<close>
  ak_push :: "key_entry \<Rightarrow> 'd \<Rightarrow> 'd"
  ak_clone :: "'a \<Rightarrow> 'd \<Rightarrow> 'd"
  ak_getChanges :: "'d \<Rightarrow> 'd \<Rightarrow> 'c"
  ak_getAllChanges :: "'d \<Rightarrow> 'c"
  ak_applyChanges :: "'c \<Rightarrow> 'd \<Rightarrow> 'd"

record ('d, 'key) automerge_keychain =
  ak_keychain :: 'd
  ak_keyCache :: "(string, 'key) lru"

definition KEYCHAIN_SEED_ACTOR :: string where
  "KEYCHAIN_SEED_ACTOR = ''ababababababababababababababababababababab''"

definition newKeychainDoc :: "('a, 'd, 'c) automerge_list \<Rightarrow> 'a \<Rightarrow> 'd" where
  "newKeychainDoc A actor = ak_clone A actor (ak_seed A (ak_init A KEYCHAIN_SEED_ACTOR))"

definition ak_new :: "('a, 'd, 'c) automerge_list \<Rightarrow> 'a \<Rightarrow> ('d, 'key) automerge_keychain" where
  "ak_new A actor = \<lparr>ak_keychain = newKeychainDoc A actor, ak_keyCache = key_cache\<rparr>"

definition push_key :: "('a, 'd, 'c) automerge_list \<Rightarrow> key_entry \<Rightarrow> 'd \<Rightarrow> 'd" where
  "push_key A e doc = ak_push A e (if ak_keys A doc = None then ak_reset A doc else doc)"

definition ak_addEpochKey :: "('a, 'd, 'c) automerge_list \<Rightarrow> 'key key_codec \<Rightarrow> bytes \<Rightarrow> 'key \<Rightarrow> ('d, 'key) automerge_keychain
    \<Rightarrow> 'c \<times> ('d, 'key) automerge_keychain" where
  "ak_addEpochKey A K epochId key kc = (let epochIdHex = hex_of_bytes epochId; keychainNew = push_key A (epochIdHex, serializeKey K key) (ak_keychain kc)
     in (ak_getChanges A (ak_keychain kc) keychainNew, \<lparr>ak_keychain = keychainNew, ak_keyCache = lru_set epochIdHex key (ak_keyCache kc)\<rparr>))"

text \<open>\<^verbatim>\<open>add\<close> draws the key ID and the key; both are arguments.\<close>

definition ak_add :: "('a, 'd, 'c) automerge_list \<Rightarrow> 'key key_codec \<Rightarrow> bytes \<Rightarrow> 'key \<Rightarrow> ('d, 'key) automerge_keychain
    \<Rightarrow> (bytes \<times> 'key \<times> 'c) \<times> ('d, 'key) automerge_keychain" where
  "ak_add A K keyIDBytes key kc = (let keyIDHex = hex_of_bytes keyIDBytes; keychainNew = push_key A (keyIDHex, serializeKey K key) (ak_keychain kc)
     in ((keyIDBytes, key, ak_getChanges A (ak_keychain kc) keychainNew),
         \<lparr>ak_keychain = keychainNew, ak_keyCache = lru_set keyIDHex key (ak_keyCache kc)\<rparr>))"

definition ak_history :: "('a, 'd, 'c) automerge_list \<Rightarrow> ('d, 'key) automerge_keychain \<Rightarrow> 'c" where
  "ak_history A kc = ak_getAllChanges A (ak_keychain kc)"

definition ak_merge :: "('a, 'd, 'c) automerge_list \<Rightarrow> 'c \<Rightarrow> ('d, 'key) automerge_keychain \<Rightarrow> ('d, 'key) automerge_keychain" where
  "ak_merge A ch kc = kc\<lparr>ak_keychain := ak_applyChanges A ch (ak_keychain kc)\<rparr>"

text \<open>
  Every entry is started; one whose ID is malformed rejects before it looks at the cache, and its error is the one that \<^verbatim>\<open>Promise.all\<close> reports.
\<close>

definition ak_listKeys :: "('a, 'd, 'c) automerge_list \<Rightarrow> 'key key_codec \<Rightarrow> nat list \<Rightarrow> ('d, 'key) automerge_keychain
    \<Rightarrow> (key_error + (bytes \<times> 'key) list) \<times> ('d, 'key) automerge_keychain" where
  "ak_listKeys A K order kc = (case ak_keys A (ak_keychain kc) of
     None \<Rightarrow> (Ok [], kc)
   | Some entries \<Rightarrow> (case import_all (importKey K) order (filter valid_id entries) (ak_keyCache kc) of (r, c) \<Rightarrow>
       (try_bind (all_ok (map (cacheKeyToKeyId \<circ> fst) entries)) (\<lambda>ids. try_bind r (\<lambda>keys. Ok (zip ids keys))), kc\<lparr>ak_keyCache := c\<rparr>)))"

definition entries_of :: "('a, 'd, 'c) automerge_list \<Rightarrow> ('d, 'key) automerge_keychain \<Rightarrow> key_entry list" where
  "entries_of A kc = (case ak_keys A (ak_keychain kc) of None \<Rightarrow> [] | Some entries \<Rightarrow> entries)"

definition ak_current :: "('a, 'd, 'c) automerge_list \<Rightarrow> 'key key_codec \<Rightarrow> ('d, 'key) automerge_keychain
    \<Rightarrow> (key_error + (bytes \<times> 'key)) \<times> ('d, 'key) automerge_keychain" where
  "ak_current A K kc = (if entries_of A kc = [] then (Err Keychain_empty, kc)
     else case last (entries_of A kc) of (keyID, serialized) \<Rightarrow> (case cacheKeyToKeyId keyID of
       Inl e \<Rightarrow> (Err e, kc)
     | Inr keyIDBytes \<Rightarrow> (case lru_get keyID (ak_keyCache kc) of
         (Some key, c) \<Rightarrow> (Ok (keyIDBytes, key), kc\<lparr>ak_keyCache := c\<rparr>)
       | (None, c) \<Rightarrow> (case importKey K serialized of
           Inl e \<Rightarrow> (Err e, kc\<lparr>ak_keyCache := c\<rparr>)
         | Inr key \<Rightarrow> (Ok (keyIDBytes, key), kc\<lparr>ak_keyCache := lru_set keyID key c\<rparr>)))))"

text \<open>The fresh documents of slices are drawn with an actor of their own.\<close>

definition slice_doc :: "('a, 'd, 'c) automerge_list \<Rightarrow> 'a \<Rightarrow> key_entry list \<Rightarrow> 'd" where
  "slice_doc A actor entries = foldl (\<lambda>d e. ak_push A e d) (newKeychainDoc A actor) entries"

definition ak_currentKeyChange :: "('a, 'd, 'c) automerge_list \<Rightarrow> 'a \<Rightarrow> ('d, 'key) automerge_keychain \<Rightarrow> key_error + 'c" where
  "ak_currentKeyChange A actor kc = (if entries_of A kc = [] then Err Keychain_empty
     else Ok (ak_getAllChanges A (slice_doc A actor [last (entries_of A kc)])))"

definition ak_historySince :: "('a, 'd, 'c) automerge_list \<Rightarrow> 'a \<Rightarrow> bytes \<Rightarrow> ('d, 'key) automerge_keychain \<Rightarrow> key_error + 'c" where
  "ak_historySince A actor keyID kc = (if entries_of A kc = [] then Err Keychain_empty
     else case find_index (keyIdToCacheKey keyID) (entries_of A kc) of
       None \<Rightarrow> Ok (ak_getAllChanges A (ak_keychain kc))
     | Some startIdx \<Rightarrow> Ok (ak_getAllChanges A (slice_doc A actor (drop startIdx (entries_of A kc)))))"

definition ak_getKey :: "bytes \<Rightarrow> ('d, 'key) automerge_keychain \<Rightarrow> 'key option \<times> ('d, 'key) automerge_keychain" where
  "ak_getKey keyIDBytes kc = (case lru_get (keyIdToCacheKey keyIDBytes) (ak_keyCache kc) of (r, c) \<Rightarrow> (r, kc\<lparr>ak_keyCache := c\<rparr>))"

end
