(* ===== verification/AutomergeCorrect.thy ===== *)
theory AutomergeCorrect
  imports AutomergeProviders YjsCorrect
begin

text \<open>
  The Automerge providers: one replica of the ACL keeps exactly the added users, slices of the keychain arrive whole at a fresh keychain because all
  keychains share their seed change, and ACLs, which do not, lose users when they are merged.
\<close>

section \<open>What is relied on in Automerge\<close>

text \<open>
  Assigning and deleting a property of the map changes that property alone.  Two documents created apart each assign \<^verbatim>\<open>users\<close> at the root:
  merging them keeps one of the two maps, chosen by the actors alone.
\<close>

inductive own_doc :: "('a, 'd, 'c) automerge_map \<Rightarrow> 'a \<Rightarrow> 'd \<Rightarrow> bool" for A a where
  created: "own_doc A a (am_from A a)"
| assigned: "own_doc A a d \<Longrightarrow> own_doc A a (am_put A h d)"
| deleted: "own_doc A a d \<Longrightarrow> own_doc A a (am_delete A h d)"

definition automerge_map_laws :: "('a, 'd, 'c) automerge_map \<Rightarrow> ('a \<Rightarrow> 'a \<Rightarrow> bool) \<Rightarrow> bool" where
  "automerge_map_laws A wins \<longleftrightarrow> (\<forall>a. am_users A (am_from A a) = Some [])
     \<and> (\<forall>d us h. am_users A d = Some us \<longrightarrow> (\<exists>vs. am_users A (am_put A h d) = Some vs \<and> set vs = insert h (set us)))
     \<and> (\<forall>d us h. am_users A d = Some us \<longrightarrow> (\<exists>vs. am_users A (am_delete A h d) = Some vs \<and> set vs = set us - {h}))
     \<and> (\<forall>a b d d'. a \<noteq> b \<longrightarrow> own_doc A a d \<longrightarrow> own_doc A b d'
          \<longrightarrow> am_users A (am_applyChanges A (am_getAllChanges A d') d) = (if wins b a then am_users A d' else am_users A d))
     \<and> (\<forall>a b. a \<noteq> b \<longrightarrow> wins a b \<noteq> wins b a)"

lemma map_laws:
  assumes "automerge_map_laws A wins"
  shows "am_users A (am_from A a) = Some []"
    "am_users A d = Some us \<Longrightarrow> \<exists>vs. am_users A (am_put A h d) = Some vs \<and> set vs = insert h (set us)"
    "am_users A d = Some us \<Longrightarrow> \<exists>vs. am_users A (am_delete A h d) = Some vs \<and> set vs = set us - {h}"
    "a \<noteq> b \<Longrightarrow> own_doc A a d \<Longrightarrow> own_doc A b d'
      \<Longrightarrow> am_users A (am_applyChanges A (am_getAllChanges A d') d) = (if wins b a then am_users A d' else am_users A d)"
    "a \<noteq> b \<Longrightarrow> wins a b \<noteq> wins b a"
proof -
  note L = assms [unfolded automerge_map_laws_def]
  show "am_users A (am_from A a) = Some []" by (rule L [THEN conjunct1, rule_format])
  show "am_users A d = Some us \<Longrightarrow> \<exists>vs. am_users A (am_put A h d) = Some vs \<and> set vs = insert h (set us)"
    by (rule L [THEN conjunct2, THEN conjunct1, rule_format])
  show "am_users A d = Some us \<Longrightarrow> \<exists>vs. am_users A (am_delete A h d) = Some vs \<and> set vs = set us - {h}"
    by (rule L [THEN conjunct2, THEN conjunct2, THEN conjunct1, rule_format])
  show "a \<noteq> b \<Longrightarrow> own_doc A a d \<Longrightarrow> own_doc A b d'
      \<Longrightarrow> am_users A (am_applyChanges A (am_getAllChanges A d') d) = (if wins b a then am_users A d' else am_users A d)"
    by (rule L [THEN conjunct2, THEN conjunct2, THEN conjunct2, THEN conjunct1, rule_format])
  show "a \<noteq> b \<Longrightarrow> wins a b \<noteq> wins b a"
    by (rule L [THEN conjunct2, THEN conjunct2, THEN conjunct2, THEN conjunct2, rule_format])
qed

text \<open>
  Documents of keychains grow from \<^verbatim>\<open>newKeychainDoc\<close> by pushing and merging.  As their seed change is the same, applying all changes of one of
  them to a fresh one gives its entries.
\<close>

inductive keychain_doc :: "('a, 'd, 'c) automerge_list \<Rightarrow> 'd \<Rightarrow> bool" for A where
  fresh: "keychain_doc A (newKeychainDoc A a)"
| pushed: "keychain_doc A d \<Longrightarrow> keychain_doc A (ak_push A e d)"
| merged: "keychain_doc A d \<Longrightarrow> keychain_doc A d' \<Longrightarrow> keychain_doc A (ak_applyChanges A (ak_getAllChanges A d') d)"

definition automerge_list_laws :: "('a, 'd, 'c) automerge_list \<Rightarrow> bool" where
  "automerge_list_laws A \<longleftrightarrow> (\<forall>a. ak_keys A (newKeychainDoc A a) = Some [])
     \<and> (\<forall>d es e. ak_keys A d = Some es \<longrightarrow> ak_keys A (ak_push A e d) = Some (es @ [e]))
     \<and> (\<forall>d b. keychain_doc A d \<longrightarrow> ak_keys A (ak_applyChanges A (ak_getAllChanges A d) (newKeychainDoc A b)) = ak_keys A d)"

section \<open>One replica of the ACL\<close>

datatype 'key acl_edit = Grant 'key | Revoke 'key

definition am_acl_edit :: "('a, 'd, 'c) automerge_map \<Rightarrow> 'key key_codec \<Rightarrow> ('d, 'key) automerge_acl \<Rightarrow> 'key acl_edit \<Rightarrow> ('d, 'key) automerge_acl" where
  "am_acl_edit A K acl e = (case e of Grant k \<Rightarrow> snd (am_acl_add A K k acl) | Revoke k \<Rightarrow> snd (am_acl_remove A K k acl))"

definition users_step :: "'key key_codec \<Rightarrow> string set \<Rightarrow> 'key acl_edit \<Rightarrow> string set" where
  "users_step K U e = (case e of Grant k \<Rightarrow> insert (serializeKey K k) U | Revoke k \<Rightarrow> U - {serializeKey K k})"

lemma am_acl_edit_users:
  assumes "automerge_map_laws A wins" "own_doc A a (am_acl acl)" "am_users A (am_acl acl) = Some us"
  shows "own_doc A a (am_acl (am_acl_edit A K acl e))
    \<and> (\<exists>vs. am_users A (am_acl (am_acl_edit A K acl e)) = Some vs \<and> set vs = users_step K (set us) e)"
proof (cases e)
  case (Grant k)
  then show ?thesis using assms(2,3) map_laws(2) [OF assms(1,3)]
    by (simp add: am_acl_edit_def am_acl_add_def users_step_def own_doc.assigned Let_def)
next
  case (Revoke k)
  then show ?thesis using assms(2,3) map_laws(3) [OF assms(1,3)]
    by (auto simp: am_acl_edit_def am_acl_remove_def users_step_def own_doc.deleted Let_def)
qed

lemma am_acl_run_users:
  assumes "automerge_map_laws A wins" "own_doc A a (am_acl acl)" "am_users A (am_acl acl) = Some us"
  shows "own_doc A a (am_acl (foldl (am_acl_edit A K) acl es))
    \<and> (\<exists>vs. am_users A (am_acl (foldl (am_acl_edit A K) acl es)) = Some vs \<and> set vs = foldl (users_step K) (set us) es)"
  using assms(2,3)
proof (induction es arbitrary: acl us)
  case (Cons e es)
  obtain vs where "own_doc A a (am_acl (am_acl_edit A K acl e))" "am_users A (am_acl (am_acl_edit A K acl e)) = Some vs"
    "set vs = users_step K (set us) e" using am_acl_edit_users [OF assms(1) Cons.prems] by blast
  then show ?case using Cons.IH [of "am_acl_edit A K acl e" vs] by simp
qed auto

text \<open>After additions and removals on one replica \<^verbatim>\<open>check\<close> accepts exactly the keys added and not removed since.\<close>

lemma automerge_acl_exact:
  assumes "automerge_map_laws A wins"
  shows "am_acl_check A K k (foldl (am_acl_edit A K) (am_acl_new A a) es) \<longleftrightarrow> serializeKey K k \<in> foldl (users_step K) {} es"
proof -
  have "own_doc A a (am_acl (am_acl_new A a))" "am_users A (am_acl (am_acl_new A a)) = Some []"
    using map_laws(1) [OF assms] by (simp_all add: am_acl_new_def own_doc.created)
  from am_acl_run_users [OF assms this, of K es] obtain vs where
    "am_users A (am_acl (foldl (am_acl_edit A K) (am_acl_new A a) es)) = Some vs" "set vs = foldl (users_step K) (set []) es" by blast
  then show ?thesis by (simp add: am_acl_check_def)
qed

section \<open>Merging ACLs\<close>

text \<open>
  Every ACL starts with a change of its own that assigns \<^verbatim>\<open>users\<close>.  A joiner that merges the whole history of an ACL sees its users only
  if the actor of the other ACL wins; otherwise its own empty map hides them.  Two ACLs with a user each never agree on both.
\<close>

lemma automerge_acl_seed_conflict:
  assumes "automerge_map_laws A wins" "a \<noteq> b"
    and "founder = foldl (am_acl_edit A K) (am_acl_new A a) es" "joiner = foldl (am_acl_edit A K) (am_acl_new A b) es'"
    and "joined = am_acl_merge A (am_acl_current A founder) joiner"
  shows "am_acl_check A K k joined \<longleftrightarrow> serializeKey K k \<in> foldl (users_step K) {} (if wins a b then es else es')"
proof -
  have start: "own_doc A c (am_acl (am_acl_new A c))" "am_users A (am_acl (am_acl_new A c)) = Some []" for c
    using map_laws(1) [OF assms(1)] by (simp_all add: am_acl_new_def own_doc.created)
  note run = am_acl_run_users [OF assms(1) start, of _ K]
  have "am_users A (am_acl joined) = (if wins a b then am_users A (am_acl founder) else am_users A (am_acl joiner))"
    using map_laws(4) [OF assms(1) assms(2) [symmetric]] run [of a es] run [of b es'] assms(3,4)
    by (simp add: assms(5) am_acl_merge_def am_acl_current_def)
  then have "am_acl_check A K k joined \<longleftrightarrow> am_acl_check A K k (if wins a b then founder else joiner)" by (simp add: am_acl_check_def)
  then show ?thesis using automerge_acl_exact [OF assms(1), of K k a es] automerge_acl_exact [OF assms(1), of K k b es'] assms(3,4) by simp
qed

lemma automerge_acl_hides_founder:
  assumes "automerge_map_laws A wins" "a \<noteq> b"
  shows "am_acl_check A K k (am_acl_merge A (am_acl_current A (snd (am_acl_add A K k (am_acl_new A a)))) (am_acl_new A b))
    \<noteq> am_acl_check A K k (am_acl_merge A (am_acl_current A (snd (am_acl_add A K k (am_acl_new A b)))) (am_acl_new A a))"
  using automerge_acl_seed_conflict [OF assms, of _ K "[Grant k]" "am_acl_new A b" "[]" _ k]
    automerge_acl_seed_conflict [OF assms(1) assms(2) [symmetric], of _ K "[Grant k]" "am_acl_new A a" "[]" _ k]
    map_laws(5) [OF assms]
  by (simp add: am_acl_edit_def users_step_def)

section \<open>Slices of the keychain\<close>

lemma list_laws:
  assumes "automerge_list_laws A"
  shows "ak_keys A (newKeychainDoc A a) = Some []" "ak_keys A d = Some es \<Longrightarrow> ak_keys A (ak_push A e d) = Some (es @ [e])"
    "keychain_doc A d \<Longrightarrow> ak_keys A (ak_applyChanges A (ak_getAllChanges A d) (newKeychainDoc A b)) = ak_keys A d"
  using assms unfolding automerge_list_laws_def by blast+

lemma slice_doc_keys:
  assumes "automerge_list_laws A"
  shows "keychain_doc A (slice_doc A a es) \<and> ak_keys A (slice_doc A a es) = Some es"
  by (induction es rule: rev_induct) (simp_all add: slice_doc_def list_laws [OF assms] keychain_doc.intros)

text \<open>What a fresh keychain holds after merging a change.\<close>

definition received :: "('a, 'd, 'c) automerge_list \<Rightarrow> 'a \<Rightarrow> 'c \<Rightarrow> ('d, 'key) automerge_keychain" where
  "received A b u = ak_merge A u (ak_new A b)"

lemma received_entries:
  "automerge_list_laws A \<Longrightarrow> keychain_doc A d \<Longrightarrow> ak_keys A d = Some es \<Longrightarrow> entries_of A (received A b (ak_getAllChanges A d)) = es"
  by (simp add: received_def entries_of_def ak_merge_def ak_new_def list_laws)

lemma current_fresh:
  fixes kc :: "('d, 'key) automerge_keychain"
  assumes "entries_of A kc = es" "es \<noteq> []" "last es = (hex_of_bytes i, ser)" "i \<noteq> []" "importKey K ser = Ok key" "ak_keyCache kc = key_cache"
  shows "fst (ak_current A K kc) = Ok (i, key) \<and> fst (ak_getKey i (snd (ak_current A K kc))) = Some key"
proof -
  have id: "cacheKeyToKeyId (hex_of_bytes i) = Ok i" using cache_key_round_trip [OF assms(4)] by (simp add: keyIdToCacheKey_def)
  have ok: "lru_ok (key_cache :: (string, 'key) lru)" by (simp add: key_cache_def lru_ok_def js_map)
  have miss: "lru_get (hex_of_bytes i) (key_cache :: (string, 'key) lru) = (None, key_cache)"
    by (simp add: lru_get_def key_cache_def js_map)
  have "ak_current A K kc = (Ok (i, key), kc\<lparr>ak_keyCache := lru_set (hex_of_bytes i) key key_cache\<rparr>)"
    using assms id miss by (simp add: ak_current_def)
  then show ?thesis using kcache.look_after_store [OF ok, of "hex_of_bytes i" key] by (simp add: ak_getKey_def keyIdToCacheKey_def case_prod_beta)
qed

lemma since_last:
  assumes "es \<noteq> []"
  shows "dropWhile (\<lambda>e. k \<in> fst ` set es \<and> fst e \<noteq> k) es \<noteq> []" "last (dropWhile (\<lambda>e. k \<in> fst ` set es \<and> fst e \<noteq> k) es) = last es"
proof -
  obtain e where "e \<in> set es" "\<not> (k \<in> fst ` set es \<and> fst e \<noteq> k)" using assms by (metis imageE last_in_set)
  then show "dropWhile (\<lambda>e. k \<in> fst ` set es \<and> fst e \<noteq> k) es \<noteq> []" "last (dropWhile (\<lambda>e. k \<in> fst ` set es \<and> fst e \<noteq> k) es) = last es"
    using dropWhile_last [of e es "\<lambda>e. k \<in> fst ` set es \<and> fst e \<noteq> k"] by (auto simp: dropWhile_eq_Nil_conv)
qed


section \<open>Concrete documents\<close>

text \<open>Keychain documents as entry lists.\<close>

definition entry_list :: "(nat, key_entry list, key_entry list) automerge_list" where
  "entry_list = \<lparr>ak_init = (\<lambda>_. []), ak_keys = Some, ak_seed = (\<lambda>d. d), ak_reset = (\<lambda>_. []), ak_push = (\<lambda>e d. d @ [e]), ak_clone = (\<lambda>_ d. d),
     ak_getChanges = (\<lambda>d d'. drop (length d) d'), ak_getAllChanges = (\<lambda>d. d), ak_applyChanges = (\<lambda>u d. d @ u)\<rparr>"

lemma entry_list_laws: "automerge_list_laws entry_list"
  by (simp add: automerge_list_laws_def newKeychainDoc_def entry_list_def)

definition rotated :: "(key_entry list, string) automerge_keychain" where
  "rotated = snd (ak_addEpochKey entry_list plain_codec [2] ''k2'' (snd (ak_add entry_list plain_codec [1] ''k1'' (ak_new entry_list 0))))"

lemma rotated_doc: "ak_keychain rotated = ak_push entry_list (''02'', ''k2'') (ak_push entry_list (''01'', ''k1'') (newKeychainDoc entry_list 0))"
  by (simp add: rotated_def ak_addEpochKey_def ak_add_def ak_new_def push_key_def entry_list_def plain_codec_def byte_hex_two hex_digit_def Let_def)


text \<open>ACL documents as the map of each actor that assigned \<^verbatim>\<open>users\<close>; the greatest actor wins.\<close>

definition top_actor :: "(nat, string list) jsmap \<Rightarrow> nat" where
  "top_actor d = foldr max (map fst d) 0"

definition top_users :: "(nat, string list) jsmap \<Rightarrow> string list" where
  "top_users d = (case map_get d (top_actor d) of None \<Rightarrow> [] | Some us \<Rightarrow> us)"

definition actor_maps :: "(nat, (nat, string list) jsmap, (nat, string list) jsmap) automerge_map" where
  "actor_maps = \<lparr>am_from = (\<lambda>a. [(a, [])]), am_users = (\<lambda>d. map_get d (top_actor d)), am_reset = (\<lambda>d. map_set (top_actor d) [] d),
     am_put = (\<lambda>h d. map_set (top_actor d) (h # top_users d) d), am_delete = (\<lambda>h d. map_set (top_actor d) (filter (\<lambda>k. k \<noteq> h) (top_users d)) d),
     am_getChanges = (\<lambda>d d'. d'), am_getAllChanges = (\<lambda>d. d), am_applyChanges = (\<lambda>u d. foldl (\<lambda>m (k, v). map_set k v m) d u)\<rparr>"

lemma own_actor_maps: "own_doc actor_maps a d \<Longrightarrow> \<exists>us. d = [(a, us)]"
  by (induction rule: own_doc.induct) (auto simp: actor_maps_def top_actor_def map_set_def)

lemma actor_maps_laws: "automerge_map_laws actor_maps (\<lambda>a b. b < a)"
  unfolding automerge_map_laws_def
proof (intro conjI allI impI)
  fix a :: nat
  show "am_users actor_maps (am_from actor_maps a) = Some []" by (simp add: actor_maps_def top_actor_def map_get_def)
next
  fix d us h
  assume us: "am_users actor_maps d = Some us"
  have top: "top_actor (map_set (top_actor d) v d) = top_actor d" for v
    using us map_of_SomeD [of d "top_actor d" us]
    by (auto simp: top_actor_def map_set_def update_keys actor_maps_def map_get_def image_iff intro: bexI)
  show "\<exists>vs. am_users actor_maps (am_put actor_maps h d) = Some vs \<and> set vs = insert h (set us)"
    using us by (simp add: actor_maps_def top map_get_set top_users_def)
  show "\<exists>vs. am_users actor_maps (am_delete actor_maps h d) = Some vs \<and> set vs = set us - {h}"
    using us by (auto simp: actor_maps_def top map_get_set top_users_def)
next
  fix a b :: nat and d d'
  assume "a \<noteq> b" "own_doc actor_maps a d" "own_doc actor_maps b d'"
  then show "am_users actor_maps (am_applyChanges actor_maps (am_getAllChanges actor_maps d') d)
      = (if a < b then am_users actor_maps d' else am_users actor_maps d)"
    using own_actor_maps [of a d] own_actor_maps [of b d']
    by (auto simp: actor_maps_def top_actor_def map_set_def map_get_def max_def)
qed auto

end
