(* ===== verification/Spec2Isabelle.thy ===== *)
theory Spec2Isabelle
  imports AclChainCorrect LoadOrchestratorCorrect BeeKemCorrect ChangeDagCorrect UcanCorrect DocHead DocPrune YjsCorrect WriterCache WelcomeCorrect OpenLoad
    BloomGossip WireCorrect SwarmCorrect UcanAcl Epoch SyncWireCorrect IndexView AutomergeCorrect
begin

text \<open>
  Verification of the core of Swarmbase (the packages \<^verbatim>\<open>collabswarm\<close>, \<^verbatim>\<open>collabswarm-yjs\<close>, \<^verbatim>\<open>collabswarm-automerge\<close> and
  \<^verbatim>\<open>collabswarm-index\<close>): encrypted, signed CRDT documents that peers exchange without a trusted server, and a local index over them.  Paths below are relative to \<^verbatim>\<open>packages/collabswarm/src\<close> unless they name another package.

  \<^bold>\<open>The program.\<close>  A \<^verbatim>\<open>CollabswarmDocument\<close> keeps a CRDT document, a readers and a writers ACL and a keychain of document keys.  A change is
  encrypted under the current key, stored as a content-addressed block, linked into a Merkle DAG of changes and published as a signed sync message; peers
  authenticate the message against the writers ACL and merge the DAG.  A new document is loaded only if enough peers agree on the tips of its DAG.  Members
  get keys through BeeKEM, a ratchet tree whose Welcomes are sealed to the recipient's KEM key.  Snapshots bound the DAG that has to be kept.  ACL
  changes can also be kept in a hash-linked signed chain, and rights delegated by UCAN tokens.  A \<^verbatim>\<open>Collabswarm\<close> node owns the open documents and hands
  the streams of the protocols to them.  Each peer indexes fields of its documents locally and gossips Bloom filters of its index terms.

  \<^bold>\<open>Theories and sources.\<close>
  \<^item> \<open>Prelude\<close>: bytes, results of code that throws, insertion-ordered maps and sets of JavaScript, hexadecimal and big-endian encodings; the interfaces
    \<open>keyed_store\<close> (a map with lookup laws), \<open>machine_invariant\<close> (a step function with an invariant, run over sequences) and \<open>functional_refinement\<close>.
  \<^item> \<open>AclChain\<close>, \<open>AclChainCorrect\<close>: \<^verbatim>\<open>acl-chain.ts\<close>.  Every check of \<^verbatim>\<open>ingestEntry\<close> is a definition; the lemmas characterize acceptance, the trust of
    every reachable chain, replay, tamper evidence of the head hash, and that an authorized author always succeeds.
  \<^item> \<open>TipsHash\<close>, \<open>LoadQuorum\<close>, \<open>LoadQuorumCorrect\<close>, \<open>LoadOrchestrator\<close>, \<open>LoadOrchestratorCorrect\<close>: \<^verbatim>\<open>tips-hash.ts\<close>, \<^verbatim>\<open>load-quorum.ts\<close> and
    \<^verbatim>\<open>load-quorum-orchestrator.ts\<close>.  The decision is sound and complete for the votes, tolerates a faulty minority, and the gate cannot be bypassed.
  \<^item> \<open>TreeMath\<close>, \<open>TreeMathCorrect\<close>: \<^verbatim>\<open>beekem/tree-math.ts\<close> with the 32-bit semantics of JavaScript's bitwise operators; loops that may not end are
    \<^verbatim>\<open>partial_function (option)\<close>.  The reference is the pair of level and position of a node.
  \<^item> \<open>Ecies\<close>: \<^verbatim>\<open>ecies.ts\<close>.  \<open>BeeKem\<close>, \<open>BeeKemCorrect\<close>: \<^verbatim>\<open>beekem/beekem.ts\<close> with \<^verbatim>\<open>beekem/types.ts\<close>: agreement of a joiner with its inviter,
    no key of a removed member is used again, compaction, and a run that refuses an ordinary fourth member.
  \<^item> \<open>ChangeDag\<close>, \<open>ChangeDagCorrect\<close>, \<open>DagJson\<close>: \<^verbatim>\<open>crdt-change-node.ts\<close>, \<^verbatim>\<open>merkle-cross-links.ts\<close>, \<^verbatim>\<open>blockstore-gc.ts\<close> and
    \<^verbatim>\<open>merkle-dag-serialization.ts\<close>: the traversals, the frontier, what may be deleted, and the JSON form.
  \<^item> \<open>Ucan\<close>, \<open>UcanCorrect\<close>: \<^verbatim>\<open>capabilities.ts\<close> and \<^verbatim>\<open>ucan.ts\<close>: what a validated delegation chain guarantees.
  \<^item> \<open>Effects\<close>: computations with a state and exceptions in which a throwing method keeps the state it has reached, with rule sets for invariants,
    frames and absence of exceptions.
  \<^item> \<open>DocCore\<close>: the document core of \<^verbatim>\<open>collabswarm-document.ts\<close>; its state is the record \<open>swarm_doc\<close>, its providers (CRDT, ACL, keychain, crypto,
    serializers, network, handlers, clock) are the record \<open>doc_env\<close>.  \<open>DocSample\<close> is a concrete environment for the witnesses.  \<open>DocInvariant\<close>: an
    invariant of every operation and what is never forgotten.  \<open>DocTransaction\<close>: failing commits roll back.  \<open>DocSync\<close>: forged messages, delivery, blocks,
    snapshot signatures.  \<open>DocHead\<close>: a change becomes the head.  \<open>DocPrune\<close>: pruning keeps the ACL.
  \<^item> \<open>LruCache\<close>: \<^verbatim>\<open>lru-cache.ts\<close> refines a recency list.  \<open>YjsProviders\<close>, \<open>YjsCorrect\<close>: ACL and keychain of
    \<^verbatim>\<open>packages/collabswarm-yjs/src/collabswarm-yjs.ts\<close> and the disclosure rules \<^verbatim>\<open>_keychainChangesForVisibility\<close> of the document.
    \<open>AutomergeProviders\<close>, \<open>AutomergeCorrect\<close>: ACL and keychain of \<^verbatim>\<open>packages/collabswarm-automerge/src/collabswarm-automerge.ts\<close>: slices of a keychain arrive whole,
    and a finding: ACLs that are merged hide each other's users, as their seed changes conflict.
  \<^item> \<open>WriterCache\<close>: the writer-key cache of the document as a step relation in which reads and mutations are suspended at each \<^verbatim>\<open>await\<close>.
  \<^item> \<open>Welcome\<close>, \<open>WelcomeCorrect\<close>: \<^verbatim>\<open>beekem-welcome-handler.ts\<close> and the receive path of the document: authority, epochs, the pending buffer, replay.
  \<^item> \<open>Membership\<close>, \<open>MembershipCorrect\<close>, \<open>MembershipSample\<close>: opening and founding, \<^verbatim>\<open>addReader\<close>, \<^verbatim>\<open>removeReader\<close>, \<^verbatim>\<open>removeWriter\<close> and the key
    rotation messages of the document over the ratchet tree of \<open>BeeKem\<close>, with \<^verbatim>\<open>derive-doc-key.ts\<close> and \<^verbatim>\<open>kem-key-pair.ts\<close>: revocation rotates the key and locks the
    removed reader out, rotation messages need a writer, and two findings: a founder cannot admit a reader, a removed writer obtains the new key.
  \<^item> \<open>DocLoad\<close>, \<open>DocStored\<close>, \<open>DocLoadCorrect\<close>, \<open>DocLoadSample\<close>, \<open>OpenLoad\<close>: the load protocols of the document and their routing in \<^verbatim>\<open>collabswarm.ts\<close>: serving
    requests, probing, loading from a peer under the agreed hash, and \<^verbatim>\<open>load\<close> below \<^verbatim>\<open>open\<close>.  A successful load is backed by a quorum, faulty cohort members cannot block it,
    an attested document is never founded again, members only are served, an honest peer always binds, and a finding: a first load discards snapshots.
  \<^item> \<open>StreamIo\<close>, \<open>StreamCorrect\<close>: the stream readers of \<^verbatim>\<open>utils.ts\<close>.  Both readers equal a specification on the content of the stream, whatever
    its chunks, and never write past a buffer.
  \<^item> \<open>SwarmNode\<close>, \<open>SwarmCorrect\<close>: \<^verbatim>\<open>collabswarm.ts\<close>: initialization, registration of documents, peer events and the six shared protocol handlers.  A framed
    message reaches exactly the document of its path; a registration survives everything but its own close.
  \<^item> \<open>WireFormats\<close>, \<open>WireCorrect\<close>: \<^verbatim>\<open>path-update-wire.ts\<close>, \<^verbatim>\<open>welcome-sealed-payload.ts\<close> and the frames of \<^verbatim>\<open>wire-protocols.ts\<close>.  \<open>SyncWire\<close>,
    \<open>SyncWireCorrect\<close>: the sync messages, change blocks and change lists of the Yjs and Automerge serializers with \<^verbatim>\<open>json-serializer.ts\<close>.  Decoders accept
    exactly the schema, what they return is well typed, and encoded values decode to themselves.
  \<^item> \<open>UcanAcl\<close>: \<^verbatim>\<open>ucan-acl.ts\<close> over a backing ACL: revocation is final on a replica; findings on grants that widen when merged.  \<open>Epoch\<close>: \<^verbatim>\<open>epoch.ts\<close>, whose
    epochs form a chain; a finding on views of larger buffers.
  \<^item> \<open>Bloom\<close>, \<open>BloomCorrect\<close>, \<open>BloomGossip\<close>: \<^verbatim>\<open>packages/collabswarm-index/src/bloom-filter-crdt.ts\<close> and \<^verbatim>\<open>bloom-filter-gossip.ts\<close>.  Bytes of the filter
    refine a set of positions, gossip refines a map from peers to such sets, and queries have no false negatives.
  \<^item> \<open>IndexStore\<close>, \<open>IdbStore\<close>, \<open>IdbCorrect\<close>: field values, filters, sorting and the two storages of \<^verbatim>\<open>packages/collabswarm-index/src\<close>, in memory and in IndexedDB.  An
    accelerated query finds what a scan finds; findings on boolean values and on a schema upgrade by another tab.
  \<^item> \<open>IndexManager\<close>, \<open>IndexCorrect\<close>, \<open>IndexView\<close>: \<^verbatim>\<open>index-manager.ts\<close> and \<^verbatim>\<open>collabswarm-index-integration.ts\<close>.  The interface \<open>index_storage\<close> states the laws of a
    storage and is interpreted for both; over it the index is a materialized view of the latest snapshots, and queries answer exactly.  Findings: entries that
    the comparison takes for unchanged, and a document that is untracked while its update is suspended.

  \<^bold>\<open>How it is modelled.\<close>  A document method is one computation on the state; several methods run one after another, except in \<open>WriterCache\<close>, where they
  interleave.  Loops are recursion with a termination proof.  CRDT values are immutable, as in Automerge; a Yjs document is changed in place, which the
  rollback of a transaction would not undo.  The keychain is abstract in \<open>DocCore\<close>; \<open>YjsProviders\<close> models a concrete one with its key cache.

  \<^bold>\<open>Parameters and what is assumed of them.\<close>  WebCrypto, SHA-256, the CRDT libraries, libp2p, Helia, serializers, randomness and the clock are
  arguments.  Hypotheses are the documented behaviour: decryption undoes encryption, ECDH agrees, hashes do not collide on the values compared.
  No property assumes that a signature cannot be forged; properties say whose key verified.

  \<^bold>\<open>Bounds.\<close>  Tree indices are proved correct for up to \<open>2 ^ 30\<close> leaves, the range in which the 32-bit operators agree with arithmetic.  Recent tips are bounded
  by 4, key caches by 1000 entries, pending Welcomes by 16 entries and five minutes, as in the code; no bound was added by the model.

  \<^bold>\<open>Not modelled.\<close>  Logging and message texts.  In \<open>Welcome\<close> the ratchet of a joiner is the Welcome it was
  bootstrapped from; in \<open>Membership\<close> it is the tree.  \<^verbatim>\<open>collabswarm-node.ts\<close>, \<^verbatim>\<open>helia-node.ts\<close>, \<^verbatim>\<open>store-lifecycle.ts\<close>, \<^verbatim>\<open>stream-adapter.ts\<close> and the
  configuration files start, wire and parameterize libraries; \<^verbatim>\<open>network-stats.ts\<close> counts for diagnostics; \<^verbatim>\<open>auth-subtlecrypto.ts\<close> and the blind
  index only call WebCrypto.  The CRDT providers are calls into Yjs and Automerge.  The Redux and React
  bindings, examples, the relay server and the site are applications of the library.
\<close>

end
